(* ===== verification/Prelude.thy ===== *)
theory Prelude
  imports Complex_Main "HOL-Library.AList" "HOL-Library.Char_ord" "HOL-Library.List_Lexorder"
    "HOL-Library.Sublist" "HOL-Library.Multiset"
begin

text \<open>
  Shared vocabulary of the development: Python exceptions as values and the result type every
  raising function returns, insertion-ordered dictionaries as association lists, the
  last-n window of a list, the stable descending sort, Python's \<open>round\<close>, and
  the text operations (lower-casing, whitespace splitting) the sources use.
\<close>

named_theorems res_simps \<open>rules that compute with results and exceptions\<close>
named_theorems dict_simps \<open>rules about insertion-ordered dictionaries\<close>

section \<open>Exceptions and results\<close>

text \<open>
  One constructor per exception class the modelled code raises or catches; the argument is a
  short tag of the message. \<open>HttpError\<close> is FastAPI's HTTPException with its status code.
\<close>

datatype exn =
    ValueError string
  | KeyError string
  | RuntimeError string
  | ValidationError string
  | ProviderError string
  | TimeoutError string
  | ConnectionError string
  | StripeError string
  | HttpError nat string
  | OtherError string

type_synonym 'a res = "exn + 'a"

definition bind_res :: "'a res \<Rightarrow> ('a \<Rightarrow> 'b res) \<Rightarrow> 'b res" where
  "bind_res m f = (case m of Inl e \<Rightarrow> Inl e | Inr a \<Rightarrow> f a)"

lemma bind_res_Inl [simp, res_simps]: "bind_res (Inl e) f = Inl e"
  by (simp add: bind_res_def)

lemma bind_res_Inr [simp, res_simps]: "bind_res (Inr a) f = f a"
  by (simp add: bind_res_def)

lemma bind_res_eq_Inr [res_simps]:
  "bind_res m f = Inr b \<longleftrightarrow> (\<exists>a. m = Inr a \<and> f a = Inr b)"
  by (cases m) auto

lemma bind_res_eq_Inl [res_simps]:
  "bind_res m f = Inl e \<longleftrightarrow> m = Inl e \<or> (\<exists>a. m = Inr a \<and> f a = Inl e)"
  by (cases m) auto

lemma bind_res_assoc [simp]: "bind_res (bind_res m f) g = bind_res m (\<lambda>a. bind_res (f a) g)"
  by (cases m) auto

section \<open>Optional texts\<close>

text \<open>An empty text counts as absent.\<close>

definition given :: "string option \<Rightarrow> string option" where
  "given v = (case v of Some (x # xs) \<Rightarrow> Some (x # xs) | _ \<Rightarrow> None)"

section \<open>Dictionaries\<close>

text \<open>
  A Python dict keeps insertion order: assignment to a present key keeps its place, to a new
  key appends. \<open>AList.update\<close> does exactly this.
\<close>

type_synonym ('k, 'v) dict = "('k \<times> 'v) list"

abbreviation dget :: "('k, 'v) dict \<Rightarrow> 'k \<Rightarrow> 'v option" where
  "dget \<equiv> map_of"

abbreviation dput :: "'k \<Rightarrow> 'v \<Rightarrow> ('k, 'v) dict \<Rightarrow> ('k, 'v) dict" where
  "dput \<equiv> AList.update"

abbreviation ddel :: "'k \<Rightarrow> ('k, 'v) dict \<Rightarrow> ('k, 'v) dict" where
  "ddel \<equiv> AList.delete"

abbreviation dkeys :: "('k, 'v) dict \<Rightarrow> 'k list" where
  "dkeys d \<equiv> map fst d"

definition wf_dict :: "('k, 'v) dict \<Rightarrow> bool" where
  "wf_dict d \<longleftrightarrow> distinct (map fst d)"

lemma wf_dict_Nil [simp]: "wf_dict []"
  by (simp add: wf_dict_def)

lemma dget_dput [dict_simps]: "dget (dput k v d) j = (if j = k then Some v else dget d j)"
  by (simp add: update_conv')

lemma dget_ddel [dict_simps]: "dget (ddel k d) j = (if j = k then None else dget d j)"
  by (simp add: delete_conv')

lemma wf_dict_dput [simp]: "wf_dict d \<Longrightarrow> wf_dict (dput k v d)"
  by (simp add: wf_dict_def distinct_update)

lemma wf_dict_ddel [simp]: "wf_dict d \<Longrightarrow> wf_dict (ddel k d)"
  by (simp add: wf_dict_def distinct_delete)

lemma fst_set_dput [simp]: "fst ` set (dput k v d) = insert k (fst ` set d)"
  by (simp add: dom_update)

lemma fst_set_ddel [simp]: "fst ` set (ddel k d) = fst ` set d - {k}"
  by (simp add: AList.delete_eq image_iff set_eq_iff) force

lemma dkeys_dput_new: "k \<notin> fst ` set d \<Longrightarrow> dput k v d = d @ [(k, v)]"
  by (induction d) auto

lemma dkeys_dput_old: "k \<in> fst ` set d \<Longrightarrow> dkeys (dput k v d) = dkeys d"
  by (induction d) auto

lemma dget_in_dkeys: "dget d k = Some v \<Longrightarrow> k \<in> fst ` set d"
  by (metis map_of_eq_None_iff option.distinct(1))

lemma dget_None_iff: "dget d k = None \<longleftrightarrow> k \<notin> fst ` set d"
  by (simp add: map_of_eq_None_iff)

lemma wf_dict_in_set: "wf_dict d \<Longrightarrow> (k, v) \<in> set d \<longleftrightarrow> dget d k = Some v"
  by (simp add: wf_dict_def)

section \<open>Windows and sorting\<close>

text \<open>\<open>xs[-n:]\<close> for a positive n.\<close>

definition last_n :: "nat \<Rightarrow> 'a list \<Rightarrow> 'a list" where
  "last_n n xs = drop (length xs - n) xs"

lemma length_last_n [simp]: "length (last_n n xs) = min n (length xs)"
  by (auto simp: last_n_def)

lemma set_last_n: "set (last_n n xs) \<subseteq> set xs"
  by (simp add: last_n_def set_drop_subset)

lemma last_n_short: "length xs \<le> n \<Longrightarrow> last_n n xs = xs"
  by (simp add: last_n_def)

lemma last_n_snoc: "0 < n \<Longrightarrow> last_n n (xs @ [x]) = last_n (n - 1) xs @ [x]"
  by (cases "length xs < n") (auto simp: last_n_def Suc_diff_le)

lemma suffix_last_n: "suffix (last_n n xs) xs"
  by (simp add: last_n_def suffix_drop)

lemma find_in_set: "find P xs = Some x \<Longrightarrow> x \<in> set xs \<and> P x"
  by (induction xs) (auto split: if_splits)

text \<open>
  \<open>xs.sort(key=f, reverse=True)\<close>: descending, and elements with equal keys keep
  their order (Python's reverse sort is stable).
\<close>

definition sort_desc :: "('a \<Rightarrow> 'b::linorder) \<Rightarrow> 'a list \<Rightarrow> 'a list" where
  "sort_desc f xs = rev (sort_key f (rev xs))"

lemma set_sort_desc [simp]: "set (sort_desc f xs) = set xs"
  by (simp add: sort_desc_def)

lemma length_sort_desc [simp]: "length (sort_desc f xs) = length xs"
  by (simp add: sort_desc_def)

lemma mset_sort_desc [simp]: "mset (sort_desc f xs) = mset xs"
  by (simp add: sort_desc_def)

lemma sort_desc_sorted: "sorted_wrt (\<lambda>a b. f b \<le> f a) (sort_desc f xs)"
proof -
  have "sorted (map f (sort_key f (rev xs)))" by simp
  then have "sorted_wrt (\<lambda>a b. f a \<le> f b) (sort_key f (rev xs))"
    by (simp add: sorted_wrt_map)
  then show ?thesis by (simp add: sort_desc_def sorted_wrt_rev)
qed

lemma sort_desc_stable: "filter (\<lambda>y. f y = k) (sort_desc f xs) = filter (\<lambda>y. f y = k) xs"
proof -
  have "filter (\<lambda>y. f y = k) (sort_key f (rev xs)) = filter (\<lambda>y. f y = k) (rev xs)"
    by (rule sort_key_stable)
  then show ?thesis by (simp add: sort_desc_def rev_filter [symmetric])
qed

lemma sorted_wrt_take [intro]: "sorted_wrt P xs \<Longrightarrow> sorted_wrt P (take n xs)"
  by (metis append_take_drop_id sorted_wrt_append)

text \<open>Python's \<open>round(x, n)\<close> on the exact value: to the nearest, ties to the even digit.\<close>

definition half_even :: "real \<Rightarrow> int" where
  "half_even y =
     (let f = \<lfloor>y\<rfloor>; d = y - of_int f in
      if d < 1 / 2 then f else if 1 / 2 < d then f + 1 else if even f then f else f + 1)"

definition py_round :: "nat \<Rightarrow> real \<Rightarrow> real" where
  "py_round n x = of_int (half_even (x * 10 ^ n)) / 10 ^ n"

lemma half_even_error: "\<bar>of_int (half_even y) - y\<bar> \<le> 1 / 2"
proof -
  have "of_int (half_even y) - y \<le> 1 / 2 \<and> y - of_int (half_even y) \<le> 1 / 2"
    unfolding half_even_def Let_def by (simp; linarith)
  then show ?thesis by linarith
qed

lemma half_even_le: "y \<le> of_int m \<Longrightarrow> half_even y \<le> m"
proof -
  assume y: "y \<le> of_int m"
  have "of_int (half_even y) \<le> y + 1 / 2" using half_even_error [of y] by linarith
  also have "\<dots> < of_int (m + 1)" using y by simp
  finally show "half_even y \<le> m" by linarith
qed

lemma half_even_ge: "of_int m \<le> y \<Longrightarrow> m \<le> half_even y"
proof -
  assume y: "of_int m \<le> y"
  have "of_int (m - 1) < y - 1 / 2" using y by simp
  also have "\<dots> \<le> of_int (half_even y)"
    using half_even_error [of y] by linarith
  finally show "m \<le> half_even y" by linarith
qed

lemma half_even_of_int [simp]: "half_even (of_int m) = m"
  by (simp add: half_even_def)

lemma py_round_error: "\<bar>py_round n x - x\<bar> \<le> 1 / 2 / 10 ^ n"
proof -
  have "py_round n x - x = (of_int (half_even (x * 10 ^ n)) - x * 10 ^ n) / 10 ^ n"
    by (simp add: py_round_def diff_divide_distrib)
  then have "\<bar>py_round n x - x\<bar> = \<bar>of_int (half_even (x * 10 ^ n)) - x * 10 ^ n\<bar> / 10 ^ n"
    by (simp add: abs_divide)
  also have "\<dots> \<le> 1 / 2 / 10 ^ n"
    by (rule divide_right_mono [OF half_even_error]) simp
  finally show ?thesis .
qed

lemma py_round_le: "x \<le> of_int m \<Longrightarrow> py_round n x \<le> of_int m"
proof -
  assume "x \<le> of_int m"
  then have "x * 10 ^ n \<le> of_int (m * 10 ^ n)" by simp
  then have "half_even (x * 10 ^ n) \<le> m * 10 ^ n" by (rule half_even_le)
  then have "real_of_int (half_even (x * 10 ^ n)) \<le> of_int (m * 10 ^ n)"
    by (simp only: of_int_le_iff)
  then show "py_round n x \<le> of_int m" by (simp add: py_round_def field_simps)
qed

lemma py_round_ge: "of_int m \<le> x \<Longrightarrow> of_int m \<le> py_round n x"
proof -
  assume "of_int m \<le> x"
  then have "of_int (m * 10 ^ n) \<le> x * 10 ^ n" by simp
  then have "m * 10 ^ n \<le> half_even (x * 10 ^ n)" by (rule half_even_ge)
  then have "of_int (m * 10 ^ n) \<le> real_of_int (half_even (x * 10 ^ n))"
    by (simp only: of_int_le_iff)
  then show "of_int m \<le> py_round n x" by (simp add: py_round_def field_simps)
qed

lemma py_round_nonneg: "0 \<le> x \<Longrightarrow> 0 \<le> py_round n x"
  using py_round_ge [of 0 x n] by simp

lemma half_even_mono: "y \<le> z \<Longrightarrow> half_even y \<le> half_even z"
proof -
  assume yz: "y \<le> z"
  have b: "\<lfloor>x\<rfloor> \<le> half_even x" "half_even x \<le> \<lfloor>x\<rfloor> + 1" for x
    by (simp_all add: half_even_def Let_def)
  have "\<lfloor>y\<rfloor> \<le> \<lfloor>z\<rfloor>" using yz by (rule floor_mono)
  then consider "\<lfloor>y\<rfloor> < \<lfloor>z\<rfloor>" | "\<lfloor>y\<rfloor> = \<lfloor>z\<rfloor>" by linarith
  then show ?thesis
  proof cases
    case 1
    then show ?thesis using b(2) [of y] b(1) [of z] by linarith
  next
    case 2
    then show ?thesis using yz by (auto simp: half_even_def Let_def)
  qed
qed

lemma py_round_mono: "x \<le> y \<Longrightarrow> py_round n x \<le> py_round n y"
  by (simp add: py_round_def divide_right_mono half_even_mono)

end
