(* ===== verification/PyText.thy ===== *)
theory PyText
  imports Prelude
begin

text \<open>
  Text operations of the standard library as the sources use them, and the helpers of
  \<open>engramia/_util.py\<close> built on them. A \<open>char\<close> stands for a code point up to
  U+00FF; on those \<open>str.lower\<close>, \<open>str.isspace\<close> and the regex class \<open>\w\<close>
  are written out exactly.
\<close>

named_theorems text_simps \<open>rules that evaluate text operations\<close>

section \<open>Characters\<close>

definition code :: "char \<Rightarrow> nat" where
  "code c = of_char c"

definition py_space :: "char \<Rightarrow> bool" where
  "py_space c \<longleftrightarrow> (let n = code c in 9 \<le> n \<and> n \<le> 13 \<or> 28 \<le> n \<and> n \<le> 32 \<or> n = 133 \<or> n = 160)"

definition py_lower_char :: "char \<Rightarrow> char" where
  "py_lower_char c =
     (let n = code c in
      if 65 \<le> n \<and> n \<le> 90 \<or> 192 \<le> n \<and> n \<le> 222 \<and> n \<noteq> 215 then char_of (n + 32) else c)"

definition py_word :: "char \<Rightarrow> bool" where
  "py_word c \<longleftrightarrow>
     (let n = code c in
      48 \<le> n \<and> n \<le> 57 \<or> 65 \<le> n \<and> n \<le> 90 \<or> 97 \<le> n \<and> n \<le> 122 \<or> n = 95 \<or>
      n \<in> {170, 178, 179, 181, 185, 186, 188, 189, 190} \<or>
      192 \<le> n \<and> n \<noteq> 215 \<and> n \<noteq> 247)"

definition py_alnum :: "char \<Rightarrow> bool" where
  "py_alnum c \<longleftrightarrow> py_word c \<and> code c \<noteq> 95"

section \<open>Strings\<close>

definition py_lower :: "string \<Rightarrow> string" where
  "py_lower s = map py_lower_char s"

text \<open>\<open>str.split()\<close> without a separator: maximal runs of non-space characters.\<close>

fun split_ws :: "string \<Rightarrow> string \<Rightarrow> string list" where
  "split_ws acc [] = (if acc = [] then [] else [rev acc])"
| "split_ws acc (c # cs) =
     (if py_space c then (if acc = [] then split_ws [] cs else rev acc # split_ws [] cs)
      else split_ws (c # acc) cs)"

definition py_split :: "string \<Rightarrow> string list" where
  "py_split s = split_ws [] s"

definition py_strip :: "string \<Rightarrow> string" where
  "py_strip s = rev (dropWhile py_space (rev (dropWhile py_space s)))"

text \<open>\<open>str.split(sep)\<close> with a one-character separator: never empty.\<close>

fun split_on :: "char \<Rightarrow> string \<Rightarrow> string list" where
  "split_on d [] = [[]]"
| "split_on d (c # cs) =
     (if c = d then [] # split_on d cs
      else (case split_on d cs of [] \<Rightarrow> [[c]] | w # ws \<Rightarrow> (c # w) # ws))"

fun py_join :: "string \<Rightarrow> string list \<Rightarrow> string" where
  "py_join sep [] = []"
| "py_join sep [w] = w"
| "py_join sep (w # v # ws) = w @ sep @ py_join sep (v # ws)"

text \<open>\<open>sub in s\<close> on strings.\<close>

fun py_in :: "string \<Rightarrow> string \<Rightarrow> bool" where
  "py_in p [] = (p = [])"
| "py_in p (c # cs) = (prefix p (c # cs) \<or> py_in p cs)"

text \<open>The decimal digits of a number, as \<open>str(n)\<close> prints them.\<close>

fun dec :: "nat \<Rightarrow> string" where
  "dec n = (if n < 10 then [char_of (48 + n)] else dec (n div 10) @ [char_of (48 + n mod 10)])"

declare dec.simps [simp del]

lemma py_in_iff_sublist: "py_in p s \<longleftrightarrow> sublist p s"
  by (induction s) (auto simp: sublist_Cons_right)

lemma split_ws_words:
  assumes "\<forall>c \<in> set acc. \<not> py_space c" and "w \<in> set (split_ws acc s)"
  shows "w \<noteq> [] \<and> (\<forall>c \<in> set w. \<not> py_space c)"
  using assms
proof (induction acc s rule: split_ws.induct)
  case (1 acc)
  then show ?case by (simp split: if_splits)
next
  case (2 acc c cs)
  show ?case
  proof (cases "py_space c")
    case True
    show ?thesis
    proof (cases "acc = []")
      case True2: True
      show ?thesis using "2.IH"(1) "2.prems" True True2 by simp
    next
      case False
      show ?thesis using "2.IH"(2) "2.prems" True False by auto
    qed
  next
    case False
    show ?thesis using "2.IH"(3) "2.prems" False by simp
  qed
qed
lemma py_split_words: "w \<in> set (py_split s) \<Longrightarrow> w \<noteq> [] \<and> (\<forall>c \<in> set w. \<not> py_space c)"
  using split_ws_words [of "[]"] by (simp add: py_split_def)

lemma split_ws_empty: "split_ws acc s = [] \<longleftrightarrow> acc = [] \<and> (\<forall>c \<in> set s. py_space c)"
  by (induction acc s rule: split_ws.induct) auto

lemma py_split_empty: "py_split s = [] \<longleftrightarrow> (\<forall>c \<in> set s. py_space c)"
  by (simp add: py_split_def split_ws_empty)

lemma dropWhile_all: "(\<forall>x \<in> set (dropWhile P xs). P x) \<longleftrightarrow> (\<forall>x \<in> set xs. P x)"
  by (induction xs) auto

lemma py_strip_empty: "py_strip s = [] \<longleftrightarrow> (\<forall>c \<in> set s. py_space c)"
  by (simp add: py_strip_def dropWhile_eq_Nil_conv dropWhile_all)

lemma split_on_not_Nil [simp]: "split_on d s \<noteq> []"
  by (induction s) (auto split: list.splits)

lemma split_on_no_sep: "w \<in> set (split_on d s) \<Longrightarrow> d \<notin> set w"
  by (induction s arbitrary: w) (auto split: list.splits if_splits)

lemma py_join_split_on: "py_join [d] (split_on d s) = s"
proof (induction s)
  case Nil
  then show ?case by simp
next
  case (Cons c s)
  then obtain w ws where "split_on d s = w # ws" by (cases "split_on d s") auto
  with Cons show ?case by (cases ws) auto
qed

lemma split_on_no_occ: "d \<notin> set s \<Longrightarrow> split_on d s = [s]"
  by (induction s) auto

lemma split_on_append: "d \<notin> set w \<Longrightarrow> split_on d (w @ d # s) = w # split_on d s"
  by (induction w) auto

lemma split_on_join: "ws \<noteq> [] \<Longrightarrow> \<forall>w \<in> set ws. d \<notin> set w \<Longrightarrow> split_on d (py_join [d] ws) = ws"
proof (induction "[d]" ws rule: py_join.induct)
  case (3 w v ws)
  then show ?case by (simp add: split_on_append)
qed (auto simp: split_on_no_occ)

section \<open>\<open>engramia/_util.py\<close>\<close>

definition PATTERNS_PREFIX :: string where
  "PATTERNS_PREFIX = ''patterns''"

text \<open>
  The hash of the task, the clock in milliseconds and the random suffix come from outside the
  repository; they are arguments.
\<close>

definition pattern_key :: "(string \<Rightarrow> string) \<Rightarrow> nat \<Rightarrow> string \<Rightarrow> string \<Rightarrow> string" where
  "pattern_key sha256_hex ts_ms token task =
     (let task_hash = take 8 (sha256_hex task);
          rand = take 6 (filter (\<lambda>c. c \<noteq> CHR ''-'' \<and> c \<noteq> CHR ''_'') token)
      in PATTERNS_PREFIX @ ''/'' @ task_hash @ ''_'' @ dec ts_ms @ ''_'' @ rand)"

definition jaccard :: "string \<Rightarrow> string \<Rightarrow> real" where
  "jaccard a b =
     (let wa = set (py_split (py_lower a)); wb = set (py_split (py_lower b))
      in if wa = {} \<or> wb = {} then 0 else real (card (wa \<inter> wb)) / real (card (wa \<union> wb)))"

datatype reuse_tier = Duplicate | Adapt | Fresh

definition SIMILARITY_DUPLICATE :: real where "SIMILARITY_DUPLICATE = 92 / 100"
definition SIMILARITY_ADAPT :: real where "SIMILARITY_ADAPT = 70 / 100"
definition JACCARD_DEDUP_THRESHOLD :: real where "JACCARD_DEDUP_THRESHOLD = 7 / 10"

definition reuse_tier_of :: "real \<Rightarrow> reuse_tier" where
  "reuse_tier_of similarity =
     (if SIMILARITY_DUPLICATE \<le> similarity then Duplicate
      else if SIMILARITY_ADAPT \<le> similarity then Adapt else Fresh)"

lemma jaccard_sym: "jaccard a b = jaccard b a"
  by (simp add: jaccard_def Let_def Int_commute Un_commute disj_commute)

lemma jaccard_nonneg: "0 \<le> jaccard a b"
  by (simp add: jaccard_def Let_def)

lemma jaccard_le_1: "jaccard a b \<le> 1"
proof -
  have "card (A \<inter> B) \<le> card (A \<union> B)" if "finite A" "finite B" for A B :: "string set"
    using that by (intro card_mono) auto
  then show ?thesis by (auto simp: jaccard_def Let_def divide_le_eq_1 card_gt_0_iff)
qed

lemma jaccard_refl: "jaccard a a = (if \<forall>c \<in> set (py_lower a). py_space c then 0 else 1)"
  by (auto simp: jaccard_def Let_def py_split_empty)

end
