(* ===== verification/Contracts.thy ===== *)
theory Contracts
  imports PyText
begin

text \<open>
  \<open>engramia/reuse/contracts.py\<close>: the data-flow check of a composed pipeline. A stage is
  the dict of the source with its optional entries; the error strings are constructors that
  carry the interpolated values. \<open>contract_ok\<close> states what a consistent pipeline is,
  without the loop; \<open>validate_contracts_sound_complete\<close> shows the loop decides it.
\<close>

record stage =
  st_name :: "string option"
  st_task :: "string option"
  st_reads :: "string list option"
  st_writes :: "string list option"

datatype contract_error =
    SelfCycle string "string list"
  | MissingReads string "string list"
  | AmbiguousWrite string string string

text \<open>\<open>stage.get(k) or []\<close> and \<open>stage.get("name") or stage.get("task") or f"stage_{i}"\<close>.\<close>

definition or_empty :: "'a list option \<Rightarrow> 'a list" where
  "or_empty x = (case x of None \<Rightarrow> [] | Some xs \<Rightarrow> xs)"

definition stage_label :: "nat \<Rightarrow> stage \<Rightarrow> string" where
  "stage_label i st =
     (if or_empty (st_name st) \<noteq> [] then or_empty (st_name st)
      else if or_empty (st_task st) \<noteq> [] then or_empty (st_task st)
      else ''stage_'' @ dec i)"

text \<open>The inner loop over \<open>writes\<close>: the first writer of a file is remembered.\<close>

fun check_writes ::
  "string \<Rightarrow> string list \<Rightarrow> (string, string) dict \<Rightarrow> contract_error list \<times> (string, string) dict" where
  "check_writes name [] written_by = ([], written_by)"
| "check_writes name (f # fs) written_by =
     (case dget written_by f of
        Some first \<Rightarrow>
          (let (es, wb) = check_writes name fs written_by in (AmbiguousWrite name f first # es, wb))
      | None \<Rightarrow> check_writes name fs (dput f name written_by))"

fun validate_loop ::
  "nat \<Rightarrow> stage list \<Rightarrow> string list \<Rightarrow> (string, string) dict \<Rightarrow> contract_error list" where
  "validate_loop i [] available written_by = []"
| "validate_loop i (st # sts) available written_by =
     (let reads = or_empty (st_reads st);
          writes = or_empty (st_writes st);
          name = stage_label i st;
          self_cycle = filter (\<lambda>f. f \<in> set writes) reads;
          missing = filter (\<lambda>f. f \<notin> set available \<and> f \<notin> set writes) reads;
          (es, wb) = check_writes name writes written_by
      in (if self_cycle \<noteq> [] then [SelfCycle name self_cycle] else [])
         @ (if missing \<noteq> [] then [MissingReads name missing] else [])
         @ es @ validate_loop (Suc i) sts (available @ writes) wb)"

definition validate_contracts :: "stage list \<Rightarrow> string list option \<Rightarrow> contract_error list" where
  "validate_contracts stages initial_inputs = validate_loop 0 stages (or_empty initial_inputs) []"

section \<open>The contract, stated without the loop\<close>

abbreviation reads_of :: "stage \<Rightarrow> string list" where
  "reads_of st \<equiv> or_empty (st_reads st)"

abbreviation writes_of :: "stage \<Rightarrow> string list" where
  "writes_of st \<equiv> or_empty (st_writes st)"

definition contract_ok :: "stage list \<Rightarrow> string list \<Rightarrow> bool" where
  "contract_ok stages inputs \<longleftrightarrow>
     distinct (concat (map writes_of stages)) \<and>
     (\<forall>i < length stages.
        set (reads_of (stages ! i)) \<inter> set (writes_of (stages ! i)) = {} \<and>
        set (reads_of (stages ! i)) \<subseteq> set inputs \<union> (\<Union>j < i. set (writes_of (stages ! j))))"

lemma check_writes_ok:
  "fst (check_writes name fs wb) = [] \<longleftrightarrow> distinct fs \<and> set fs \<inter> set (dkeys wb) = {}"
proof (induction name fs wb rule: check_writes.induct)
  case (1 name wb)
  then show ?case by simp
next
  case (2 name f fs wb)
  show ?case
  proof (cases "dget wb f")
    case None
    with 2(1) [OF None] show ?thesis
      using dget_None_iff [of wb f] by auto
  next
    case (Some v)
    then have "f \<in> fst ` set wb" by (rule dget_in_dkeys)
    with Some show ?thesis by (auto simp: split_beta)
  qed
qed

lemma check_writes_keys:
  "set (dkeys (snd (check_writes name fs wb))) = set (dkeys wb) \<union> set fs"
proof (induction name fs wb rule: check_writes.induct)
  case (2 name f fs wb)
  then show ?case
    by (cases "dget wb f") (auto simp: split_beta dest: dget_in_dkeys)
qed simp

text \<open>The specification of the loop from the middle: what is available and already written.\<close>

definition contract_from :: "stage list \<Rightarrow> string set \<Rightarrow> string set \<Rightarrow> bool" where
  "contract_from stages avail written \<longleftrightarrow>
     distinct (concat (map writes_of stages)) \<and>
     set (concat (map writes_of stages)) \<inter> written = {} \<and>
     (\<forall>i < length stages.
        set (reads_of (stages ! i)) \<inter> set (writes_of (stages ! i)) = {} \<and>
        set (reads_of (stages ! i)) \<subseteq> avail \<union> (\<Union>j < i. set (writes_of (stages ! j))))"

lemma Union_lessThan_Suc_shift: "(\<Union>j < Suc i. f j) = f 0 \<union> (\<Union>j < i. f (Suc j))"
  by (auto simp: lessThan_Suc_eq_insert_0)

lemma contract_from_Cons:
  "contract_from (st # sts) avail written \<longleftrightarrow>
     set (reads_of st) \<inter> set (writes_of st) = {} \<and> set (reads_of st) \<subseteq> avail \<and>
     distinct (writes_of st) \<and> set (writes_of st) \<inter> written = {} \<and>
     contract_from sts (avail \<union> set (writes_of st)) (written \<union> set (writes_of st))"
  by (auto simp: contract_from_def All_less_Suc2 Union_lessThan_Suc_shift Un_assoc)

lemma validate_loop_ok:
  "validate_loop i sts avail wb = [] \<longleftrightarrow> contract_from sts (set avail) (set (dkeys wb))"
proof (induction i sts avail wb rule: validate_loop.induct)
  case (1 i avail wb)
  then show ?case by (simp add: contract_from_def)
next
  case (2 i st sts avail wb)
  let ?cw = "check_writes (stage_label i st) (writes_of st) wb"
  have IH: "validate_loop (Suc i) sts (avail @ writes_of st) (snd ?cw) = [] \<longleftrightarrow>
      contract_from sts (set (avail @ writes_of st)) (set (dkeys (snd ?cw)))"
    using 2 by (simp add: prod_eq_iff)
  have "validate_loop i (st # sts) avail wb = [] \<longleftrightarrow>
      set (reads_of st) \<inter> set (writes_of st) = {} \<and>
      set (reads_of st) \<subseteq> set avail \<union> set (writes_of st) \<and>
      fst ?cw = [] \<and> validate_loop (Suc i) sts (avail @ writes_of st) (snd ?cw) = []"
    by (auto simp: Let_def split_beta filter_empty_conv)
  then show ?case
    unfolding IH check_writes_ok check_writes_keys contract_from_Cons set_append by blast
qed

section \<open>\<open>infer_initial_inputs\<close>\<close>

text \<open>
  The regex \<open>\b\w+\.(?:csv|...)\b\<close> matches a maximal run of word characters, a dot and
  a maximal run that is one of the extensions, case ignored.
\<close>

definition known_extensions :: "string list" where
  "known_extensions = [''csv'', ''json'', ''txt'', ''xls'', ''xlsx'', ''parquet'', ''yaml'',
     ''toml'', ''xml'', ''html'']"

function find_files :: "string \<Rightarrow> string list" where
  "find_files s =
     (let skipped = dropWhile (\<lambda>c. \<not> py_word c) s;
          w = takeWhile py_word skipped;
          rest = dropWhile py_word skipped
      in if skipped = [] then []
         else (case rest of
                 [] \<Rightarrow> []
               | d # rest' \<Rightarrow>
                   (let ext = takeWhile py_word rest'
                    in if d = CHR ''.'' \<and> py_lower ext \<in> set known_extensions
                       then (w @ d # ext) # find_files (dropWhile py_word rest')
                       else find_files rest')))"
  by pat_completeness auto

termination
proof (relation "measure length", goal_cases)
  case 1
  show ?case by simp
next
  case (2 s skipped w rest d rest' ext)
  have "length rest \<le> length s" using 2(1,3)
    by (metis le_trans length_dropWhile_le)
  then show ?case using 2(5) length_dropWhile_le [of py_word rest'] by simp
next
  case (3 s skipped w rest d rest' ext)
  have "length rest \<le> length s" using 3(1,3)
    by (metis le_trans length_dropWhile_le)
  then show ?case using 3(5) by simp
qed

declare find_files.simps [simp del]

text \<open>\<open>list(dict.fromkeys(xs))\<close>: the first occurrence of each element stays.\<close>

definition dedup_first :: "'a list \<Rightarrow> 'a list" where
  "dedup_first xs = rev (remdups (rev xs))"

definition infer_initial_inputs :: "string \<Rightarrow> string list" where
  "infer_initial_inputs task =
     (let found = find_files task; task_lower = py_lower task
      in if found \<noteq> [] then dedup_first found
         else (if py_in ''csv'' task_lower then [''sample.csv''] else [])
              @ (if py_in ''json'' task_lower then [''sample.json''] else []))"

lemma infer_initial_inputs_distinct: "distinct (infer_initial_inputs task)"
  by (auto simp: infer_initial_inputs_def Let_def dedup_first_def)

section \<open>Properties\<close>

text \<open>
  C1. The pipeline check reports no error exactly when no file is written twice, no stage
  reads a file it writes, and every file a stage reads is an initial input or was written by
  an earlier stage.
\<close>

theorem validate_contracts_sound_complete:
  "validate_contracts stages inputs = [] \<longleftrightarrow> contract_ok stages (or_empty inputs)"
  by (simp add: validate_contracts_def validate_loop_ok contract_from_def contract_ok_def)

end
