(* ===== verification/Storage.thy ===== *)
theory Storage
  imports PyText
begin

text \<open>
  The documents Engramia persists, the request scope (\<open>engramia/_context.py\<close>,
  \<open>engramia/types.py\<close>) and the \<open>StorageBackend\<close> interface of
  \<open>engramia/providers/base.py\<close>: the operations as a record of functions, which every
  store takes as the code takes its \<open>storage\<close> argument, and the contract as a locale over
  an abstraction function \<open>val\<close> from a backend state to the documents at its locations.
\<close>

section \<open>Scopes\<close>

record scope =
  sc_tenant :: string
  sc_project :: string

definition default_scope :: scope where
  "default_scope = \<lparr>sc_tenant = ''default'', sc_project = ''default''\<rparr>"

text \<open>
  The context variable: unset is the default scope. \<open>set_scope\<close> returns a token that holds
  the previous value, \<open>reset_scope\<close> puts it back.
\<close>

definition get_scope :: "scope option \<Rightarrow> scope" where
  "get_scope var = (case var of None \<Rightarrow> default_scope | Some s \<Rightarrow> s)"

definition set_scope :: "scope option \<Rightarrow> scope \<Rightarrow> scope option \<times> scope option" where
  "set_scope var s = (Some s, var)"

definition reset_scope :: "scope option \<Rightarrow> scope option \<Rightarrow> scope option" where
  "reset_scope var token = token"

lemma reset_after_set: "reset_scope (fst (set_scope var s)) (snd (set_scope var s)) = var"
  by (simp add: set_scope_def reset_scope_def)

section \<open>Documents\<close>

datatype json =
    JNull
  | JBool bool
  | JInt int
  | JNum real
  | JStr string
  | JList "json list"
  | JObj "(string \<times> json) list"

type_synonym pydict = "(string, json) dict"

record eval_record =
  er_agent :: string
  er_task :: string
  er_overall :: "real option"
  er_feedback :: string
  er_ts :: real

record feedback =
  fb_pattern :: string
  fb_count :: nat
  fb_score :: real
  fb_last_seen :: "string option"
  fb_last_decayed :: "string option"

record run_entry =
  re_ts :: real
  re_success :: bool
  re_eval_score :: "real option"

record metrics_doc =
  md_runs :: nat
  md_success :: nat
  md_failures :: nat
  md_reuse :: nat
  md_history :: "run_entry list"

datatype roi_kind = LEARN | RECALL

record roi_event =
  ev_kind :: roi_kind
  ev_ts :: real
  ev_eval_score :: "real option"
  ev_similarity :: "real option"
  ev_tier :: "reuse_tier option"
  ev_key :: string
  ev_tenant :: string
  ev_project :: string

text \<open>
  What \<open>load\<close> can return. Patterns (and every other plain dict) are \<open>DDict\<close>; the
  internal stores each write one kind of document under keys of their own. \<open>DEvals\<close>,
  \<open>DFeedback\<close> and \<open>DEvents\<close> are the documents for which Python's
  \<open>isinstance(data, list)\<close> holds, the others are dicts.
\<close>

datatype doc =
    DDict pydict
  | DMetrics metrics_doc
  | DSkills "(string, string list) dict"
  | DEvals "eval_record list"
  | DFeedback "feedback list"
  | DEvents "roi_event list"

record pattern_meta =
  pm_classification :: "string option"
  pm_source :: "string option"
  pm_run_id :: "string option"
  pm_author :: "string option"
  pm_redacted :: "bool option"
  pm_expires_at :: "string option"

section \<open>The backend interface\<close>

record 's backend =
  be_load :: "scope \<Rightarrow> 's \<Rightarrow> string \<Rightarrow> doc option res"
  be_save :: "scope \<Rightarrow> 's \<Rightarrow> string \<Rightarrow> doc \<Rightarrow> 's res"
  be_list_keys :: "scope \<Rightarrow> 's \<Rightarrow> string \<Rightarrow> string list res"
  be_delete :: "scope \<Rightarrow> 's \<Rightarrow> string \<Rightarrow> 's res"
  be_save_embedding :: "scope \<Rightarrow> 's \<Rightarrow> string \<Rightarrow> real list \<Rightarrow> 's res"
  be_search :: "scope \<Rightarrow> 's \<Rightarrow> real list \<Rightarrow> nat \<Rightarrow> string \<Rightarrow> ((string \<times> real) list \<times> 's) res"
  be_save_meta :: "scope \<Rightarrow> 's \<Rightarrow> string \<Rightarrow> pattern_meta \<Rightarrow> 's"

text \<open>
  \<open>StorageBackend.delete_scope\<close>, the inherited default: every key the scope lists is
  deleted, and the number of keys is returned.
\<close>

fun delete_all :: "'s backend \<Rightarrow> scope \<Rightarrow> 's \<Rightarrow> string list \<Rightarrow> 's res" where
  "delete_all B sc s [] = Inr s"
| "delete_all B sc s (k # ks) = bind_res (be_delete B sc s k) (\<lambda>s'. delete_all B sc s' ks)"

definition delete_scope :: "'s backend \<Rightarrow> 's \<Rightarrow> string \<Rightarrow> string \<Rightarrow> (nat \<times> 's) res" where
  "delete_scope B s tenant project =
     (let sc = \<lparr>sc_tenant = tenant, sc_project = project\<rparr>
      in bind_res (be_list_keys B sc s [])
           (\<lambda>ks. bind_res (delete_all B sc s ks) (\<lambda>s'. Inr (length ks, s'))))"

definition count_patterns :: "'s backend \<Rightarrow> scope \<Rightarrow> 's \<Rightarrow> string \<Rightarrow> nat res" where
  "count_patterns B sc s p = bind_res (be_list_keys B sc s p) (\<lambda>ks. Inr (length ks))"

text \<open>
  Keys are segments joined by slashes. The keys the program makes have segments that are not
  empty and hold no slash, backslash or dot, and do not end in the name of the index file;
  a last segment that starts with an underscore is an internal document, which
  \<open>list_keys\<close> may hide.
\<close>

definition seg_ok :: "string \<Rightarrow> bool" where
  "seg_ok w \<longleftrightarrow> w \<noteq> [] \<and> list_all (\<lambda>c. c \<noteq> CHR ''/'' \<and> c \<noteq> CHR 0x5C \<and> c \<noteq> CHR ''.'') w"

definition good_key :: "string \<Rightarrow> bool" where
  "good_key k \<longleftrightarrow> list_all seg_ok (split_on CHR ''/'' k) \<and> last (split_on CHR ''/'' k) \<noteq> ''_embeddings''"

definition visible_key :: "string \<Rightarrow> bool" where
  "visible_key k \<longleftrightarrow> \<not> prefix ''_'' (last (split_on CHR ''/'' k))"

lemma seg_ok_no_slash: "seg_ok w \<Longrightarrow> CHR ''/'' \<notin> set w"
  by (auto simp: seg_ok_def list_all_iff)

lemma split_key:
  "segs \<noteq> [] \<Longrightarrow> list_all seg_ok segs \<Longrightarrow> split_on CHR ''/'' (py_join ''/'' segs) = segs"
  by (rule split_on_join) (auto simp: list_all_iff seg_ok_no_slash)

lemma good_key_join:
  "segs \<noteq> [] \<Longrightarrow> list_all seg_ok segs \<Longrightarrow> last segs \<noteq> ''_embeddings'' \<Longrightarrow> good_key (py_join ''/'' segs)"
  by (simp add: good_key_def split_key)

text \<open>Governance metadata never replaces a document: it may set entries of a dict's design.\<close>

definition meta_keeps :: "(pattern_meta \<Rightarrow> doc \<Rightarrow> doc) \<Rightarrow> bool" where
  "meta_keeps f \<longleftrightarrow> (\<forall>m d. case d of
      DDict x \<Rightarrow> (\<exists>y. f m d = DDict y \<and> (\<forall>k. k \<noteq> ''design'' \<longrightarrow> dget y k = dget x k))
    | _ \<Rightarrow> f m d = d)"

text \<open>
  The contract. \<open>val s\<close> gives the document at a location, \<open>loc sc k\<close> is the
  location of a key, \<open>emb s sc k\<close> the stored vector; \<open>okscope\<close> and
  \<open>good\<close> say for which scopes and keys the laws hold, \<open>plain\<close> which keys
  \<open>list_keys\<close> shows.
\<close>

locale storage =
  fixes B :: "'s backend"
    and loc :: "scope \<Rightarrow> string \<Rightarrow> 'l"
    and val :: "'s \<Rightarrow> 'l \<Rightarrow> doc option"
    and emb :: "'s \<Rightarrow> scope \<Rightarrow> string \<Rightarrow> real list option"
    and wf :: "'s \<Rightarrow> bool"
    and okscope :: "scope \<Rightarrow> bool"
    and good :: "string \<Rightarrow> bool"
    and plain :: "string \<Rightarrow> bool"
    and metaf :: "pattern_meta \<Rightarrow> doc \<Rightarrow> doc"
  assumes good_key: "good_key k \<Longrightarrow> good k"
    and plain_key: "good_key k \<Longrightarrow> visible_key k \<Longrightarrow> plain k"
    and plain_good: "plain k \<Longrightarrow> good k"
    and loc_inj: "good k \<Longrightarrow> good k' \<Longrightarrow> loc sc k = loc sc k' \<Longrightarrow> k = k'"
    and load_law: "wf s \<Longrightarrow> okscope sc \<Longrightarrow> good k \<Longrightarrow> be_load B sc s k = Inr (val s (loc sc k))"
    and save_law: "wf s \<Longrightarrow> okscope sc \<Longrightarrow> good k \<Longrightarrow>
      \<exists>s'. be_save B sc s k d = Inr s' \<and> wf s' \<and> val s' = (val s)(loc sc k \<mapsto> d) \<and> emb s' = emb s"
    and delete_law: "wf s \<Longrightarrow> okscope sc \<Longrightarrow> good k \<Longrightarrow>
      \<exists>s'. be_delete B sc s k = Inr s' \<and> wf s' \<and> val s' = (val s)(loc sc k := None) \<and> emb s' sc k = None"
    and list_law: "wf s \<Longrightarrow> okscope sc \<Longrightarrow> \<exists>ks. be_list_keys B sc s p = Inr ks \<and> distinct ks \<and>
      set ks = {k. prefix p k \<and> plain k \<and> val s (loc sc k) \<noteq> None}"
    and embed_law: "wf s \<Longrightarrow> okscope sc \<Longrightarrow> be_save_embedding B sc s k v = Inr s' \<Longrightarrow>
      wf s' \<and> val s' = val s \<and> (\<exists>w. length w = length v \<and> emb s' sc = (emb s sc)(k \<mapsto> w))"
    and search_law: "wf s \<Longrightarrow> okscope sc \<Longrightarrow> be_search B sc s v n p = Inr (rs, s') \<Longrightarrow>
      wf s' \<and> val s' = val s \<and> emb s' = emb s \<and> length rs \<le> n \<and> distinct (map fst rs) \<and>
      sorted_wrt (\<lambda>a b. snd b \<le> snd a) rs \<and> (\<forall>r \<in> set rs. prefix p (fst r) \<and> emb s sc (fst r) \<noteq> None)"
    and meta_law: "wf s \<Longrightarrow> okscope sc \<Longrightarrow> good k \<Longrightarrow> wf (be_save_meta B sc s k m) \<and>
      val (be_save_meta B sc s k m) = (val s)(loc sc k := map_option (metaf m) (val s (loc sc k))) \<and>
      emb (be_save_meta B sc s k m) = emb s"
    and meta_keeps: "meta_keeps metaf"
begin

lemma save_ok:
  assumes "wf s" and "okscope sc" and "good k"
  obtains s' where "be_save B sc s k d = Inr s'" "wf s'" "val s' = (val s)(loc sc k \<mapsto> d)" "emb s' = emb s"
  using save_law [OF assms, of d] by blast

lemma save_facts:
  assumes "wf s" and "okscope sc" and "good k" and "be_save B sc s k d = Inr s'"
  shows "wf s' \<and> val s' = (val s)(loc sc k \<mapsto> d) \<and> emb s' = emb s"
  using save_law [OF assms(1-3), of d] assms(4) by auto

lemma delete_facts:
  assumes "wf s" and "okscope sc" and "good k" and "be_delete B sc s k = Inr s'"
  shows "wf s' \<and> val s' = (val s)(loc sc k := None) \<and> emb s' sc k = None"
  using delete_law [OF assms(1-3)] assms(4) by auto

lemma load_save_same:
  assumes "wf s" and "okscope sc" and "good k" and "be_save B sc s k d = Inr s'"
  shows "be_load B sc s' k = Inr (Some d)"
  using save_facts [OF assms] assms by (simp add: load_law)

lemma load_save_other:
  assumes "wf s" and "okscope sc" and "good k" and "be_save B sc s k d = Inr s'"
    and "okscope sc'" and "good k'" and "loc sc' k' \<noteq> loc sc k"
  shows "be_load B sc' s' k' = be_load B sc' s k'"
  using save_facts [OF assms(1-4)] assms by (simp add: load_law)

lemma load_delete_same:
  assumes "wf s" and "okscope sc" and "good k" and "be_delete B sc s k = Inr s'"
  shows "be_load B sc s' k = Inr None"
  using delete_facts [OF assms] assms by (simp add: load_law)

lemma list_keys_ok:
  assumes "wf s" and "okscope sc"
  obtains ks where "be_list_keys B sc s p = Inr ks" "distinct ks"
    "set ks = {k. prefix p k \<and> plain k \<and> val s (loc sc k) \<noteq> None}"
  using list_law [OF assms, of p] by blast

lemma list_keys_facts:
  assumes "wf s" and "okscope sc" and "be_list_keys B sc s p = Inr ks"
  shows "distinct ks \<and> set ks = {k. prefix p k \<and> plain k \<and> val s (loc sc k) \<noteq> None}"
  using list_law [OF assms(1,2), of p] assms(3) by auto

lemma list_keys_save:
  assumes "wf s" and "okscope sc" and "plain k" and "be_save B sc s k d = Inr s'"
    and "be_list_keys B sc s p = Inr ks" and "be_list_keys B sc s' p = Inr ks'"
  shows "set ks' = (if prefix p k then insert k (set ks) else set ks)"
proof -
  have g: "good k" using assms(3) by (rule plain_good)
  have s': "wf s'" "val s' = (val s)(loc sc k \<mapsto> d)" using save_facts [OF assms(1,2) g assms(4)] by auto
  have "set ks = {k. prefix p k \<and> plain k \<and> val s (loc sc k) \<noteq> None}"
    "set ks' = {k. prefix p k \<and> plain k \<and> val s' (loc sc k) \<noteq> None}"
    using list_keys_facts [OF assms(1,2,5)] list_keys_facts [OF s'(1) assms(2,6)] by auto
  moreover have "plain j \<Longrightarrow> loc sc j = loc sc k \<longleftrightarrow> j = k" for j using loc_inj [OF plain_good g] by blast
  ultimately show ?thesis unfolding s'(2) using assms(3) by auto
qed

lemma length_list_keys_save:
  assumes "wf s" and "okscope sc" and "plain k" and "prefix p k" and "be_save B sc s k d = Inr s'"
    and "be_list_keys B sc s p = Inr ks" and "be_list_keys B sc s' p = Inr ks'"
  shows "length ks' = (if k \<in> set ks then length ks else Suc (length ks))"
proof -
  have s': "wf s'" using save_facts [OF assms(1,2) plain_good [OF assms(3)] assms(5)] by simp
  have "set ks' = insert k (set ks)" using list_keys_save [OF assms(1-3,5-7)] assms(4) by simp
  moreover have "distinct ks" "distinct ks'"
    using list_keys_facts [OF assms(1,2,6)] list_keys_facts [OF s' assms(2,7)] by auto
  ultimately show ?thesis by (metis card_insert_if distinct_card finite_set insert_absorb)
qed

text \<open>Deleting every key of a list succeeds and empties exactly their locations.\<close>

lemma delete_all_ok:
  assumes "wf s" and "okscope sc" and "\<forall>k \<in> set ks. good k"
  shows "\<exists>s'. delete_all B sc s ks = Inr s' \<and> wf s' \<and>
    val s' = (\<lambda>l. if l \<in> loc sc ` set ks then None else val s l)"
  using assms
proof (induction ks arbitrary: s)
  case Nil
  then show ?case by simp
next
  case (Cons k ks)
  obtain s1 where s1: "be_delete B sc s k = Inr s1" "wf s1" "val s1 = (val s)(loc sc k := None)"
    using delete_law [of s sc k] Cons.prems by auto
  from Cons.IH [OF s1(2)] Cons.prems obtain s2 where
    "delete_all B sc s1 ks = Inr s2" "wf s2" "val s2 = (\<lambda>l. if l \<in> loc sc ` set ks then None else val s1 l)"
    by auto
  with s1 show ?case by (auto simp: fun_eq_iff)
qed

theorem delete_scope_ok:
  fixes t p
  defines "sc \<equiv> \<lparr>sc_tenant = t, sc_project = p\<rparr>"
  assumes "wf s" and "okscope sc"
  shows "\<exists>n s'. delete_scope B s t p = Inr (n, s') \<and> wf s' \<and>
    be_list_keys B sc s' [] = Inr [] \<and>
    (\<forall>l. val s' l = val s l \<or> (\<exists>k. plain k \<and> l = loc sc k \<and> val s' l = None))"
proof -
  obtain ks where ks: "be_list_keys B sc s [] = Inr ks"
    "set ks = {k. prefix [] k \<and> plain k \<and> val s (loc sc k) \<noteq> None}"
    by (rule list_keys_ok [OF assms(2,3)])
  then have g: "\<forall>k \<in> set ks. good k" using plain_good by auto
  obtain s' where s': "delete_all B sc s ks = Inr s'" "wf s'"
    "val s' = (\<lambda>l. if l \<in> loc sc ` set ks then None else val s l)"
    using delete_all_ok [OF assms(2,3) g] by blast
  have "be_list_keys B sc s' [] = Inr []"
  proof -
    obtain ks' where "be_list_keys B sc s' [] = Inr ks'"
      "set ks' = {k. prefix [] k \<and> plain k \<and> val s' (loc sc k) \<noteq> None}"
      by (rule list_keys_ok [OF s'(2) assms(3)])
    moreover have "{k. prefix [] k \<and> plain k \<and> val s' (loc sc k) \<noteq> None} = {}"
      using ks(2) unfolding s'(3) by auto
    ultimately show ?thesis by (simp only: set_empty)
  qed
  moreover have "\<forall>l. val s' l = val s l \<or> (\<exists>k. plain k \<and> l = loc sc k \<and> val s' l = None)"
    using ks(2) unfolding s'(3) by auto
  moreover have "delete_scope B s t p = Inr (length ks, s')"
    using ks(1) s'(1) by (simp add: delete_scope_def sc_def)
  ultimately show ?thesis using s'(2) by blast
qed

end

end
