(* ===== verification/JsonStorage.thy ===== *)
theory JsonStorage
  imports Storage
begin

text \<open>
  \<open>engramia/providers/json_storage.py\<close>. The disk is a map from paths (segments below
  the storage root) to file contents, the embedding indexes are the per-scope dicts kept in
  memory beside their files. numpy's \<open>dot\<close> and \<open>linalg.norm\<close> are
  parameters. \<open>json_storage_contract\<close> discharges the storage contract for the backend.
\<close>

section \<open>Paths\<close>

definition sanitize_segment :: "string \<Rightarrow> string" where
  "sanitize_segment w =
     (let v = map (\<lambda>c. if py_alnum c \<or> c = CHR ''-'' \<or> c = CHR ''_'' then c else CHR ''_'') w
      in if v = [] then ''default'' else v)"

definition effective_root :: "scope \<Rightarrow> string list" where
  "effective_root sc =
     (if sc_tenant sc = ''default'' \<and> sc_project sc = ''default'' then []
      else [sanitize_segment (sc_tenant sc), sanitize_segment (sc_project sc)])"

definition key_parts :: "string \<Rightarrow> string list" where
  "key_parts k =
     filter (\<lambda>p. p \<noteq> [] \<and> \<not> list_all (\<lambda>c. c = CHR ''.'') p)
       (split_on CHR ''/'' (map (\<lambda>c. if c = CHR 0x5C then CHR ''/'' else c) k))"

text \<open>
  \<open>Path.with_suffix\<close>: the text from the last dot on is replaced, unless that dot is the
  first or the last character of the name.
\<close>

definition stem :: "string \<Rightarrow> string" where
  "stem name =
     (let ext = takeWhile (\<lambda>c. c \<noteq> CHR ''.'') (rev name);
          base = rev (drop (Suc (length ext)) (rev name))
      in if ext \<noteq> [] \<and> base \<noteq> [] then base else name)"

definition with_suffix :: "string \<Rightarrow> string list \<Rightarrow> string list" where
  "with_suffix suf p = butlast p @ [stem (last p) @ suf]"

definition key_to_path :: "scope \<Rightarrow> string \<Rightarrow> string list res" where
  "key_to_path sc k =
     (let parts = key_parts k in
      if parts = [] then Inl (ValueError ''Invalid storage key'')
      else Inr (with_suffix ''.json'' (effective_root sc @ parts)))"

section \<open>The disk and the indexes\<close>

datatype jfile = FDoc doc | FIndex "(string, real list) dict" | FCorrupt

type_synonym disk = "(string list, jfile) dict"

record json_store =
  js_fs :: disk
  js_index :: "(scope, (string, real list) dict) dict"

definition embeddings_path :: "scope \<Rightarrow> string list" where
  "embeddings_path sc = effective_root sc @ [''_embeddings.json'']"

definition load_embeddings :: "disk \<Rightarrow> scope \<Rightarrow> (string, real list) dict" where
  "load_embeddings fs sc =
     (case dget fs (embeddings_path sc) of Some (FIndex idx) \<Rightarrow> idx | _ \<Rightarrow> [])"

definition json_open :: "disk \<Rightarrow> json_store" where
  "json_open fs = \<lparr>js_fs = fs, js_index = [(default_scope, load_embeddings fs default_scope)]\<rparr>"

definition get_embeddings :: "scope \<Rightarrow> json_store \<Rightarrow> (string, real list) dict \<times> json_store" where
  "get_embeddings sc s =
     (case dget (js_index s) sc of
        Some idx \<Rightarrow> (idx, s)
      | None \<Rightarrow>
          (let idx = load_embeddings (js_fs s) sc
           in (idx, s\<lparr>js_index := dput sc idx (js_index s)\<rparr>)))"

text \<open>tmp, then the present file to bak, then tmp over the file.\<close>

definition atomic_write :: "disk \<Rightarrow> string list \<Rightarrow> jfile \<Rightarrow> disk" where
  "atomic_write fs p c =
     (let tmp = with_suffix ''.tmp'' p;
          bak = with_suffix ''.bak'' p;
          fs1 = dput tmp c fs;
          fs2 = (case dget fs1 p of Some old \<Rightarrow> dput bak old (ddel p fs1) | None \<Rightarrow> fs1)
      in dput p c (ddel tmp fs2))"

text \<open>
  The disks a write goes through: the untouched disk, a partial temporary file, the complete
  one, the old document renamed to its backup, the new document in place. A crash leaves one
  of them.
\<close>

definition write_steps :: "disk \<Rightarrow> string list \<Rightarrow> jfile \<Rightarrow> disk list" where
  "write_steps fs p c =
     (let tmp = with_suffix ''.tmp'' p;
          bak = with_suffix ''.bak'' p;
          fs1 = dput tmp c fs;
          fs2 = (case dget fs1 p of Some old \<Rightarrow> dput bak old (ddel p fs1) | None \<Rightarrow> fs1)
      in [fs, dput tmp FCorrupt fs, fs1, fs2, dput p c (ddel tmp fs2)])"

lemma last_write_steps: "last (write_steps fs p c) = atomic_write fs p c"
  by (simp add: write_steps_def atomic_write_def Let_def)

definition save_embeddings_index :: "scope \<Rightarrow> json_store \<Rightarrow> json_store" where
  "save_embeddings_index sc s =
     (let idx = (case dget (js_index s) sc of Some x \<Rightarrow> x | None \<Rightarrow> [])
      in s\<lparr>js_fs := atomic_write (js_fs s) (embeddings_path sc) (FIndex idx)\<rparr>)"

section \<open>Operations\<close>

definition json_load :: "scope \<Rightarrow> json_store \<Rightarrow> string \<Rightarrow> doc option res" where
  "json_load sc s k = bind_res (key_to_path sc k) (\<lambda>p.
     Inr (case dget (js_fs s) p of Some (FDoc d) \<Rightarrow> Some d | _ \<Rightarrow> None))"

definition json_save :: "scope \<Rightarrow> json_store \<Rightarrow> string \<Rightarrow> doc \<Rightarrow> json_store res" where
  "json_save sc s k d = bind_res (key_to_path sc k) (\<lambda>p.
     Inr (s\<lparr>js_fs := atomic_write (js_fs s) p (FDoc d)\<rparr>))"

definition is_json :: "string list \<Rightarrow> bool" where
  "is_json p \<longleftrightarrow> p \<noteq> [] \<and> suffix ''.json'' (last p)"

definition path_key :: "scope \<Rightarrow> string list \<Rightarrow> string" where
  "path_key sc p =
     (let rel = drop (length (effective_root sc)) p
      in py_join ''/'' (butlast rel @ [stem (last rel)]))"

definition listed_path :: "scope \<Rightarrow> string list \<Rightarrow> bool" where
  "listed_path sc p \<longleftrightarrow> strict_prefix (effective_root sc) p \<and> is_json p \<and> \<not> prefix ''_'' (last p)"

definition json_list_keys :: "scope \<Rightarrow> json_store \<Rightarrow> string \<Rightarrow> string list res" where
  "json_list_keys sc s p =
     Inr (sort (filter (prefix p) (map (path_key sc) (filter (listed_path sc) (dkeys (js_fs s))))))"

definition json_delete :: "scope \<Rightarrow> json_store \<Rightarrow> string \<Rightarrow> json_store res" where
  "json_delete sc s k = bind_res (key_to_path sc k) (\<lambda>p.
     let fs = ddel (with_suffix ''.tmp'' p) (ddel (with_suffix ''.bak'' p) (ddel p (js_fs s)));
         (idx, s1) = get_embeddings sc (s\<lparr>js_fs := fs\<rparr>)
     in Inr (if k \<in> fst ` set idx
             then save_embeddings_index sc (s1\<lparr>js_index := dput sc (ddel k idx) (js_index s1)\<rparr>)
             else s1))"

definition json_save_embedding :: "scope \<Rightarrow> json_store \<Rightarrow> string \<Rightarrow> real list \<Rightarrow> json_store res" where
  "json_save_embedding sc s k v =
     (let (idx, s1) = get_embeddings sc s in
      if idx \<noteq> [] \<and> v \<noteq> [] \<and> length v \<noteq> length (snd (hd idx))
      then Inl (ValueError ''Embedding dimension mismatch'')
      else Inr (save_embeddings_index sc (s1\<lparr>js_index := dput sc (dput k v idx) (js_index s1)\<rparr>)))"

definition json_search ::
  "(real list \<Rightarrow> real list \<Rightarrow> real) \<Rightarrow> (real list \<Rightarrow> real) \<Rightarrow>
   scope \<Rightarrow> json_store \<Rightarrow> real list \<Rightarrow> nat \<Rightarrow> string \<Rightarrow> ((string \<times> real) list \<times> json_store) res" where
  "json_search dot norm2 sc s v n p =
     (let (idx, s1) = get_embeddings sc s in
      if idx \<noteq> [] \<and> v \<noteq> [] \<and> length v \<noteq> length (snd (hd idx))
      then Inl (ValueError ''Query embedding dimension'')
      else if norm2 v = 0 then Inr ([], s1)
      else Inr (take n (sort_desc snd
             (map (\<lambda>(k, w). (k, max 0 (min 1 (dot v w / (norm2 v * norm2 w)))))
               (filter (\<lambda>(k, w). prefix p k \<and> norm2 w \<noteq> 0) idx))), s1))"

definition json_backend ::
  "(real list \<Rightarrow> real list \<Rightarrow> real) \<Rightarrow> (real list \<Rightarrow> real) \<Rightarrow> json_store backend" where
  "json_backend dot norm2 =
     \<lparr>be_load = json_load, be_save = json_save, be_list_keys = json_list_keys,
      be_delete = json_delete, be_save_embedding = json_save_embedding,
      be_search = json_search dot norm2, be_save_meta = (\<lambda>sc s k m. s)\<rparr>"

section \<open>Paths of well-formed keys\<close>

definition segs :: "string \<Rightarrow> string list" where
  "segs k = split_on CHR ''/'' k"

definition json_loc :: "scope \<Rightarrow> string \<Rightarrow> string list" where
  "json_loc sc k = effective_root sc @ butlast (segs k) @ [last (segs k) @ ''.json'']"

lemma no_dot: "seg_ok n \<Longrightarrow> CHR ''.'' \<notin> set n"
  by (auto simp: seg_ok_def list_all_iff)

lemma stem_plain:
  assumes "CHR ''.'' \<notin> set n"
  shows "stem n = n"
proof -
  have t: "takeWhile (\<lambda>c. c \<noteq> CHR ''.'') (rev n) = rev n" using assms by (simp add: takeWhile_eq_all_conv) blast
  show ?thesis by (simp only: stem_def t Let_def) simp
qed

lemma stem_suffix: "n \<noteq> [] \<Longrightarrow> CHR ''.'' \<notin> set ext \<Longrightarrow> ext \<noteq> [] \<Longrightarrow> stem (n @ CHR ''.'' # ext) = n"
proof -
  assume n: "n \<noteq> []" "CHR ''.'' \<notin> set ext" "ext \<noteq> []"
  then have "takeWhile (\<lambda>c. c \<noteq> CHR ''.'') (rev ext @ CHR ''.'' # rev n) = rev ext"
    by (subst takeWhile_append2) auto
  then show ?thesis using n by (simp add: stem_def Let_def)
qed

lemma stem_suffixes [simp]:
  assumes "seg_ok n"
  shows "stem n = n" "stem (n @ ''.json'') = n" "stem (n @ ''.bak'') = n" "stem (n @ ''.tmp'') = n"
  using assms no_dot [OF assms] by (simp_all add: stem_plain stem_suffix seg_ok_def)

lemma segs_good: "good_key k \<Longrightarrow> list_all seg_ok (segs k) \<and> segs k \<noteq> [] \<and> seg_ok (last (segs k)) \<and>
    last (segs k) \<noteq> ''_embeddings'' \<and> list_all seg_ok (butlast (segs k))"
  by (auto simp: good_key_def segs_def list_all_iff dest: in_set_butlastD)

lemma key_of_segs: "py_join ''/'' (segs k) = k"
  by (simp add: segs_def py_join_split_on)

lemma good_key_no_backslash: "good_key k \<Longrightarrow> CHR 0x5C \<notin> set k"
proof -
  assume g: "good_key k"
  have "set (py_join d ws) \<subseteq> set d \<union> \<Union> (set ` set ws)" for d and ws :: "string list"
    by (induction d ws rule: py_join.induct) auto
  from this [of "''/''" "segs k"] have "set k \<subseteq> insert CHR ''/'' (\<Union> (set ` set (segs k)))"
    by (simp add: key_of_segs)
  moreover have "CHR 0x5C \<notin> set w" if "w \<in> set (segs k)" for w
    using segs_good [OF g] that by (simp add: list_all_iff seg_ok_def) metis
  ultimately show ?thesis by (auto dest!: subsetD)
qed

lemma key_parts_good:
  assumes "good_key k"
  shows "key_parts k = segs k"
proof -
  have "map (\<lambda>c. if c = CHR 0x5C then CHR ''/'' else c) k = k"
    using good_key_no_backslash [OF assms] by (induction k) auto
  moreover have "\<forall>p \<in> set (segs k). p \<noteq> [] \<and> \<not> list_all (\<lambda>c. c = CHR ''.'') p"
  proof
    fix p assume "p \<in> set (segs k)"
    then have "seg_ok p" using segs_good [OF assms] by (simp add: list_all_iff)
    then show "p \<noteq> [] \<and> \<not> list_all (\<lambda>c. c = CHR ''.'') p"
      by (cases p) (simp_all add: seg_ok_def)
  qed
  ultimately show ?thesis by (simp add: key_parts_def segs_def filter_id_conv)
qed

lemma key_to_path_good: "good_key k \<Longrightarrow> key_to_path sc k = Inr (json_loc sc k)"
  using segs_good [of k]
  by (simp add: key_to_path_def key_parts_good Let_def with_suffix_def json_loc_def butlast_append)

lemma json_loc_inj: "json_loc sc k = json_loc sc k' \<Longrightarrow> k = k'"
proof -
  assume "json_loc sc k = json_loc sc k'"
  then have "butlast (segs k) = butlast (segs k')" "last (segs k) = last (segs k')"
    by (simp_all add: json_loc_def)
  then have "segs k = segs k'" by (metis append_butlast_last_id segs_def split_on_not_Nil)
  then show ?thesis by (metis key_of_segs)
qed

text \<open>Scopes whose identifiers the path keeps as they are; distinct ones have distinct roots.\<close>

definition json_scope_ok :: "scope \<Rightarrow> bool" where
  "json_scope_ok sc \<longleftrightarrow> sanitize_segment (sc_tenant sc) = sc_tenant sc \<and>
     sanitize_segment (sc_project sc) = sc_project sc"

lemma sanitize_seg_ok: "seg_ok (sanitize_segment w)"
proof -
  have "c \<noteq> CHR ''/'' \<and> c \<noteq> CHR 0x5C \<and> c \<noteq> CHR ''.''" if "py_alnum c" for c
    using that by (auto simp: py_alnum_def py_word_def code_def)
  then show ?thesis by (auto simp: sanitize_segment_def Let_def seg_ok_def list_all_iff)
qed

lemma root_ok: "list_all seg_ok (effective_root sc)"
  by (simp add: effective_root_def sanitize_seg_ok)

lemma root_inj:
  "json_scope_ok sc \<Longrightarrow> json_scope_ok sc' \<Longrightarrow> effective_root sc = effective_root sc' \<Longrightarrow> sc = sc'"
  by (auto simp: effective_root_def json_scope_ok_def split: if_splits)

section \<open>The invariant\<close>

definition path_ok :: "string list \<Rightarrow> bool" where
  "path_ok p \<longleftrightarrow> p \<noteq> [] \<and> list_all seg_ok (butlast p) \<and> seg_ok (stem (last p)) \<and>
     (last p = stem (last p) @ ''.json'' \<or> last p = stem (last p) @ ''.bak'' \<or>
      last p = stem (last p) @ ''.tmp'')"

fun file_ok :: "string list \<Rightarrow> jfile \<Rightarrow> bool" where
  "file_ok p (FDoc d) = (stem (last p) \<noteq> ''_embeddings'')"
| "file_ok p (FIndex idx) = (stem (last p) = ''_embeddings'' \<and> wf_dict idx)"
| "file_ok p FCorrupt = False"

definition disk_ok :: "disk \<Rightarrow> bool" where
  "disk_ok fs \<longleftrightarrow> wf_dict fs \<and> (\<forall>p f. dget fs p = Some f \<longrightarrow> path_ok p \<and> file_ok p f)"

definition json_wf :: "json_store \<Rightarrow> bool" where
  "json_wf s \<longleftrightarrow> disk_ok (js_fs s) \<and>
     (\<forall>sc idx. json_scope_ok sc \<longrightarrow> dget (js_index s) sc = Some idx \<longrightarrow>
        idx = load_embeddings (js_fs s) sc)"

definition json_val :: "json_store \<Rightarrow> string list \<Rightarrow> doc option" where
  "json_val s p =
     (case dget (js_fs s) p of Some (FDoc d) \<Rightarrow> if is_json p then Some d else None | _ \<Rightarrow> None)"

definition json_emb :: "json_store \<Rightarrow> scope \<Rightarrow> string \<Rightarrow> real list option" where
  "json_emb s sc k = dget (load_embeddings (js_fs s) sc) k"

definition json_plain :: "string \<Rightarrow> bool" where
  "json_plain k \<longleftrightarrow> good_key k \<and> visible_key k"

lemma with_suffix_json [simp]: "seg_ok n \<Longrightarrow> with_suffix suf (q @ [n @ ''.json'']) = q @ [n @ suf]"
  by (simp add: with_suffix_def)

lemma dget_atomic_write:
  assumes "seg_ok n" and "p = q @ [n @ ''.json'']"
  shows "dget (atomic_write fs p c) x =
    (if x = p then Some c
     else if x = q @ [n @ ''.tmp''] then None
     else if x = q @ [n @ ''.bak''] \<and> dget fs p \<noteq> None then dget fs p
     else dget fs x)"
proof (cases "dget fs p")
  case None
  then show ?thesis using assms by (simp add: atomic_write_def Let_def dict_simps)
next
  case (Some f)
  then show ?thesis using assms by (simp add: atomic_write_def Let_def dict_simps)
qed

lemma wf_atomic_write: "wf_dict fs \<Longrightarrow> wf_dict (atomic_write fs p c)"
  by (simp add: atomic_write_def Let_def split: option.split)

lemma path_ok_suffix:
  assumes "list_all seg_ok q" and "seg_ok n"
  shows "path_ok (q @ [n @ ''.json''])" "path_ok (q @ [n @ ''.bak''])" "path_ok (q @ [n @ ''.tmp''])"
  using assms by (simp_all add: path_ok_def)

lemma disk_ok_atomic_write:
  assumes "disk_ok fs" and "list_all seg_ok q" and "seg_ok n" and "p = q @ [n @ ''.json'']" and "file_ok p c"
  shows "disk_ok (atomic_write fs p c)"
proof -
  have "path_ok x \<and> file_ok x f" if "dget (atomic_write fs p c) x = Some f" for x f
  proof -
    have bak: "file_ok (q @ [n @ ''.bak'']) g" if "dget fs p = Some g" for g
    proof -
      have "file_ok p g" using assms(1) that by (simp add: disk_ok_def)
      then show ?thesis using stem_suffixes [OF assms(3)] assms(4)
        by (cases g) (simp_all only: file_ok.simps last_snoc not_False_eq_True)
    qed
    show ?thesis
      using that assms path_ok_suffix [OF assms(2,3)] bak
      by (auto simp: dget_atomic_write [OF assms(3) refl] disk_ok_def split: if_splits)
  qed
  then show ?thesis using assms(1) by (simp add: disk_ok_def wf_atomic_write)
qed

section \<open>The storage contract\<close>

lemma not_json [simp]:
  "\<not> is_json (q @ [n @ ''.bak''])" "\<not> is_json (q @ [n @ ''.tmp''])" "is_json (q @ [n @ ''.json''])"
  by (simp_all add: is_json_def suffix_to_prefix)

lemma suffixes_distinct:
  "last x \<noteq> last y \<Longrightarrow> x \<noteq> [] \<Longrightarrow> y \<noteq> [] \<Longrightarrow> n @ x \<noteq> m @ (y::string)"
  by (metis last_appendR)

lemma seg_ok_embeddings [simp]: "seg_ok ''_embeddings''"
  by (simp add: seg_ok_def)

lemma embeddings_path_alt: "embeddings_path sc = effective_root sc @ [''_embeddings'' @ ''.json'']"
  by (simp add: embeddings_path_def)

lemma embeddings_path_neq [simp]:
  "embeddings_path sc = q @ [n @ ''.json''] \<longleftrightarrow> effective_root sc = q \<and> n = ''_embeddings''"
  "embeddings_path sc \<noteq> q @ [n @ ''.bak'']" "embeddings_path sc \<noteq> q @ [n @ ''.tmp'']"
  by (auto simp only: embeddings_path_alt append1_eq_conv append_same_eq)
    (auto dest!: suffixes_distinct [THEN notE, rotated 3])

lemmas embeddings_path_lit [simp] =
  embeddings_path_neq(2,3) [of _ _ "''_embeddings''", simplified]

lemma embeddings_path_eq [simp]: "embeddings_path sc = embeddings_path sc' \<longleftrightarrow> effective_root sc = effective_root sc'"
  by (simp add: embeddings_path_def)

lemma load_embeddings_cong:
  "dget fs' (embeddings_path sc) = dget fs (embeddings_path sc) \<Longrightarrow> load_embeddings fs' sc = load_embeddings fs sc"
  by (simp add: load_embeddings_def)

lemma json_loc_split:
  assumes "good_key k"
  obtains q n where "json_loc sc k = q @ [n @ ''.json'']" "list_all seg_ok q" "seg_ok n" "n \<noteq> ''_embeddings''"
  using segs_good [OF assms] root_ok [of sc]
  by (intro that [of "effective_root sc @ butlast (segs k)" "last (segs k)"])
    (simp_all add: json_loc_def)

lemma json_load_law: "good_key k \<Longrightarrow> json_load sc s k = Inr (json_val s (json_loc sc k))"
proof -
  assume "good_key k"
  then have "key_to_path sc k = Inr (json_loc sc k)" "is_json (json_loc sc k)"
    using not_json(3) [of "effective_root sc @ butlast (segs k)" "last (segs k)"]
    by (simp_all add: key_to_path_good json_loc_def)
  then show ?thesis
    by (auto simp: json_load_def json_val_def split: option.split jfile.split)
qed

lemma write_doc:
  assumes "json_wf s" and "good_key k" and "s' = s\<lparr>js_fs := atomic_write (js_fs s) (json_loc sc k) (FDoc d)\<rparr>"
  shows "json_wf s' \<and> json_val s' = (json_val s)(json_loc sc k \<mapsto> d) \<and> json_emb s' = json_emb s"
proof -
  obtain q n where p: "json_loc sc k = q @ [n @ ''.json'']" "list_all seg_ok q" "seg_ok n" "n \<noteq> ''_embeddings''"
    by (rule json_loc_split [OF assms(2)])
  have idx: "load_embeddings (js_fs s') sc' = load_embeddings (js_fs s) sc'" for sc'
    by (rule load_embeddings_cong) (use p in \<open>simp add: assms(3) dget_atomic_write [OF p(3) refl]\<close>)
  have "disk_ok (js_fs s')"
    using disk_ok_atomic_write [OF _ p(2,3,1), of "js_fs s" "FDoc d"] assms(1,3) p by (simp add: json_wf_def)
  moreover have "js_index s' = js_index s" by (simp add: assms(3))
  ultimately have "json_wf s'" using assms(1) by (simp add: json_wf_def idx)
  moreover have "json_val s' x = ((json_val s)(json_loc sc k \<mapsto> d)) x" for x
    using p(1) not_json
    by (auto simp: json_val_def assms(3) dget_atomic_write [OF p(3) refl] split: option.split jfile.split)
  moreover have "json_emb s' = json_emb s" by (simp add: json_emb_def fun_eq_iff idx)
  ultimately show ?thesis by blast
qed

lemma get_embeddings_law:
  assumes "json_wf s" and "json_scope_ok sc"
  obtains s' where "get_embeddings sc s = (load_embeddings (js_fs s) sc, s')" "js_fs s' = js_fs s"
    "json_wf s'" "json_val s' = json_val s" "json_emb s' = json_emb s"
proof (cases "dget (js_index s) sc")
  case None
  let ?s = "s\<lparr>js_index := dput sc (load_embeddings (js_fs s) sc) (js_index s)\<rparr>"
  have "json_wf ?s" using assms by (auto simp: json_wf_def dict_simps)
  then show thesis
    by (intro that [of ?s]) (simp_all add: None get_embeddings_def Let_def json_val_def fun_eq_iff json_emb_def)
next
  case (Some idx)
  then show thesis
    using assms by (intro that [of s]) (auto simp: get_embeddings_def json_wf_def)
qed

lemma wf_load_embeddings: "disk_ok fs \<Longrightarrow> wf_dict (load_embeddings fs sc)"
  by (fastforce simp: load_embeddings_def disk_ok_def split: option.split jfile.split)

lemma json_val_not_json: "\<not> is_json x \<Longrightarrow> json_val s x = None"
  by (auto simp: json_val_def split: option.split jfile.split)

lemma write_index:
  assumes "json_wf s" and "json_scope_ok sc" and "wf_dict idx"
    and "s' = save_embeddings_index sc (s\<lparr>js_index := dput sc idx (js_index s)\<rparr>)"
  shows "json_wf s' \<and> json_val s' = json_val s \<and> json_emb s' sc = dget idx"
proof -
  note w = dget_atomic_write [OF seg_ok_embeddings embeddings_path_alt]
  have fs: "js_fs s' = atomic_write (js_fs s) (embeddings_path sc) (FIndex idx)"
    and ix: "js_index s' = dput sc idx (js_index s)"
    by (simp_all add: assms(4) save_embeddings_index_def dict_simps)
  have own: "load_embeddings (js_fs s') sc = idx"
    by (simp add: fs load_embeddings_def w)
  have other: "load_embeddings (js_fs s') sc' = load_embeddings (js_fs s) sc'"
    if "json_scope_ok sc'" "sc' \<noteq> sc" for sc'
    by (rule load_embeddings_cong)
      (use root_inj [OF that(1) assms(2)] that(2) in \<open>auto simp: fs w\<close>)
  have "disk_ok (js_fs s')"
    using disk_ok_atomic_write [OF _ root_ok seg_ok_embeddings embeddings_path_alt,
        where fs = "js_fs s" and c = "FIndex idx"]
      assms(1,3) stem_suffixes(2) [OF seg_ok_embeddings] by (simp add: json_wf_def fs embeddings_path_alt)
  then have "json_wf s'" using assms(1) own other by (auto simp: json_wf_def ix dict_simps)
  moreover have "json_val s' x = json_val s x" for x
  proof -
    have "\<forall>d. dget (js_fs s) (embeddings_path sc) \<noteq> Some (FDoc d)"
      using assms(1) stem_suffixes(2) [OF seg_ok_embeddings]
      by (fastforce simp: json_wf_def disk_ok_def embeddings_path_alt)
    then have e: "json_val s (embeddings_path sc) = None" "json_val s' (embeddings_path sc) = None"
      by (auto simp: json_val_def fs w split: option.split jfile.split)
    show ?thesis
    proof (cases "is_json x \<and> x \<noteq> embeddings_path sc")
      case True
      then have "dget (js_fs s') x = dget (js_fs s) x"
        using not_json(1,2) [of "effective_root sc" "''_embeddings''"] by (auto simp: fs w)
      then show ?thesis by (simp add: json_val_def)
    next
      case False
      then show ?thesis using e by (auto simp: json_val_not_json)
    qed
  qed
  ultimately show ?thesis by (auto simp: json_emb_def own)
qed

lemma prefix_underscore: "n \<noteq> [] \<Longrightarrow> prefix ''_'' (n @ x) \<longleftrightarrow> prefix ''_'' n"
  by (cases n) auto

lemma segs_join: "ws \<noteq> [] \<Longrightarrow> list_all seg_ok ws \<Longrightarrow> segs (py_join ''/'' ws) = ws"
  by (simp add: segs_def split_key)

lemma listed_loc:
  assumes "path_ok x" and "listed_path sc x"
  shows "json_plain (path_key sc x) \<and> json_loc sc (path_key sc x) = x"
proof -
  define n where "n = stem (last x)"
  obtain rel where rel: "x = effective_root sc @ rel" "rel \<noteq> []"
    using assms(2) by (auto simp: listed_path_def strict_prefix_def prefix_def)
  have n: "seg_ok n" using assms(1) by (simp add: path_ok_def n_def)
  have lx: "last x = n @ ''.json''"
  proof -
    have "suffix ''.json'' (last x)" using assms(2) by (simp add: listed_path_def is_json_def)
    then have "last x \<noteq> n @ ''.bak''" "last x \<noteq> n @ ''.tmp''" by (auto simp: suffix_to_prefix)
    then show ?thesis using assms(1) by (auto simp: path_ok_def n_def)
  qed
  have us: "\<not> prefix ''_'' n"
    using assms(2) n by (simp add: listed_path_def lx prefix_underscore seg_ok_def)
  have b: "list_all seg_ok (butlast rel)"
    using assms(1) rel by (auto simp: path_ok_def butlast_append)
  have key: "path_key sc x = py_join ''/'' (butlast rel @ [n])"
    using rel n lx by (simp add: path_key_def n_def)
  have sg: "segs (path_key sc x) = butlast rel @ [n]"
    using segs_join [of "butlast rel @ [n]"] b n by (simp add: key)
  have "n \<noteq> ''_embeddings''" using us by auto
  then have "json_plain (path_key sc x)"
    using sg b n us by (simp add: json_plain_def good_key_def visible_key_def segs_def [symmetric])
  moreover have "json_loc sc (path_key sc x) = x"
  proof -
    have "last rel = n @ ''.json''" using rel lx by simp
    then have "butlast rel @ [n @ ''.json''] = rel" using rel(2) by (metis append_butlast_last_id)
    then show ?thesis unfolding json_loc_def sg by (simp add: rel(1))
  qed
  ultimately show ?thesis by blast
qed

lemma loc_listed:
  assumes "json_plain k"
  shows "listed_path sc (json_loc sc k) \<and> path_key sc (json_loc sc k) = k"
proof -
  have s: "list_all seg_ok (segs k)" "segs k \<noteq> []" "seg_ok (last (segs k))" "\<not> prefix ''_'' (last (segs k))"
    using segs_good [of k] assms by (auto simp: json_plain_def visible_key_def segs_def)
  have "listed_path sc (json_loc sc k)"
    using s not_json(3) [of "effective_root sc @ butlast (segs k)" "last (segs k)"]
    by (simp add: listed_path_def json_loc_def prefix_underscore seg_ok_def strict_prefix_def)
  moreover have "path_key sc (json_loc sc k) = k"
    using s by (simp add: path_key_def json_loc_def key_of_segs)
  ultimately show ?thesis by blast
qed

lemma listed_doc:
  assumes "json_wf s" and "listed_path sc x"
  shows "x \<in> fst ` set (js_fs s) \<longleftrightarrow> json_val s x \<noteq> None"
proof -
  have "stem (last x) \<noteq> ''_embeddings''" if "path_ok x"
  proof
    assume e: "stem (last x) = ''_embeddings''"
    then have "prefix ''_'' (last x)" using that by (auto simp: path_ok_def)
    then show False using assms(2) by (simp add: listed_path_def)
  qed
  then have doc: "\<exists>d. f = FDoc d" if "dget (js_fs s) x = Some f" for f
  proof -
    have "path_ok x \<and> file_ok x f" using assms(1) that by (simp add: json_wf_def disk_ok_def)
    with \<open>path_ok x \<Longrightarrow> _\<close> show ?thesis by (cases f) auto
  qed
  show ?thesis
    using assms(2) doc dget_None_iff [of "js_fs s" x] dget_in_dkeys [of "js_fs s" x]
    by (cases "dget (js_fs s) x") (auto simp: json_val_def listed_path_def)
qed

lemma json_list_law:
  assumes "json_wf s"
  shows "\<exists>ks. json_list_keys sc s p = Inr ks \<and> distinct ks \<and> sorted ks \<and>
    set ks = {k. prefix p k \<and> json_plain k \<and> json_val s (json_loc sc k) \<noteq> None}"
proof -
  let ?ps = "filter (listed_path sc) (dkeys (js_fs s))"
  have ok: "json_plain (path_key sc x) \<and> json_loc sc (path_key sc x) = x" if "x \<in> set ?ps" for x
  proof -
    have "path_ok x" using assms that
      by (auto simp: json_wf_def disk_ok_def) (metis fst_conv map_of_is_SomeI wf_dict_def)
    then show ?thesis using that listed_loc by simp
  qed
  have "inj_on (path_key sc) (set ?ps)" by (rule inj_onI) (metis ok)
  moreover have "distinct ?ps"
    using assms by (simp add: json_wf_def disk_ok_def wf_dict_def)
  ultimately have d: "distinct (map (path_key sc) ?ps)" by (simp add: distinct_map)
  have "k \<in> path_key sc ` set ?ps \<longleftrightarrow> json_plain k \<and> json_val s (json_loc sc k) \<noteq> None" for k
  proof
    assume "k \<in> path_key sc ` set ?ps"
    then obtain x where x: "x \<in> set ?ps" "k = path_key sc x" by blast
    with ok [OF x(1)] listed_doc [OF assms, of sc x] show "json_plain k \<and> json_val s (json_loc sc k) \<noteq> None"
      by simp
  next
    assume k: "json_plain k \<and> json_val s (json_loc sc k) \<noteq> None"
    with loc_listed [of k sc] listed_doc [OF assms, of sc "json_loc sc k"]
    have "json_loc sc k \<in> set ?ps" "path_key sc (json_loc sc k) = k" by auto
    then show "k \<in> path_key sc ` set ?ps" by (metis imageI)
  qed
  then have "set (filter (prefix p) (map (path_key sc) ?ps))
      = {k. prefix p k \<and> json_plain k \<and> json_val s (json_loc sc k) \<noteq> None}" by auto
  then show ?thesis using d by (simp add: json_list_keys_def)
qed

lemma json_delete_law:
  assumes "json_wf s" and "json_scope_ok sc" and "good_key k"
  shows "\<exists>s'. json_delete sc s k = Inr s' \<and> json_wf s' \<and>
    json_val s' = (json_val s)(json_loc sc k := None) \<and> json_emb s' sc k = None"
proof -
  obtain q n where p: "json_loc sc k = q @ [n @ ''.json'']" "seg_ok n" "n \<noteq> ''_embeddings''"
    by (rule json_loc_split [OF assms(3)])
  define fs where "fs = ddel (q @ [n @ ''.tmp'']) (ddel (q @ [n @ ''.bak'']) (ddel (json_loc sc k) (js_fs s)))"
  define s0 where "s0 = s\<lparr>js_fs := fs\<rparr>"
  have g: "dget fs x = (if x = q @ [n @ ''.json''] \<or> x = q @ [n @ ''.bak''] \<or> x = q @ [n @ ''.tmp''] then None
      else dget (js_fs s) x)" for x
    by (simp add: fs_def p(1) dict_simps)
  have idx: "load_embeddings fs sc' = load_embeddings (js_fs s) sc'" for sc'
    by (rule load_embeddings_cong) (use p(3) in \<open>simp add: g\<close>)
  have "wf_dict fs" using assms(1) by (simp add: disk_ok_def json_wf_def fs_def)
  then have "disk_ok fs" using assms(1) by (simp add: disk_ok_def json_wf_def g)
  then have s0: "json_wf s0" using assms(1) by (simp add: json_wf_def s0_def idx)
  have v0: "json_val s0 x = ((json_val s)(json_loc sc k := None)) x" for x
    using not_json by (auto simp: json_val_def s0_def g p(1) split: option.split jfile.split)
  obtain s1 where s1: "get_embeddings sc s0 = (load_embeddings (js_fs s0) sc, s1)"
    "json_wf s1" "json_val s1 = json_val s0" "json_emb s1 = json_emb s0" "js_fs s1 = js_fs s0"
    using get_embeddings_law [OF s0 assms(2)] by metis
  let ?idx = "load_embeddings (js_fs s0) sc"
  have e0: "s\<lparr>js_fs := ddel (q @ [n @ ''.tmp'']) (ddel (q @ [n @ ''.bak''])
      (ddel (q @ [n @ ''.json'']) (js_fs s)))\<rparr> = s0"
    by (simp add: s0_def fs_def p(1))
  define s2 where "s2 = save_embeddings_index sc (s1\<lparr>js_index := dput sc (ddel k ?idx) (js_index s1)\<rparr>)"
  have "wf_dict ?idx" using s0 by (simp add: json_wf_def wf_load_embeddings)
  then have s2: "json_wf s2 \<and> json_val s2 = json_val s1 \<and> json_emb s2 sc = dget (ddel k ?idx)"
    using write_index [OF s1(2) assms(2) _ s2_def] by simp
  have del: "json_delete sc s k = Inr (if k \<in> fst ` set ?idx then s2 else s1)"
    using key_to_path_good [OF assms(3), of sc] p s1(1) e0
    by (simp add: json_delete_def s2_def)
  have v: "json_val s0 = (json_val s)(json_loc sc k := None)" using v0 by blast
  show ?thesis
  proof (cases "k \<in> fst ` set ?idx")
    case True
    then show ?thesis using del s2 s1 v by (simp add: dict_simps)
  next
    case False
    then have "json_emb s1 sc k = None" by (simp add: json_emb_def s1(5) dget_None_iff)
    with False show ?thesis using del s1 v by simp
  qed
qed

lemma json_embed_law:
  assumes "json_wf s" and "json_scope_ok sc" and "json_save_embedding sc s k v = Inr s'"
  shows "json_wf s' \<and> json_val s' = json_val s \<and> json_emb s' sc = (json_emb s sc)(k \<mapsto> v)"
proof -
  let ?idx = "load_embeddings (js_fs s) sc"
  obtain s1 where s1: "get_embeddings sc s = (?idx, s1)" "json_wf s1" "json_val s1 = json_val s"
    by (rule get_embeddings_law [OF assms(1,2)]) blast
  have s': "s' = save_embeddings_index sc (s1\<lparr>js_index := dput sc (dput k v ?idx) (js_index s1)\<rparr>)"
    using assms(3) by (simp add: json_save_embedding_def s1(1) split: if_splits)
  have "wf_dict ?idx" using assms(1) by (simp add: json_wf_def wf_load_embeddings)
  then show ?thesis
    using write_index [OF s1(2) assms(2) _ s'] s1(3) by (simp add: json_emb_def fun_eq_iff dict_simps)
qed

lemma distinct_map_fst_subseq: "wf_dict d \<Longrightarrow> distinct (map fst (filter P d))"
  by (simp add: wf_dict_def distinct_map_filter)

lemma distinct_take_sort:
  "distinct (map fst xs) \<Longrightarrow> distinct (map fst (take n (sort_desc f xs)))"
proof -
  assume "distinct (map fst xs)"
  then have "distinct (map fst (sort_desc f xs))"
    by (metis mset_sort_desc mset_map mset_eq_imp_distinct_iff)
  then show ?thesis by (metis distinct_take take_map)
qed

lemma json_search_law:
  assumes "json_wf s" and "json_scope_ok sc" and "json_search dot norm2 sc s v n p = Inr (rs, s')"
  shows "json_wf s' \<and> json_val s' = json_val s \<and> json_emb s' = json_emb s \<and> length rs \<le> n \<and>
    distinct (map fst rs) \<and> sorted_wrt (\<lambda>a b. snd b \<le> snd a) rs \<and>
    (\<forall>r \<in> set rs. prefix p (fst r) \<and> json_emb s sc (fst r) \<noteq> None \<and> 0 \<le> snd r \<and> snd r \<le> 1)"
proof -
  let ?idx = "load_embeddings (js_fs s) sc"
  let ?f = "\<lambda>(k, w). (k, max 0 (min 1 (dot v w / (norm2 v * norm2 w))))"
  let ?hits = "map ?f (filter (\<lambda>(k, w). prefix p k \<and> norm2 w \<noteq> 0) ?idx)"
  obtain s1 where s1: "get_embeddings sc s = (?idx, s1)" "json_wf s1" "json_val s1 = json_val s"
    "json_emb s1 = json_emb s"
    by (rule get_embeddings_law [OF assms(1,2)]) blast
  have rs: "s' = s1" "rs = [] \<or> rs = take n (sort_desc snd ?hits)"
    using assms(3) by (auto simp: json_search_def s1(1) split: if_splits)
  have "wf_dict ?idx" using assms(1) by (simp add: json_wf_def wf_load_embeddings)
  moreover have "map fst ?hits = map fst (filter (\<lambda>(k, w). prefix p k \<and> norm2 w \<noteq> 0) ?idx)"
    by (simp add: split_def comp_def)
  ultimately have d: "distinct (map fst ?hits)" by (simp only: distinct_map_fst_subseq)
  have mem: "prefix p (fst r) \<and> json_emb s sc (fst r) \<noteq> None \<and> 0 \<le> snd r \<and> snd r \<le> 1"
    if r: "r \<in> set ?hits" for r
  proof -
    obtain k w where "(k, w) \<in> set ?idx" "prefix p k" "r = ?f (k, w)" using r by auto
    then show ?thesis by (auto simp: json_emb_def dget_None_iff image_iff split: prod.split) force
  qed
  let ?r = "take n (sort_desc snd ?hits)"
  have "set ?r \<subseteq> set ?hits"
    using set_take_subset [of n "sort_desc snd ?hits"] by (simp only: set_sort_desc)
  then have m: "\<forall>r \<in> set ?r. prefix p (fst r) \<and> json_emb s sc (fst r) \<noteq> None \<and> 0 \<le> snd r \<and> snd r \<le> 1"
    using mem by blast
  have "sorted_wrt (\<lambda>a b. snd b \<le> snd a) ?r" by (rule sorted_wrt_take [OF sort_desc_sorted])
  moreover have "length ?r \<le> n" by simp
  ultimately have "rs = ?r \<Longrightarrow> ?thesis"
    using rs(1) s1(2-4) distinct_take_sort [OF d, of n snd] m by (simp only: simp_thms)
  moreover have "rs = [] \<Longrightarrow> ?thesis" using rs(1) s1(2-4) by simp
  ultimately show ?thesis using rs(2) by blast
qed

interpretation json: storage "json_backend dot norm2" json_loc json_val json_emb json_wf json_scope_ok
    good_key json_plain "\<lambda>m d. d"
  for dot norm2
proof (unfold_locales, goal_cases)
  case (6 s sc k d)
  then show ?case
    using write_doc [of s k _ sc d] by (simp add: json_backend_def json_save_def key_to_path_good)
next
  case (8 s sc p)
  then show ?case using json_list_law [of s sc p] by (auto simp: json_backend_def)
next
  case (10 s sc v n p rs s')
  then show ?case using json_search_law [of s sc dot norm2 v n p rs s'] by (simp add: json_backend_def)
next
  case (11 s sc k m)
  then show ?case by (simp add: json_backend_def option.map_ident fun_eq_iff)
qed (auto simp: json_plain_def json_backend_def json_load_law json_delete_law meta_keeps_def
      dest: json_loc_inj json_embed_law split: doc.split)

end
