(* ===== verification/PgStorage.thy ===== *)
theory PgStorage
  imports Storage
begin

text \<open>
  \<open>engramia/providers/postgres.py\<close>: the tables \<open>memory_data\<close> and
  \<open>memory_embeddings\<close> keyed by (tenant, project, key), which is the primary key since
  migration 019. pgvector's cosine distance is a parameter; the HNSW index is taken to answer
  the ORDER BY exactly. \<open>ORDER BY key\<close> uses code point order. A statement that fails
  in the database itself is not modelled here.
\<close>

type_synonym row_key = "string \<times> string \<times> string"

record pg_row =
  row_data :: doc
  row_classification :: string
  row_source :: "string option"
  row_run_id :: "string option"
  row_author :: "string option"
  row_redacted :: bool
  row_expires_at :: "string option"

record pg_store =
  pg_data :: "(row_key, pg_row) dict"
  pg_emb :: "(row_key, real list) dict"

definition row_key :: "scope \<Rightarrow> string \<Rightarrow> row_key" where
  "row_key sc k = (sc_tenant sc, sc_project sc, k)"

definition in_scope :: "string \<Rightarrow> string \<Rightarrow> row_key \<Rightarrow> bool" where
  "in_scope t p rk \<longleftrightarrow> fst rk = t \<and> fst (snd rk) = p"

section \<open>Documents\<close>

definition pg_load :: "scope \<Rightarrow> pg_store \<Rightarrow> string \<Rightarrow> doc option res" where
  "pg_load sc s k = Inr (map_option row_data (dget (pg_data s) (row_key sc k)))"

text \<open>INSERT with the column defaults, ON CONFLICT only the data changes.\<close>

definition new_row :: "doc \<Rightarrow> pg_row" where
  "new_row d = \<lparr>row_data = d, row_classification = ''internal'', row_source = None,
     row_run_id = None, row_author = None, row_redacted = False, row_expires_at = None\<rparr>"

definition pg_save :: "scope \<Rightarrow> pg_store \<Rightarrow> string \<Rightarrow> doc \<Rightarrow> pg_store res" where
  "pg_save sc s k d =
     (let row = (case dget (pg_data s) (row_key sc k) of
                   None \<Rightarrow> new_row d
                 | Some r \<Rightarrow> r\<lparr>row_data := d\<rparr>)
      in Inr (s\<lparr>pg_data := dput (row_key sc k) row (pg_data s)\<rparr>))"

definition scope_keys :: "scope \<Rightarrow> string \<Rightarrow> (row_key, 'a) dict \<Rightarrow> string list" where
  "scope_keys sc p d =
     map (snd \<circ> snd) (filter (\<lambda>rk. in_scope (sc_tenant sc) (sc_project sc) rk \<and> prefix p (snd (snd rk)))
       (dkeys d))"

definition pg_list_keys :: "scope \<Rightarrow> pg_store \<Rightarrow> string \<Rightarrow> string list res" where
  "pg_list_keys sc s p = Inr (sort (scope_keys sc p (pg_data s)))"

definition pg_count_patterns :: "scope \<Rightarrow> pg_store \<Rightarrow> string \<Rightarrow> nat res" where
  "pg_count_patterns sc s p = Inr (length (scope_keys sc p (pg_data s)))"

definition pg_delete :: "scope \<Rightarrow> pg_store \<Rightarrow> string \<Rightarrow> pg_store res" where
  "pg_delete sc s k =
     Inr (s\<lparr>pg_data := ddel (row_key sc k) (pg_data s), pg_emb := ddel (row_key sc k) (pg_emb s)\<rparr>)"

definition pg_delete_scope :: "pg_store \<Rightarrow> string \<Rightarrow> string \<Rightarrow> (nat \<times> pg_store) res" where
  "pg_delete_scope s t p =
     Inr (length (filter (\<lambda>(rk, r). in_scope t p rk) (pg_data s)),
          s\<lparr>pg_emb := filter (\<lambda>(rk, v). \<not> in_scope t p rk) (pg_emb s),
            pg_data := filter (\<lambda>(rk, r). \<not> in_scope t p rk) (pg_data s)\<rparr>)"

section \<open>Embeddings\<close>

text \<open>\<open>_vec_to_pg\<close> prints eight decimals, so that is what is stored and compared.\<close>

definition vec_to_pg :: "real list \<Rightarrow> real list" where
  "vec_to_pg v = map (py_round 8) v"

definition pg_save_embedding :: "nat \<Rightarrow> scope \<Rightarrow> pg_store \<Rightarrow> string \<Rightarrow> real list \<Rightarrow> pg_store res" where
  "pg_save_embedding edim sc s k v =
     (if length v \<noteq> edim then Inl (ValueError ''Embedding dimension mismatch'')
      else Inr (s\<lparr>pg_emb := dput (row_key sc k) (vec_to_pg v) (pg_emb s)\<rparr>))"

definition pg_search ::
  "nat \<Rightarrow> (real list \<Rightarrow> real list \<Rightarrow> real) \<Rightarrow> scope \<Rightarrow> pg_store \<Rightarrow> real list \<Rightarrow> nat \<Rightarrow> string
   \<Rightarrow> ((string \<times> real) list \<times> pg_store) res" where
  "pg_search edim cdist sc s v n p =
     (if length v \<noteq> edim then Inl (ValueError ''Query embedding dimension'')
      else Inr (map (\<lambda>(rk, w). (snd (snd rk), 1 - cdist w (vec_to_pg v)))
             (take n (sort_key (\<lambda>(rk, w). cdist w (vec_to_pg v))
               (filter (\<lambda>(rk, w). in_scope (sc_tenant sc) (sc_project sc) rk \<and> prefix p (snd (snd rk)))
                 (pg_emb s)))), s))"

section \<open>Governance metadata\<close>

text \<open>
  \<open>jsonb_set\<close> at \<open>{design, f}\<close>: creates or replaces f when design is an object,
  leaves the value alone when design is missing or a scalar, and raises when the path meets
  an array (\<open>None\<close>), in which case no column changes.
\<close>

definition jsonb_set_design :: "string \<Rightarrow> string \<Rightarrow> doc \<Rightarrow> doc option" where
  "jsonb_set_design f v d =
     (case d of
        DDict x \<Rightarrow>
          (case dget x ''design'' of
             Some (JObj y) \<Rightarrow> Some (DDict (dput ''design'' (JObj (dput f (JStr v) y)) x))
           | Some (JList ys) \<Rightarrow> None
           | _ \<Rightarrow> Some d)
      | DMetrics m \<Rightarrow> Some d
      | DSkills r \<Rightarrow> Some d
      | _ \<Rightarrow> None)"

definition set_opt :: "string \<Rightarrow> string option \<Rightarrow> doc \<Rightarrow> doc option" where
  "set_opt f v d = (case v of None \<Rightarrow> Some d | Some x \<Rightarrow> jsonb_set_design f x d)"

definition mirror_design :: "pattern_meta \<Rightarrow> doc \<Rightarrow> doc option" where
  "mirror_design m d =
     Option.bind (set_opt ''classification'' (pm_classification m) d) (set_opt ''source'' (pm_source m))"

definition keep_or :: "'a option \<Rightarrow> 'a option \<Rightarrow> 'a option" where
  "keep_or new old = (case new of None \<Rightarrow> old | Some x \<Rightarrow> Some x)"

definition update_row :: "pattern_meta \<Rightarrow> doc \<Rightarrow> pg_row \<Rightarrow> pg_row" where
  "update_row m d r =
     r\<lparr>row_data := d,
       row_classification := (case pm_classification m of None \<Rightarrow> row_classification r | Some c \<Rightarrow> c),
       row_source := keep_or (pm_source m) (row_source r),
       row_run_id := keep_or (pm_run_id m) (row_run_id r),
       row_author := keep_or (pm_author m) (row_author r),
       row_redacted := (case pm_redacted m of None \<Rightarrow> row_redacted r | Some b \<Rightarrow> b),
       row_expires_at := keep_or (pm_expires_at m) (row_expires_at r)\<rparr>"

definition pg_save_pattern_meta :: "scope \<Rightarrow> pg_store \<Rightarrow> string \<Rightarrow> pattern_meta \<Rightarrow> pg_store" where
  "pg_save_pattern_meta sc s k m =
     (case dget (pg_data s) (row_key sc k) of
        None \<Rightarrow> s
      | Some r \<Rightarrow>
          (case mirror_design m (row_data r) of
             None \<Rightarrow> s
           | Some d \<Rightarrow> s\<lparr>pg_data := dput (row_key sc k) (update_row m d r) (pg_data s)\<rparr>))"

definition pg_backend :: "nat \<Rightarrow> (real list \<Rightarrow> real list \<Rightarrow> real) \<Rightarrow> pg_store backend" where
  "pg_backend edim cdist =
     \<lparr>be_load = pg_load, be_save = pg_save, be_list_keys = pg_list_keys, be_delete = pg_delete,
      be_save_embedding = pg_save_embedding edim, be_search = pg_search edim cdist,
      be_save_meta = pg_save_pattern_meta\<rparr>"

section \<open>The storage contract\<close>

definition pg_val :: "pg_store \<Rightarrow> row_key \<Rightarrow> doc option" where
  "pg_val s rk = map_option row_data (dget (pg_data s) rk)"

definition pg_vec :: "pg_store \<Rightarrow> scope \<Rightarrow> string \<Rightarrow> real list option" where
  "pg_vec s sc k = dget (pg_emb s) (row_key sc k)"

definition pg_wf :: "pg_store \<Rightarrow> bool" where
  "pg_wf s \<longleftrightarrow> wf_dict (pg_data s) \<and> wf_dict (pg_emb s)"

definition metaf :: "pattern_meta \<Rightarrow> doc \<Rightarrow> doc" where
  "metaf m d = (case mirror_design m d of None \<Rightarrow> d | Some d' \<Rightarrow> d')"

lemma row_key_inj [simp]: "row_key sc k = row_key sc' k' \<longleftrightarrow> sc = sc' \<and> k = k'"
  by (cases sc; cases sc') (auto simp: row_key_def)

lemma in_scope_row_key [simp]: "in_scope (sc_tenant sc) (sc_project sc) (row_key sc k)"
  by (simp add: in_scope_def row_key_def)

lemma in_scopeE: "in_scope (sc_tenant sc) (sc_project sc) rk \<Longrightarrow> rk = row_key sc (snd (snd rk))"
  by (cases rk) (simp add: in_scope_def row_key_def)

lemma scope_keys:
  assumes "wf_dict d"
  shows "distinct (scope_keys sc p d) \<and>
    set (scope_keys sc p d) = {k. prefix p k \<and> dget d (row_key sc k) \<noteq> None}"
proof
  have "inj_on (snd \<circ> snd) {rk. in_scope (sc_tenant sc) (sc_project sc) rk}"
    by (auto simp: inj_on_def in_scope_def)
  then show "distinct (scope_keys sc p d)"
    using assms by (auto simp: scope_keys_def distinct_map wf_dict_def intro: inj_on_subset)
  show "set (scope_keys sc p d) = {k. prefix p k \<and> dget d (row_key sc k) \<noteq> None}"
  proof (intro set_eqI iffI)
    fix k assume "k \<in> set (scope_keys sc p d)"
    then obtain rk where "rk \<in> fst ` set d" "in_scope (sc_tenant sc) (sc_project sc) rk"
      "prefix p (snd (snd rk))" "k = snd (snd rk)" by (auto simp: scope_keys_def)
    then show "k \<in> {k. prefix p k \<and> dget d (row_key sc k) \<noteq> None}"
      by (metis (mono_tags, lifting) dget_None_iff in_scopeE mem_Collect_eq)
  next
    fix k assume "k \<in> {k. prefix p k \<and> dget d (row_key sc k) \<noteq> None}"
    then have "row_key sc k \<in> fst ` set d" "prefix p k" by (simp_all add: dget_None_iff)
    then show "k \<in> set (scope_keys sc p d)"
      by (auto simp: scope_keys_def image_iff row_key_def in_scope_def intro!: bexI [of _ "row_key sc k"])
  qed
qed

lemma pg_search_law:
  assumes "pg_wf s" and "pg_search edim cdist sc s v n p = Inr (rs, s')"
  shows "s' = s \<and> length rs \<le> n \<and> distinct (map fst rs) \<and> sorted_wrt (\<lambda>a b. snd b \<le> snd a) rs \<and>
    (\<forall>r \<in> set rs. prefix p (fst r) \<and> pg_vec s sc (fst r) \<noteq> None)"
proof -
  let ?P = "\<lambda>(rk, w). in_scope (sc_tenant sc) (sc_project sc) rk \<and> prefix p (snd (snd rk))"
  let ?d = "\<lambda>(rk, w). cdist w (vec_to_pg v)"
  let ?xs = "sort_key ?d (filter ?P (pg_emb s))"
  let ?f = "\<lambda>(rk, w). (snd (snd rk), 1 - cdist w (vec_to_pg v))"
  have rs: "s' = s" "rs = map ?f (take n ?xs)" using assms(2) by (auto simp: pg_search_def split: if_splits)
  have "sorted (map ?d ?xs)" by (rule sorted_sort_key)
  then have "sorted_wrt (\<lambda>a b. ?d a \<le> ?d b) (take n ?xs)"
    unfolding sorted_wrt_map by (rule sorted_wrt_take)
  then have srt: "sorted_wrt (\<lambda>a b. snd b \<le> snd a) rs"
    unfolding rs(2) sorted_wrt_map by (rule sorted_wrt_mono_rel [rotated]) (simp add: split_def)
  have "inj_on (\<lambda>r. snd (snd (fst r))) (set ?xs)"
  proof (rule inj_onI)
    fix a b assume ab: "a \<in> set ?xs" "b \<in> set ?xs" "snd (snd (fst a)) = snd (snd (fst b))"
    then have "fst a = fst b" by (auto simp: in_scope_def prod_eq_iff)
    with ab show "a = b"
      using assms(1) by (auto simp: pg_wf_def wf_dict_def) (metis eq_key_imp_eq_value prod.collapse snd_conv)
  qed
  then have "inj_on (\<lambda>r. snd (snd (fst r))) (set (take n ?xs))" by (rule inj_on_subset) (rule set_take_subset)
  moreover have "distinct (take n ?xs)"
    using assms(1) by (simp add: pg_wf_def wf_dict_def distinct_map)
  ultimately have dst: "distinct (map fst rs)" by (simp add: rs(2) distinct_map split_def comp_def)
  have "\<forall>r \<in> set rs. prefix p (fst r) \<and> pg_vec s sc (fst r) \<noteq> None"
  proof
    fix r assume "r \<in> set rs"
    then obtain x where "x \<in> set (take n ?xs)" "r = ?f x" unfolding rs(2) set_map by blast
    from in_set_takeD [OF this(1)] have "x \<in> set (filter ?P (pg_emb s))" by (simp only: set_sort)
    then obtain rk w where x: "x = (rk, w)" "(rk, w) \<in> set (pg_emb s)" "prefix p (snd (snd rk))"
      "in_scope (sc_tenant sc) (sc_project sc) rk" by (cases x rule: prod.exhaust) auto
    have "rk \<in> fst ` set (pg_emb s)" using x(2) by (metis fst_conv imageI)
    then have "dget (pg_emb s) rk \<noteq> None" by (simp add: dget_None_iff)
    then have "pg_vec s sc (snd (snd rk)) \<noteq> None" unfolding pg_vec_def in_scopeE [OF x(4), symmetric] .
    with x(3) \<open>r = ?f x\<close> show "prefix p (fst r) \<and> pg_vec s sc (fst r) \<noteq> None" by (simp add: x(1))
  qed
  moreover have "length rs \<le> n" by (simp add: rs(2))
  ultimately show ?thesis using rs(1) srt dst by blast
qed

lemma set_opt_keeps: "set_opt f v d = Some d' \<Longrightarrow>
    (case d of DDict x \<Rightarrow> (\<exists>y. d' = DDict y \<and> (\<forall>k. k \<noteq> ''design'' \<longrightarrow> dget y k = dget x k)) | _ \<Rightarrow> d' = d)"
  by (auto simp: set_opt_def jsonb_set_design_def dict_simps
      split: option.splits doc.splits json.splits)

lemma metaf_keeps: "meta_keeps metaf"
  unfolding meta_keeps_def
proof (intro allI)
  fix m d
  show "case d of DDict x \<Rightarrow> (\<exists>y. metaf m d = DDict y \<and> (\<forall>k. k \<noteq> ''design'' \<longrightarrow> dget y k = dget x k))
    | _ \<Rightarrow> metaf m d = d"
  proof (cases "mirror_design m d")
    case None
    then have "metaf m d = d" by (simp add: metaf_def)
    then show ?thesis by (cases d) simp_all
  next
    case (Some d')
    then obtain d1 where "set_opt ''classification'' (pm_classification m) d = Some d1"
      "set_opt ''source'' (pm_source m) d1 = Some d'"
      by (auto simp: mirror_design_def bind_eq_Some_conv)
    from this [THEN set_opt_keeps] have "case d of DDict x \<Rightarrow>
        (\<exists>y. d' = DDict y \<and> (\<forall>k. k \<noteq> ''design'' \<longrightarrow> dget y k = dget x k)) | _ \<Rightarrow> d' = d"
      by (cases d) auto
    moreover have "metaf m d = d'" by (simp add: metaf_def Some)
    ultimately show ?thesis by (simp only:)
  qed
qed

interpretation pg: storage "pg_backend edim cdist" row_key pg_val pg_vec pg_wf "\<lambda>sc. True"
    "\<lambda>k. True" "\<lambda>k. True" metaf
  for edim cdist
proof (unfold_locales, goal_cases)
  case (8 s sc p)
  then show ?case
    using scope_keys [of "pg_data s" sc p]
    by (auto simp: pg_backend_def pg_list_keys_def pg_wf_def pg_val_def)
next
  case (10 s sc v n p rs s')
  then show ?case using pg_search_law [of s edim cdist sc v n p rs s'] by (simp add: pg_backend_def)
next
  case (11 s sc k m)
  then show ?case
    by (auto simp: pg_backend_def pg_save_pattern_meta_def pg_val_def pg_wf_def metaf_def update_row_def
        pg_vec_def fun_eq_iff dict_simps split: option.split)
next
  case 12
  show ?case by (rule metaf_keeps)
qed (auto simp: pg_backend_def pg_load_def pg_val_def pg_save_def pg_wf_def pg_vec_def fun_eq_iff
      pg_delete_def pg_save_embedding_def vec_to_pg_def dict_simps new_row_def
      split: option.split if_splits)

section \<open>The overriding bulk operations agree with the inherited ones\<close>

lemma filter_as_del:
  "wf_dict d \<Longrightarrow> dget (filter (\<lambda>(rk, r). \<not> in_scope t p rk) d) rk = (if in_scope t p rk then None else dget d rk)"
  by (induction d) (auto simp: wf_dict_def)

lemma pg_count_patterns_list:
  "pg_count_patterns sc s p = count_patterns (pg_backend edim cdist) sc s p"
  by (simp add: pg_count_patterns_def count_patterns_def pg_backend_def pg_list_keys_def)

lemma pg_delete_scope_val:
  assumes "pg_wf s" and "pg_delete_scope s t p = Inr (n, s')"
  shows "pg_val s' rk = (if in_scope t p rk then None else pg_val s rk)"
    and "dget (pg_emb s') rk = (if in_scope t p rk then None else dget (pg_emb s) rk)"
    and "n = length (scope_keys \<lparr>sc_tenant = t, sc_project = p\<rparr> [] (pg_data s))"
proof -
  have s': "s' = s\<lparr>pg_emb := filter (\<lambda>(rk, v). \<not> in_scope t p rk) (pg_emb s),
      pg_data := filter (\<lambda>(rk, r). \<not> in_scope t p rk) (pg_data s)\<rparr>"
    and n: "n = length (filter (\<lambda>(rk, r). in_scope t p rk) (pg_data s))"
    using assms(2) by (simp_all add: pg_delete_scope_def)
  show "pg_val s' rk = (if in_scope t p rk then None else pg_val s rk)"
    "dget (pg_emb s') rk = (if in_scope t p rk then None else dget (pg_emb s) rk)"
    using assms(1) by (simp_all add: s' pg_val_def filter_as_del pg_wf_def)
  show "n = length (scope_keys \<lparr>sc_tenant = t, sc_project = p\<rparr> [] (pg_data s))"
    by (simp add: n scope_keys_def filter_map split_def comp_def)
qed

end
