(* ===== verification/MetricsStore.thy ===== *)
theory MetricsStore
  imports JsonStorage PgStorage
begin

text \<open>
  \<open>engramia/core/metrics.py\<close>: run counters of a scope, one document per scope.
  \<open>metrics_of\<close> is what the document promises, a summary of the runs of all runs;
  \<open>record_runs_doc\<close> shows the stored document refines it.
\<close>

record metrics =
  mt_runs :: nat
  mt_success :: nat
  mt_failures :: nat
  mt_reuse :: nat
  mt_success_rate :: real

definition MAX_HISTORY :: nat where "MAX_HISTORY = 100"

definition metrics_key :: "scope \<Rightarrow> string" where
  "metrics_key sc = ''metrics/'' @ sc_tenant sc @ ''/'' @ sc_project sc @ ''/_global''"

definition empty_metrics :: metrics_doc where
  "empty_metrics = \<lparr>md_runs = 0, md_success = 0, md_failures = 0, md_reuse = 0, md_history = []\<rparr>"

definition load_metrics :: "'s backend \<Rightarrow> scope \<Rightarrow> 's \<Rightarrow> metrics_doc res" where
  "load_metrics B sc s = bind_res (be_load B sc s (metrics_key sc)) (\<lambda>d.
     case d of
       None \<Rightarrow> Inr empty_metrics
     | Some (DMetrics m) \<Rightarrow> Inr m
     | Some _ \<Rightarrow> Inl (KeyError ''runs''))"

text \<open>One recorded run: time, success, whether a pattern was reused, the eval score.\<close>

record run =
  run_ts :: real
  run_success :: bool
  run_reuse :: bool
  run_score :: "real option"

definition add_run :: "run \<Rightarrow> metrics_doc \<Rightarrow> metrics_doc" where
  "add_run r m =
     \<lparr>md_runs = md_runs m + 1,
      md_success = md_success m + (if run_success r then 1 else 0),
      md_failures = md_failures m + (if run_success r then 0 else 1),
      md_reuse = md_reuse m + (if run_reuse r then 1 else 0),
      md_history = last_n MAX_HISTORY (md_history m @
        [\<lparr>re_ts = run_ts r, re_success = run_success r, re_eval_score = run_score r\<rparr>])\<rparr>"

definition record_run :: "'s backend \<Rightarrow> scope \<Rightarrow> 's \<Rightarrow> run \<Rightarrow> 's res" where
  "record_run B sc s r = bind_res (load_metrics B sc s) (\<lambda>m.
     be_save B sc s (metrics_key sc) (DMetrics (add_run r m)))"

definition get_metrics :: "'s backend \<Rightarrow> scope \<Rightarrow> 's \<Rightarrow> metrics res" where
  "get_metrics B sc s = bind_res (load_metrics B sc s) (\<lambda>m.
     Inr \<lparr>mt_runs = md_runs m, mt_success = md_success m, mt_failures = md_failures m,
          mt_reuse = md_reuse m,
          mt_success_rate =
            (if 0 < md_runs m then py_round 3 (real (md_success m) / real (md_runs m)) else 0)\<rparr>)"

section \<open>The runs the document summarises\<close>

definition run_entry_of :: "run \<Rightarrow> run_entry" where
  "run_entry_of r = \<lparr>re_ts = run_ts r, re_success = run_success r, re_eval_score = run_score r\<rparr>"

definition metrics_of :: "run list \<Rightarrow> metrics_doc" where
  "metrics_of runs =
     \<lparr>md_runs = length runs,
      md_success = length (filter run_success runs),
      md_failures = length (filter (\<lambda>r. \<not> run_success r) runs),
      md_reuse = length (filter run_reuse runs),
      md_history = last_n MAX_HISTORY (map run_entry_of runs)\<rparr>"

lemma last_n_last_n_snoc: "0 < n \<Longrightarrow> last_n n (last_n n xs @ [x]) = last_n n (xs @ [x])"
  by (cases "length xs < n") (auto simp: last_n_def Suc_diff_le)

lemma add_run_metrics_of: "add_run r (metrics_of runs) = metrics_of (runs @ [r])"
  by (simp add: add_run_def metrics_of_def last_n_last_n_snoc MAX_HISTORY_def run_entry_of_def)

lemma metrics_of_Nil: "metrics_of [] = empty_metrics"
  by (simp add: metrics_of_def empty_metrics_def last_n_def)

fun record_runs :: "'s backend \<Rightarrow> scope \<Rightarrow> 's \<Rightarrow> run list \<Rightarrow> 's res" where
  "record_runs B sc s [] = Inr s"
| "record_runs B sc s (r # rs) = bind_res (record_run B sc s r) (\<lambda>s'. record_runs B sc s' rs)"

lemma metrics_of_bounds:
  "md_success (metrics_of runs) + md_failures (metrics_of runs) = md_runs (metrics_of runs)"
  "md_reuse (metrics_of runs) \<le> md_runs (metrics_of runs)"
  "length (md_history (metrics_of runs)) = min MAX_HISTORY (length runs)"
  by (simp_all add: metrics_of_def sum_length_filter_compl)

context storage
begin

lemma record_run_doc:
  assumes "wf s" and "okscope sc" and "good (metrics_key sc)"
    and "load_metrics B sc s = Inr (metrics_of runs)"
  shows "\<exists>s'. record_run B sc s r = Inr s' \<and> wf s' \<and> emb s' = emb s \<and>
    val s' = (val s)(loc sc (metrics_key sc) \<mapsto> DMetrics (metrics_of (runs @ [r]))) \<and>
    load_metrics B sc s' = Inr (metrics_of (runs @ [r]))"
proof -
  obtain s' where s': "be_save B sc s (metrics_key sc) (DMetrics (metrics_of (runs @ [r]))) = Inr s'"
    "wf s'" "val s' = (val s)(loc sc (metrics_key sc) \<mapsto> DMetrics (metrics_of (runs @ [r])))" "emb s' = emb s"
    by (rule save_ok [OF assms(1-3)])
  then have "load_metrics B sc s' = Inr (metrics_of (runs @ [r]))"
    using assms(2,3) by (simp add: load_metrics_def load_law)
  with s' show ?thesis by (simp add: record_run_def assms(4) add_run_metrics_of)
qed

lemma record_runs_doc:
  assumes "wf s" and "okscope sc" and "good (metrics_key sc)"
    and "load_metrics B sc s = Inr (metrics_of runs)"
  shows "\<exists>s'. record_runs B sc s rs = Inr s' \<and> wf s' \<and> load_metrics B sc s' = Inr (metrics_of (runs @ rs)) \<and>
    (\<forall>l. l \<noteq> loc sc (metrics_key sc) \<longrightarrow> val s' l = val s l)"
  using assms
proof (induction rs arbitrary: s runs)
  case (Cons r rs)
  obtain s1 where s1: "record_run B sc s r = Inr s1" "wf s1"
    "val s1 = (val s)(loc sc (metrics_key sc) \<mapsto> DMetrics (metrics_of (runs @ [r])))"
    "load_metrics B sc s1 = Inr (metrics_of (runs @ [r]))"
    using record_run_doc [OF Cons.prems] by blast
  from Cons.IH [OF s1(2) Cons.prems(2,3) s1(4)] s1 show ?case by auto
qed simp

lemma load_metrics_fresh:
  "wf s \<Longrightarrow> okscope sc \<Longrightarrow> good (metrics_key sc) \<Longrightarrow> val s (loc sc (metrics_key sc)) = None \<Longrightarrow>
   load_metrics B sc s = Inr (metrics_of [])"
  by (simp add: load_metrics_def load_law metrics_of_Nil)

lemma fresh_runs:
  assumes "wf s" and "okscope sc" and "good (metrics_key sc)" and "val s (loc sc (metrics_key sc)) = None"
  shows "\<exists>s'. record_runs B sc s runs = Inr s' \<and>
    get_metrics B sc s' = Inr \<lparr>mt_runs = length runs, mt_success = length (filter run_success runs),
      mt_failures = length runs - length (filter run_success runs), mt_reuse = length (filter run_reuse runs),
      mt_success_rate = (if runs = [] then 0
        else py_round 3 (real (length (filter run_success runs)) / real (length runs)))\<rparr>"
proof -
  obtain s' where "record_runs B sc s runs = Inr s'" "load_metrics B sc s' = Inr (metrics_of runs)"
    using record_runs_doc [OF assms(1-3) load_metrics_fresh [OF assms], of runs] by auto
  moreover have "length (filter (\<lambda>r. \<not> run_success r) runs) = length runs - length (filter run_success runs)"
    using sum_length_filter_compl [of run_success runs] by linarith
  ultimately show ?thesis by (simp add: get_metrics_def metrics_of_def)
qed

end

lemma success_rate_bounds:
  assumes "get_metrics B sc s = Inr m" and "load_metrics B sc s = Inr (metrics_of runs)"
  shows "0 \<le> mt_success_rate m \<and> mt_success_rate m \<le> 1"
proof -
  have "real (length (filter run_success runs)) / real (length runs) \<le> of_int 1"
    by (auto simp: divide_le_eq)
  from py_round_le [OF this, of 3] show ?thesis
    using assms py_round_nonneg [of "real (length (filter run_success runs)) / real (length runs)" 3]
    by (auto simp: get_metrics_def metrics_of_def)
qed

end
