(* ===== verification/PyTime.thy ===== *)
theory PyTime
  imports PyText
begin

text \<open>
  Calendar time. Timestamps are whole seconds since 1970-01-01T00:00:00Z; the proleptic
  Gregorian calendar of \<open>time.gmtime\<close> is reached by stepping one day at a time.
  \<open>time.strftime\<close> and \<open>strptime\<close> with the formats of the sources, and the fact
  the text comparisons of the sources rest on: for years up to 9999 the text order of these
  strings is the order of the times.
\<close>

section \<open>The calendar\<close>

type_synonym date = "nat \<times> nat \<times> nat"

definition leap :: "nat \<Rightarrow> bool" where
  "leap y \<longleftrightarrow> y mod 4 = 0 \<and> (y mod 100 \<noteq> 0 \<or> y mod 400 = 0)"

definition month_days :: "nat \<Rightarrow> nat \<Rightarrow> nat" where
  "month_days y m =
     (if m = 2 then if leap y then 29 else 28
      else if m \<in> {4, 6, 9, 11} then 30 else 31)"

fun valid_date :: "date \<Rightarrow> bool" where
  "valid_date (y, m, d) \<longleftrightarrow> 1 \<le> y \<and> 1 \<le> m \<and> m \<le> 12 \<and> 1 \<le> d \<and> d \<le> month_days y m"

fun next_day :: "date \<Rightarrow> date" where
  "next_day (y, m, d) =
     (if d < month_days y m then (y, m, d + 1)
      else if m < 12 then (y, m + 1, 1) else (y + 1, 1, 1))"

definition civil :: "nat \<Rightarrow> date" where
  "civil n = (next_day ^^ n) (1970, 1, 1)"

lemma civil_0 [simp]: "civil 0 = (1970, 1, 1)"
  by (simp add: civil_def)

lemma civil_Suc: "civil (Suc n) = next_day (civil n)"
  by (simp add: civil_def)

lemma month_days_bounds: "28 \<le> month_days y m" "month_days y m \<le> 31"
  by (simp_all add: month_days_def)

lemma month_days_pos [simp]: "Suc 0 \<le> month_days y m" "0 < month_days y m"
  using month_days_bounds(1) [of y m] by simp_all

lemma valid_next_day: "valid_date x \<Longrightarrow> valid_date (next_day x)"
  by (cases x) auto

lemma valid_civil: "valid_date (civil n)"
proof (induction n)
  case 0
  show ?case by (simp add: month_days_def)
next
  case (Suc n)
  then show ?case by (simp only: civil_Suc valid_next_day)
qed

text \<open>Days since the epoch, in closed form (negative before 1970).\<close>

definition year_start :: "nat \<Rightarrow> int" where
  "year_start y = (let p = int y - 1 in 365 * p + p div 4 - p div 100 + p div 400)"

definition month_start :: "nat \<Rightarrow> nat \<Rightarrow> int" where
  "month_start y m = int (sum_list (map (month_days y) [1..<m]))"

fun days_of :: "date \<Rightarrow> int" where
  "days_of (y, m, d) = year_start y + month_start y m + int d - 1 - 719162"

lemma div_Suc_int: "int (Suc p) div int k = int p div int k + (if Suc p mod k = 0 then 1 else 0)"
  by (simp only: zdiv_int [symmetric] div_Suc) simp

lemma mod_400: "p mod 400 = 0 \<Longrightarrow> p mod 100 = (0::nat)" "p mod 100 = 0 \<Longrightarrow> p mod 4 = (0::nat)"
  using mod_mod_cancel [of 100 400 p] mod_mod_cancel [of 4 100 p] by simp_all

lemma year_start_p: "year_start (Suc p) = 365 * int p + int p div 4 - int p div 100 + int p div 400"
  by (simp add: year_start_def Let_def)

lemma year_shift:
  "Y' = 365 * (p + 1) + (a + i) - (b + j) + (c + k) \<Longrightarrow> i - j + k = l - (365::int) \<Longrightarrow>
   Y = 365 * p + a - b + c \<Longrightarrow> Y' = Y + l"
  by simp

lemma year_start_Suc:
  assumes "1 \<le> y"
  shows "year_start (Suc y) = year_start y + (if leap y then 366 else 365)"
proof -
  obtain p where y: "y = Suc p" using assms by (cases y) auto
  have "leap y \<longleftrightarrow> Suc p mod 4 = 0 \<and> (Suc p mod 100 \<noteq> 0 \<or> Suc p mod 400 = 0)"
    by (simp add: leap_def y)
  then have L: "(if Suc p mod 4 = 0 then 1 else 0) - (if Suc p mod 100 = 0 then 1 else 0)
      + (if Suc p mod 400 = 0 then 1 else 0) = (if leap y then 366 else 365) - (365::int)"
    (is "?a - ?b + ?c = ?l - _")
    using mod_400 [of "Suc p"] by (cases "Suc p mod 4 = 0"; cases "Suc p mod 100 = 0") auto
  have e: "int (Suc p) div 4 = int p div 4 + ?a" "int (Suc p) div 100 = int p div 100 + ?b"
      "int (Suc p) div 400 = int p div 400 + ?c"
    using div_Suc_int [of p 4] div_Suc_int [of p 100] div_Suc_int [of p 400]
    by (simp_all only: of_nat_numeral)
  have "year_start (Suc (Suc p)) = 365 * (int p + 1) + (int p div 4 + ?a) - (int p div 100 + ?b)
      + (int p div 400 + ?c)"
    by (simp only: year_start_p e) (simp only: of_nat_Suc add.commute)
  from year_shift [OF this L year_start_p] show ?thesis by (simp only: y)
qed

lemma month_start_Suc: "1 \<le> m \<Longrightarrow> month_start y (Suc m) = month_start y m + int (month_days y m)"
  by (simp add: month_start_def)

lemma month_start_1 [simp]: "month_start y (Suc 0) = 0"
  by (simp add: month_start_def)

lemma year_length: "month_start y 12 + int (month_days y 12) = (if leap y then 366 else 365)"
proof -
  have "[1..<12] = [1, 2, 3, 4, 5, 6, 7, 8, 9, 10, 11::nat]" by (simp add: upt_rec)
  then show ?thesis by (simp add: month_start_def month_days_def)
qed

lemma days_of_next: "valid_date x \<Longrightarrow> days_of (next_day x) = days_of x + 1"
proof (cases x)
  case (fields y m d)
  assume "valid_date x"
  with fields have v: "1 \<le> y" "1 \<le> m" "m \<le> 12" "d \<le> month_days y m" by simp_all
  note f = fields year_length [of y] year_start_Suc [OF v(1)] month_start_Suc [OF v(2)]
  consider "d < month_days y m" | "d = month_days y m" "m < 12" | "d = month_days y m" "m = 12"
    using v by linarith
  then show ?thesis
  proof cases
    case 1
    then show ?thesis using f by simp
  next
    case 2
    then show ?thesis using f by simp
  next
    case 3
    then show ?thesis using f by simp
  qed
qed

lemma days_of_civil: "days_of (civil n) = int n"
proof (induction n)
  case 0
  show ?case by (simp add: year_start_def)
next
  case (Suc n)
  then show ?case by (simp add: civil_Suc days_of_next [OF valid_civil])
qed

text \<open>Lexicographic order of dates.\<close>

fun date_less :: "date \<Rightarrow> date \<Rightarrow> bool" where
  "date_less (y, m, d) (y', m', d') \<longleftrightarrow> y < y' \<or> y = y' \<and> (m < m' \<or> m = m' \<and> d < d')"

lemma date_less_trans: "date_less a b \<Longrightarrow> date_less b c \<Longrightarrow> date_less a c"
  by (cases a; cases b; cases c) auto

lemma date_less_next: "valid_date x \<Longrightarrow> date_less x (next_day x)"
  by (cases x) auto

lemma civil_mono: "a < b \<Longrightarrow> date_less (civil a) (civil b)"
proof (induction b)
  case (Suc b)
  have "date_less (civil b) (civil (Suc b))"
    by (simp only: civil_Suc date_less_next [OF valid_civil])
  with Suc show ?case by (metis date_less_trans less_Suc_eq)
qed simp

lemma civil_year_mono: "a \<le> b \<Longrightarrow> fst (civil a) \<le> fst (civil b)"
  using civil_mono [of a b] by (cases "civil a"; cases "civil b") (auto simp: le_less)

section \<open>Formatting\<close>

definition digit :: "nat \<Rightarrow> char" where
  "digit k = char_of (48 + k)"

text \<open>A number zero-padded to w digits; the callers keep it below 10 to the w.\<close>

fun pad :: "nat \<Rightarrow> nat \<Rightarrow> string" where
  "pad 0 k = []"
| "pad (Suc w) k = pad w (k div 10) @ [digit (k mod 10)]"

fun date_str :: "date \<Rightarrow> string" where
  "date_str (y, m, d) = pad 4 y @ ''-'' @ pad 2 m @ ''-'' @ pad 2 d"

definition clock_str :: "nat \<Rightarrow> string" where
  "clock_str s = pad 2 (s div 3600) @ '':'' @ pad 2 (s div 60 mod 60) @ '':'' @ pad 2 (s mod 60)"

text \<open>\<open>time.strftime("%Y-%m-%dT%H:%M:%S", time.gmtime(t))\<close> with the separator a parameter.\<close>

definition stamp :: "char \<Rightarrow> nat \<Rightarrow> string" where
  "stamp sep t = date_str (civil (t div 86400)) @ sep # clock_str (t mod 86400)"

definition iso :: "nat \<Rightarrow> string" where
  "iso t = stamp CHR ''T'' t"

text \<open>Times whose year has four digits.\<close>

definition time_ok :: "nat \<Rightarrow> bool" where
  "time_ok t \<longleftrightarrow> fst (civil (t div 86400)) \<le> 9999"

lemma time_ok_mono: "s \<le> t \<Longrightarrow> time_ok t \<Longrightarrow> time_ok s"
  using civil_year_mono [of "s div 86400" "t div 86400"] by (simp add: time_ok_def div_le_mono)

lemma length_pad [simp]: "length (pad w k) = w"
  by (induction w arbitrary: k) auto

lemma length_date_str [simp]: "length (date_str x) = 10"
  by (cases x) simp

lemma length_clock_str [simp]: "length (clock_str s) = 8"
  by (simp add: clock_str_def)

lemma length_stamp [simp]: "length (stamp sep t) = 19"
  by (simp add: stamp_def)

lemma digit_inj: "a < 10 \<Longrightarrow> b < 10 \<Longrightarrow> digit a = digit b \<longleftrightarrow> a = b"
  using arg_cong [of "digit a" "digit b" "of_char :: char \<Rightarrow> nat"] by (auto simp: digit_def)

lemma digit_less: "a < b \<Longrightarrow> b < 10 \<Longrightarrow> digit a < digit b"
  by (simp add: digit_def less_char_def)

lemma append_less:
  "length xs = length ys \<Longrightarrow> xs @ (a::'a::linorder list) < ys @ b \<longleftrightarrow> xs < ys \<or> xs = ys \<and> a < b"
  by (induction xs ys rule: list_induct2) auto

lemma div_lex: "s < t \<Longrightarrow> s div k < t div k \<or> s div k = t div k \<and> s mod k < t mod (k::nat)"
  by (metis add_less_cancel_left div_le_mono div_mult_mod_eq le_eq_less_or_eq less_imp_le_nat)

lemma pad_less: "a < b \<Longrightarrow> b < 10 ^ w \<Longrightarrow> pad w a < pad w b"
proof (induction w arbitrary: a b)
  case (Suc w)
  have b: "b div 10 < 10 ^ w" using Suc.prems(2) by (simp add: less_mult_imp_div_less mult.commute)
  consider "a div 10 < b div 10" | "a div 10 = b div 10" "a mod 10 < b mod 10"
    using div_lex [OF Suc.prems(1)] by blast
  then show ?case
    by cases (auto simp: append_less digit_less dest: Suc.IH [OF _ b])
qed simp

lemma pad_eq: "a < 10 ^ w \<Longrightarrow> b < 10 ^ w \<Longrightarrow> pad w a = pad w b \<longleftrightarrow> a = b"
  by (metis pad_less less_irrefl linorder_neqE_nat)

lemma pad_less_iff: "a < 10 ^ w \<Longrightarrow> b < 10 ^ w \<Longrightarrow> pad w a < pad w b \<longleftrightarrow> a < b"
  by (metis pad_less less_asym less_irrefl linorder_neqE_nat)

lemma date_str_less:
  assumes "date_less x y" and "valid_date x" and "valid_date y" and "fst x \<le> 9999" and "fst y \<le> 9999"
  shows "date_str x < date_str y"
proof -
  obtain a b c where x: "x = (a, b, c)" by (cases x)
  obtain d e f where y: "y = (d, e, f)" by (cases y)
  have "c < 10 ^ 2" "f < 10 ^ 2" "b < 10 ^ 2" "e < 10 ^ 2" "a < 10 ^ 4" "d < 10 ^ 4"
    using assms x y month_days_bounds(2) [of a b] month_days_bounds(2) [of d e] by simp_all
  with assms(1) show ?thesis
    by (auto simp: x y append_less pad_less_iff pad_eq)
qed

lemma clock_str_less:
  assumes "s < t" and "t < 86400"
  shows "clock_str s < clock_str t"
proof -
  have b: "t div 3600 < 10 ^ 2" "s div 3600 < 10 ^ 2" "s div 60 mod 60 < 10 ^ 2"
    "t div 60 mod 60 < 10 ^ 2" "s mod 60 < 10 ^ 2" "t mod 60 < 10 ^ 2"
    using assms by (simp_all add: less_mult_imp_div_less mod_less_divisor less_trans [of _ 60])
  have h: "x div 3600 = x div 60 div 60" for x :: nat
    by (simp add: div_mult2_eq [symmetric])
  have "s div 3600 < t div 3600 \<or> s div 3600 = t div 3600 \<and>
      (s div 60 mod 60 < t div 60 mod 60 \<or> s div 60 mod 60 = t div 60 mod 60 \<and> s mod 60 < t mod 60)"
    using div_lex [OF assms(1), of 60] div_lex [of "s div 60" "t div 60" 60] unfolding h by auto
  with b show ?thesis by (auto simp: clock_str_def append_less pad_less_iff pad_eq)
qed

lemma stamp_less:
  assumes "s < t" and "time_ok t"
  shows "stamp sep s < stamp sep t"
proof -
  have ok: "time_ok s" using time_ok_mono [OF less_imp_le [OF assms(1)] assms(2)] .
  consider "s div 86400 < t div 86400" | "s div 86400 = t div 86400" "s mod 86400 < t mod 86400"
    using div_lex [OF assms(1)] by blast
  then show ?thesis
  proof cases
    case 1
    from date_str_less [OF civil_mono [OF 1] valid_civil valid_civil] ok assms(2)
    show ?thesis by (simp add: stamp_def append_less time_ok_def)
  next
    case 2
    from clock_str_less [OF 2(2)] 2(1) show ?thesis by (simp add: stamp_def append_less)
  qed
qed

lemma stamp_less_iff: "time_ok s \<Longrightarrow> time_ok t \<Longrightarrow> stamp sep s < stamp sep t \<longleftrightarrow> s < t"
  by (metis stamp_less less_asym less_irrefl linorder_neqE_nat)

lemma stamp_inj: "time_ok s \<Longrightarrow> time_ok t \<Longrightarrow> stamp sep s = stamp sep t \<longleftrightarrow> s = t"
  by (metis stamp_less less_irrefl linorder_neqE_nat)

lemma stamp_le_iff: "time_ok s \<Longrightarrow> time_ok t \<Longrightarrow> stamp sep s \<le> stamp sep t \<longleftrightarrow> s \<le> t"
  by (meson stamp_less_iff not_less)

section \<open>Parsing\<close>

text \<open>
  \<open>datetime.strptime(s, "%Y-%m-%dT%H:%M:%S")\<close> followed by the conversion to a Unix
  time. The year field is four digits, the others one or two (a one-digit day may have a
  space before it); \<open>None\<close> is the ValueError.
\<close>

definition is_digit :: "char \<Rightarrow> bool" where
  "is_digit c \<longleftrightarrow> 48 \<le> code c \<and> code c \<le> 57"

definition num :: "string \<Rightarrow> nat" where
  "num s = foldl (\<lambda>a c. 10 * a + (code c - 48)) 0 s"

definition field :: "nat \<Rightarrow> nat \<Rightarrow> nat \<Rightarrow> nat \<Rightarrow> string \<Rightarrow> (nat \<times> string) option" where
  "field wmin wmax lo hi s =
     (let ds = takeWhile is_digit s in
      if wmin \<le> length ds \<and> length ds \<le> wmax \<and> lo \<le> num ds \<and> num ds \<le> hi
      then Some (num ds, dropWhile is_digit s) else None)"

definition day_field :: "string \<Rightarrow> (nat \<times> string) option" where
  "day_field s = (case s of
      c # s' \<Rightarrow> if c = CHR '' '' then field 1 1 1 9 s' else field 1 2 1 31 s
    | [] \<Rightarrow> None)"

fun expect :: "char \<Rightarrow> string \<Rightarrow> string option" where
  "expect d [] = None"
| "expect d (c # cs) = (if c = d then Some cs else None)"

definition parse_iso :: "string \<Rightarrow> int option" where
  "parse_iso s =
     Option.bind (field 4 4 0 9999 s) (\<lambda>(y, s).
     Option.bind (expect CHR ''-'' s) (\<lambda>s.
     Option.bind (field 1 2 1 12 s) (\<lambda>(m, s).
     Option.bind (expect CHR ''-'' s) (\<lambda>s.
     Option.bind (day_field s) (\<lambda>(d, s).
     Option.bind (expect CHR ''T'' s) (\<lambda>s.
     Option.bind (field 1 2 0 23 s) (\<lambda>(hh, s).
     Option.bind (expect CHR '':'' s) (\<lambda>s.
     Option.bind (field 1 2 0 59 s) (\<lambda>(mi, s).
     Option.bind (expect CHR '':'' s) (\<lambda>s.
     Option.bind (field 1 2 0 61 s) (\<lambda>(ss, s).
       if s = [] \<and> valid_date (y, m, d) \<and> ss \<le> 59
       then Some (days_of (y, m, d) * 86400 + int (hh * 3600 + mi * 60 + ss))
       else None)))))))))))"

lemma code_digit [simp]: "k < 10 \<Longrightarrow> code (digit k) = 48 + k"
  by (simp add: code_def digit_def)

lemma pad_digits: "c \<in> set (pad w k) \<Longrightarrow> is_digit c"
  by (induction w arbitrary: k) (auto simp: is_digit_def)

lemma num_pad: "k < 10 ^ w \<Longrightarrow> num (pad w k) = k"
proof (induction w arbitrary: k)
  case 0
  then show ?case by (simp add: num_def)
next
  case (Suc w)
  have "k div 10 < 10 ^ w" using Suc.prems by (simp add: less_mult_imp_div_less mult.commute)
  from Suc.IH [OF this] show ?case by (simp add: num_def)
qed

lemma field_pad:
  assumes "k < 10 ^ w" and "wmin \<le> w" and "w \<le> wmax" and "lo \<le> k" and "k \<le> hi"
    and "s = [] \<or> \<not> is_digit (hd s)"
  shows "field wmin wmax lo hi (pad w k @ s) = Some (k, s)"
proof -
  have "takeWhile is_digit (pad w k @ s) = pad w k \<and> dropWhile is_digit (pad w k @ s) = s"
    using assms(6) pad_digits by (cases s) (auto simp: takeWhile_append2 dropWhile_append2)
  then show ?thesis using assms num_pad by (simp add: field_def)
qed

lemmas field_pad_end = field_pad [of _ _ _ _ _ _ "[]", simplified]

lemma day_field_pad:
  assumes "1 \<le> k" and "k \<le> 31" and "s = [] \<or> \<not> is_digit (hd s)"
  shows "day_field (pad 2 k @ s) = Some (k, s)"
proof -
  have "pad 2 k @ s \<noteq> [] \<and> is_digit (hd (pad 2 k @ s))"
    using pad_digits [of "hd (pad 2 k)" 2 k] by (cases "pad 2 k") (auto simp: numeral_2_eq_2)
  then have "day_field (pad 2 k @ s) = field 1 2 1 31 (pad 2 k @ s)"
    by (cases "pad 2 k @ s") (auto simp: day_field_def is_digit_def code_def)
  with assms show ?thesis by (simp add: field_pad)
qed

lemma sep_not_digit [simp]: "\<not> is_digit CHR ''-''" "\<not> is_digit CHR ''T''" "\<not> is_digit CHR '':''"
  by (simp_all add: is_digit_def code_def)

theorem parse_iso_iso:
  assumes "time_ok t"
  shows "parse_iso (iso t) = Some (int t)"
proof -
  obtain y m d where c: "civil (t div 86400) = (y, m, d)" by (cases "civil (t div 86400)")
  define s where "s = t mod 86400"
  have v: "valid_date (y, m, d)" using valid_civil [of "t div 86400"] by (simp only: c)
  then have md: "1 \<le> m" "m \<le> 12" "1 \<le> d" "d \<le> 31"
    using month_days_bounds(2) [of y m] by simp_all
  have y: "y \<le> 9999" using assms c by (simp add: time_ok_def)
  have s: "s div 3600 \<le> 23" "s div 60 mod 60 \<le> 59" "s mod 60 \<le> 59"
    using less_mult_imp_div_less [of s 24 3600] by (simp_all add: s_def less_Suc_eq_le [symmetric])
  have days: "days_of (y, m, d) = int (t div 86400)" by (simp only: c [symmetric] days_of_civil)
  have g: "a * 3600 + b * 60 = (a * 60 + b) * 60" for a b :: nat by simp
  have h: "s div 3600 = s div 60 div 60" by (simp add: div_mult2_eq [symmetric])
  have "s div 3600 * 3600 + s div 60 mod 60 * 60 = (s div 60 div 60 * 60 + s div 60 mod 60) * 60"
    unfolding h by (rule g)
  also have "\<dots> = s div 60 * 60" by (simp only: div_mult_mod_eq)
  finally have sec: "s div 3600 * 3600 + s div 60 mod 60 * 60 + s mod 60 = s"
    by (simp only: div_mult_mod_eq)
  have t: "int (t div 86400) * 86400 + int s = int t"
    unfolding s_def by (metis div_mult_mod_eq of_nat_add of_nat_mult of_nat_numeral)
  have "parse_iso (iso t) =
      Some (days_of (y, m, d) * 86400 + int (s div 3600 * 3600 + s div 60 mod 60 * 60 + s mod 60))"
    using v md y s
    by (simp add: iso_def stamp_def c clock_str_def s_def [symmetric] parse_iso_def field_pad
        field_pad_end day_field_pad del: days_of.simps)
  then show ?thesis by (simp only: days sec t)
qed

end
