(* ===== verification/EvalFeedback.thy ===== *)
theory EvalFeedback
  imports JsonStorage PgStorage PyTime
begin

text \<open>
  \<open>engramia/core/eval_feedback.py\<close>: clusters of recurring evaluation feedback, their
  counts and scores, and the weekly decay. \<open>now\<close> is \<open>time.time()\<close>; powers with
  real exponents are \<open>powr\<close>.
\<close>

definition MAX_KEEP :: nat where "MAX_KEEP = 50"
definition MAX_FEEDBACK_LEN :: nat where "MAX_FEEDBACK_LEN = 5000"
definition FB_DECAY_PER_WEEK :: real where "FB_DECAY_PER_WEEK = 9 / 10"
definition FB_MIN_SCORE :: real where "FB_MIN_SCORE = 3 / 20"
definition CLUSTER_THRESHOLD :: real where "CLUSTER_THRESHOLD = 2 / 5"

text \<open>\<open>re.sub(r"\s+", " ", s)\<close>: each maximal run of white space is one blank.\<close>

fun collapse_ws :: "bool \<Rightarrow> string \<Rightarrow> string" where
  "collapse_ws inrun [] = []"
| "collapse_ws inrun (c # cs) =
     (if py_space c then (if inrun then collapse_ws True cs else CHR '' '' # collapse_ws True cs)
      else c # collapse_ws False cs)"

definition normalize_fb :: "string \<Rightarrow> string" where
  "normalize_fb text =
     (let t1 = py_strip (py_lower text);
          t2 = map (\<lambda>c. if py_word c \<or> py_space c then c else CHR '' '') t1
      in py_strip (collapse_ws False t2))"

definition feedback_key :: "scope \<Rightarrow> string" where
  "feedback_key sc = ''feedback/'' @ sc_tenant sc @ ''/'' @ sc_project sc @ ''/_list''"

definition load_feedback :: "'s backend \<Rightarrow> scope \<Rightarrow> 's \<Rightarrow> feedback list res" where
  "load_feedback B sc s = bind_res (be_load B sc s (feedback_key sc)) (\<lambda>d.
     case d of Some (DFeedback ps) \<Rightarrow> Inr ps
     | Some (DEvals _) \<Rightarrow> Inl (KeyError ''pattern'')
     | Some (DEvents _) \<Rightarrow> Inl (KeyError ''pattern'')
     | _ \<Rightarrow> Inr [])"

definition gmtime_iso :: "real \<Rightarrow> string" where
  "gmtime_iso now = iso (nat \<lfloor>now\<rfloor>)"

definition similar_to :: "string \<Rightarrow> feedback \<Rightarrow> bool" where
  "similar_to nf p \<longleftrightarrow> CLUSTER_THRESHOLD < jaccard (normalize_fb (fb_pattern p)) nf"

definition count_up :: "string \<Rightarrow> feedback \<Rightarrow> feedback" where
  "count_up now_iso p =
     p\<lparr>fb_count := fb_count p + 1, fb_score := min (fb_score p + 1 / 10) 1, fb_last_seen := Some now_iso\<rparr>"

text \<open>The first cluster similar to the text is counted up; None when there is none.\<close>

fun bump :: "string \<Rightarrow> string \<Rightarrow> feedback list \<Rightarrow> feedback list option" where
  "bump now_iso nf [] = None"
| "bump now_iso nf (p # ps) =
     (if similar_to nf p then Some (count_up now_iso p # ps)
      else map_option ((#) p) (bump now_iso nf ps))"

definition new_feedback :: "string \<Rightarrow> string \<Rightarrow> feedback" where
  "new_feedback now_iso text =
     \<lparr>fb_pattern = py_strip text, fb_count = 1, fb_score = 1 / 2,
      fb_last_seen = Some now_iso, fb_last_decayed = Some now_iso\<rparr>"

definition add_feedback :: "string \<Rightarrow> string \<Rightarrow> feedback list \<Rightarrow> feedback list" where
  "add_feedback now_iso text ps =
     (case bump now_iso (normalize_fb text) ps of
        Some ps' \<Rightarrow> ps'
      | None \<Rightarrow> last_n MAX_KEEP (ps @ [new_feedback now_iso text]))"

definition record_feedback :: "'s backend \<Rightarrow> real \<Rightarrow> scope \<Rightarrow> 's \<Rightarrow> string \<Rightarrow> 's res" where
  "record_feedback B now sc s text =
     (if MAX_FEEDBACK_LEN < length text then Inl (ValueError ''feedback_text exceeds maximum length'')
      else if normalize_fb text = [] then Inr s
      else bind_res (load_feedback B sc s) (\<lambda>ps.
        be_save B sc s (feedback_key sc) (DFeedback (add_feedback (gmtime_iso now) text ps))))"

definition top_feedback :: "nat \<Rightarrow> string option \<Rightarrow> nat \<Rightarrow> feedback list \<Rightarrow> string list" where
  "top_feedback n task_type offset ps =
     (let recurring = filter (\<lambda>p. 2 \<le> fb_count p) ps;
          typed = (case task_type of
                     None \<Rightarrow> recurring
                   | Some tt \<Rightarrow> if tt = [] then recurring
                       else filter (\<lambda>p. py_in (py_lower tt) (py_lower (fb_pattern p))) recurring);
          ranked = sort_desc (\<lambda>p. fb_score p * real (fb_count p)) typed
      in map fb_pattern (take n (drop offset ranked)))"

definition get_top :: "'s backend \<Rightarrow> scope \<Rightarrow> 's \<Rightarrow> nat \<Rightarrow> string option \<Rightarrow> nat \<Rightarrow> string list res" where
  "get_top B sc s n task_type offset =
     bind_res (load_feedback B sc s) (\<lambda>ps. Inr (top_feedback n task_type offset ps))"

section \<open>Decay\<close>

text \<open>\<open>_parse_iso\<close>: an empty or malformed text counts as now.\<close>

definition parse_iso_or_now :: "real \<Rightarrow> string \<Rightarrow> real" where
  "parse_iso_or_now now s =
     (if s = [] then now else case parse_iso s of Some t \<Rightarrow> real_of_int t | None \<Rightarrow> now)"

definition last_decayed :: "feedback \<Rightarrow> string" where
  "last_decayed p = (case fb_last_decayed p of Some d \<Rightarrow> d
     | None \<Rightarrow> (case fb_last_seen p of Some d \<Rightarrow> d | None \<Rightarrow> []))"

definition elapsed_weeks :: "real \<Rightarrow> feedback \<Rightarrow> real" where
  "elapsed_weeks now p = max 0 ((now - parse_iso_or_now now (last_decayed p)) / (7 * 24 * 3600))"

definition decayed_score :: "real \<Rightarrow> feedback \<Rightarrow> real" where
  "decayed_score now p = fb_score p * (FB_DECAY_PER_WEEK powr elapsed_weeks now p)"

fun decay_all :: "real \<Rightarrow> feedback list \<Rightarrow> feedback list" where
  "decay_all now [] = []"
| "decay_all now (p # ps) =
     (if FB_MIN_SCORE \<le> decayed_score now p
      then p\<lparr>fb_score := py_round 4 (decayed_score now p), fb_last_decayed := Some (gmtime_iso now)\<rparr>
           # decay_all now ps
      else decay_all now ps)"

definition run_decay :: "'s backend \<Rightarrow> real \<Rightarrow> scope \<Rightarrow> 's \<Rightarrow> (nat \<times> 's) res" where
  "run_decay B now sc s =
     bind_res (load_feedback B sc s) (\<lambda>ps.
       let surviving = decay_all now ps in
       bind_res (be_save B sc s (feedback_key sc) (DFeedback surviving))
         (\<lambda>s'. Inr (length ps - length surviving, s')))"

section \<open>Clusters\<close>

lemma bump_None: "bump now nf ps = None \<longleftrightarrow> (\<forall>p \<in> set ps. \<not> similar_to nf p)"
  by (induction ps) auto

lemma bump_SomeD:
  "bump now nf ps = Some ps' \<Longrightarrow>
     \<exists>xs p ys. ps = xs @ p # ys \<and> (\<forall>x \<in> set xs. \<not> similar_to nf x) \<and> similar_to nf p \<and>
        ps' = xs @ count_up now p # ys"
proof (induction ps arbitrary: ps')
  case (Cons a ps)
  show ?case
  proof (cases "similar_to nf a")
    case True
    with Cons.prems show ?thesis by (intro exI [of _ "[]"]) auto
  next
    case False
    with Cons.prems obtain qs where "bump now nf ps = Some qs" "ps' = a # qs" by auto
    with Cons.IH [of qs] obtain xs p ys where "ps = xs @ p # ys" "\<forall>x \<in> set xs. \<not> similar_to nf x"
      "similar_to nf p" "qs = xs @ count_up now p # ys" by blast
    with False \<open>ps' = a # qs\<close> show ?thesis by (intro exI [of _ "a # xs"]) auto
  qed
qed simp

definition feedback_ok :: "feedback \<Rightarrow> bool" where
  "feedback_ok p \<longleftrightarrow> 1 \<le> fb_count p \<and> 0 < fb_score p \<and> fb_score p \<le> 1"

definition feedbacks_ok :: "feedback list \<Rightarrow> bool" where
  "feedbacks_ok ps \<longleftrightarrow> length ps \<le> MAX_KEEP \<and> (\<forall>p \<in> set ps. feedback_ok p)"

lemma add_feedback_ok: "feedbacks_ok ps \<Longrightarrow> feedbacks_ok (add_feedback now text ps)"
proof (cases "bump now (normalize_fb text) ps")
  case None
  assume ok: "feedbacks_ok ps"
  then have "\<forall>p \<in> set (ps @ [new_feedback now text]). feedback_ok p"
    by (auto simp: feedbacks_ok_def new_feedback_def feedback_ok_def)
  then show ?thesis
    using set_last_n [of MAX_KEEP "ps @ [new_feedback now text]"]
    by (auto simp: add_feedback_def None feedbacks_ok_def)
next
  case (Some ps')
  assume "feedbacks_ok ps"
  then show ?thesis
    using bump_SomeD [OF Some]
    by (auto simp: add_feedback_def Some feedbacks_ok_def feedback_ok_def count_up_def)
qed

lemma decay_all_ok: "feedbacks_ok ps \<Longrightarrow> feedbacks_ok (decay_all now ps)"
proof (induction ps)
  case (Cons p ps)
  have p: "feedback_ok p" and ps: "feedbacks_ok ps"
    using Cons.prems by (auto simp: feedbacks_ok_def)
  have "elapsed_weeks now p \<ge> 0" by (simp add: elapsed_weeks_def)
  then have "FB_DECAY_PER_WEEK powr elapsed_weeks now p \<le> 1"
    by (simp add: FB_DECAY_PER_WEEK_def powr_le1)
  then have "decayed_score now p \<le> 1 * 1"
    unfolding decayed_score_def using p by (intro mult_mono) (auto simp: feedback_ok_def)
  then have "py_round 4 (decayed_score now p) \<le> 1" using py_round_le [of _ 1 4] by simp
  moreover have "0 < py_round 4 (decayed_score now p)" if "FB_MIN_SCORE \<le> decayed_score now p"
  proof -
    have "\<bar>py_round 4 (decayed_score now p) - decayed_score now p\<bar> \<le> 1 / 20000"
      using py_round_error [of 4 "decayed_score now p"] by simp
    then show ?thesis using that unfolding FB_MIN_SCORE_def by linarith
  qed
  moreover have "length (decay_all now ps) \<le> length ps" by (induction ps) auto
  ultimately show ?case
    using Cons.IH [OF ps] p Cons.prems by (auto simp: feedbacks_ok_def feedback_ok_def)
qed (simp add: feedbacks_ok_def)

section \<open>Feedback seen twice is surfaced\<close>

lemma py_lower_space: "py_space (py_lower_char c) = py_space c"
proof -
  have "of_char (char_of (code c + 32)) = code c + 32" if "code c \<le> 222"
    using that by (simp add: of_char_of)
  then show ?thesis
    by (auto simp: py_lower_char_def py_space_def Let_def code_def [symmetric])
qed

lemma py_strip_map: "(\<And>c. py_space (f c) = py_space c) \<Longrightarrow> py_strip (map f s) = map f (py_strip s)"
  by (simp add: py_strip_def dropWhile_map rev_map comp_def)

lemma dropWhile_rev_idem: "dropWhile P (rev (dropWhile P (rev (dropWhile P xs)))) = rev (dropWhile P (rev (dropWhile P xs)))"
proof (cases "dropWhile P xs")
  case (Cons y ys)
  then have y: "\<not> P y" by (metis hd_dropWhile list.discI list.sel(1))
  have "\<exists>zs. rev (dropWhile P (rev (y # ys))) = y # zs"
    by (simp add: dropWhile_append y) (metis rev_rev_ident)
  with y Cons show ?thesis by auto
next
  case Nil
  show ?thesis unfolding Nil by simp
qed

lemma py_strip_idem: "py_strip (py_strip s) = py_strip s"
  unfolding py_strip_def dropWhile_rev_idem by simp

lemma normalize_strip: "normalize_fb (py_strip text) = normalize_fb text"
  by (simp add: normalize_fb_def py_lower_def py_strip_map py_lower_space py_strip_idem)

lemma py_strip_nonspace: "py_strip s \<noteq> [] \<Longrightarrow> \<exists>c \<in> set (py_strip s). \<not> py_space c"
  by (metis py_strip_empty py_strip_idem)

lemma normalize_words: "normalize_fb text \<noteq> [] \<Longrightarrow> py_split (normalize_fb text) \<noteq> []"
  unfolding py_split_empty using py_strip_nonspace by (auto simp: normalize_fb_def Let_def)

lemma jaccard_normalized: "normalize_fb text \<noteq> [] \<Longrightarrow> jaccard (normalize_fb text) (normalize_fb text) = 1"
  using normalize_words [of "text"]
  by (auto simp: jaccard_refl py_split_empty py_lower_def py_lower_space)

lemma similar_count_up [simp]: "similar_to nf (count_up now p) = similar_to nf p"
  by (simp add: similar_to_def count_up_def)

lemma similar_new: "normalize_fb text \<noteq> [] \<Longrightarrow> similar_to (normalize_fb text) (new_feedback now text)"
  by (simp add: similar_to_def new_feedback_def normalize_strip jaccard_normalized CLUSTER_THRESHOLD_def)

lemma add_feedback_present:
  assumes "normalize_fb text \<noteq> []"
  shows "\<exists>p \<in> set (add_feedback now text ps). similar_to (normalize_fb text) p"
proof (cases "bump now (normalize_fb text) ps")
  case None
  have "new_feedback now text \<in> set (last_n MAX_KEEP (ps @ [new_feedback now text]))"
    by (simp add: last_n_snoc MAX_KEEP_def)
  then show ?thesis using similar_new [OF assms] by (auto simp: add_feedback_def None)
next
  case (Some ps')
  from bump_SomeD [OF this] show ?thesis by (auto simp: add_feedback_def Some)
qed

lemma add_feedback_again:
  assumes "\<exists>p \<in> set ps. similar_to (normalize_fb text) p" and "\<forall>p \<in> set ps. feedback_ok p"
  shows "\<exists>p \<in> set (add_feedback now text ps). similar_to (normalize_fb text) p \<and> 2 \<le> fb_count p"
proof (cases "bump now (normalize_fb text) ps")
  case None
  then show ?thesis using assms(1) by (simp add: bump_None)
next
  case (Some ps')
  from bump_SomeD [OF this] obtain xs p ys where "ps = xs @ p # ys" "similar_to (normalize_fb text) p"
    "ps' = xs @ count_up now p # ys" by blast
  then show ?thesis
    using assms(2) Some by (intro bexI [of _ "count_up now p"])
      (simp_all add: add_feedback_def, simp add: count_up_def feedback_ok_def)
qed

lemma top_feedback_mem:
  "set (top_feedback n tt offset ps) \<subseteq> fb_pattern ` {p \<in> set ps. 2 \<le> fb_count p}"
proof -
  have "set (take n (drop offset (sort_desc f xs))) \<subseteq> set xs" for f :: "feedback \<Rightarrow> real" and xs
    by (metis set_take_subset set_drop_subset set_sort_desc order_trans)
  then show ?thesis by (fastforce simp: top_feedback_def Let_def split: option.splits if_splits)
qed

lemma twice_surfaces:
  assumes "feedbacks_ok ps" and "normalize_fb text \<noteq> []" and "0 < n"
  shows "top_feedback n None 0 (add_feedback t2 text (add_feedback t1 text ps)) \<noteq> []"
proof -
  let ?ps = "add_feedback t2 text (add_feedback t1 text ps)"
  obtain p where "p \<in> set ?ps" "2 \<le> fb_count p"
    using add_feedback_again [OF add_feedback_present [OF assms(2)], of t1 ps t2]
      add_feedback_ok [OF assms(1), of t1 "text"] by (auto simp: feedbacks_ok_def)
  then have "filter (\<lambda>p. 2 \<le> fb_count p) ?ps \<noteq> []" by (auto simp: filter_empty_conv)
  moreover have "sort_desc f xs \<noteq> []" if "xs \<noteq> []" for f :: "feedback \<Rightarrow> real" and xs
    using that by (metis length_0_conv length_sort_desc)
  ultimately show ?thesis using assms(3) by (simp add: top_feedback_def)
qed

section \<open>Decay over time\<close>

lemma elapsed_weeks_iso:
  assumes "fb_last_decayed p = Some (iso t1)" and "time_ok t1" and "real t1 \<le> now"
  shows "elapsed_weeks now p = (now - real t1) / 604800"
proof -
  have "iso t1 \<noteq> []" by (metis iso_def length_stamp list.size(3) zero_neq_numeral)
  then show ?thesis
    using assms by (simp add: elapsed_weeks_def last_decayed_def parse_iso_or_now_def parse_iso_iso)
qed

text \<open>
  Decaying at t1 and again at t2 is decaying once at t2, up to the rounding of the stored
  score: the clock restarts at each decay, so weeks are never counted twice.
\<close>

lemma decay_compose:
  fixes t0 t1 t2 :: nat
  assumes "fb_last_decayed p = Some (iso t0)" and "time_ok t0" and "time_ok t1"
    and "t0 \<le> t1" and "t1 \<le> t2" and "0 \<le> fb_score p"
    and "q = p\<lparr>fb_score := py_round 4 (decayed_score (real t1) p), fb_last_decayed := Some (gmtime_iso (real t1))\<rparr>"
  shows "\<bar>decayed_score (real t2) q - decayed_score (real t2) p\<bar> \<le> 1 / 20000"
proof -
  let ?a = "FB_DECAY_PER_WEEK powr ((real t1 - real t0) / 604800)"
  let ?b = "FB_DECAY_PER_WEEK powr ((real t2 - real t1) / 604800)"
  have p1: "decayed_score (real t1) p = fb_score p * ?a"
    using assms by (simp add: decayed_score_def elapsed_weeks_iso)
  have "(real t2 - real t0) / 604800 = (real t1 - real t0) / 604800 + (real t2 - real t1) / 604800"
    by (simp add: diff_divide_distrib)
  then have "FB_DECAY_PER_WEEK powr ((real t2 - real t0) / 604800) = ?a * ?b"
    by (simp only: powr_add)
  then have p2: "decayed_score (real t2) p = fb_score p * ?a * ?b"
    using assms(1,2,4,5) by (simp add: decayed_score_def elapsed_weeks_iso)
  have q: "decayed_score (real t2) q = py_round 4 (fb_score p * ?a) * ?b"
    using assms by (simp add: decayed_score_def elapsed_weeks_iso gmtime_iso_def p1)
  have b: "0 \<le> ?b" "?b \<le> 1" using assms(5) by (simp_all add: FB_DECAY_PER_WEEK_def powr_le1)
  have "\<bar>py_round 4 (fb_score p * ?a) - fb_score p * ?a\<bar> * ?b \<le> 1 / 20000 * 1"
    using py_round_error [of 4 "fb_score p * ?a"] b by (intro mult_mono) simp_all
  then show ?thesis unfolding p2 q by (simp add: left_diff_distrib [symmetric] abs_mult b(1))
qed

end
