(* ===== verification/SkillRegistry.thy ===== *)
theory SkillRegistry
  imports JsonStorage PgStorage
begin

text \<open>
  \<open>engramia/core/skill_registry.py\<close>: the skill tags of patterns in one document per
  scope. Only this component writes the key, so a document of another kind there is an error.
\<close>

definition SKILLS_KEY :: string where "SKILLS_KEY = ''skills/_registry''"

type_synonym registry = "(string, string list) dict"

definition load_registry :: "'s backend \<Rightarrow> scope \<Rightarrow> 's \<Rightarrow> registry res" where
  "load_registry B sc s = bind_res (be_load B sc s SKILLS_KEY) (\<lambda>d.
     case d of Some (DSkills r) \<Rightarrow> Inr r
     | Some (DDict _) \<Rightarrow> Inl (OtherError ''not a registry'')
     | Some (DMetrics _) \<Rightarrow> Inl (OtherError ''not a registry'')
     | _ \<Rightarrow> Inr [])"

definition norm_skill :: "string \<Rightarrow> string" where
  "norm_skill w = py_strip (py_lower w)"

definition register :: "'s backend \<Rightarrow> scope \<Rightarrow> 's \<Rightarrow> string \<Rightarrow> string list \<Rightarrow> 's res" where
  "register B sc s key skills =
     (if skills = [] then Inr s
      else bind_res (load_registry B sc s) (\<lambda>r.
        be_save B sc s SKILLS_KEY
          (DSkills (dput key (map norm_skill (filter (\<lambda>w. py_strip w \<noteq> []) skills)) r))))"

definition unregister :: "'s backend \<Rightarrow> scope \<Rightarrow> 's \<Rightarrow> string \<Rightarrow> 's res" where
  "unregister B sc s key =
     bind_res (load_registry B sc s) (\<lambda>r.
       if key \<in> fst ` set r then be_save B sc s SKILLS_KEY (DSkills (ddel key r)) else Inr s)"

definition skills_match :: "string list \<Rightarrow> bool \<Rightarrow> string list \<Rightarrow> bool" where
  "skills_match required match_all skills =
     (let need = map norm_skill required in
      if match_all then list_all (\<lambda>w. w \<in> set skills) need
      else list_ex (\<lambda>w. w \<in> set skills) need)"

definition matching_keys :: "string list \<Rightarrow> bool \<Rightarrow> registry \<Rightarrow> string list" where
  "matching_keys required match_all r =
     map fst (filter (\<lambda>(k, skills). skills_match required match_all skills) r)"

definition find_by_skills :: "'s backend \<Rightarrow> scope \<Rightarrow> 's \<Rightarrow> string list \<Rightarrow> bool \<Rightarrow> string list res" where
  "find_by_skills B sc s required match_all =
     (if required = [] then Inr []
      else bind_res (load_registry B sc s) (\<lambda>r. Inr (matching_keys required match_all r)))"

definition get_skills :: "'s backend \<Rightarrow> scope \<Rightarrow> 's \<Rightarrow> string \<Rightarrow> string list res" where
  "get_skills B sc s key =
     bind_res (load_registry B sc s) (\<lambda>r. Inr (case dget r key of None \<Rightarrow> [] | Some ws \<Rightarrow> ws))"

definition list_all_skills :: "'s backend \<Rightarrow> scope \<Rightarrow> 's \<Rightarrow> string list res" where
  "list_all_skills B sc s =
     bind_res (load_registry B sc s) (\<lambda>r. Inr (sort (remdups (concat (map snd r)))))"

lemma matching_keys_mem:
  "wf_dict r \<Longrightarrow> k \<in> set (matching_keys req all r) \<longleftrightarrow>
     (\<exists>ws. dget r k = Some ws \<and> skills_match req all ws)"
  by (auto simp: matching_keys_def wf_dict_in_set [symmetric]) force

lemma skills_match_mono: "skills_match req all ws \<Longrightarrow> set ws \<subseteq> set ws' \<Longrightarrow> skills_match req all ws'"
  by (auto simp: skills_match_def list_all_iff list_ex_iff split: if_splits)

lemma skills_match_self:
  "(\<exists>w \<in> set skills. py_strip w \<noteq> []) \<Longrightarrow>
   skills_match (filter (\<lambda>w. py_strip w \<noteq> []) skills) all (map norm_skill (filter (\<lambda>w. py_strip w \<noteq> []) skills))"
  by (auto simp: skills_match_def list_all_iff list_ex_iff)

definition registry_doc :: "doc option \<Rightarrow> registry \<Rightarrow> bool" where
  "registry_doc d r \<longleftrightarrow> (d = Some (DSkills r) \<or> d = None \<and> r = []) \<and> wf_dict r"

lemma good_skills_key: "good_key SKILLS_KEY"
  by (simp add: SKILLS_KEY_def good_key_def seg_ok_def)

context storage
begin

lemma load_registry_ok:
  "wf s \<Longrightarrow> okscope sc \<Longrightarrow> registry_doc (val s (loc sc SKILLS_KEY)) r \<Longrightarrow> load_registry B sc s = Inr r"
  by (auto simp: load_registry_def load_law good_key good_skills_key registry_doc_def)

lemma register_ok:
  assumes "wf s" and "okscope sc" and "registry_doc (val s (loc sc SKILLS_KEY)) r" and "skills \<noteq> []"
    and "r' = dput k (map norm_skill (filter (\<lambda>w. py_strip w \<noteq> []) skills)) r"
  shows "\<exists>s'. register B sc s k skills = Inr s' \<and> wf s' \<and> registry_doc (val s' (loc sc SKILLS_KEY)) r' \<and>
    emb s' = emb s \<and> (\<forall>l. l \<noteq> loc sc SKILLS_KEY \<longrightarrow> val s' l = val s l)"
proof -
  obtain s' where "be_save B sc s SKILLS_KEY (DSkills r') = Inr s'" "wf s'"
    "val s' = (val s)(loc sc SKILLS_KEY \<mapsto> DSkills r')" "emb s' = emb s"
    by (rule save_ok [OF assms(1,2) good_key [OF good_skills_key]])
  then show ?thesis
    using assms load_registry_ok [OF assms(1-3)] by (auto simp: register_def registry_doc_def)
qed

lemma unregister_ok:
  assumes "wf s" and "okscope sc" and "registry_doc (val s (loc sc SKILLS_KEY)) r"
  shows "\<exists>s'. unregister B sc s k = Inr s' \<and> wf s' \<and> registry_doc (val s' (loc sc SKILLS_KEY)) (ddel k r)"
proof (cases "k \<in> fst ` set r")
  case True
  obtain s' where "be_save B sc s SKILLS_KEY (DSkills (ddel k r)) = Inr s'" "wf s'"
    "val s' = (val s)(loc sc SKILLS_KEY \<mapsto> DSkills (ddel k r))" "emb s' = emb s"
    by (rule save_ok [OF assms(1,2) good_key [OF good_skills_key]])
  with True show ?thesis
    using assms load_registry_ok [OF assms] by (auto simp: unregister_def registry_doc_def)
next
  case False
  then have "ddel k r = r" by (simp add: AList.delete_eq filter_id_conv) force
  with False show ?thesis
    using assms load_registry_ok [OF assms] by (auto simp: unregister_def)
qed

end

end
