(* ===== verification/EvalStore.thy ===== *)
theory EvalStore
  imports JsonStorage PgStorage
begin

text \<open>
  \<open>engramia/core/eval_store.py\<close>: the rolling window of evaluation results of a scope
  and the quality multiplier recall ranks with. The store's default tenant and project are the
  record \<open>eval_store\<close>, the request scope the argument \<open>ctx\<close>. An absent
  \<open>overall\<close> entry of \<open>scores\<close> is \<open>None\<close>.
\<close>

record eval_store =
  es_tenant :: string
  es_project :: string

definition MAX_EVALS :: nat where "MAX_EVALS = 200"
definition DEFAULT_AGGREGATION_WINDOW :: int where "DEFAULT_AGGREGATION_WINDOW = 5"

definition py_or :: "'a list \<Rightarrow> 'a list \<Rightarrow> 'a list" where
  "py_or a b = (if a = [] then b else a)"

definition eval_store_init :: "string \<Rightarrow> string \<Rightarrow> eval_store res" where
  "eval_store_init t p =
     (if t = [] then Inl (ValueError ''EvalStore requires a non-empty tenant_id'')
      else if p = [] then Inl (ValueError ''EvalStore requires a non-empty project_id'')
      else Inr \<lparr>es_tenant = t, es_project = p\<rparr>)"

definition resolve_scope :: "eval_store \<Rightarrow> scope \<Rightarrow> string \<Rightarrow> string \<Rightarrow> string \<times> string" where
  "resolve_scope es ctx t p =
     (if t \<noteq> [] \<and> p \<noteq> [] then (t, p)
      else (py_or t (py_or (sc_tenant ctx) (es_tenant es)), py_or p (py_or (sc_project ctx) (es_project es))))"

definition scoped_eval_key :: "string \<Rightarrow> string \<Rightarrow> string res" where
  "scoped_eval_key t p =
     (if t = [] then Inl (ValueError ''EvalStore: tenant_id'')
      else if p = [] then Inl (ValueError ''EvalStore: project_id'')
      else Inr (''evals/'' @ t @ ''/'' @ p @ ''/_list''))"

definition load_evals :: "'s backend \<Rightarrow> scope \<Rightarrow> 's \<Rightarrow> string \<Rightarrow> eval_record list res" where
  "load_evals B ctx s key = bind_res (be_load B ctx s key) (\<lambda>d.
     case d of Some (DEvals es) \<Rightarrow> Inr es
     | Some (DFeedback _) \<Rightarrow> Inl (KeyError ''agent_name'')
     | Some (DEvents _) \<Rightarrow> Inl (KeyError ''agent_name'')
     | _ \<Rightarrow> Inr [])"

text \<open>\<open>save\<close>: the record is appended, the last \<open>MAX_EVALS\<close> stay.\<close>

definition save_eval :: "'s backend \<Rightarrow> eval_store \<Rightarrow> scope \<Rightarrow> 's \<Rightarrow> eval_record \<Rightarrow> string \<Rightarrow> string \<Rightarrow> 's res" where
  "save_eval B st ctx s e t p =
     (let (tid, pid) = resolve_scope st ctx t p in
      bind_res (scoped_eval_key tid pid) (\<lambda>key.
      bind_res (load_evals B ctx s key) (\<lambda>es.
        be_save B ctx s key (DEvals (last_n MAX_EVALS (es @ [e]))))))"

definition evals_in_scope ::
  "'s backend \<Rightarrow> eval_store \<Rightarrow> scope \<Rightarrow> 's \<Rightarrow> string \<Rightarrow> string \<Rightarrow> eval_record list res" where
  "evals_in_scope B st ctx s t p =
     (let (tid, pid) = resolve_scope st ctx t p in
      bind_res (scoped_eval_key tid pid) (\<lambda>key. load_evals B ctx s key))"

definition or_zero :: "real option \<Rightarrow> real" where
  "or_zero x = (case x of None \<Rightarrow> 0 | Some y \<Rightarrow> y)"

definition top_examples :: "nat \<Rightarrow> real \<Rightarrow> eval_record list \<Rightarrow> eval_record list" where
  "top_examples limit min_score es =
     take limit (sort_desc (\<lambda>e. or_zero (er_overall e)) (filter (\<lambda>e. min_score \<le> or_zero (er_overall e)) es))"

definition get_top_examples ::
  "'s backend \<Rightarrow> eval_store \<Rightarrow> scope \<Rightarrow> 's \<Rightarrow> nat \<Rightarrow> real \<Rightarrow> string \<Rightarrow> string \<Rightarrow> eval_record list res" where
  "get_top_examples B st ctx s limit min_score t p =
     bind_res (evals_in_scope B st ctx s t p) (\<lambda>es. Inr (top_examples limit min_score es))"

section \<open>Aggregated scores\<close>

datatype aggregation = Latest | Median | Mean | OtherAgg string

definition eval_matches :: "string \<Rightarrow> string \<Rightarrow> real \<Rightarrow> eval_record \<Rightarrow> bool" where
  "eval_matches agent task min_jaccard e \<longleftrightarrow>
     er_agent e = agent \<and> \<not> (0 < min_jaccard \<and> jaccard (er_task e) task < min_jaccard)"

text \<open>The newest-first walk that stops once \<open>max(1, window)\<close> scores are collected.\<close>

fun collect_scores :: "(eval_record \<Rightarrow> bool) \<Rightarrow> nat \<Rightarrow> eval_record list \<Rightarrow> real list" where
  "collect_scores P n [] = []"
| "collect_scores P n (e # es) =
     (if \<not> P e then collect_scores P n es
      else (case er_overall e of
              None \<Rightarrow> collect_scores P n es
            | Some x \<Rightarrow> x # (if n \<le> 1 then [] else collect_scores P (n - 1) es)))"

definition median :: "real list \<Rightarrow> real" where
  "median xs =
     (let ys = sort xs; n = length xs in
      if odd n then ys ! (n div 2) else (ys ! (n div 2 - 1) + ys ! (n div 2)) / 2)"

definition agent_score ::
  "eval_record list \<Rightarrow> string \<Rightarrow> string \<Rightarrow> real \<Rightarrow> aggregation \<Rightarrow> int \<Rightarrow> real option res" where
  "agent_score es agent task min_jaccard agg window =
     (if agg = Latest then
        (case find (eval_matches agent task min_jaccard) (rev es) of
           None \<Rightarrow> Inr None | Some e \<Rightarrow> Inr (er_overall e))
      else
        (let collected = collect_scores (eval_matches agent task min_jaccard) (nat (max 1 window)) (rev es) in
         if collected = [] then Inr None
         else (case agg of
                 Median \<Rightarrow> Inr (Some (median collected))
               | Mean \<Rightarrow> Inr (Some (sum_list collected / real (length collected)))
               | _ \<Rightarrow> Inl (ValueError ''Unknown aggregation''))))"

definition get_agent_score ::
  "'s backend \<Rightarrow> eval_store \<Rightarrow> scope \<Rightarrow> 's \<Rightarrow> string \<Rightarrow> string \<Rightarrow> real \<Rightarrow> string \<Rightarrow> string
   \<Rightarrow> aggregation \<Rightarrow> int \<Rightarrow> real option res" where
  "get_agent_score B st ctx s agent task min_jaccard t p agg window =
     bind_res (evals_in_scope B st ctx s t p) (\<lambda>es. agent_score es agent task min_jaccard agg window)"

definition average_score :: "eval_record list \<Rightarrow> real option" where
  "average_score es =
     (let scores = List.map_filter er_overall (last_n 10 es) in
      if scores = [] then None else Some (py_round 2 (sum_list scores / real (length scores))))"

definition get_average_score ::
  "'s backend \<Rightarrow> eval_store \<Rightarrow> scope \<Rightarrow> 's \<Rightarrow> string \<Rightarrow> string \<Rightarrow> real option res" where
  "get_average_score B st ctx s t p =
     bind_res (evals_in_scope B st ctx s t p) (\<lambda>es. Inr (average_score es))"

definition multiplier_of :: "real option \<Rightarrow> real" where
  "multiplier_of score = (case score of None \<Rightarrow> 3 / 4 | Some x \<Rightarrow> 1 / 2 + 1 / 2 * (x / 10))"

definition get_eval_multiplier ::
  "'s backend \<Rightarrow> eval_store \<Rightarrow> scope \<Rightarrow> 's \<Rightarrow> string \<Rightarrow> string \<Rightarrow> string \<Rightarrow> string
   \<Rightarrow> aggregation \<Rightarrow> int \<Rightarrow> real res" where
  "get_eval_multiplier B st ctx s agent task t p agg window =
     bind_res (get_agent_score B st ctx s agent task 0 t p agg window) (\<lambda>x. Inr (multiplier_of x))"

section \<open>Medians\<close>

lemma median_between:
  assumes "xs \<noteq> []" and "\<forall>x \<in> set xs. lo \<le> x \<and> x \<le> hi"
  shows "lo \<le> median xs \<and> median xs \<le> hi"
proof -
  have n: "length xs div 2 < length xs" using assms(1) by simp
  have m: "lo \<le> sort xs ! i \<and> sort xs ! i \<le> hi" if "i < length xs" for i
    using that assms(2) by (metis length_sort nth_mem set_sort)
  have "length xs div 2 - 1 < length xs" using n by linarith
  from m [OF this] m [OF n] show ?thesis by (auto simp: median_def Let_def)
qed

text \<open>
  The list's i-th smallest element is at most v when more than i elements are, and at least v
  when no more than i elements are below v.
\<close>

lemma nth_sort_le:
  assumes "sorted ys" and "i < length (filter (\<lambda>y. y \<le> v) ys)"
  shows "ys ! i \<le> (v::'a::linorder)"
  using assms
proof (induction ys arbitrary: i)
  case (Cons y ys)
  show ?case
  proof (cases "y \<le> v")
    case True
    with Cons show ?thesis by (cases i) auto
  next
    case False
    with Cons.prems(1) have "filter (\<lambda>y. y \<le> v) (y # ys) = []" by (auto simp: filter_empty_conv)
    with Cons.prems(2) show ?thesis by (metis list.size(3) not_less_zero)
  qed
qed simp

lemma nth_sort_ge:
  assumes "sorted ys" and "i < length ys" and "length (filter (\<lambda>y. y < v) ys) \<le> i"
  shows "(v::'a::linorder) \<le> ys ! i"
  using assms
proof (induction ys arbitrary: i)
  case (Cons y ys)
  show ?case
  proof (cases "y < v")
    case True
    with Cons show ?thesis by (cases i) auto
  next
    case False
    with Cons.prems(1,2) show ?thesis by (cases i) (auto simp: not_less dest: order_trans nth_mem)
  qed
qed simp

lemma length_filter_sort: "length (filter P (sort xs)) = length (filter P xs)"
  by (metis mset_filter mset_sort size_mset)

lemma median_majority:
  assumes "length xs < 2 * length (filter (\<lambda>x. lo \<le> x \<and> x \<le> hi) xs)"
  shows "lo \<le> median xs \<and> median xs \<le> hi"
proof -
  let ?in = "length (filter (\<lambda>x. lo \<le> x \<and> x \<le> hi) xs)"
  have n: "?in \<le> length xs" by simp
  have up: "?in \<le> length (filter (\<lambda>x. x \<le> hi) (sort xs))"
    unfolding length_filter_sort by (induction xs) auto
  have dn: "?in + length (filter (\<lambda>x. x < lo) (sort xs)) \<le> length xs"
    unfolding length_filter_sort by (induction xs) auto
  have m: "lo \<le> sort xs ! i \<and> sort xs ! i \<le> hi"
    if "i < ?in" "length xs - ?in \<le> i" for i
  proof
    show "sort xs ! i \<le> hi" by (rule nth_sort_le) (use that up in auto)
    show "lo \<le> sort xs ! i" by (rule nth_sort_ge) (use that n dn in auto)
  qed
  show ?thesis
  proof (cases "odd (length xs)")
    case True
    with assms n have "length xs div 2 < ?in" "length xs - ?in \<le> length xs div 2" by presburger+
    from m [OF this] True show ?thesis by (simp add: median_def Let_def)
  next
    case False
    with assms n have "length xs div 2 < ?in" "length xs - ?in \<le> length xs div 2"
      "length xs div 2 - 1 < ?in" "length xs - ?in \<le> length xs div 2 - 1" by presburger+
    from m [OF this(1,2)] m [OF this(3,4)] False show ?thesis by (simp add: median_def Let_def)
  qed
qed

section \<open>Collected scores\<close>

lemma collect_scores_eq:
  "1 \<le> n \<Longrightarrow> collect_scores P n es = take n (List.map_filter er_overall (filter P es))"
proof (induction es arbitrary: n)
  case (Cons e es)
  show ?case
  proof (cases "P e")
    case True
    show ?thesis
    proof (cases "er_overall e")
      case None
      with True Cons show ?thesis by (simp add: map_filter_simps)
    next
      case (Some x)
      show ?thesis
      proof (cases "n \<le> 1")
        case one: True
        with Cons.prems have "n = 1" by simp
        with True Some show ?thesis by (simp add: map_filter_simps)
      next
        case False
        with Cons.IH [of "n - 1"] True Some show ?thesis
          by (cases n) (simp_all add: map_filter_simps)
      qed
    qed
  qed (use Cons in \<open>simp add: map_filter_simps\<close>)
qed (simp add: map_filter_simps)

lemma set_collect_scores:
  "x \<in> set (collect_scores P n es) \<Longrightarrow> \<exists>e \<in> set es. P e \<and> er_overall e = Some x"
  by (induction P n es rule: collect_scores.induct) (auto split: if_splits option.splits)

definition scores_ok :: "eval_record list \<Rightarrow> bool" where
  "scores_ok es \<longleftrightarrow> (\<forall>e \<in> set es. \<forall>x. er_overall e = Some x \<longrightarrow> 0 \<le> x \<and> x \<le> 10)"

lemma scores_okD: "scores_ok es \<Longrightarrow> e \<in> set es \<Longrightarrow> er_overall e = Some x \<Longrightarrow> 0 \<le> x \<and> x \<le> 10"
  by (simp add: scores_ok_def)

lemma sum_list_bounds: "\<forall>x \<in> set xs. lo \<le> x \<and> x \<le> hi \<Longrightarrow>
    real (length xs) * lo \<le> sum_list xs \<and> sum_list xs \<le> real (length xs) * hi"
  by (induction xs) (auto simp: algebra_simps)

lemma mean_between:
  assumes "xs \<noteq> []" and "\<forall>x \<in> set xs. lo \<le> x \<and> x \<le> hi"
  shows "lo \<le> sum_list xs / real (length xs) \<and> sum_list xs / real (length xs) \<le> hi"
  using sum_list_bounds [OF assms(2)] assms(1)
  by (simp add: pos_le_divide_eq pos_divide_le_eq mult.commute)

lemma agent_score_bounds:
  assumes "scores_ok es" and "agent_score es agent task mj agg w = Inr (Some x)"
  shows "0 \<le> x \<and> x \<le> 10"
proof -
  let ?c = "collect_scores (eval_matches agent task mj) (nat (max 1 w)) (rev es)"
  have c: "\<forall>x \<in> set ?c. 0 \<le> x \<and> x \<le> 10"
    using set_collect_scores scores_okD [OF assms(1)] by fastforce
  consider "agg = Latest" | "agg = Median" "?c \<noteq> []" "x = median ?c"
    | "agg = Mean" "?c \<noteq> []" "x = sum_list ?c / real (length ?c)"
    using assms(2) by (cases agg) (auto simp: agent_score_def Let_def split: if_splits)
  then show ?thesis
  proof cases
    case 1
    then obtain e where "find (eval_matches agent task mj) (rev es) = Some e" "er_overall e = Some x"
      using assms(2) by (auto simp: agent_score_def split: option.splits)
    then have "e \<in> set es" using find_in_set [of _ "rev es" e] by simp
    then show ?thesis using scores_okD [OF assms(1)] \<open>er_overall e = Some x\<close> by blast
  next
    case 2
    then show ?thesis using median_between [OF _ c] by simp
  next
    case 3
    then show ?thesis using mean_between [OF _ c] by simp
  qed
qed

lemma multiplier_bounds:
  "(\<And>x. score = Some x \<Longrightarrow> 0 \<le> x \<and> x \<le> 10) \<Longrightarrow> 1 / 2 \<le> multiplier_of score \<and> multiplier_of score \<le> 1"
  by (cases score) (auto simp: multiplier_of_def)

section \<open>The store behind the backend\<close>

definition eval_key :: "scope \<Rightarrow> string" where
  "eval_key sc = ''evals/'' @ sc_tenant sc @ ''/'' @ sc_project sc @ ''/_list''"

definition named_scope :: "scope \<Rightarrow> bool" where
  "named_scope sc \<longleftrightarrow> sc_tenant sc \<noteq> [] \<and> sc_project sc \<noteq> []"

lemma resolve_request_scope:
  "named_scope sc \<Longrightarrow> resolve_scope st sc [] [] = (sc_tenant sc, sc_project sc)"
  by (simp add: resolve_scope_def named_scope_def py_or_def)

lemma scoped_eval_key_ok: "named_scope sc \<Longrightarrow> scoped_eval_key (sc_tenant sc) (sc_project sc) = Inr (eval_key sc)"
  by (simp add: scoped_eval_key_def named_scope_def eval_key_def)

definition evals_doc :: "doc option \<Rightarrow> eval_record list \<Rightarrow> bool" where
  "evals_doc d es \<longleftrightarrow> d = Some (DEvals es) \<or> d = None \<and> es = []"

context storage
begin

lemma evals_in_scope_ok:
  assumes "wf s" and "okscope sc" and "good (eval_key sc)" and "named_scope sc" and "evals_doc (val s (loc sc (eval_key sc))) es"
  shows "evals_in_scope B st sc s [] [] = Inr es"
  using assms
  by (auto simp: evals_in_scope_def resolve_request_scope scoped_eval_key_ok load_evals_def
      load_law evals_doc_def)

lemma save_eval_ok:
  assumes "wf s" and "okscope sc" and "good (eval_key sc)" and "named_scope sc" and "evals_doc (val s (loc sc (eval_key sc))) es"
  shows "\<exists>s'. save_eval B st sc s e [] [] = Inr s' \<and> wf s' \<and> emb s' = emb s \<and>
    evals_doc (val s' (loc sc (eval_key sc))) (last_n MAX_EVALS (es @ [e])) \<and>
    (\<forall>l. l \<noteq> loc sc (eval_key sc) \<longrightarrow> val s' l = val s l)"
proof -
  have l: "load_evals B sc s (eval_key sc) = Inr es"
    using evals_in_scope_ok [OF assms, of st]
    by (simp add: evals_in_scope_def resolve_request_scope [OF assms(4)] scoped_eval_key_ok [OF assms(4)])
  obtain s' where s': "be_save B sc s (eval_key sc) (DEvals (last_n MAX_EVALS (es @ [e]))) = Inr s'" "wf s'"
    "val s' = (val s)(loc sc (eval_key sc) \<mapsto> DEvals (last_n MAX_EVALS (es @ [e])))" "emb s' = emb s"
    by (rule save_ok [OF assms(1-3)])
  show ?thesis
    using s' l by (simp add: save_eval_def resolve_request_scope [OF assms(4)]
        scoped_eval_key_ok [OF assms(4)] evals_doc_def)
qed

end

end
