(* ===== verification/StoreProps.thy ===== *)
theory StoreProps
  imports JsonStorage PgStorage MetricsStore EvalFeedback SkillRegistry EvalStore
begin

text \<open>
  Properties of the two storage backends and of the small stores kept behind them, stated
  over the backends' own definitions.
\<close>

section \<open>The JSON backend\<close>

lemma json_wf_open: "disk_ok fs \<Longrightarrow> json_wf (json_open fs)"
  by (simp add: json_wf_def json_open_def)

lemma json_wf_empty: "json_wf (json_open [])"
  by (rule json_wf_open) (simp add: disk_ok_def)

lemma json_loc_apart:
  assumes "json_scope_ok sc" and "json_scope_ok sc'" and "sc \<noteq> default_scope" and "sc' \<noteq> default_scope"
    and "json_loc sc k = json_loc sc' k'"
  shows "sc = sc' \<and> k = k'"
proof -
  have two: "length (effective_root c) = 2" if "c \<noteq> default_scope" for c
    using that by (cases c) (auto simp: effective_root_def default_scope_def)
  let ?r = "\<lambda>j. butlast (segs j) @ [last (segs j) @ ''.json'']"
  have "effective_root sc @ ?r k = effective_root sc' @ ?r k'" using assms(5) by (simp only: json_loc_def)
  then have r: "effective_root sc = effective_root sc' \<and> ?r k = ?r k'"
    using two [OF assms(3)] two [OF assms(4)] by (metis append_eq_append_conv)
  then have sc: "sc = sc'" using root_inj [OF assms(1,2)] by simp
  moreover have "k = k'" using json_loc_inj [of sc k k'] assms(5) sc by simp
  ultimately show ?thesis by simp
qed

text \<open>
  The default scope has the storage root for its directory, so it sees the documents of every
  other scope, below the directories of the tenant and the project: the key under which it
  sees what a scope keeps under k.
\<close>

definition root_key :: "scope \<Rightarrow> string \<Rightarrow> string" where
  "root_key sc k = (if sc = default_scope then k
     else sanitize_segment (sc_tenant sc) @ ''/'' @ sanitize_segment (sc_project sc) @ ''/'' @ k)"

lemma default_scope_iff: "sc = default_scope \<longleftrightarrow> sc_tenant sc = ''default'' \<and> sc_project sc = ''default''"
  by (cases sc) (simp add: default_scope_def)

lemma segs_root_key: "segs (root_key sc k) = effective_root sc @ segs k"
proof -
  have "CHR ''/'' \<notin> set (sanitize_segment w)" for w using sanitize_seg_ok [of w] by (auto simp: seg_ok_def list_all_iff)
  then show ?thesis by (simp add: segs_def root_key_def effective_root_def default_scope_iff [symmetric] split_on_append)
qed

lemma json_loc_root_key: "json_loc default_scope (root_key sc k) = json_loc sc k"
proof -
  have "segs k \<noteq> []" by (simp add: segs_def)
  then show ?thesis
    by (simp add: json_loc_def segs_root_key butlast_append effective_root_def [of default_scope])
      (simp add: default_scope_def)
qed

lemma same_loc_iff: "json_loc sc' k' = json_loc sc k \<longleftrightarrow> root_key sc' k' = root_key sc k"
  using json_loc_root_key [of sc k] json_loc_root_key [of sc' k'] json_loc_inj by metis

lemma good_root_key: "good_key k \<Longrightarrow> good_key (root_key sc k)"
  using segs_root_key [of sc k] sanitize_seg_ok
  by (auto simp: good_key_def segs_def [symmetric] effective_root_def) (simp_all add: segs_def)

text \<open>
  C2. A save of d under k to the JSON backend succeeds, and then and after a restart every
  scope reads d under exactly the keys whose place in the default scope's directory is that of
  k, and under every other key what it read before. So the document is read back; no other key
  of its scope changes; no key of another tenant's or project's scope changes when both scopes
  have identifiers that file names keep as they are and neither is the default scope; but the
  default scope always sees the document, under tenant/project/k.
\<close>

theorem json_read_your_writes:
  assumes "json_wf s" and "good_key k"
  shows "\<exists>s'. json_save sc s k d = Inr s' \<and> json_wf s' \<and>
    (\<forall>sc' k'. good_key k' \<longrightarrow> json_load sc' s' k' =
       (if root_key sc' k' = root_key sc k then Inr (Some d) else json_load sc' s k') \<and>
       json_load sc' (json_open (js_fs s')) k' = json_load sc' s' k') \<and>
    json_load sc s' k = Inr (Some d) \<and>
    (\<forall>k'. good_key k' \<longrightarrow> k' \<noteq> k \<longrightarrow> json_load sc s' k' = json_load sc s k') \<and>
    (\<forall>sc' k'. json_scope_ok sc \<longrightarrow> json_scope_ok sc' \<longrightarrow> good_key k' \<longrightarrow> sc' \<noteq> sc \<longrightarrow> sc \<noteq> default_scope \<longrightarrow>
       sc' \<noteq> default_scope \<longrightarrow> json_load sc' s' k' = json_load sc' s k') \<and>
    json_load default_scope s' (root_key sc k) = Inr (Some d)"
proof -
  define s' where "s' = s\<lparr>js_fs := atomic_write (js_fs s) (json_loc sc k) (FDoc d)\<rparr>"
  have s': "json_save sc s k d = Inr s'" "json_wf s'" "json_val s' = (json_val s)(json_loc sc k \<mapsto> d)"
    using write_doc [OF assms s'_def] by (simp_all add: json_save_def key_to_path_good assms(2) res_simps s'_def)
  have all: "json_load sc' s' k' = (if root_key sc' k' = root_key sc k then Inr (Some d) else json_load sc' s k')"
    if "good_key k'" for sc' k'
    using that s'(3) same_loc_iff [of sc' k' sc k] by (simp add: json_load_law)
  have "json_load sc' (json_open (js_fs s')) k' = json_load sc' s' k'" for sc' k'
    by (simp add: json_load_def json_open_def)
  moreover have "json_load sc s' k' = json_load sc s k'" if "good_key k'" "k' \<noteq> k" for k'
    using all [OF that(1), of sc] same_loc_iff [of sc k' sc k] json_loc_inj that(2) by auto
  moreover have "json_load sc' s' k' = json_load sc' s k'"
    if "json_scope_ok sc" "json_scope_ok sc'" "good_key k'" "sc' \<noteq> sc" "sc \<noteq> default_scope" "sc' \<noteq> default_scope" for sc' k'
    using all [OF that(3), of sc'] same_loc_iff [of sc' k' sc k] json_loc_apart [OF that(2,1,6,5)] that(4) by auto
  moreover have "json_load default_scope s' (root_key sc k) = Inr (Some d)"
    using all [OF good_root_key [OF assms(2)], of default_scope sc] by (simp add: root_key_def [of default_scope])
  ultimately show ?thesis using s'(1,2) all all [OF assms(2), of sc] by auto
qed

lemma json_read_your_writes_witness:
  "\<exists>s'. json_save default_scope (json_open []) ''patterns/a'' (DDict []) = Inr s' \<and>
     json_load default_scope s' ''patterns/a'' = Inr (Some (DDict []))"
proof -
  have "good_key ''patterns/a''" by code_simp
  then show ?thesis using json_read_your_writes [OF json_wf_empty] by blast
qed

text \<open>
  C3. What a crash in the middle of a save leaves: before the first rename a restart reads the
  old document, after the second the new one, but between the two renames the document is
  gone, although the old and the new version are both on the disk. Other keys are untouched.
\<close>

theorem json_crash_window:
  assumes "json_wf s" and "good_key k" and "json_val s (json_loc sc k) = Some old"
  shows "map (\<lambda>fs. json_load sc (json_open fs) k) (write_steps (js_fs s) (json_loc sc k) (FDoc new)) =
      [Inr (Some old), Inr (Some old), Inr (Some old), Inr None, Inr (Some new)] \<and>
    (\<forall>fs \<in> set (write_steps (js_fs s) (json_loc sc k) (FDoc new)). \<forall>k'. good_key k' \<longrightarrow> k' \<noteq> k \<longrightarrow>
       json_load sc (json_open fs) k' = json_load sc s k')"
proof -
  obtain q n where p: "json_loc sc k = q @ [n @ ''.json'']" "seg_ok n"
    using json_loc_split [OF assms(2)] by metis
  have load: "json_load sc (json_open fs) j = Inr (case dget fs (json_loc sc j) of Some (FDoc d) \<Rightarrow> Some d | _ \<Rightarrow> None)"
    if "good_key j" for fs j
    using that by (simp add: json_load_def json_open_def key_to_path_good)
  have old: "dget (js_fs s) (q @ [n @ ''.json'']) = Some (FDoc old)"
    using assms(3) unfolding p(1) by (auto simp: json_val_def split: option.splits jfile.splits if_splits)
  have apart: "json_loc sc j \<noteq> q @ [n @ ''.tmp''] \<and> json_loc sc j \<noteq> q @ [n @ ''.bak''] \<and>
      (j \<noteq> k \<longrightarrow> json_loc sc j \<noteq> q @ [n @ ''.json''])" if "good_key j" for j
  proof -
    have "is_json (json_loc sc j)" unfolding json_loc_def append_assoc [symmetric] by (rule not_json(3))
    moreover have "j \<noteq> k \<longrightarrow> json_loc sc j \<noteq> json_loc sc k" using json_loc_inj by blast
    ultimately show ?thesis using not_json p(1) by metis
  qed
  show ?thesis
  proof (intro conjI ballI allI impI)
    show "map (\<lambda>fs. json_load sc (json_open fs) k) (write_steps (js_fs s) (json_loc sc k) (FDoc new)) =
        [Inr (Some old), Inr (Some old), Inr (Some old), Inr None, Inr (Some new)]"
      using old apart [OF assms(2)] p by (simp add: load assms(2) write_steps_def Let_def dict_simps)
    fix fs k' assume fs: "fs \<in> set (write_steps (js_fs s) (json_loc sc k) (FDoc new))" "good_key k'" "k' \<noteq> k"
    then have "dget fs (json_loc sc k') = dget (js_fs s) (json_loc sc k')"
      using apart [OF fs(2)] old p by (auto simp: write_steps_def Let_def dict_simps)
    then show "json_load sc (json_open fs) k' = json_load sc s k'"
      using fs(2) by (simp add: json_load_def key_to_path_good json_open_def)
  qed
qed

lemma json_crash_window_witness:
  "map (\<lambda>fs. json_load default_scope (json_open fs) ''metrics'')
     (write_steps [([''metrics.json''], FDoc (DDict []))] (json_loc default_scope ''metrics'') (FDoc (DSkills []))) =
   [Inr (Some (DDict [])), Inr (Some (DDict [])), Inr (Some (DDict [])), Inr None, Inr (Some (DSkills []))]"
proof -
  let ?fs = "[([''metrics.json''], FDoc (DDict []))]"
  have "json_wf (json_open ?fs)" by (rule json_wf_open) (simp add: disk_ok_def path_ok_def stem_def seg_ok_def wf_dict_def)
  moreover have "good_key ''metrics''" by code_simp
  moreover have "json_val (json_open ?fs) (json_loc default_scope ''metrics'') = Some (DDict [])" by code_simp
  ultimately have "map (\<lambda>fs. json_load default_scope (json_open fs) ''metrics'')
     (write_steps (js_fs (json_open ?fs)) (json_loc default_scope ''metrics'') (FDoc (DSkills []))) =
   [Inr (Some (DDict [])), Inr (Some (DDict [])), Inr (Some (DDict [])), Inr None, Inr (Some (DSkills []))]"
    using json_crash_window by blast
  then show ?thesis by (simp add: json_open_def)
qed

text \<open>
  Search answers do not depend on what the process has cached: reopening the directory
  gives the same hits, at most the limit asked for, with distinct keys under the prefix that
  have a stored vector, best first, and similarities between 0 and 1.
\<close>

theorem json_search_restart:
  assumes "json_wf s" and "json_scope_ok sc" and "json_search dot norm2 sc s v n p = Inr (hits, s')"
  shows "\<exists>s2. json_search dot norm2 sc (json_open (js_fs s)) v n p = Inr (hits, s2) \<and>
    length hits \<le> n \<and> distinct (map fst hits) \<and> sorted_wrt (\<lambda>a b. snd b \<le> snd a) hits \<and>
    (\<forall>(k, sim) \<in> set hits. prefix p k \<and> json_emb s sc k \<noteq> None \<and> 0 \<le> sim \<and> sim \<le> 1)"
proof -
  obtain s1 where s1: "get_embeddings sc s = (load_embeddings (js_fs s) sc, s1)"
    by (rule get_embeddings_law [OF assms(1,2)])
  have "disk_ok (js_fs s)" using assms(1) by (simp add: json_wf_def)
  then obtain s2 where s2: "get_embeddings sc (json_open (js_fs s)) = (load_embeddings (js_fs s) sc, s2)"
    using get_embeddings_law [OF json_wf_open assms(2)] by (metis json_open_def json_store.select_convs(1))
  have "\<exists>s3. json_search dot norm2 sc (json_open (js_fs s)) v n p = Inr (hits, s3)"
    using assms(3) by (auto simp: json_search_def s1 s2 split: if_splits)
  then show ?thesis using json_search_law [OF assms] by (auto simp: split_def)
qed

lemma json_search_restart_witness:
  "\<exists>s2. json_search (\<lambda>v w. 1) (\<lambda>v. 1) default_scope (json_open [([''_embeddings.json''], FIndex [(''p/a'', [1])])])
     [1] 5 ''p'' = Inr ([(''p/a'', 1)], s2)"
proof -
  let ?fs = "[([''_embeddings.json''], FIndex [(''p/a'', [1])])]"
  have "json_wf (json_open ?fs)"
    by (rule json_wf_open) (simp add: disk_ok_def path_ok_def stem_def seg_ok_def wf_dict_def)
  moreover have "json_scope_ok default_scope" by code_simp
  moreover have "json_search (\<lambda>v w. 1) (\<lambda>v. 1) default_scope (json_open ?fs) [1] 5 ''p'' =
      Inr ([(''p/a'', 1)], json_open ?fs)"
    by (simp add: json_search_def json_open_def get_embeddings_def load_embeddings_def embeddings_path_def
        effective_root_def default_scope_def sort_desc_def)
  ultimately have "\<exists>s2. json_search (\<lambda>v w. 1) (\<lambda>v. 1) default_scope (json_open (js_fs (json_open ?fs)))
     [1] 5 ''p'' = Inr ([(''p/a'', 1)], s2)"
    using json_search_restart by blast
  then show ?thesis by (simp add: json_open_def)
qed

section \<open>The PostgreSQL backend\<close>




section \<open>The stores of a scope\<close>

definition empty_pg :: pg_store where "empty_pg = \<lparr>pg_data = [], pg_emb = []\<rparr>"

lemma pg_wf_empty: "pg_wf empty_pg" and pg_val_empty: "pg_val empty_pg l = None"
  by (simp_all add: pg_wf_def empty_pg_def pg_val_def)

text \<open>
  The metrics document implements the list of all runs: after any sequence of recorded
  runs, starting from a scope with no metrics, reading the metrics gives the exact numbers of
  runs, successes, failures and reuses and the rounded success rate.
\<close>

theorem metrics_count_runs:
  assumes "pg_wf s" and "pg_load sc s (metrics_key sc) = Inr None"
  shows "\<exists>s'. record_runs (pg_backend edim cdist) sc s runs = Inr s' \<and>
    get_metrics (pg_backend edim cdist) sc s' = Inr \<lparr>mt_runs = length runs,
      mt_success = length (filter run_success runs),
      mt_failures = length runs - length (filter run_success runs),
      mt_reuse = length (filter run_reuse runs),
      mt_success_rate = (if runs = [] then 0
        else py_round 3 (real (length (filter run_success runs)) / real (length runs)))\<rparr>"
  using assms by (intro pg.fresh_runs) (simp_all add: pg_load_def pg_val_def)

lemma metrics_count_runs_witness:
  "\<exists>s'. record_runs (pg_backend 3 (\<lambda>v w. 0)) default_scope empty_pg
     [\<lparr>run_ts = 0, run_success = True, run_reuse = False, run_score = None\<rparr>] = Inr s' \<and>
   get_metrics (pg_backend 3 (\<lambda>v w. 0)) default_scope s' = Inr \<lparr>mt_runs = 1, mt_success = 1,
     mt_failures = 0, mt_reuse = 0, mt_success_rate = py_round 3 1\<rparr>"
  using metrics_count_runs [of empty_pg default_scope 3 "\<lambda>v w. 0"
      "[\<lparr>run_ts = 0, run_success = True, run_reuse = False, run_score = None\<rparr>]"]
  by (simp add: pg_wf_empty) (simp add: empty_pg_def pg_load_def)

text \<open>
  Recall's quality multiplier resists outliers: when more than half of a pattern's
  scores in the aggregation window lie between lo and hi, the multiplier lies between the
  multipliers of lo and hi, whatever the other scores are.
\<close>

theorem eval_multiplier_robust:
  assumes "evals_in_scope B st sc s t p = Inr es"
    and "xs = take (nat (max 1 w)) (List.map_filter er_overall (filter (\<lambda>e. er_agent e = agent) (rev es)))"
    and "length xs < 2 * length (filter (\<lambda>x. lo \<le> x \<and> x \<le> hi) xs)"
  shows "\<exists>m. get_eval_multiplier B st sc s agent task t p Median w = Inr m \<and>
    multiplier_of (Some lo) \<le> m \<and> m \<le> multiplier_of (Some hi)"
proof -
  have "eval_matches agent task 0 = (\<lambda>e. er_agent e = agent)" by (auto simp: eval_matches_def)
  then have xs: "collect_scores (eval_matches agent task 0) (nat (max 1 w)) (rev es) = xs"
    using assms(2) by (simp add: collect_scores_eq)
  have "xs \<noteq> []" using assms(3) by auto
  then have "agent_score es agent task 0 Median w = Inr (Some (median xs))"
    by (simp add: agent_score_def xs Let_def)
  then have "get_eval_multiplier B st sc s agent task t p Median w = Inr (multiplier_of (Some (median xs)))"
    by (simp add: get_eval_multiplier_def get_agent_score_def assms(1))
  then show ?thesis using median_majority [OF assms(3)] by (auto simp: multiplier_of_def)
qed

lemma eval_multiplier_robust_witness:
  "\<exists>m. get_eval_multiplier (pg_backend 3 (\<lambda>v w. 0)) \<lparr>es_tenant = ''d'', es_project = ''d''\<rparr> default_scope
     \<lparr>pg_data = [(row_key default_scope (eval_key default_scope), new_row (DEvals
        [\<lparr>er_agent = ''p'', er_task = ''t'', er_overall = Some 8, er_feedback = [], er_ts = 0\<rparr>]))], pg_emb = []\<rparr>
     ''p'' ''t'' [] [] Median 5 = Inr m \<and> multiplier_of (Some 8) \<le> m \<and> m \<le> multiplier_of (Some 8)"
proof (rule eval_multiplier_robust)
  show "evals_in_scope (pg_backend 3 (\<lambda>v w. 0)) \<lparr>es_tenant = ''d'', es_project = ''d''\<rparr> default_scope
     \<lparr>pg_data = [(row_key default_scope (eval_key default_scope), new_row (DEvals
        [\<lparr>er_agent = ''p'', er_task = ''t'', er_overall = Some 8, er_feedback = [], er_ts = 0\<rparr>]))], pg_emb = []\<rparr> [] [] =
     Inr [\<lparr>er_agent = ''p'', er_task = ''t'', er_overall = Some 8, er_feedback = [], er_ts = 0\<rparr>]"
    by (simp add: evals_in_scope_def resolve_scope_def py_or_def scoped_eval_key_def load_evals_def
        pg_backend_def pg_load_def eval_key_def default_scope_def new_row_def)
qed (simp_all add: map_filter_simps, simp)

text \<open>
  Feedback recorded twice is surfaced: whatever clusters the scope already has, recording
  a text that is not blank twice makes the top list non-empty, and everything the top list
  ever shows was counted at least twice.
\<close>

theorem feedback_twice_is_surfaced:
  assumes "feedbacks_ok ps" and "normalize_fb text \<noteq> []" and "0 < n"
  shows "top_feedback n None 0 (add_feedback t2 text (add_feedback t1 text ps)) \<noteq> [] \<and>
    feedbacks_ok (add_feedback t2 text (add_feedback t1 text ps)) \<and>
    set (top_feedback m tt off ps) \<subseteq> fb_pattern ` {p \<in> set ps. 2 \<le> fb_count p}"
  using twice_surfaces [OF assms] add_feedback_ok [OF add_feedback_ok [OF assms(1)]] top_feedback_mem
  by blast

lemma feedback_twice_is_surfaced_witness:
  "top_feedback 1 None 0 (add_feedback [] ''slow'' (add_feedback [] ''slow'' [])) \<noteq> []"
proof -
  have "feedbacks_ok []" by (simp add: feedbacks_ok_def)
  moreover have "normalize_fb ''slow'' \<noteq> []" by code_simp
  ultimately show ?thesis using feedback_twice_is_surfaced [of "[]" "''slow''" 1] by simp
qed

text \<open>
  Feedback decay does not depend on how often it runs: decaying a cluster at t1 and then
  at t2 gives the score of one decay at t2, up to half a unit of the fourth decimal the store
  keeps.
\<close>

theorem feedback_decay_composes:
  fixes t0 t1 t2 :: nat
  assumes "fb_last_decayed p = Some (iso t0)" and "time_ok t1" and "t0 \<le> t1" and "t1 \<le> t2"
    and "0 \<le> fb_score p" and "decay_all (real t1) [p] = [q]"
  shows "\<bar>decayed_score (real t2) q - decayed_score (real t2) p\<bar> \<le> 1 / 20000"
proof -
  have "q = p\<lparr>fb_score := py_round 4 (decayed_score (real t1) p), fb_last_decayed := Some (gmtime_iso (real t1))\<rparr>"
    using assms(6) by (auto split: if_splits)
  then show ?thesis using decay_compose assms(1-5) time_ok_mono by blast
qed

lemma feedback_decay_composes_witness:
  "\<bar>decayed_score (real 1209600) (new_feedback (iso 0) ''a''\<lparr>fb_score := 9 / 20, fb_last_decayed := Some (iso 604800)\<rparr>)
     - decayed_score (real 1209600) (new_feedback (iso 0) ''a'')\<bar> \<le> 1 / 20000"
proof -
  let ?p = "new_feedback (iso 0) ''a''" and ?q = "new_feedback (iso 0) ''a''\<lparr>fb_score := 9 / 20, fb_last_decayed := Some (iso 604800)\<rparr>"
  have "civil 7 = (1970, 1, 8)" by (simp add: civil_def eval_nat_numeral month_days_def)
  then have t: "time_ok 604800" by (simp add: time_ok_def)
  have "elapsed_weeks (real 604800) ?p = 1"
    using elapsed_weeks_iso [of ?p 0 "real 604800"] time_ok_mono [OF _ t, of 0] by (simp add: new_feedback_def)
  then have d: "decayed_score (real 604800) ?p = 9 / 20"
    by (simp add: decayed_score_def new_feedback_def FB_DECAY_PER_WEEK_def)
  have "py_round 4 (9 / 20) = 9 / 20" by (simp add: py_round_def half_even_def)
  moreover have "FB_MIN_SCORE \<le> 9 / 20" by (simp add: FB_MIN_SCORE_def)
  ultimately have "decay_all (real 604800) [?p] = [?q]"
    unfolding decay_all.simps d by (simp add: gmtime_iso_def)
  from feedback_decay_composes [OF _ t _ _ _ this, of 0 1209600] show ?thesis
    by (simp add: new_feedback_def)
qed

text \<open>
  Skills registered for a pattern are found: after registering non-blank skills, a search
  for them returns the pattern, for both match modes, and a search returns exactly the patterns
  whose registered skills match.
\<close>

theorem registered_skills_are_found:
  assumes "pg_wf s" and "registry_doc (pg_val s (row_key sc SKILLS_KEY)) r"
    and "\<forall>w \<in> set skills. py_strip w \<noteq> []" and "skills \<noteq> []"
  shows "\<exists>s' ks. register (pg_backend edim cdist) sc s key skills = Inr s' \<and>
    find_by_skills (pg_backend edim cdist) sc s' skills all = Inr ks \<and> key \<in> set ks \<and>
    (\<forall>k. k \<noteq> key \<longrightarrow> k \<in> set ks \<longleftrightarrow> (\<exists>ws. dget r k = Some ws \<and> skills_match skills all ws))"
proof -
  let ?r = "dput key (map norm_skill skills) r"
  have flt: "filter (\<lambda>w. py_strip w \<noteq> []) skills = skills" using assms(3) by (simp add: filter_id_conv)
  obtain s' where s': "register (pg_backend edim cdist) sc s key skills = Inr s'" "pg_wf s'"
    "registry_doc (pg_val s' (row_key sc SKILLS_KEY)) ?r"
    using pg.register_ok [OF assms(1) _ assms(2,4), where edim = edim and cdist = cdist and k = key and r' = ?r] by (auto simp: flt)
  have r: "wf_dict ?r" using s'(3) by (simp add: registry_doc_def)
  have "find_by_skills (pg_backend edim cdist) sc s' skills all = Inr (matching_keys skills all ?r)"
    using pg.load_registry_ok [OF s'(2) _ s'(3)] assms(4) by (simp add: find_by_skills_def)
  moreover have "key \<in> set (matching_keys skills all ?r)"
  proof -
    have "\<exists>w \<in> set skills. py_strip w \<noteq> []" using assms(3,4) by (cases skills) auto
    then have "skills_match skills all (map norm_skill skills)" using skills_match_self [of skills all] flt by simp
    then show ?thesis by (simp add: matching_keys_mem [OF r] dict_simps)
  qed
  ultimately show ?thesis using s'(1) by (auto simp: matching_keys_mem [OF r] dict_simps)
qed

lemma registered_skills_are_found_witness:
  "\<exists>s' ks. register (pg_backend 3 (\<lambda>v w. 0)) default_scope empty_pg ''patterns/a'' [''SQL''] = Inr s' \<and>
    find_by_skills (pg_backend 3 (\<lambda>v w. 0)) default_scope s' [''SQL''] True = Inr ks \<and> ''patterns/a'' \<in> set ks"
proof -
  have "registry_doc (pg_val empty_pg (row_key default_scope SKILLS_KEY)) []"
    by (simp add: registry_doc_def pg_val_empty)
  moreover have "\<forall>w \<in> set [''SQL'']. py_strip w \<noteq> []" by code_simp
  ultimately show ?thesis using registered_skills_are_found [OF pg_wf_empty] by blast
qed

end
