(* ===== verification/Patterns.thy ===== *)
theory Patterns
  imports JsonStorage PgStorage
begin

text \<open>
  The \<open>Pattern\<close> and \<open>Match\<close> models of \<open>engramia/types.py\<close> and the pattern
  lifecycle of \<open>engramia/core/success_patterns.py\<close>. Validation accepts numbers for
  numeric fields (an integral float for an int); pydantic's further coercions, of numeric
  strings and booleans, are outside the model and count as a validation error, which is a
  ValueError. An operation of several steps returns the state it leaves with its result,
  also when it raises.
\<close>

section \<open>Patterns\<close>

record pattern =
  p_task :: string
  p_design :: pydict
  p_success_score :: real
  p_reuse_count :: int
  p_timestamp :: real

definition json_float :: "json \<Rightarrow> real option" where
  "json_float j = (case j of JNum x \<Rightarrow> Some x | JInt i \<Rightarrow> Some (real_of_int i) | _ \<Rightarrow> None)"

definition json_int :: "json \<Rightarrow> int option" where
  "json_int j = (case j of JInt i \<Rightarrow> Some i
     | JNum x \<Rightarrow> if x = of_int \<lfloor>x\<rfloor> then Some \<lfloor>x\<rfloor> else None | _ \<Rightarrow> None)"

definition field_or :: "(json \<Rightarrow> 'a option) \<Rightarrow> 'a \<Rightarrow> pydict \<Rightarrow> string \<Rightarrow> 'a option" where
  "field_or conv dflt d k = (case dget d k of None \<Rightarrow> Some dflt | Some j \<Rightarrow> conv j)"

definition json_str :: "json \<Rightarrow> string option" where
  "json_str j = (case j of JStr s \<Rightarrow> Some s | _ \<Rightarrow> None)"

definition json_obj :: "json \<Rightarrow> pydict option" where
  "json_obj j = (case j of JObj d \<Rightarrow> Some d | _ \<Rightarrow> None)"

text \<open>\<open>Pattern.model_validate\<close>; \<open>now\<close> is the default of the timestamp.\<close>

definition pattern_validate :: "real \<Rightarrow> pydict \<Rightarrow> pattern res" where
  "pattern_validate now d =
     (case (Option.bind (dget d ''task'') json_str, Option.bind (dget d ''design'') json_obj,
            field_or json_float 1 d ''success_score'', field_or json_int 0 d ''reuse_count'',
            field_or json_float now d ''timestamp'') of
        (Some task, Some design, Some score, Some n, Some ts) \<Rightarrow>
          if 0 \<le> score \<and> score \<le> 10 \<and> 0 \<le> n
          then Inr \<lparr>p_task = task, p_design = design, p_success_score = score,
                    p_reuse_count = n, p_timestamp = ts\<rparr>
          else Inl (ValueError ''Pattern'')
      | _ \<Rightarrow> Inl (ValueError ''Pattern''))"

definition validate_doc :: "real \<Rightarrow> doc \<Rightarrow> pattern res" where
  "validate_doc now d = (case d of DDict x \<Rightarrow> pattern_validate now x | _ \<Rightarrow> Inl (ValueError ''Pattern''))"

definition pattern_dump :: "pattern \<Rightarrow> pydict" where
  "pattern_dump p =
     [(''task'', JStr (p_task p)), (''design'', JObj (p_design p)),
      (''success_score'', JNum (p_success_score p)), (''reuse_count'', JInt (p_reuse_count p)),
      (''timestamp'', JNum (p_timestamp p))]"

definition pattern_ok :: "pattern \<Rightarrow> bool" where
  "pattern_ok p \<longleftrightarrow> 0 \<le> p_success_score p \<and> p_success_score p \<le> 10 \<and> 0 \<le> p_reuse_count p"

lemma validate_dump: "pattern_ok p \<Longrightarrow> pattern_validate now (pattern_dump p) = Inr p"
  by (simp add: pattern_validate_def pattern_dump_def field_or_def json_float_def json_int_def
      json_str_def json_obj_def pattern_ok_def)

lemma validate_ok: "pattern_validate now d = Inr p \<Longrightarrow> pattern_ok p"
  by (auto simp: pattern_validate_def pattern_ok_def split: option.splits if_splits)

section \<open>Matches\<close>

record match =
  m_pattern :: pattern
  m_similarity :: real
  m_tier :: reuse_tier
  m_key :: string
  m_effective :: "real option"

definition mk_match :: "pattern \<Rightarrow> real \<Rightarrow> reuse_tier \<Rightarrow> string \<Rightarrow> real option \<Rightarrow> match res" where
  "mk_match p sim tier key eff =
     (if 0 \<le> sim \<and> sim \<le> 1 \<and> (case eff of None \<Rightarrow> True | Some e \<Rightarrow> 0 \<le> e \<and> e \<le> 1)
      then Inr \<lparr>m_pattern = p, m_similarity = sim, m_tier = tier, m_key = key, m_effective = eff\<rparr>
      else Inl (ValueError ''Match''))"

section \<open>Lifecycle\<close>

definition PATTERN_DECAY_PER_WEEK :: real where "PATTERN_DECAY_PER_WEEK = 49 / 50"
definition PATTERN_MIN_SCORE :: real where "PATTERN_MIN_SCORE = 1 / 10"
definition REUSE_BOOST :: real where "REUSE_BOOST = 1 / 10"

text \<open>The new dump, then the internal metadata of the old document (keys with an underscore).\<close>

definition keep_internal :: "pydict \<Rightarrow> pydict \<Rightarrow> pydict" where
  "keep_internal data save_data =
     save_data @ filter (\<lambda>(k, v). prefix ''_'' k \<and> k \<notin> fst ` set save_data) data"

definition mark_reused :: "'s backend \<Rightarrow> real \<Rightarrow> scope \<Rightarrow> 's \<Rightarrow> string \<Rightarrow> 's res" where
  "mark_reused B now sc s key =
     bind_res (be_load B sc s key) (\<lambda>d.
       case d of
         None \<Rightarrow> Inr s
       | Some (DDict data) \<Rightarrow> bind_res (pattern_validate now data) (\<lambda>p.
           be_save B sc s key (DDict (keep_internal data (pattern_dump
             (p\<lparr>p_reuse_count := p_reuse_count p + 1,
                p_success_score := min 10 (p_success_score p + REUSE_BOOST)\<rparr>)))))
       | Some _ \<Rightarrow> Inl (ValueError ''Pattern''))"

definition age_weeks :: "real \<Rightarrow> pattern \<Rightarrow> real" where
  "age_weeks now p = max 0 ((now - p_timestamp p) / (7 * 24 * 3600))"

definition aged_score :: "real \<Rightarrow> pattern \<Rightarrow> real" where
  "aged_score now p = p_success_score p * (PATTERN_DECAY_PER_WEEK powr age_weeks now p)"

text \<open>One key of the aging loop: the number of patterns pruned and the next state.\<close>

definition age_one :: "'s backend \<Rightarrow> real \<Rightarrow> scope \<Rightarrow> 's \<Rightarrow> string \<Rightarrow> (nat \<times> 's) res" where
  "age_one B now sc s key =
     bind_res (be_load B sc s key) (\<lambda>d.
       case d of
         None \<Rightarrow> Inr (0, s)
       | Some (DDict data) \<Rightarrow> bind_res (pattern_validate now data) (\<lambda>p.
           if aged_score now p < PATTERN_MIN_SCORE
           then bind_res (be_delete B sc s key) (\<lambda>s'. Inr (1, s'))
           else bind_res (be_save B sc s key (DDict (keep_internal data (pattern_dump
                  (p\<lparr>p_success_score := py_round 4 (aged_score now p)\<rparr>))))) (\<lambda>s'. Inr (0, s')))
       | Some _ \<Rightarrow> Inl (ValueError ''Pattern''))"

fun age_all :: "'s backend \<Rightarrow> real \<Rightarrow> scope \<Rightarrow> 's \<Rightarrow> string list \<Rightarrow> nat \<Rightarrow> nat res \<times> 's" where
  "age_all B now sc s [] n = (Inr n, s)"
| "age_all B now sc s (k # ks) n =
     (case age_one B now sc s k of
        Inl e \<Rightarrow> (Inl e, s)
      | Inr (m, s') \<Rightarrow> age_all B now sc s' ks (n + m))"

definition run_aging :: "'s backend \<Rightarrow> real \<Rightarrow> scope \<Rightarrow> 's \<Rightarrow> nat res \<times> 's" where
  "run_aging B now sc s =
     (case be_list_keys B sc s PATTERNS_PREFIX of
        Inl e \<Rightarrow> (Inl e, s)
      | Inr keys \<Rightarrow> age_all B now sc s keys 0)"

definition get_count :: "'s backend \<Rightarrow> scope \<Rightarrow> 's \<Rightarrow> nat res" where
  "get_count B sc s = bind_res (be_list_keys B sc s PATTERNS_PREFIX) (\<lambda>ks. Inr (length ks))"

section \<open>Aging of one document\<close>

lemma dump_keys [simp]: "fst ` set (pattern_dump p) = {''task'', ''design'', ''success_score'', ''reuse_count'', ''timestamp''}"
  by (simp add: pattern_dump_def)

lemma dget_filter_fst: "dget (filter (\<lambda>(k, v). Q k) data) k = (if Q k then dget data k else None)"
  by (induction data) auto

lemma dget_keep_internal:
  "dget (keep_internal data (pattern_dump p)) k =
     (case dget (pattern_dump p) k of Some v \<Rightarrow> Some v | None \<Rightarrow> if prefix ''_'' k then dget data k else None)"
proof -
  let ?K = "fst ` set (pattern_dump p)"
  have f: "dget (filter (\<lambda>(k, v). prefix ''_'' k \<and> k \<notin> ?K) data) k =
      (if prefix ''_'' k \<and> k \<notin> ?K then dget data k else None)"
    by (rule dget_filter_fst)
  have "dget (keep_internal data (pattern_dump p)) k =
      (case dget (pattern_dump p) k of Some v \<Rightarrow> Some v
       | None \<Rightarrow> dget (filter (\<lambda>(k, v). prefix ''_'' k \<and> k \<notin> ?K) data) k)"
    by (simp add: keep_internal_def map_add_def del: dump_keys)
  then show ?thesis
    unfolding f using dget_None_iff [of "pattern_dump p" k]
    by (cases "dget (pattern_dump p) k") (simp_all del: dump_keys)
qed

lemma validate_keep_internal:
  "pattern_ok p \<Longrightarrow> pattern_validate now (keep_internal data (pattern_dump p)) = Inr p"
proof -
  assume "pattern_ok p"
  have "dget (keep_internal data (pattern_dump p)) k = dget (pattern_dump p) k"
    if "k \<in> {''task'', ''design'', ''success_score'', ''reuse_count'', ''timestamp''}" for k
  proof -
    have "dget (pattern_dump p) k \<noteq> None" using that by (simp add: dget_None_iff)
    then show ?thesis by (auto simp: dget_keep_internal)
  qed
  then have "pattern_validate now (keep_internal data (pattern_dump p)) = pattern_validate now (pattern_dump p)"
    by (simp add: pattern_validate_def field_or_def)
  with \<open>pattern_ok p\<close> show ?thesis by (simp add: validate_dump)
qed

lemma aged_score_bounds:
  assumes "pattern_ok p"
  shows "0 \<le> aged_score now p" and "aged_score now p \<le> p_success_score p"
proof -
  have "0 \<le> age_weeks now p" by (simp add: age_weeks_def)
  then have "PATTERN_DECAY_PER_WEEK powr age_weeks now p \<le> 1"
    by (simp add: PATTERN_DECAY_PER_WEEK_def powr_le1)
  then show "0 \<le> aged_score now p" "aged_score now p \<le> p_success_score p"
    using assms mult_left_mono [of _ 1 "p_success_score p"] by (auto simp: aged_score_def pattern_ok_def)
qed

lemma aged_pattern_ok:
  assumes "pattern_ok p"
  shows "pattern_ok (p\<lparr>p_success_score := py_round 4 (aged_score now p)\<rparr>)"
  using assms aged_score_bounds [OF assms, of now] py_round_le [of "aged_score now p" 10 4]
  by (auto simp: pattern_ok_def py_round_nonneg)

definition aged :: "real \<Rightarrow> pattern \<Rightarrow> pattern option" where
  "aged now p = (if aged_score now p < PATTERN_MIN_SCORE then None
     else Some (p\<lparr>p_success_score := py_round 4 (aged_score now p)\<rparr>))"

definition reused :: "pattern \<Rightarrow> pattern" where
  "reused p = p\<lparr>p_reuse_count := p_reuse_count p + 1,
     p_success_score := min 10 (p_success_score p + REUSE_BOOST)\<rparr>"

lemma reused_ok: "pattern_ok p \<Longrightarrow> pattern_ok (reused p)"
  by (simp add: pattern_ok_def reused_def REUSE_BOOST_def)

text \<open>What a location holds, read as a pattern.\<close>

definition holds :: "real \<Rightarrow> doc option \<Rightarrow> pattern option \<Rightarrow> bool" where
  "holds now d p \<longleftrightarrow> (case p of None \<Rightarrow> d = None | Some q \<Rightarrow> (\<exists>x. d = Some x \<and> validate_doc now x = Inr q))"

lemma holds_Some: "holds now d (Some p) \<Longrightarrow> \<exists>x. d = Some (DDict x) \<and> pattern_validate now x = Inr p"
proof -
  assume "holds now d (Some p)"
  then obtain x where "d = Some x" "validate_doc now x = Inr p" by (auto simp: holds_def)
  then show ?thesis by (cases x) (simp_all add: validate_doc_def)
qed

lemma holds_keep: "pattern_ok p \<Longrightarrow> holds now (Some (DDict (keep_internal x (pattern_dump p)))) (Some p)"
  by (simp add: holds_def validate_doc_def validate_keep_internal)

context storage
begin

lemma mark_reused_ok:
  assumes "wf s" and "okscope sc" and "good k" and "holds now (val s (loc sc k)) (Some p)"
  shows "\<exists>s'. mark_reused B now sc s k = Inr s' \<and> wf s' \<and> emb s' = emb s \<and>
    holds now (val s' (loc sc k)) (Some (reused p)) \<and> (\<forall>l. l \<noteq> loc sc k \<longrightarrow> val s' l = val s l)"
proof -
  obtain x where x: "val s (loc sc k) = Some (DDict x)" "pattern_validate now x = Inr p"
    using holds_Some [OF assms(4)] by blast
  obtain s' where "be_save B sc s k (DDict (keep_internal x (pattern_dump (reused p)))) = Inr s'" "wf s'"
    "val s' = (val s)(loc sc k \<mapsto> DDict (keep_internal x (pattern_dump (reused p))))" "emb s' = emb s"
    by (rule save_ok [OF assms(1-3)])
  then show ?thesis
    using x assms(1-3) holds_keep [OF reused_ok [OF validate_ok [OF x(2)]], of now x]
    by (simp add: mark_reused_def load_law reused_def [symmetric])
qed

lemma mark_reused_missing:
  "wf s \<Longrightarrow> okscope sc \<Longrightarrow> good k \<Longrightarrow> val s (loc sc k) = None \<Longrightarrow> mark_reused B now sc s k = Inr s"
  by (simp add: mark_reused_def load_law)

lemma age_one_ok:
  assumes "wf s" and "okscope sc" and "good k" and "holds now (val s (loc sc k)) (Some p)"
  shows "\<exists>s'. age_one B now sc s k = Inr (if aged now p = None then 1 else 0, s') \<and> wf s' \<and>
    holds now (val s' (loc sc k)) (aged now p) \<and> (\<forall>l. l \<noteq> loc sc k \<longrightarrow> val s' l = val s l)"
proof -
  obtain x where x: "val s (loc sc k) = Some (DDict x)" "pattern_validate now x = Inr p"
    using holds_Some [OF assms(4)] by blast
  note ok = validate_ok [OF x(2)]
  have load: "be_load B sc s k = Inr (Some (DDict x))" using assms(1-3) x(1) by (simp add: load_law)
  show ?thesis
  proof (cases "aged_score now p < PATTERN_MIN_SCORE")
    case True
    obtain s' where "be_delete B sc s k = Inr s'" "wf s'" "val s' = (val s)(loc sc k := None)"
      using delete_law [OF assms(1-3)] by blast
    with True load x(2) show ?thesis by (simp add: age_one_def aged_def holds_def)
  next
    case False
    let ?q = "p\<lparr>p_success_score := py_round 4 (aged_score now p)\<rparr>"
    obtain s' where "be_save B sc s k (DDict (keep_internal x (pattern_dump ?q))) = Inr s'" "wf s'"
      "val s' = (val s)(loc sc k \<mapsto> DDict (keep_internal x (pattern_dump ?q)))" "emb s' = emb s"
      by (rule save_ok [OF assms(1-3)])
    with False load x(2) show ?thesis
      using holds_keep [OF aged_pattern_ok [OF ok], of now x now] by (simp add: age_one_def aged_def)
  qed
qed

lemma age_all_ok:
  assumes "wf s" and "okscope sc" and "\<forall>k \<in> set ks. good k \<and> holds now (val s (loc sc k)) (Some (P k))"
    and "distinct ks"
  shows "\<exists>s'. age_all B now sc s ks n = (Inr (n + length (filter (\<lambda>k. aged now (P k) = None) ks)), s') \<and> wf s' \<and>
    (\<forall>k \<in> set ks. holds now (val s' (loc sc k)) (aged now (P k))) \<and>
    (\<forall>l. l \<notin> loc sc ` set ks \<longrightarrow> val s' l = val s l)"
  using assms
proof (induction ks arbitrary: s n)
  case (Cons k ks)
  let ?m = "if aged now (P k) = None then 1 else 0 :: nat"
  obtain s1 where s1: "age_one B now sc s k = Inr (?m, s1)" "wf s1"
    "holds now (val s1 (loc sc k)) (aged now (P k))" "\<forall>l. l \<noteq> loc sc k \<longrightarrow> val s1 l = val s l"
    using age_one_ok [of s sc k now "P k"] Cons.prems by auto
  have ne: "loc sc j \<noteq> loc sc k" if "j \<in> set ks" for j
    using loc_inj [of j k sc] Cons.prems(3,4) that by auto
  then have "\<forall>j \<in> set ks. good j \<and> holds now (val s1 (loc sc j)) (Some (P j))"
    using s1(4) Cons.prems(3) by auto
  from Cons.IH [OF s1(2) Cons.prems(2) this, of "n + ?m"] Cons.prems(4) obtain s2 where s2:
    "age_all B now sc s1 ks (n + ?m) = (Inr (n + ?m + length (filter (\<lambda>k. aged now (P k) = None) ks)), s2)"
    "wf s2" "\<forall>k \<in> set ks. holds now (val s2 (loc sc k)) (aged now (P k))"
    "\<forall>l. l \<notin> loc sc ` set ks \<longrightarrow> val s2 l = val s1 l" by auto
  have "loc sc k \<notin> loc sc ` set ks" by (metis imageE ne)
  then have "val s2 (loc sc k) = val s1 (loc sc k)" using s2(4) by blast
  moreover have "age_all B now sc s (k # ks) n =
      (Inr (n + length (filter (\<lambda>k. aged now (P k) = None) (k # ks))), s2)"
    using s1(1) s2(1) by simp
  moreover have "\<forall>l. l \<notin> loc sc ` set (k # ks) \<longrightarrow> val s2 l = val s l"
    using s2(4) s1(4) by simp
  ultimately show ?case using s1(3) s2(2,3) by (intro exI [of _ s2]) simp
qed simp

lemma age_one_frame:
  assumes "wf s" and "okscope sc" and "good k" and "age_one B now sc s k = Inr (m, s')"
  shows "wf s' \<and> (\<forall>l. l \<noteq> loc sc k \<longrightarrow> val s' l = val s l)"
proof (cases "val s (loc sc k)")
  case None
  then show ?thesis using assms by (simp add: age_one_def load_law)
next
  case (Some d)
  then obtain x p where "d = DDict x" "pattern_validate now x = Inr p"
    using assms by (cases d) (auto simp: age_one_def load_law res_simps)
  then show ?thesis
    using Some assms save_facts [OF assms(1-3)] delete_facts [OF assms(1-3)]
    by (fastforce simp: age_one_def load_law res_simps split: if_splits)
qed

text \<open>A document that does not validate stops the loop with an exception.\<close>

lemma age_all_invalid:
  assumes "wf s" and "okscope sc" and "\<forall>k \<in> set ks. good k" and "k \<in> set ks"
    and "val s (loc sc k) = Some (DDict x)" and "pattern_validate now x = Inl e"
  shows "\<exists>e' s'. age_all B now sc s ks n = (Inl e', s')"
  using assms
proof (induction ks arbitrary: s n)
  case (Cons j ks)
  show ?case
  proof (cases "age_one B now sc s j")
    case (Inl e')
    then show ?thesis by simp
  next
    case (Inr r)
    obtain m s1 where r: "r = (m, s1)" by (cases r)
    have jk: "j \<noteq> k" using Inr Cons.prems by (auto simp: age_one_def load_law)
    note f = age_one_frame [OF Cons.prems(1,2) _ Inr [unfolded r]]
    have "loc sc k \<noteq> loc sc j" using loc_inj [of k j sc] jk Cons.prems(3,4) by auto
    then have "val s1 (loc sc k) = Some (DDict x)" using f Cons.prems by auto
    then have "\<exists>e' s'. age_all B now sc s1 ks (n + m) = (Inl e', s')"
      using f Cons.prems jk by (intro Cons.IH) auto
    then show ?thesis by (simp add: Inr r)
  qed
qed simp

lemma run_aging_ok:
  assumes "wf s" and "okscope sc"
    and "\<forall>k. plain k \<and> prefix PATTERNS_PREFIX k \<and> val s (loc sc k) \<noteq> None \<longrightarrow>
           holds now (val s (loc sc k)) (Some (P k))"
  shows "\<exists>n s'. run_aging B now sc s = (Inr n, s') \<and> wf s' \<and>
    n = card {k. plain k \<and> prefix PATTERNS_PREFIX k \<and> val s (loc sc k) \<noteq> None \<and> aged now (P k) = None} \<and>
    (\<forall>k. plain k \<and> prefix PATTERNS_PREFIX k \<and> val s (loc sc k) \<noteq> None \<longrightarrow>
       holds now (val s' (loc sc k)) (aged now (P k))) \<and>
    (\<forall>l. (\<forall>k. plain k \<and> prefix PATTERNS_PREFIX k \<longrightarrow> l \<noteq> loc sc k) \<longrightarrow> val s' l = val s l)"
proof -
  obtain ks where ks: "be_list_keys B sc s PATTERNS_PREFIX = Inr ks" "distinct ks"
    "set ks = {k. prefix PATTERNS_PREFIX k \<and> plain k \<and> val s (loc sc k) \<noteq> None}"
    by (rule list_keys_ok [OF assms(1,2)])
  have "\<forall>k \<in> set ks. good k \<and> holds now (val s (loc sc k)) (Some (P k))"
    using assms(3) ks(3) plain_good by auto
  from age_all_ok [OF assms(1,2) this ks(2), of 0] obtain s' where s':
    "age_all B now sc s ks 0 = (Inr (length (filter (\<lambda>k. aged now (P k) = None) ks)), s')" "wf s'"
    "\<forall>k \<in> set ks. holds now (val s' (loc sc k)) (aged now (P k))"
    "\<forall>l. l \<notin> loc sc ` set ks \<longrightarrow> val s' l = val s l" by auto
  have "length (filter (\<lambda>k. aged now (P k) = None) ks) = card (set (filter (\<lambda>k. aged now (P k) = None) ks))"
    using ks(2) by (simp only: distinct_card distinct_filter)
  also have "set (filter (\<lambda>k. aged now (P k) = None) ks) =
      {k. plain k \<and> prefix PATTERNS_PREFIX k \<and> val s (loc sc k) \<noteq> None \<and> aged now (P k) = None}"
    using ks(3) by auto
  finally have n: "length (filter (\<lambda>k. aged now (P k) = None) ks) =
      card {k. plain k \<and> prefix PATTERNS_PREFIX k \<and> val s (loc sc k) \<noteq> None \<and> aged now (P k) = None}" .
  have "run_aging B now sc s = (Inr (length (filter (\<lambda>k. aged now (P k) = None) ks)), s')"
    by (simp add: run_aging_def ks(1) s'(1))
  moreover have "l \<notin> loc sc ` set ks" if "\<forall>k. plain k \<and> prefix PATTERNS_PREFIX k \<longrightarrow> l \<noteq> loc sc k" for l
    using that ks(3) by auto
  ultimately show ?thesis
    using s'(2,3,4) n ks(3) by (intro exI conjI) auto
qed

end

end
