(* ===== verification/RoiCollector.thy ===== *)
theory RoiCollector
  imports JsonStorage PgStorage
begin

text \<open>
  \<open>engramia/analytics/collector.py\<close>: the rolling window of learn and recall events. The
  recorders catch every exception, so they return a state and never an error.
\<close>

definition EVENTS_KEY :: string where "EVENTS_KEY = ''analytics/events''"
definition MAX_EVENTS :: nat where "MAX_EVENTS = 10000"

definition load_events_raw :: "'s backend \<Rightarrow> scope \<Rightarrow> 's \<Rightarrow> roi_event list res" where
  "load_events_raw B sc s = bind_res (be_load B sc s EVENTS_KEY) (\<lambda>d.
     case d of Some (DEvents es) \<Rightarrow> Inr es
     | Some (DEvals _) \<Rightarrow> Inl (OtherError ''not events'')
     | Some (DFeedback _) \<Rightarrow> Inl (OtherError ''not events'')
     | _ \<Rightarrow> Inr [])"

definition append_event :: "'s backend \<Rightarrow> scope \<Rightarrow> 's \<Rightarrow> roi_event \<Rightarrow> 's res" where
  "append_event B sc s e = bind_res (load_events_raw B sc s) (\<lambda>es.
     be_save B sc s EVENTS_KEY (DEvents (last_n MAX_EVENTS (es @ [e]))))"

definition swallow :: "'s \<Rightarrow> 's res \<Rightarrow> 's" where
  "swallow s r = (case r of Inl _ \<Rightarrow> s | Inr s' \<Rightarrow> s')"

definition roi_record_learn :: "'s backend \<Rightarrow> real \<Rightarrow> scope \<Rightarrow> 's \<Rightarrow> string \<Rightarrow> real \<Rightarrow> 's" where
  "roi_record_learn B now sc s key score = swallow s (append_event B sc s
     \<lparr>ev_kind = LEARN, ev_ts = now, ev_eval_score = Some score, ev_similarity = None, ev_tier = None,
      ev_key = key, ev_tenant = sc_tenant sc, ev_project = sc_project sc\<rparr>)"

definition roi_record_recall ::
  "'s backend \<Rightarrow> real \<Rightarrow> scope \<Rightarrow> 's \<Rightarrow> real option \<Rightarrow> reuse_tier option \<Rightarrow> string \<Rightarrow> 's" where
  "roi_record_recall B now sc s sim tier key = swallow s (append_event B sc s
     \<lparr>ev_kind = RECALL, ev_ts = now, ev_eval_score = None, ev_similarity = sim, ev_tier = tier,
      ev_key = key, ev_tenant = sc_tenant sc, ev_project = sc_project sc\<rparr>)"

definition event_selected :: "real option \<Rightarrow> string option \<Rightarrow> string option \<Rightarrow> roi_event \<Rightarrow> bool" where
  "event_selected since t p e \<longleftrightarrow>
     (case since of None \<Rightarrow> True | Some x \<Rightarrow> x \<le> ev_ts e) \<and>
     (case t of None \<Rightarrow> True | Some x \<Rightarrow> x = ''*'' \<or> ev_tenant e = x) \<and>
     (case p of None \<Rightarrow> True | Some x \<Rightarrow> x = ''*'' \<or> ev_project e = x)"

definition load_events ::
  "'s backend \<Rightarrow> scope \<Rightarrow> 's \<Rightarrow> real option \<Rightarrow> string option \<Rightarrow> string option \<Rightarrow> bool \<Rightarrow> roi_event list res" where
  "load_events B sc s since t p admin_override =
     (if t = None \<and> \<not> admin_override then Inl (ValidationError ''load_events() requires tenant_id'')
      else bind_res (load_events_raw B sc s) (\<lambda>es. Inr (filter (event_selected since t p) es)))"

definition events_doc :: "doc option \<Rightarrow> roi_event list \<Rightarrow> bool" where
  "events_doc d es \<longleftrightarrow> d = Some (DEvents es) \<or> d = None \<and> es = []"

lemma good_events_key: "good_key EVENTS_KEY"
  by (simp add: EVENTS_KEY_def good_key_def seg_ok_def)

context storage
begin

lemma load_events_raw_ok:
  "wf s \<Longrightarrow> okscope sc \<Longrightarrow> events_doc (val s (loc sc EVENTS_KEY)) es \<Longrightarrow> load_events_raw B sc s = Inr es"
  by (auto simp: load_events_raw_def load_law good_key good_events_key events_doc_def)

lemma append_event_cases:
  assumes "wf s" and "okscope sc"
  shows "(\<exists>e'. append_event B sc s e = Inl e') \<or>
    (\<exists>s' d. append_event B sc s e = Inr s' \<and> wf s' \<and> val s' = (val s)(loc sc EVENTS_KEY \<mapsto> d) \<and> emb s' = emb s)"
proof (cases "load_events_raw B sc s")
  case (Inl e')
  then show ?thesis by (simp add: append_event_def)
next
  case (Inr es)
  obtain s' where "be_save B sc s EVENTS_KEY (DEvents (last_n MAX_EVENTS (es @ [e]))) = Inr s'" "wf s'"
    "val s' = (val s)(loc sc EVENTS_KEY \<mapsto> DEvents (last_n MAX_EVENTS (es @ [e])))" "emb s' = emb s"
    by (rule save_ok [OF assms good_key [OF good_events_key]])
  then show ?thesis by (auto simp: append_event_def Inr)
qed

text \<open>An analytics failure never touches anything but the event document.\<close>

lemma swallow_event:
  assumes "wf s" and "okscope sc"
  shows "wf (swallow s (append_event B sc s e)) \<and> emb (swallow s (append_event B sc s e)) = emb s \<and>
    (\<forall>l. l \<noteq> loc sc EVENTS_KEY \<longrightarrow> val (swallow s (append_event B sc s e)) l = val s l)"
  using append_event_cases [OF assms, of e] assms by (auto simp: swallow_def)

lemma append_event_ok:
  assumes "wf s" and "okscope sc" and "events_doc (val s (loc sc EVENTS_KEY)) es"
  shows "\<exists>s'. append_event B sc s e = Inr s' \<and> wf s' \<and>
    events_doc (val s' (loc sc EVENTS_KEY)) (last_n MAX_EVENTS (es @ [e]))"
proof -
  obtain s' where "be_save B sc s EVENTS_KEY (DEvents (last_n MAX_EVENTS (es @ [e]))) = Inr s'" "wf s'"
    "val s' = (val s)(loc sc EVENTS_KEY \<mapsto> DEvents (last_n MAX_EVENTS (es @ [e])))" "emb s' = emb s"
    by (rule save_ok [OF assms(1,2) good_key [OF good_events_key]])
  then show ?thesis
    using load_events_raw_ok [OF assms] by (simp add: append_event_def events_doc_def)
qed

end

end
