(* ===== verification/Learning.thy ===== *)
theory Learning
  imports Patterns EvalStore MetricsStore RoiCollector
begin

text \<open>
  \<open>engramia/core/services/learning.py\<close>: storing a successful run as a pattern. The
  embedding provider and the redaction pipeline are parameters (\<open>None\<close> when absent), the
  clock and the generated key are arguments. The result of every step comes with the state it
  leaves, so what an exception in the middle leaves behind is part of the model.
\<close>

datatype on_duplicate = ReplaceWithBetter | KeepBoth | SkipDuplicate

record learn_args =
  la_task :: string
  la_code :: string
  la_score :: real
  la_output :: "string option"
  la_run_id :: "string option"
  la_classification :: string
  la_source :: string
  la_author :: "string option"
  la_on_duplicate :: on_duplicate

record learn_result =
  lr_stored :: bool
  lr_pattern_count :: nat

type_synonym embed_fn = "(string \<Rightarrow> real list res) option"

text \<open>\<open>process(design, extra_fields)\<close>: the cleaned fields and the findings.\<close>

type_synonym redactor = "(pydict \<Rightarrow> pydict \<Rightarrow> pydict \<times> string list) option"

definition MAX_PATTERN_COUNT :: nat where "MAX_PATTERN_COUNT = 100000"
definition JACCARD_LEARN_DEDUP_THRESHOLD :: real where "JACCARD_LEARN_DEDUP_THRESHOLD = 92 / 100"

section \<open>Duplicates\<close>

definition doc_task :: "doc \<Rightarrow> string option" where
  "doc_task d = (case d of DDict x \<Rightarrow> Option.bind (dget x ''task'') json_str | _ \<Rightarrow> None)"

fun find_dup :: "'s backend \<Rightarrow> scope \<Rightarrow> 's \<Rightarrow> string \<Rightarrow> string list \<Rightarrow> (string \<times> doc) option res" where
  "find_dup B sc s task [] = Inr None"
| "find_dup B sc s task (k # ks) =
     bind_res (be_load B sc s k) (\<lambda>d.
       case d of
         None \<Rightarrow> find_dup B sc s task ks
       | Some x \<Rightarrow>
           (case doc_task x of
              None \<Rightarrow> find_dup B sc s task ks
            | Some t \<Rightarrow> if JACCARD_LEARN_DEDUP_THRESHOLD \<le> jaccard t task then Inr (Some (k, x))
                else find_dup B sc s task ks))"

definition find_duplicate :: "'s backend \<Rightarrow> scope \<Rightarrow> 's \<Rightarrow> string \<Rightarrow> (string \<times> doc) option res" where
  "find_duplicate B sc s task =
     bind_res (be_list_keys B sc s PATTERNS_PREFIX) (\<lambda>ks. find_dup B sc s task ks)"

text \<open>\<open>float(data.get("success_score") or 0.0)\<close>; a text that is not empty is not converted here.\<close>

definition stored_score :: "doc \<Rightarrow> real res" where
  "stored_score d =
     (case d of
        DDict x \<Rightarrow>
          (case dget x ''success_score'' of
             None \<Rightarrow> Inr 0
           | Some JNull \<Rightarrow> Inr 0
           | Some (JBool b) \<Rightarrow> Inr (if b then 1 else 0)
           | Some (JInt i) \<Rightarrow> Inr (real_of_int i)
           | Some (JNum r) \<Rightarrow> Inr r
           | Some (JStr w) \<Rightarrow> if w = [] then Inr 0 else Inl (ValueError ''could not convert string to float'')
           | Some (JList l) \<Rightarrow> if l = [] then Inr 0 else Inl (OtherError ''TypeError'')
           | Some (JObj y) \<Rightarrow> if y = [] then Inr 0 else Inl (OtherError ''TypeError''))
      | _ \<Rightarrow> Inr 0)"

section \<open>The pattern to store\<close>

definition base_design :: "learn_args \<Rightarrow> pydict" where
  "base_design a =
     [(''code'', JStr (la_code a)), (''classification'', JStr (la_classification a)),
      (''source'', JStr (la_source a))]
     @ (case la_output a of None \<Rightarrow> [] | Some out \<Rightarrow> [(''output'', JStr out)])"

definition redact_design :: "redactor \<Rightarrow> learn_args \<Rightarrow> pydict \<times> bool" where
  "redact_design red a =
     (case red of
        None \<Rightarrow> (base_design a, False)
      | Some process \<Rightarrow>
          (let (clean, findings) = process (base_design a) [(''task'', JStr (la_task a))]
           in if findings \<noteq> [] then (filter (\<lambda>(k, v). k \<noteq> ''task'') clean, True)
              else (base_design a, False)))"

definition learned_pattern :: "redactor \<Rightarrow> real \<Rightarrow> learn_args \<Rightarrow> pattern" where
  "learned_pattern red now a =
     \<lparr>p_task = la_task a, p_design = fst (redact_design red a), p_success_score = la_score a,
      p_reuse_count = 0, p_timestamp = now\<rparr>"

definition learned_doc :: "redactor \<Rightarrow> real \<Rightarrow> learn_args \<Rightarrow> doc" where
  "learned_doc red now a =
     DDict (pattern_dump (learned_pattern red now a)
       @ (case la_author a of
            None \<Rightarrow> [] | Some w \<Rightarrow> if w = [] then [] else [(''_author_key_id'', JStr w)]))"

definition learned_meta :: "redactor \<Rightarrow> learn_args \<Rightarrow> pattern_meta" where
  "learned_meta red a =
     \<lparr>pm_classification = Some (la_classification a), pm_source = Some (la_source a),
      pm_run_id = la_run_id a, pm_author = la_author a,
      pm_redacted = Some (snd (redact_design red a)), pm_expires_at = None\<rparr>"

section \<open>Learning\<close>

text \<open>One step: an exception leaves the state as it was before the step.\<close>

definition step :: "'s \<Rightarrow> 's res \<Rightarrow> ('s \<Rightarrow> 'r res \<times> 's) \<Rightarrow> 'r res \<times> 's" where
  "step s r k = (case r of Inl e \<Rightarrow> (Inl e, s) | Inr s' \<Rightarrow> k s')"

definition save_vector :: "'s backend \<Rightarrow> embed_fn \<Rightarrow> scope \<Rightarrow> 's \<Rightarrow> string \<Rightarrow> string \<Rightarrow> 's res" where
  "save_vector B emb sc s key task =
     (case emb of
        None \<Rightarrow> Inr s
      | Some f \<Rightarrow> bind_res (f task) (\<lambda>v. be_save_embedding B sc s key v))"

text \<open>Everything after the decision to store, under the given key.\<close>

definition store_pattern ::
  "'s backend \<Rightarrow> eval_store \<Rightarrow> embed_fn \<Rightarrow> redactor \<Rightarrow> real \<Rightarrow> scope \<Rightarrow> 's \<Rightarrow> learn_args \<Rightarrow> string
   \<Rightarrow> learn_result res \<times> 's" where
  "store_pattern B st emb red now sc s a key =
     (if \<not> (0 \<le> la_score a \<and> la_score a \<le> 10) then (Inl (ValueError ''Pattern''), s)
      else
        step s (be_save B sc s key (learned_doc red now a)) (\<lambda>s1.
        step s1 (save_vector B emb sc s1 key (la_task a)) (\<lambda>s2.
        let s3 = be_save_meta B sc s2 key (learned_meta red a) in
        step s3 (save_eval B st sc s3
            \<lparr>er_agent = key, er_task = la_task a, er_overall = Some (la_score a), er_feedback = [], er_ts = now\<rparr> [] [])
          (\<lambda>s4.
        step s4 (record_run B sc s4
            \<lparr>run_ts = now, run_success = True, run_reuse = False, run_score = Some (la_score a)\<rparr>) (\<lambda>s5.
        let s6 = roi_record_learn B now sc s5 key (la_score a) in
        (bind_res (be_list_keys B sc s6 PATTERNS_PREFIX)
           (\<lambda>ks. Inr \<lparr>lr_stored = True, lr_pattern_count = length ks\<rparr>), s6))))))"

text \<open>\<open>fresh\<close> is the key \<open>_pattern_key\<close> generates.\<close>

definition learn ::
  "'s backend \<Rightarrow> eval_store \<Rightarrow> embed_fn \<Rightarrow> redactor \<Rightarrow> real \<Rightarrow> string \<Rightarrow> scope \<Rightarrow> 's \<Rightarrow> learn_args
   \<Rightarrow> learn_result res \<times> 's" where
  "learn B st emb red now fresh sc s a =
     (case be_list_keys B sc s PATTERNS_PREFIX of
        Inl e \<Rightarrow> (Inl e, s)
      | Inr keys \<Rightarrow>
          (let kept = (Inr \<lparr>lr_stored = False, lr_pattern_count = length keys\<rparr>, s) in
           if MAX_PATTERN_COUNT \<le> length keys then (Inl (ValidationError ''Pattern store is full''), s)
           else
             (case (if la_on_duplicate a = KeepBoth then Inr None else find_duplicate B sc s (la_task a)) of
                Inl e \<Rightarrow> (Inl e, s)
              | Inr None \<Rightarrow> store_pattern B st emb red now sc s a fresh
              | Inr (Some (key, d)) \<Rightarrow>
                  if la_on_duplicate a = SkipDuplicate then kept
                  else
                    (case stored_score d of
                       Inl e \<Rightarrow> (Inl e, s)
                     | Inr x \<Rightarrow> if la_score a \<le> x then kept
                         else store_pattern B st emb red now sc s a key))))"

section \<open>What is stored\<close>

definition near_duplicate :: "string \<Rightarrow> doc \<Rightarrow> bool" where
  "near_duplicate task d \<longleftrightarrow>
     (\<exists>t. doc_task d = Some t \<and> JACCARD_LEARN_DEDUP_THRESHOLD \<le> jaccard t task)"

lemma learned_doc_fields:
  "learned_doc red now a = DDict y \<Longrightarrow>
   dget y ''task'' = Some (JStr (la_task a)) \<and> dget y ''success_score'' = Some (JNum (la_score a))"
  by (auto simp: learned_doc_def pattern_dump_def learned_pattern_def)

lemma meta_keeps_fields:
  assumes "meta_keeps f"
  shows "doc_task (f m (learned_doc red now a)) = Some (la_task a)"
    and "stored_score (f m (learned_doc red now a)) = Inr (la_score a)"
proof -
  obtain y where y: "learned_doc red now a = DDict y" by (simp add: learned_doc_def)
  then obtain x where x: "f m (learned_doc red now a) = DDict x" "\<forall>k. k \<noteq> ''design'' \<longrightarrow> dget x k = dget y k"
    using assms by (auto simp: meta_keeps_def split: doc.splits) metis
  then have "dget x ''task'' = Some (JStr (la_task a))" "dget x ''success_score'' = Some (JNum (la_score a))"
    using learned_doc_fields [OF y] by auto
  then show "doc_task (f m (learned_doc red now a)) = Some (la_task a)"
    "stored_score (f m (learned_doc red now a)) = Inr (la_score a)"
    by (simp_all add: x(1) doc_task_def stored_score_def json_str_def)
qed

lemma key_apart:
  "prefix PATTERNS_PREFIX k \<Longrightarrow> k \<noteq> eval_key sc \<and> k \<noteq> metrics_key sc \<and> k \<noteq> EVENTS_KEY"
  by (auto simp: PATTERNS_PREFIX_def eval_key_def metrics_key_def EVENTS_KEY_def)

lemma store_keys_apart: "eval_key sc \<noteq> metrics_key sc' \<and> eval_key sc \<noteq> EVENTS_KEY \<and> metrics_key sc \<noteq> EVENTS_KEY"
  by (simp add: eval_key_def metrics_key_def EVENTS_KEY_def)

context storage
begin

lemma find_dup_ok:
  assumes "wf s" and "okscope sc" and "\<forall>k \<in> set ks. good k"
  shows "\<exists>r. find_dup B sc s task ks = Inr r \<and>
    (case r of
       None \<Rightarrow> \<forall>k \<in> set ks. \<forall>d. val s (loc sc k) = Some d \<longrightarrow> \<not> near_duplicate task d
     | Some (k, d) \<Rightarrow> k \<in> set ks \<and> val s (loc sc k) = Some d \<and> near_duplicate task d)"
  using assms(3)
proof (induction ks)
  case (Cons k ks)
  have load: "be_load B sc s k = Inr (val s (loc sc k))" using assms(1,2) Cons.prems by (simp add: load_law)
  have rest: "\<exists>r. find_dup B sc s task ks = Inr r \<and>
    (case r of
       None \<Rightarrow> \<forall>k \<in> set ks. \<forall>d. val s (loc sc k) = Some d \<longrightarrow> \<not> near_duplicate task d
     | Some (k, d) \<Rightarrow> k \<in> set ks \<and> val s (loc sc k) = Some d \<and> near_duplicate task d)"
    using Cons by auto
  show ?case
  proof (cases "\<exists>d. val s (loc sc k) = Some d \<and> near_duplicate task d")
    case True
    then show ?thesis using load by (auto simp: near_duplicate_def)
  next
    case False
    then have "find_dup B sc s task (k # ks) = find_dup B sc s task ks"
      using load by (auto simp: near_duplicate_def split: option.split)
    with rest False show ?thesis by (auto split: option.splits)
  qed
qed simp

lemma find_duplicate_ok:
  assumes "wf s" and "okscope sc"
  shows "\<exists>r. find_duplicate B sc s task = Inr r \<and>
    (case r of
       None \<Rightarrow> \<forall>k d. plain k \<and> prefix PATTERNS_PREFIX k \<and> val s (loc sc k) = Some d \<longrightarrow> \<not> near_duplicate task d
     | Some (k, d) \<Rightarrow> plain k \<and> prefix PATTERNS_PREFIX k \<and> val s (loc sc k) = Some d \<and> near_duplicate task d)"
proof -
  obtain ks where ks: "be_list_keys B sc s PATTERNS_PREFIX = Inr ks" "distinct ks"
    "set ks = {k. prefix PATTERNS_PREFIX k \<and> plain k \<and> val s (loc sc k) \<noteq> None}"
    by (rule list_keys_ok [OF assms])
  have g: "\<forall>k \<in> set ks. good k" using ks(3) plain_good by auto
  from find_dup_ok [OF assms g, of task] obtain r where r: "find_dup B sc s task ks = Inr r"
    "case r of None \<Rightarrow> \<forall>k \<in> set ks. \<forall>d. val s (loc sc k) = Some d \<longrightarrow> \<not> near_duplicate task d
     | Some (k, d) \<Rightarrow> k \<in> set ks \<and> val s (loc sc k) = Some d \<and> near_duplicate task d" by blast
  then show ?thesis
    using ks(1,3) by (intro exI [of _ r]) (auto simp: find_duplicate_def split: option.splits)
qed

lemma list_keys_insert:
  assumes "wf s" and "wf s'" and "okscope sc" and "be_list_keys B sc s p = Inr ks" and "plain key" and "prefix p key"
    and "val s' (loc sc key) \<noteq> None"
    and "\<And>k. prefix p k \<Longrightarrow> plain k \<Longrightarrow> k \<noteq> key \<Longrightarrow> val s' (loc sc k) = val s (loc sc k)"
  shows "\<exists>ks'. be_list_keys B sc s' p = Inr ks' \<and>
    length ks' = (if key \<in> set ks then length ks else Suc (length ks))"
proof -
  obtain ks' where ks': "be_list_keys B sc s' p = Inr ks'" "distinct ks'"
    "set ks' = {k. prefix p k \<and> plain k \<and> val s' (loc sc k) \<noteq> None}"
    by (rule list_keys_ok [OF assms(2,3)])
  have ks: "distinct ks" "set ks = {k. prefix p k \<and> plain k \<and> val s (loc sc k) \<noteq> None}"
    using list_keys_facts [OF assms(1,3,4)] by auto
  have "k \<in> set ks' \<longleftrightarrow> k \<in> insert key (set ks)" for k
    using assms(5-8) by (cases "k = key") (auto simp: ks(2) ks'(3))
  then have "set ks' = insert key (set ks)" by blast
  then have "length ks' = (if key \<in> set ks then length ks else Suc (length ks))"
    using ks(1) ks'(2) by (metis card_insert_if distinct_card finite_set insert_absorb)
  with ks'(1) show ?thesis by blast
qed

text \<open>Storing under a plain pattern key succeeds when the vector can be saved.\<close>

lemma store_pattern_ok:
  assumes "wf s" and "okscope sc" and "named_scope sc" and "good (eval_key sc)" and "good (metrics_key sc)"
    and "plain key" and "prefix PATTERNS_PREFIX key" and "0 \<le> la_score a" and "la_score a \<le> 10"
    and "\<And>t. wf t \<Longrightarrow> \<exists>t'. save_vector B emb' sc t key (la_task a) = Inr t'"
    and "evals_doc (val s (loc sc (eval_key sc))) es" and "load_metrics B sc s = Inr (metrics_of runs)"
    and "be_list_keys B sc s PATTERNS_PREFIX = Inr ks"
  shows "\<exists>s'. store_pattern B st emb' red now sc s a key =
      (Inr \<lparr>lr_stored = True, lr_pattern_count = (if key \<in> set ks then length ks else Suc (length ks))\<rparr>, s') \<and>
    wf s' \<and> (emb' \<noteq> None \<longrightarrow> emb s' sc key \<noteq> None) \<and>
    val s' (loc sc key) = Some (metaf (learned_meta red a) (learned_doc red now a)) \<and>
    evals_doc (val s' (loc sc (eval_key sc))) (last_n MAX_EVALS (es @
      [\<lparr>er_agent = key, er_task = la_task a, er_overall = Some (la_score a), er_feedback = [], er_ts = now\<rparr>])) \<and>
    load_metrics B sc s' = Inr (metrics_of (runs @
      [\<lparr>run_ts = now, run_success = True, run_reuse = False, run_score = Some (la_score a)\<rparr>])) \<and>
    (\<forall>l. l \<notin> {loc sc key, loc sc (eval_key sc), loc sc (metrics_key sc), loc sc EVENTS_KEY} \<longrightarrow> val s' l = val s l)"
proof -
  let ?d = "learned_doc red now a" and ?m = "learned_meta red a"
  let ?e = "\<lparr>er_agent = key, er_task = la_task a, er_overall = Some (la_score a), er_feedback = [], er_ts = now\<rparr>"
  let ?r = "\<lparr>run_ts = now, run_success = True, run_reuse = False, run_score = Some (la_score a)\<rparr>"
  have g: "good key" using assms(6) by (rule plain_good)
  have ge: "good EVENTS_KEY" by (rule good_key [OF good_events_key])
  have ne: "loc sc key \<noteq> loc sc (eval_key sc)" "loc sc key \<noteq> loc sc (metrics_key sc)"
    "loc sc key \<noteq> loc sc EVENTS_KEY" "loc sc (eval_key sc) \<noteq> loc sc (metrics_key sc)"
    "loc sc (eval_key sc) \<noteq> loc sc EVENTS_KEY" "loc sc (metrics_key sc) \<noteq> loc sc EVENTS_KEY"
    using key_apart [OF assms(7), of sc] store_keys_apart [of sc sc] loc_inj g assms(4,5) ge by blast+
  obtain s1 where s1: "be_save B sc s key ?d = Inr s1" "wf s1" "val s1 = (val s)(loc sc key \<mapsto> ?d)"
    by (rule save_ok [OF assms(1,2) g])
  obtain s2 where s2: "save_vector B emb' sc s1 key (la_task a) = Inr s2" using assms(10) [OF s1(2)] by blast
  have s2': "wf s2 \<and> val s2 = val s1"
    using s2 s1(2) embed_law [OF s1(2) assms(2)]
    by (auto simp: save_vector_def res_simps split: option.splits)
  have e2: "emb' \<noteq> None \<longrightarrow> emb s2 sc key \<noteq> None"
  proof
    assume "emb' \<noteq> None"
    then obtain v where "be_save_embedding B sc s1 key v = Inr s2"
      using s2 by (auto simp: save_vector_def res_simps)
    from embed_law [OF s1(2) assms(2) this] show "emb s2 sc key \<noteq> None" by auto
  qed
  define s3 where "s3 = be_save_meta B sc s2 key ?m"
  have e3: "emb s3 = emb s2" using meta_law [of s2 sc key ?m] s2' assms(2) g by (simp add: s3_def)
  have s3: "wf s3" "val s3 = (val s)(loc sc key \<mapsto> metaf ?m ?d)"
    using meta_law [of s2 sc key ?m] s2' assms(2) g s1(3) by (auto simp: s3_def fun_eq_iff)
  have "evals_doc (val s3 (loc sc (eval_key sc))) es" using assms(11) ne by (simp add: s3(2))
  from save_eval_ok [OF s3(1) assms(2,4,3) this, of st ?e] obtain s4 where
    s4: "save_eval B st sc s3 ?e [] [] = Inr s4" "wf s4"
    "evals_doc (val s4 (loc sc (eval_key sc))) (last_n MAX_EVALS (es @ [?e]))"
    "\<forall>l. l \<noteq> loc sc (eval_key sc) \<longrightarrow> val s4 l = val s3 l" "emb s4 = emb s3" by blast
  have "val s4 (loc sc (metrics_key sc)) = val s (loc sc (metrics_key sc))"
    using s4(4) ne by (metis fun_upd_other s3(2))
  then have "load_metrics B sc s4 = Inr (metrics_of runs)"
    using assms(1,2,5,12) s4(2) by (simp add: load_metrics_def load_law)
  from record_run_doc [OF s4(2) assms(2,5) this, of ?r] obtain s5 where
    s5: "record_run B sc s4 ?r = Inr s5" "wf s5"
    "val s5 = (val s4)(loc sc (metrics_key sc) \<mapsto> DMetrics (metrics_of (runs @ [?r])))" "emb s5 = emb s4" by blast
  define s6 where "s6 = roi_record_learn B now sc s5 key (la_score a)"
  have s6: "wf s6" "\<forall>l. l \<noteq> loc sc EVENTS_KEY \<longrightarrow> val s6 l = val s5 l" "emb s6 = emb s5"
    using swallow_event [OF s5(2) assms(2)] by (simp_all add: s6_def roi_record_learn_def)
  have other: "val s6 l = val s l"
    if "l \<notin> {loc sc key, loc sc (eval_key sc), loc sc (metrics_key sc), loc sc EVENTS_KEY}" for l
    using that s6(2) s5(3) s4(4) s3(2) by simp
  have key: "val s6 (loc sc key) = Some (metaf ?m ?d)"
    using s6(2) s5(3) s4(4) s3(2) ne by simp
  have same: "val s6 (loc sc k) = val s (loc sc k)" if "prefix PATTERNS_PREFIX k" "plain k" "k \<noteq> key" for k
    using that key_apart [OF that(1), of sc] loc_inj plain_good g ge assms(4,5) by (intro other) blast
  obtain ks' where ks': "be_list_keys B sc s6 PATTERNS_PREFIX = Inr ks'"
    "length ks' = (if key \<in> set ks then length ks else Suc (length ks))"
    using list_keys_insert [OF assms(1) s6(1) assms(2,13,6,7)] key same by blast
  have "store_pattern B st emb' red now sc s a key =
      (Inr \<lparr>lr_stored = True, lr_pattern_count = length ks'\<rparr>, s6)"
    using assms(8,9) s1(1) s2 s4(1) s5(1) ks'(1)
    by (simp add: store_pattern_def step_def s3_def [symmetric] s6_def [symmetric] Let_def)
  moreover have "load_metrics B sc s6 = Inr (metrics_of (runs @ [?r]))"
    using s6 s5(3) ne assms(2,5) by (simp add: load_metrics_def load_law)
  moreover have "evals_doc (val s6 (loc sc (eval_key sc))) (last_n MAX_EVALS (es @ [?e]))"
    using s6(2) s5(3) s4(3) ne by simp
  moreover have "emb' \<noteq> None \<longrightarrow> emb s6 sc key \<noteq> None"
    using e2 e3 s4(5) s5(4) s6(3) by simp
  ultimately show ?thesis using s6(1) key other ks'(2) by auto
qed

text \<open>The decision of \<open>learn\<close>, by what is in the store.\<close>

lemma learn_full:
  "be_list_keys B sc s PATTERNS_PREFIX = Inr ks \<Longrightarrow> MAX_PATTERN_COUNT \<le> length ks \<Longrightarrow>
   learn B st emb' red now fresh sc s a = (Inl (ValidationError ''Pattern store is full''), s)"
  by (simp add: learn_def)

lemma learn_new:
  assumes "wf s" and "okscope sc" and "be_list_keys B sc s PATTERNS_PREFIX = Inr ks"
    and "length ks < MAX_PATTERN_COUNT"
    and "la_on_duplicate a = KeepBoth \<or>
      (\<forall>k d. plain k \<and> prefix PATTERNS_PREFIX k \<and> val s (loc sc k) = Some d \<longrightarrow> \<not> near_duplicate (la_task a) d)"
  shows "learn B st emb' red now fresh sc s a = store_pattern B st emb' red now sc s a fresh"
proof (cases "la_on_duplicate a = KeepBoth")
  case True
  then show ?thesis using assms(3,4) by (simp add: learn_def)
next
  case False
  obtain r where r: "find_duplicate B sc s (la_task a) = Inr r"
    "case r of None \<Rightarrow> \<forall>k d. plain k \<and> prefix PATTERNS_PREFIX k \<and> val s (loc sc k) = Some d \<longrightarrow> \<not> near_duplicate (la_task a) d
     | Some (k, d) \<Rightarrow> plain k \<and> prefix PATTERNS_PREFIX k \<and> val s (loc sc k) = Some d \<and> near_duplicate (la_task a) d"
    using find_duplicate_ok [OF assms(1,2)] by blast
  have "r = None" using r(2) assms(5) False by (auto split: option.splits)
  then show ?thesis using assms(3,4) r(1) by (simp add: learn_def)
qed

lemma learn_duplicate:
  assumes "wf s" and "okscope sc" and "be_list_keys B sc s PATTERNS_PREFIX = Inr ks"
    and "length ks < MAX_PATTERN_COUNT" and "la_on_duplicate a \<noteq> KeepBoth"
    and "plain k0" and "prefix PATTERNS_PREFIX k0" and "val s (loc sc k0) = Some d0" and "near_duplicate (la_task a) d0"
  shows "\<exists>k d. plain k \<and> prefix PATTERNS_PREFIX k \<and> val s (loc sc k) = Some d \<and> near_duplicate (la_task a) d \<and>
    learn B st emb' red now fresh sc s a =
      (if la_on_duplicate a = SkipDuplicate then (Inr \<lparr>lr_stored = False, lr_pattern_count = length ks\<rparr>, s)
       else (case stored_score d of
               Inl e \<Rightarrow> (Inl e, s)
             | Inr x \<Rightarrow> if la_score a \<le> x then (Inr \<lparr>lr_stored = False, lr_pattern_count = length ks\<rparr>, s)
                 else store_pattern B st emb' red now sc s a k))"
proof -
  obtain r where r: "find_duplicate B sc s (la_task a) = Inr r"
    "case r of None \<Rightarrow> \<forall>k d. plain k \<and> prefix PATTERNS_PREFIX k \<and> val s (loc sc k) = Some d \<longrightarrow> \<not> near_duplicate (la_task a) d
     | Some (k, d) \<Rightarrow> plain k \<and> prefix PATTERNS_PREFIX k \<and> val s (loc sc k) = Some d \<and> near_duplicate (la_task a) d"
    using find_duplicate_ok [OF assms(1,2)] by blast
  obtain k d where kd: "r = Some (k, d)" using r(2) assms(6-9) by (cases r) auto
  then show ?thesis
    using r assms(3-5) by (intro exI [of _ k] exI [of _ d]) (simp add: learn_def)
qed

text \<open>
  An embedding failure comes after the pattern is saved: the call raises, the pattern stays
  without a vector, and a retry finds it as its own duplicate and never embeds it.
\<close>

lemma embed_failure_sticks:
  assumes "wf s" and "okscope sc" and "be_list_keys B sc s PATTERNS_PREFIX = Inr ks"
    and "Suc (length ks) < MAX_PATTERN_COUNT" and "la_on_duplicate a \<noteq> KeepBoth"
    and nodup: "\<forall>k d. plain k \<and> prefix PATTERNS_PREFIX k \<and> val s (loc sc k) = Some d \<longrightarrow> \<not> near_duplicate (la_task a) d"
    and "plain fresh" and "prefix PATTERNS_PREFIX fresh" and "0 \<le> la_score a" and "la_score a \<le> 10"
    and "f (la_task a) = Inl e" and "jaccard (la_task a) (la_task a) = 1"
  shows "\<exists>s1. learn B st (Some f) red now fresh sc s a = (Inl e, s1) \<and> wf s1 \<and> emb s1 = emb s \<and>
    val s1 = (val s)(loc sc fresh \<mapsto> learned_doc red now a) \<and>
    (\<forall>emb2 red2 now2 fresh2. \<exists>n. learn B st emb2 red2 now2 fresh2 sc s1 a =
       (Inr \<lparr>lr_stored = False, lr_pattern_count = n\<rparr>, s1))"
proof -
  have g: "good fresh" using assms(7) by (rule plain_good)
  let ?d = "learned_doc red now a"
  obtain s1 where s1: "be_save B sc s fresh ?d = Inr s1" "wf s1" "val s1 = (val s)(loc sc fresh \<mapsto> ?d)"
    "emb s1 = emb s" by (rule save_ok [OF assms(1,2) g])
  have "learn B st (Some f) red now fresh sc s a = store_pattern B st (Some f) red now sc s a fresh"
    using learn_new [OF assms(1-3)] assms(4) nodup by simp
  then have fail: "learn B st (Some f) red now fresh sc s a = (Inl e, s1)"
    using s1(1) assms(9-11) by (simp add: store_pattern_def step_def save_vector_def)
  have near: "near_duplicate (la_task a) ?d" and score: "stored_score ?d = Inr (la_score a)"
    using meta_keeps_fields [of "\<lambda>m d. d" undefined red now a] assms(12)
    by (simp_all add: meta_keeps_def near_duplicate_def JACCARD_LEARN_DEDUP_THRESHOLD_def split: doc.splits)
  obtain ks1 where ks1: "be_list_keys B sc s1 PATTERNS_PREFIX = Inr ks1"
    "length ks1 = (if fresh \<in> set ks then length ks else Suc (length ks))"
  proof -
    have "val s1 (loc sc k) = val s (loc sc k)" if "plain k" "k \<noteq> fresh" for k
      using loc_inj [OF plain_good [OF that(1)] g] that(2) s1(3) by auto
    then show thesis
      using list_keys_insert [OF assms(1) s1(2) assms(2,3,7,8)] s1(3) that by auto
  qed
  have only: "k = fresh \<and> d = ?d"
    if k: "plain k" "prefix PATTERNS_PREFIX k" "val s1 (loc sc k) = Some d" "near_duplicate (la_task a) d" for k d
  proof (cases "loc sc k = loc sc fresh")
    case True
    then show ?thesis using k loc_inj [OF plain_good [OF k(1)] g] s1(3) by auto
  next
    case False
    then show ?thesis using k nodup s1(3) by auto
  qed
  have "\<exists>n. learn B st emb2 red2 now2 fresh2 sc s1 a = (Inr \<lparr>lr_stored = False, lr_pattern_count = n\<rparr>, s1)"
    for emb2 red2 now2 fresh2
  proof -
    have "length ks1 < MAX_PATTERN_COUNT" using assms(4) ks1(2) by auto
    from learn_duplicate [OF s1(2) assms(2) ks1(1) this assms(5,7,8) _ near, of st emb2 red2 now2 fresh2]
    obtain k d where kd: "plain k" "prefix PATTERNS_PREFIX k" "val s1 (loc sc k) = Some d" "near_duplicate (la_task a) d"
      "learn B st emb2 red2 now2 fresh2 sc s1 a =
        (if la_on_duplicate a = SkipDuplicate then (Inr \<lparr>lr_stored = False, lr_pattern_count = length ks1\<rparr>, s1)
         else (case stored_score d of
               Inl e \<Rightarrow> (Inl e, s1)
             | Inr x \<Rightarrow> if la_score a \<le> x then (Inr \<lparr>lr_stored = False, lr_pattern_count = length ks1\<rparr>, s1)
                 else store_pattern B st emb2 red2 now2 sc s1 a k))"
      using s1(3) by auto
    then show ?thesis using only [OF kd(1-4)] score by (auto split: if_splits)
  qed
  then show ?thesis using fail s1(2-4) by blast
qed

end

end
