(* ===== verification/UnionFind.thy ===== *)
theory UnionFind
  imports Prelude
begin

text \<open>
  The union-find of \<open>_deduplicate_matches\<close> in \<open>engramia/core/services/recall.py\<close>:
  \<open>parent\<close> and \<open>rank\<close> as lists, \<open>find\<close> with path halving and
  \<open>union\<close> by rank. Nothing in the code bounds the loop of \<open>find\<close>, so it is a
  partial function; \<open>uf_find_ok\<close> shows it returns under the rank invariant. The classes
  the structure stands for are the equivalence closure \<open>uf_eq\<close> of its edges.
\<close>

partial_function (option) uf_find :: "nat list \<Rightarrow> nat \<Rightarrow> (nat list \<times> nat) option" where
  "uf_find parent x =
     (if parent ! x = x then Some (parent, x)
      else (let parent' = parent[x := parent ! (parent ! x)]
            in uf_find parent' (parent' ! x)))"

definition uf_union :: "nat list \<times> nat list \<Rightarrow> nat \<Rightarrow> nat \<Rightarrow> (nat list \<times> nat list) option" where
  "uf_union uf x y =
     (case uf of (parent, rank) \<Rightarrow>
        Option.bind (uf_find parent x) (\<lambda>(p1, rx0).
        Option.bind (uf_find p1 y) (\<lambda>(p2, ry0).
          if rx0 = ry0 then Some (p2, rank)
          else
            (let (rx, ry) = (if rank ! rx0 < rank ! ry0 then (ry0, rx0) else (rx0, ry0));
                 p3 = p2[ry := rx];
                 rank' = (if rank ! rx = rank ! ry then rank[rx := rank ! rx + 1] else rank)
             in Some (p3, rank')))))"

section \<open>The invariant\<close>

definition uf_ok :: "nat \<Rightarrow> nat list \<Rightarrow> nat list \<Rightarrow> bool" where
  "uf_ok n parent rank \<longleftrightarrow> length parent = n \<and> length rank = n \<and>
     (\<forall>x < n. parent ! x < n \<and> (parent ! x \<noteq> x \<longrightarrow> rank ! x < rank ! (parent ! x)))"

definition edges :: "nat list \<Rightarrow> (nat \<times> nat) set" where
  "edges parent = {(x, parent ! x) | x. x < length parent}"

definition uf_eq :: "nat list \<Rightarrow> (nat \<times> nat) set" where
  "uf_eq parent = (edges parent \<union> (edges parent)\<inverse>)\<^sup>*"

definition eq_closure :: "(nat \<times> nat) set \<Rightarrow> (nat \<times> nat) set" where
  "eq_closure S = (S \<union> S\<inverse>)\<^sup>*"

lemma uf_eq_closure: "uf_eq parent = eq_closure (edges parent)"
  by (simp add: uf_eq_def eq_closure_def)

lemma eq_closure_refl [simp]: "(x, x) \<in> eq_closure S"
  by (simp add: eq_closure_def)

lemma eq_closure_sym: "(x, y) \<in> eq_closure S \<Longrightarrow> (y, x) \<in> eq_closure S"
proof -
  have "sym ((S \<union> S\<inverse>)\<^sup>*)" by (rule sym_rtrancl) (auto simp: sym_def)
  then show "(x, y) \<in> eq_closure S \<Longrightarrow> (y, x) \<in> eq_closure S"
    by (simp add: eq_closure_def symD)
qed

lemma eq_closure_trans: "(x, y) \<in> eq_closure S \<Longrightarrow> (y, z) \<in> eq_closure S \<Longrightarrow> (x, z) \<in> eq_closure S"
  unfolding eq_closure_def by (rule rtrancl_trans)

lemma eq_closure_step: "(x, y) \<in> S \<Longrightarrow> (x, y) \<in> eq_closure S"
  by (auto simp: eq_closure_def)

lemma eq_closure_least:
  assumes "\<And>x y. (x, y) \<in> S \<Longrightarrow> (x, y) \<in> eq_closure T"
  shows "eq_closure S \<subseteq> eq_closure T"
proof
  fix p assume "p \<in> eq_closure S"
  then obtain x y where p: "p = (x, y)" and xy: "(x, y) \<in> (S \<union> S\<inverse>)\<^sup>*"
    by (cases p) (auto simp: eq_closure_def)
  from xy have "(x, y) \<in> eq_closure T"
  proof (induction rule: rtrancl_induct)
    case (step y z)
    then have "(y, z) \<in> eq_closure T" using assms eq_closure_sym by blast
    with step.IH show ?case by (rule eq_closure_trans)
  qed simp
  then show "p \<in> eq_closure T" using p by simp
qed

lemma eq_closure_eqI:
  "(\<And>x y. (x, y) \<in> S \<Longrightarrow> (x, y) \<in> eq_closure T) \<Longrightarrow> (\<And>x y. (x, y) \<in> T \<Longrightarrow> (x, y) \<in> eq_closure S) \<Longrightarrow>
   eq_closure S = eq_closure T"
  by (rule equalityI) (rule eq_closure_least, blast)+

text \<open>Edges are functional, so equivalent nodes have a common ancestor, and two roots never do.\<close>

lemma edges_det: "(x, y) \<in> edges p \<Longrightarrow> (x, z) \<in> edges p \<Longrightarrow> y = z"
  by (auto simp: edges_def)

lemma common_ancestor:
  "(x, y) \<in> uf_eq p \<Longrightarrow> \<exists>z. (x, z) \<in> (edges p)\<^sup>* \<and> (y, z) \<in> (edges p)\<^sup>*"
  unfolding uf_eq_def
proof (induction rule: rtrancl_induct)
  case base
  show ?case by blast
next
  case (step y y')
  then obtain z where z: "(x, z) \<in> (edges p)\<^sup>*" "(y, z) \<in> (edges p)\<^sup>*" by blast
  from step.hyps(2) consider "(y, y') \<in> edges p" | "(y', y) \<in> edges p" by auto
  then show ?case
  proof cases
    case 1
    from z(2) show ?thesis
    proof (cases rule: converse_rtranclE)
      case base
      then show ?thesis using z(1) 1 by (meson rtrancl.rtrancl_into_rtrancl rtrancl.rtrancl_refl)
    next
      case (step w)
      then show ?thesis using z(1) edges_det [OF 1] by blast
    qed
  next
    case 2
    then show ?thesis using z by (meson converse_rtrancl_into_rtrancl)
  qed
qed

lemma root_stays: "(r, z) \<in> (edges p)\<^sup>* \<Longrightarrow> p ! r = r \<Longrightarrow> z = r"
  by (induction rule: rtrancl_induct) (auto simp: edges_def)

lemma roots_eq: "(r, s) \<in> uf_eq p \<Longrightarrow> p ! r = r \<Longrightarrow> p ! s = s \<Longrightarrow> r = s"
  using common_ancestor root_stays by blast

section \<open>Path halving\<close>

lemma halve_ok:
  assumes "uf_ok n p rk" and "x < n" and "p ! x \<noteq> x" and "p' = p[x := p ! (p ! x)]"
  shows "uf_ok n p' rk" and "uf_eq p' = uf_eq p" and "\<forall>y < n. p' ! y = y \<longleftrightarrow> p ! y = y"
    and "rk ! x < rk ! (p' ! x)" and "p' ! x < n" and "(x, p' ! x) \<in> uf_eq p"
proof -
  have len: "length p = n" "length p' = n" using assms(1,4) by (simp_all add: uf_ok_def)
  have px: "p ! x < n" and pp: "p ! (p ! x) < n" using assms(1,2) by (simp_all add: uf_ok_def)
  have r1: "rk ! x < rk ! (p ! x)" using assms(1-3) by (simp add: uf_ok_def)
  have r2: "rk ! (p ! x) \<le> rk ! (p ! (p ! x))"
    using assms(1) px by (cases "p ! (p ! x) = p ! x") (auto simp: uf_ok_def less_imp_le)
  have p': "p' ! y = (if y = x then p ! (p ! x) else p ! y)" for y
    using assms(2,4) len by (simp add: nth_list_update)
  show ok: "uf_ok n p' rk"
    using assms(1) r1 r2 pp len by (simp add: uf_ok_def p')
  show "rk ! x < rk ! (p' ! x)" "p' ! x < n" using r1 r2 pp by (simp_all add: p')
  then have "p' ! x \<noteq> x" by auto
  then show "\<forall>y < n. p' ! y = y \<longleftrightarrow> p ! y = y" using assms(3) by (simp add: p')
  have e: "(y, p ! y) \<in> eq_closure (edges p)" if "y < n" for y
    by (rule eq_closure_step) (use that len in \<open>auto simp: edges_def\<close>)
  have e': "(y, p' ! y) \<in> eq_closure (edges p')" if "y < n" for y
    by (rule eq_closure_step) (use that len in \<open>auto simp: edges_def\<close>)
  have xpp: "(x, p ! (p ! x)) \<in> eq_closure (edges p)"
    using eq_closure_trans [OF e [OF assms(2)] e [OF px]] .
  then show "(x, p' ! x) \<in> uf_eq p" by (simp add: p' uf_eq_closure)
  show "uf_eq p' = uf_eq p"
    unfolding uf_eq_closure
  proof (rule eq_closure_eqI)
    fix a b assume "(a, b) \<in> edges p'"
    then show "(a, b) \<in> eq_closure (edges p)"
      using xpp e len by (auto simp: edges_def p')
  next
    fix a b assume "(a, b) \<in> edges p"
    then have ab: "a < n" "b = p ! a" using len by (auto simp: edges_def)
    show "(a, b) \<in> eq_closure (edges p')"
    proof (cases "a = x")
      case False
      then show ?thesis using e' [OF ab(1)] ab(2) by (simp add: p')
    next
      case True
      have "(x, p ! (p ! x)) \<in> eq_closure (edges p')" using e' [OF assms(2)] by (simp add: p')
      moreover have "(p ! x, p ! (p ! x)) \<in> eq_closure (edges p')"
        using e' [OF px] assms(3) by (simp add: p')
      ultimately show ?thesis using True ab(2) eq_closure_trans eq_closure_sym by blast
    qed
  qed
qed

lemma rank_le_Max: "uf_ok n p rk \<Longrightarrow> x < n \<Longrightarrow> rk ! x \<le> Max (set rk)"
  by (simp add: uf_ok_def)

lemma uf_find_ok:
  assumes "uf_ok n p rk" and "x < n"
  shows "\<exists>p' r. uf_find p x = Some (p', r) \<and> uf_ok n p' rk \<and> uf_eq p' = uf_eq p \<and>
    (\<forall>y < n. p' ! y = y \<longleftrightarrow> p ! y = y) \<and> p' ! r = r \<and> r < n \<and> (x, r) \<in> uf_eq p"
  using assms
proof (induction "Max (set rk) - rk ! x" arbitrary: p x rule: less_induct)
  case less
  show ?case
  proof (cases "p ! x = x")
    case True
    then have "uf_find p x = Some (p, x)" by (subst uf_find.simps) simp
    then show ?thesis using True less.prems by (auto simp: uf_eq_closure)
  next
    case False
    define p' where "p' = p[x := p ! (p ! x)]"
    note h = halve_ok [OF less.prems False p'_def]
    have "Max (set rk) - rk ! (p' ! x) < Max (set rk) - rk ! x"
      using h(4) rank_le_Max [OF h(1,5)] by linarith
    from less.hyps [OF this h(1,5)] obtain q r where q: "uf_find p' (p' ! x) = Some (q, r)" "uf_ok n q rk"
      "uf_eq q = uf_eq p'" "\<forall>y < n. q ! y = y \<longleftrightarrow> p' ! y = y" "q ! r = r" "r < n" "(p' ! x, r) \<in> uf_eq p'"
      by blast
    have "uf_find p x = Some (q, r)"
      using False q(1) by (subst uf_find.simps) (simp add: p'_def)
    moreover have "(x, r) \<in> uf_eq p"
      using h(2,6) q(7) eq_closure_trans by (simp add: uf_eq_closure)
    ultimately show ?thesis using q h by auto
  qed
qed

section \<open>Union\<close>

lemma link_ok:
  assumes "uf_ok n p rk" and "rx < n" and "ry < n" and "rx \<noteq> ry" and "p ! rx = rx" and "p ! ry = ry"
    and "rk ! ry \<le> rk ! rx"
    and "p' = p[ry := rx]" and "rk' = (if rk ! rx = rk ! ry then rk[rx := rk ! rx + 1] else rk)"
  shows "uf_ok n p' rk'" and "uf_eq p' = eq_closure (insert (rx, ry) (edges p))"
proof -
  have len: "length p = n" "length rk = n" using assms(1) by (simp_all add: uf_ok_def)
  have p': "p' ! y = (if y = ry then rx else p ! y)" if "y < n" for y
    using assms(8) len that by (simp add: nth_list_update)
  have rk': "rk' ! y = (if y = rx \<and> rk ! rx = rk ! ry then rk ! rx + 1 else rk ! y)" if "y < n" for y
    using assms(9) len that by (simp add: nth_list_update)
  have "p' ! y < n \<and> (p' ! y \<noteq> y \<longrightarrow> rk' ! y < rk' ! (p' ! y))" if y: "y < n" for y
  proof (cases "y = ry")
    case True
    then show ?thesis using assms(2-4,7) y by (auto simp: p' rk')
  next
    case False
    then have "p ! y < n" "p ! y \<noteq> y \<longrightarrow> rk ! y < rk ! (p ! y)" using assms(1) y by (auto simp: uf_ok_def)
    with False y assms(5) show ?thesis by (auto simp: p' rk' less_SucI)
  qed
  then show "uf_ok n p' rk'" using len assms(8,9) by (auto simp: uf_ok_def)
  show "uf_eq p' = eq_closure (insert (rx, ry) (edges p))"
    unfolding uf_eq_closure
  proof (rule eq_closure_eqI)
    fix a b assume "(a, b) \<in> edges p'"
    then have ab: "a < n" "b = p' ! a" using assms(8) len by (auto simp: edges_def)
    show "(a, b) \<in> eq_closure (insert (rx, ry) (edges p))"
    proof (cases "a = ry")
      case True
      then show ?thesis using ab by (auto simp: p' intro: eq_closure_sym eq_closure_step)
    next
      case False
      then have "(a, b) \<in> edges p" using ab len by (auto simp: p' edges_def)
      then show ?thesis by (auto intro: eq_closure_step)
    qed
  next
    fix a b assume "(a, b) \<in> insert (rx, ry) (edges p)"
    then consider "a = rx" "b = ry" | "a < n" "b = p ! a" using len by (auto simp: edges_def)
    then show "(a, b) \<in> eq_closure (edges p')"
    proof cases
      case 1
      have "(ry, rx) \<in> edges p'" using assms(3,8) len p' [OF assms(3)] by (auto simp: edges_def)
      then show ?thesis using 1 eq_closure_step eq_closure_sym by blast
    next
      case 2
      show ?thesis
      proof (cases "a = ry")
        case True
        then show ?thesis using 2 assms(6) by simp
      next
        case False
        then have "(a, b) \<in> edges p'" using 2 assms(8) len p' [OF 2(1)] by (auto simp: edges_def)
        then show ?thesis by (rule eq_closure_step)
      qed
    qed
  qed
qed

lemma eq_closure_insert_equiv:
  assumes "(x, a) \<in> eq_closure S" and "(y, b) \<in> eq_closure S"
  shows "eq_closure (insert (a, b) S) = eq_closure (insert (x, y) S)"
proof -
  have mono: "(u, v) \<in> eq_closure (insert e S)" if "(u, v) \<in> eq_closure S" for u v e
    using eq_closure_least [of S "insert e S"] that by (auto intro: eq_closure_step)
  have link: "(u, v) \<in> eq_closure (insert (c, d) S)"
    if "(u, c) \<in> eq_closure S" "(v, d) \<in> eq_closure S" for u v c d
    using mono [OF that(1), of "(c, d)"] mono [OF that(2), of "(c, d)"]
      eq_closure_step [of c d "insert (c, d) S"]
    by (meson eq_closure_sym eq_closure_trans insertI1)
  show ?thesis
  proof (rule eq_closure_eqI)
    fix u v assume "(u, v) \<in> insert (a, b) S"
    then show "(u, v) \<in> eq_closure (insert (x, y) S)"
      using link [of a x b y] assms eq_closure_sym by (auto intro: eq_closure_step)
  next
    fix u v assume "(u, v) \<in> insert (x, y) S"
    then show "(u, v) \<in> eq_closure (insert (a, b) S)"
      using link [of x a y b] assms by (auto intro: eq_closure_step)
  qed
qed

lemma eq_closure_insert_sym: "eq_closure (insert (a, b) S) = eq_closure (insert (b, a) S)"
  by (rule eq_closure_eqI) (auto intro: eq_closure_step eq_closure_sym)

lemma eq_closure_insert_in: "(x, y) \<in> eq_closure S \<Longrightarrow> eq_closure (insert (x, y) S) = eq_closure S"
  by (rule eq_closure_eqI) (auto intro: eq_closure_step)

lemma eq_closure_idem: "eq_closure S = eq_closure T \<Longrightarrow> eq_closure (insert e S) = eq_closure (insert e T)"
proof -
  assume st: "eq_closure S = eq_closure T"
  have sub: "(u, v) \<in> eq_closure (insert e U)" if "(u, v) \<in> eq_closure U" for u v U
    using eq_closure_least [of U "insert e U"] that by (auto intro: eq_closure_step)
  show ?thesis
    by (rule eq_closure_eqI) (use st sub eq_closure_step in blast)+
qed

theorem uf_union_ok:
  assumes "uf_ok n p rk" and "x < n" and "y < n"
  shows "\<exists>p' rk'. uf_union (p, rk) x y = Some (p', rk') \<and> uf_ok n p' rk' \<and>
    uf_eq p' = eq_closure (insert (x, y) (edges p))"
proof -
  obtain p1 r where f1: "uf_find p x = Some (p1, r)" "uf_ok n p1 rk" "uf_eq p1 = uf_eq p"
    "p1 ! r = r" "r < n" "(x, r) \<in> uf_eq p"
    using uf_find_ok [OF assms(1,2)] by blast
  obtain p2 t where f2: "uf_find p1 y = Some (p2, t)" "uf_ok n p2 rk" "uf_eq p2 = uf_eq p1"
    "\<forall>y < n. p2 ! y = y \<longleftrightarrow> p1 ! y = y" "p2 ! t = t" "t < n" "(y, t) \<in> uf_eq p1"
    using uf_find_ok [OF f1(2) assms(3)] by blast
  have r2: "p2 ! r = r" using f1(4,5) f2(4) by simp
  have xr: "(x, r) \<in> eq_closure (edges p2)" and yt: "(y, t) \<in> eq_closure (edges p2)"
    using f1(3,6) f2(3,7) by (simp_all add: uf_eq_closure)
  have goal: "eq_closure (insert (x, y) (edges p2)) = eq_closure (insert (x, y) (edges p))"
    by (rule eq_closure_idem) (use f1(3) f2(3) in \<open>simp add: uf_eq_closure\<close>)
  have rt: "eq_closure (insert (r, t) (edges p2)) = eq_closure (insert (x, y) (edges p2))"
    by (rule eq_closure_insert_equiv [OF xr yt])
  consider "r = t" | "r \<noteq> t" "rk ! r < rk ! t" | "r \<noteq> t" "rk ! t \<le> rk ! r" by linarith
  then show ?thesis
  proof cases
    case 1
    then have "(x, y) \<in> eq_closure (edges p2)" using xr yt eq_closure_sym eq_closure_trans by blast
    then have "uf_eq p2 = eq_closure (insert (x, y) (edges p))"
      using goal by (simp add: eq_closure_insert_in uf_eq_closure)
    then show ?thesis using 1 f1(1) f2(1,2) by (simp add: uf_union_def)
  next
    case 2
    from link_ok [OF f2(2,6) f1(5) 2(1) [symmetric] f2(5) r2 less_imp_le [OF 2(2)] refl refl]
    have "uf_ok n (p2[r := t]) rk" "uf_eq (p2[r := t]) = eq_closure (insert (x, y) (edges p))"
      using 2 goal rt eq_closure_insert_sym [of r t "edges p2"] by simp_all
    then show ?thesis using 2 f1(1) f2(1) by (simp add: uf_union_def)
  next
    case 3
    from link_ok [OF f2(2) f1(5) f2(6) 3(1) r2 f2(5) 3(2) refl refl]
    have "uf_ok n (p2[t := r]) (if rk ! r = rk ! t then rk[r := rk ! r + 1] else rk)"
      "uf_eq (p2[t := r]) = eq_closure (insert (x, y) (edges p))"
      using goal rt by simp_all
    then show ?thesis using 3 f1(1) f2(1) by (simp add: uf_union_def)
  qed
qed

lemma uf_init: "uf_ok n [0..<n] (replicate n 0)" and uf_eq_init: "uf_eq [0..<n] = Id"
proof -
  show "uf_ok n [0..<n] (replicate n 0)" by (simp add: uf_ok_def)
  have "edges [0..<n] \<union> (edges [0..<n])\<inverse> \<subseteq> Id" by (auto simp: edges_def)
  then have "(edges [0..<n] \<union> (edges [0..<n])\<inverse>)\<^sup>* \<subseteq> Id\<^sup>*" by (rule rtrancl_mono)
  then show "uf_eq [0..<n] = Id" by (auto simp: uf_eq_def)
qed

end
