(* ===== verification/Dedup.thy ===== *)
theory Dedup
  imports Patterns UnionFind
begin

text \<open>
  \<open>_deduplicate_matches\<close> of \<open>engramia/core/services/recall.py\<close> on top of the
  union-find, and its specification: of every connected component of the similarity graph the
  first match with the highest success score stays, in the order of the input.
\<close>

fun union_row :: "(nat \<Rightarrow> bool) \<Rightarrow> nat list \<times> nat list \<Rightarrow> nat \<Rightarrow> nat list \<Rightarrow> (nat list \<times> nat list) option" where
  "union_row similar uf i [] = Some uf"
| "union_row similar uf i (j # js) =
     Option.bind (if similar j then uf_union uf i j else Some uf) (\<lambda>uf'. union_row similar uf' i js)"

fun union_rows :: "(nat \<Rightarrow> nat \<Rightarrow> bool) \<Rightarrow> nat \<Rightarrow> nat list \<times> nat list \<Rightarrow> nat list \<Rightarrow> (nat list \<times> nat list) option" where
  "union_rows similar n uf [] = Some uf"
| "union_rows similar n uf (i # is) =
     Option.bind (union_row (similar i) uf i [i + 1..<n]) (\<lambda>uf'. union_rows similar n uf' is)"

fun pick_best :: "nat list \<Rightarrow> (nat, nat \<times> match) dict \<Rightarrow> nat \<Rightarrow> match list \<Rightarrow> (nat, nat \<times> match) dict option" where
  "pick_best parent best i [] = Some best"
| "pick_best parent best i (m # ms) =
     Option.bind (uf_find parent i) (\<lambda>(parent', root).
       let better = (case dget best root of
                       None \<Rightarrow> True
                     | Some (_, b) \<Rightarrow> p_success_score (m_pattern b) < p_success_score (m_pattern m));
           best' = (if better then dput root (i, m) best else best)
       in pick_best parent' best' (i + 1) ms)"

definition same_task :: "match list \<Rightarrow> nat \<Rightarrow> nat \<Rightarrow> bool" where
  "same_task ms i j \<longleftrightarrow>
     JACCARD_DEDUP_THRESHOLD < jaccard (p_task (m_pattern (ms ! i))) (p_task (m_pattern (ms ! j)))"

definition deduplicate_matches :: "match list \<Rightarrow> match list option" where
  "deduplicate_matches ms =
     (let n = length ms in
      if n = 0 then Some []
      else Option.bind (union_rows (same_task ms) n ([0..<n], replicate n 0) [0..<n]) (\<lambda>(parent, rank).
           Option.bind (pick_best parent [] 0 ms) (\<lambda>best.
             Some (map snd (sort_key fst (map snd best))))))"

section \<open>The specification\<close>

definition component :: "match list \<Rightarrow> (nat \<times> nat) set" where
  "component ms = eq_closure {(i, j). i < length ms \<and> j < length ms \<and> i < j \<and> same_task ms i j}"

definition score_at :: "match list \<Rightarrow> nat \<Rightarrow> real" where
  "score_at ms i = p_success_score (m_pattern (ms ! i))"

definition representative :: "match list \<Rightarrow> nat \<Rightarrow> bool" where
  "representative ms i \<longleftrightarrow> (\<forall>j < length ms. (i, j) \<in> component ms \<longrightarrow>
     score_at ms j < score_at ms i \<or> score_at ms j = score_at ms i \<and> i \<le> j)"

text \<open>Every finite set has a first element of highest score.\<close>

lemma first_argmax:
  fixes f :: "nat \<Rightarrow> real"
  assumes "finite C" and "C \<noteq> {}"
  shows "\<exists>k \<in> C. \<forall>j \<in> C. f j < f k \<or> f j = f k \<and> k \<le> j"
  using assms
proof (induction rule: finite_ne_induct)
  case (insert x F)
  then obtain k where k: "k \<in> F" "\<forall>j \<in> F. f j < f k \<or> f j = f k \<and> k \<le> j" by blast
  show ?case
  proof (cases "f k < f x \<or> f k = f x \<and> x \<le> k")
    case True
    then show ?thesis using k(2) by (intro bexI [of _ x]) force+
  next
    case False
    then show ?thesis using k by (intro bexI [of _ k]) force+
  qed
qed simp

section \<open>The unions build the components\<close>

lemma eq_closure_insert_cong:
  "uf_eq p = eq_closure S \<Longrightarrow> eq_closure (insert e (edges p)) = eq_closure (insert e S)"
  by (rule eq_closure_idem) (simp add: uf_eq_closure)

lemma union_row_ok:
  assumes "uf_ok n p rk" and "uf_eq p = eq_closure S" and "i < n" and "\<forall>j \<in> set js. j < n"
  shows "\<exists>p' rk'. union_row sim (p, rk) i js = Some (p', rk') \<and> uf_ok n p' rk' \<and>
    uf_eq p' = eq_closure (S \<union> {(i, j) | j. j \<in> set js \<and> sim j})"
  using assms
proof (induction js arbitrary: p rk S)
  case (Cons j js)
  show ?case
  proof (cases "sim j")
    case True
    obtain p1 rk1 where u: "uf_union (p, rk) i j = Some (p1, rk1)" "uf_ok n p1 rk1"
      "uf_eq p1 = eq_closure (insert (i, j) (edges p))"
      using uf_union_ok [OF Cons.prems(1,3), of j] Cons.prems(4) by auto
    have "uf_eq p1 = eq_closure (insert (i, j) S)"
      using u(3) eq_closure_insert_cong [OF Cons.prems(2)] by simp
    from Cons.IH [OF u(2) this Cons.prems(3)] Cons.prems(4) obtain p' rk' where
      "union_row sim (p1, rk1) i js = Some (p', rk')" "uf_ok n p' rk'"
      "uf_eq p' = eq_closure (insert (i, j) S \<union> {(i, j) | j. j \<in> set js \<and> sim j})" by auto
    moreover have "insert (i, j) S \<union> {(i, j) | j. j \<in> set js \<and> sim j} =
        S \<union> {(i, k) | k. k \<in> set (j # js) \<and> sim k}" using True by auto
    ultimately show ?thesis using True u(1) by simp
  next
    case False
    have "{(i, k) | k. k \<in> set (j # js) \<and> sim k} = {(i, k) | k. k \<in> set js \<and> sim k}" using False by auto
    then show ?thesis using Cons False by simp
  qed
qed simp

lemma union_rows_ok:
  assumes "uf_ok n p rk" and "uf_eq p = eq_closure S" and "\<forall>i \<in> set is. i < n"
  shows "\<exists>p' rk'. union_rows sim n (p, rk) is = Some (p', rk') \<and> uf_ok n p' rk' \<and>
    uf_eq p' = eq_closure (S \<union> {(i, j). i \<in> set is \<and> i < j \<and> j < n \<and> sim i j})"
  using assms
proof (induction "is" arbitrary: p rk S)
  case (Cons i "is")
  obtain p1 rk1 where r: "union_row (sim i) (p, rk) i [i + 1..<n] = Some (p1, rk1)" "uf_ok n p1 rk1"
    "uf_eq p1 = eq_closure (S \<union> {(i, j) | j. j \<in> set [i + 1..<n] \<and> sim i j})"
    using union_row_ok [OF Cons.prems(1,2), of i "[i + 1..<n]" "sim i"] Cons.prems(3) by auto
  from Cons.IH [OF r(2,3)] Cons.prems(3) obtain p' rk' where
    "union_rows sim n (p1, rk1) is = Some (p', rk')" "uf_ok n p' rk'"
    "uf_eq p' = eq_closure (S \<union> {(i, j) | j. j \<in> set [i + 1..<n] \<and> sim i j} \<union>
       {(i, j). i \<in> set is \<and> i < j \<and> j < n \<and> sim i j})" by auto
  moreover have "S \<union> {(i, j) | j. j \<in> set [i + 1..<n] \<and> sim i j} \<union>
       {(i, j). i \<in> set is \<and> i < j \<and> j < n \<and> sim i j} =
       S \<union> {(k, j). k \<in> set (i # is) \<and> k < j \<and> j < n \<and> sim k j}" by auto
  ultimately show ?case using r(1) by simp
qed simp

lemma unions_component:
  assumes "n = length ms"
  shows "\<exists>p rk. union_rows (same_task ms) n ([0..<n], replicate n 0) [0..<n] = Some (p, rk) \<and>
    uf_ok n p rk \<and> uf_eq p = component ms"
proof -
  have "uf_eq [0..<n] = eq_closure {}" by (simp add: uf_eq_init eq_closure_def)
  from union_rows_ok [OF uf_init this, of "[0..<n]" "same_task ms"] obtain p rk where
    "union_rows (same_task ms) n ([0..<n], replicate n 0) [0..<n] = Some (p, rk)" "uf_ok n p rk"
    "uf_eq p = eq_closure {(i, j). i \<in> set [0..<n] \<and> i < j \<and> j < n \<and> same_task ms i j}" by auto
  moreover have "{(i, j). i \<in> set [0..<n] \<and> i < j \<and> j < n \<and> same_task ms i j} =
      {(i, j). i < length ms \<and> j < length ms \<and> i < j \<and> same_task ms i j}" using assms by auto
  ultimately show ?thesis by (simp add: component_def)
qed

section \<open>The best of every component\<close>

definition best_upto :: "(nat \<times> nat) set \<Rightarrow> (nat \<Rightarrow> real) \<Rightarrow> nat \<Rightarrow> nat \<Rightarrow> bool" where
  "best_upto E sc i k \<longleftrightarrow> k < i \<and> (\<forall>j < i. (k, j) \<in> E \<longrightarrow> sc j < sc k \<or> sc j = sc k \<and> k \<le> j)"

text \<open>The dict after i matches: for every root the best index of its class so far.\<close>

definition best_inv ::
  "(nat \<times> nat) set \<Rightarrow> (nat \<Rightarrow> bool) \<Rightarrow> match list \<Rightarrow> nat \<Rightarrow> (nat, nat \<times> match) dict \<Rightarrow> bool" where
  "best_inv E isroot ms i best \<longleftrightarrow> wf_dict best \<and>
     (\<forall>r k m. dget best r = Some (k, m) \<longrightarrow> isroot r \<and> (k, r) \<in> E \<and> m = ms ! k \<and> best_upto E (score_at ms) i k) \<and>
     (\<forall>r. isroot r \<and> dget best r = None \<longrightarrow> (\<forall>j < i. (j, r) \<notin> E))"

lemma best_upto_Suc_other:
  "best_upto E sc i k \<Longrightarrow> (k, i) \<notin> E \<Longrightarrow> best_upto E sc (Suc i) k"
  by (auto simp: best_upto_def less_Suc_eq)

lemma best_inv_step:
  assumes inv: "best_inv E isroot ms i best" and E: "sym E" "trans E" "refl E"
    and uniq: "\<And>r s. isroot r \<Longrightarrow> isroot s \<Longrightarrow> (r, s) \<in> E \<Longrightarrow> r = s"
    and r: "isroot r" "(i, r) \<in> E"
    and bst: "best' = (if (case dget best r of None \<Rightarrow> True
        | Some (_, b) \<Rightarrow> p_success_score (m_pattern b) < score_at ms i) then dput r (i, ms ! i) best else best)"
  shows "best_inv E isroot ms (Suc i) best'"
proof -
  have bk: "(j, r) \<in> E \<longleftrightarrow> (i, j) \<in> E" for j
    using E r(2) by (meson symD transD)
  have kr: "(k, r) \<in> E" if "(k, i) \<in> E" for k
    using E(2) r(2) that by (meson transD)
  have other: "best_upto E (score_at ms) (Suc i) k"
    if "dget best q = Some (k, m)" "q \<noteq> r" for q k m
  proof (rule best_upto_Suc_other)
    have q: "isroot q" "(k, q) \<in> E" "best_upto E (score_at ms) i k" using inv that by (auto simp: best_inv_def)
    then show "best_upto E (score_at ms) i k" by simp
    show "(k, i) \<notin> E"
    proof
      assume "(k, i) \<in> E"
      then have "(r, k) \<in> E" using kr E(1) by (blast dest: symD)
      then have "(r, q) \<in> E" using q(2) E(2) by (blast dest: transD)
      then show False using uniq [OF r(1) q(1)] that(2) by simp
    qed
  qed
  have none: "(j, q) \<notin> E" if "isroot q" "dget best q = None" "q \<noteq> r" "j < Suc i" for j q
  proof (cases "j = i")
    case True
    have "(r, q) \<in> E" if "(i, q) \<in> E" using r(2) that E(1,2) by (blast dest: symD transD)
    then show ?thesis using uniq [OF r(1) that(1)] that(3) True by blast
  next
    case False
    then show ?thesis using inv that by (auto simp: best_inv_def)
  qed
  show ?thesis
  proof (cases "dget best r")
    case None
    have "best_upto E (score_at ms) (Suc i) i"
      using inv None r(1) bk by (auto simp: best_upto_def best_inv_def less_Suc_eq)
    then show ?thesis
      using inv None r other none bst by (auto simp: best_inv_def dict_simps split: if_splits)
  next
    case (Some kb)
    obtain k m where km: "kb = (k, m)" by (cases kb)
    have k: "(k, r) \<in> E" "m = ms ! k" "k < i"
      "\<forall>j < i. (k, j) \<in> E \<longrightarrow> score_at ms j < score_at ms k \<or> score_at ms j = score_at ms k \<and> k \<le> j"
      using inv Some km by (auto simp: best_inv_def best_upto_def)
    show ?thesis
    proof (cases "score_at ms k < score_at ms i")
      case True
      have "score_at ms j < score_at ms i" if "j < i" "(i, j) \<in> E" for j
        using k(1,4) that bk E(1,2) True by (smt (verit) symD transD)
      then have "best_upto E (score_at ms) (Suc i) i" by (auto simp: best_upto_def less_Suc_eq)
      moreover have "best' = dput r (i, ms ! i) best"
        using True bst k(2) by (simp add: Some km score_at_def)
      ultimately show ?thesis
        using inv r other none by (auto simp: best_inv_def dict_simps split: if_splits)
    next
      case False
      have "best_upto E (score_at ms) (Suc i) k"
        using k(3,4) False by (auto simp: best_upto_def less_Suc_eq)
      moreover have "best' = best" using False bst k(2) by (simp add: Some km score_at_def)
      ultimately show ?thesis
        using inv Some km other none unfolding best_inv_def by (metis (no_types, lifting) option.inject option.distinct(1) prod.inject)
    qed
  qed
qed

lemma equiv_component: "sym (component ms)" "trans (component ms)" "refl (component ms)"
  unfolding component_def
  by (auto intro!: symI transI refl_onI dest: eq_closure_sym eq_closure_trans)

lemma pick_best_ok:
  assumes "uf_ok n p rk" and "uf_eq p = component ms" and "length ms = n" and "ms' = drop i ms" and "i \<le> n"
    and "best_inv (component ms) (\<lambda>r. r < n \<and> p ! r = r) ms i best"
  shows "\<exists>best'. pick_best p best i ms' = Some best' \<and>
    best_inv (component ms) (\<lambda>r. r < n \<and> p ! r = r) ms n best'"
  using assms
proof (induction ms' arbitrary: p best i)
  case Nil
  then have "i = n" by simp
  with Nil show ?case by simp
next
  case (Cons m ms')
  have i: "i < n" and m: "m = ms ! i" and ms': "ms' = drop (Suc i) ms"
    using Cons.prems(3,4) by (metis drop_all list.discI not_le, metis Cons_nth_drop_Suc drop_all list.inject list.discI not_le,
        metis Cons_nth_drop_Suc drop_all list.inject list.discI not_le)
  obtain p' r where f: "uf_find p i = Some (p', r)" "uf_ok n p' rk" "uf_eq p' = uf_eq p"
    "\<forall>y < n. p' ! y = y \<longleftrightarrow> p ! y = y" "p' ! r = r" "r < n" "(i, r) \<in> uf_eq p"
    using uf_find_ok [OF Cons.prems(1) i] by blast
  have roots: "(\<lambda>r. r < n \<and> p' ! r = r) = (\<lambda>r. r < n \<and> p ! r = r)" using f(4) by auto
  let ?best = "if (case dget best r of None \<Rightarrow> True
        | Some (_, b) \<Rightarrow> p_success_score (m_pattern b) < score_at ms i) then dput r (i, ms ! i) best else best"
  have "best_inv (component ms) (\<lambda>r. r < n \<and> p ! r = r) ms (Suc i) ?best"
  proof (rule best_inv_step [OF Cons.prems(6) equiv_component])
    show "r = s" if "r < n \<and> p ! r = r" "s < n \<and> p ! s = s" "(r, s) \<in> component ms" for r s
      using that roots_eq [of r s p] Cons.prems(2) by simp
    show "r < n \<and> p ! r = r" using f(4,5,6) by simp
    show "(i, r) \<in> component ms" using f(7) Cons.prems(2) by simp
  qed simp
  then have inv: "best_inv (component ms) (\<lambda>r. r < n \<and> p' ! r = r) ms (Suc i) ?best"
    by (simp only: roots)
  have "\<exists>best'. pick_best p' ?best (Suc i) ms' = Some best' \<and>
    best_inv (component ms) (\<lambda>r. r < n \<and> p' ! r = r) ms n best'"
    by (rule Cons.IH [OF f(2) _ Cons.prems(3) ms' _ inv]) (use f(3) Cons.prems(2) i in auto)
  moreover have "pick_best p best i (m # ms') = pick_best p' ?best (Suc i) ms'"
    by (cases "dget best r") (auto simp: f(1) m score_at_def Let_def)
  ultimately show ?case by (simp only: roots)
qed

lemma component_root:
  assumes "uf_ok n p rk" and "uf_eq p = component ms" and "k < n"
  shows "\<exists>r. r < n \<and> p ! r = r \<and> (k, r) \<in> component ms"
  using uf_find_ok [OF assms(1,3)] assms(2) by auto

theorem deduplicate_matches_spec:
  "deduplicate_matches ms = Some (map (nth ms) (filter (representative ms) [0..<length ms]))"
proof (cases "ms = []")
  case True
  then show ?thesis by (simp add: deduplicate_matches_def)
next
  case False
  let ?n = "length ms" and ?E = "component ms"
  obtain p rk where u: "union_rows (same_task ms) ?n ([0..<?n], replicate ?n 0) [0..<?n] = Some (p, rk)"
    "uf_ok ?n p rk" "uf_eq p = ?E"
    using unions_component [OF refl] by blast
  let ?root = "\<lambda>r. r < ?n \<and> p ! r = r"
  have "best_inv ?E ?root ms 0 []" by (simp add: best_inv_def)
  from pick_best_ok [OF u(2,3) refl _ _ this, of ms] obtain b where
    b: "pick_best p [] 0 ms = Some b" "best_inv ?E ?root ms ?n b" by auto
  let ?L = "map snd b"
  have uniq: "r = s" if "?root r" "?root s" "(r, s) \<in> ?E" for r s
    using that roots_eq [of r s p] u(3) by simp
  have best: "best_upto ?E (score_at ms) ?n k \<longleftrightarrow> k < ?n \<and> representative ms k" for k
    by (auto simp: best_upto_def representative_def)
  have mem: "\<exists>r. ?root r \<and> (k, r) \<in> ?E \<and> m = ms ! k \<and> k < ?n \<and> representative ms k \<and> dget b r = Some (k, m)"
    if km: "(k, m) \<in> set ?L" for k m
  proof -
    obtain r where "(r, (k, m)) \<in> set b" using km by auto
    then have "dget b r = Some (k, m)" using b(2) by (auto simp: best_inv_def wf_dict_in_set)
    moreover from this have "?root r \<and> (k, r) \<in> ?E \<and> m = ms ! k \<and> best_upto ?E (score_at ms) ?n k"
      using b(2) unfolding best_inv_def by blast
    ultimately show ?thesis using best [of k] by blast
  qed
  have fst_set: "fst ` set ?L = {k. k < ?n \<and> representative ms k}"
  proof (intro set_eqI iffI)
    fix k assume "k \<in> fst ` set ?L"
    then show "k \<in> {k. k < ?n \<and> representative ms k}" using mem by fastforce
  next
    fix k assume k: "k \<in> {k. k < ?n \<and> representative ms k}"
    obtain r where r: "?root r" "(k, r) \<in> ?E" using component_root [OF u(2,3)] k by blast
    have "dget b r \<noteq> None"
    proof
      assume "dget b r = None"
      then have "\<forall>j < ?n. (j, r) \<notin> ?E" using b(2) r(1) unfolding best_inv_def by blast
      then show False using r(2) k by blast
    qed
    then obtain k' m where km: "dget b r = Some (k', m)" by force
    then have "(k', m) \<in> set ?L" by (metis image_eqI map_of_SomeD set_map snd_conv)
    moreover have "(k', r) \<in> ?E" "best_upto ?E (score_at ms) ?n k'" using b(2) km by (auto simp: best_inv_def)
    then have k': "(k, k') \<in> ?E" "(k', k) \<in> ?E" "k' < ?n" "representative ms k'"
      using r(2) equiv_component(1,2) [of ms] best by (blast dest: symD transD)+
    then have "k' = k" using k by (fastforce simp: representative_def)
    ultimately show "k \<in> fst ` set ?L" by force
  qed
  have "distinct (map fst ?L)"
  proof -
    have "inj_on (\<lambda>x. fst (snd x)) (set b)"
    proof (rule inj_onI)
      fix x y assume xy: "x \<in> set b" "y \<in> set b" "fst (snd x) = fst (snd y)"
      obtain r k m where x: "x = (r, k, m)" by (cases x)
      obtain s m' where y: "y = (s, k, m')" using xy(3) x by (cases y) auto
      have "dget b r = Some (k, m)" "dget b s = Some (k, m')"
        using b(2) xy(1,2) x y by (auto simp: best_inv_def wf_dict_in_set)
      then have d: "?root r" "?root s" "(k, r) \<in> ?E" "(k, s) \<in> ?E" "m = m'"
        using b(2) unfolding best_inv_def by blast+
      then have "(r, s) \<in> ?E" using equiv_component(1,2) [of ms] by (blast dest: symD transD)
      then show "x = y" using uniq d x y by simp
    qed
    moreover have "distinct b" using b(2) by (simp add: best_inv_def wf_dict_def distinct_map)
    ultimately have "distinct (map (\<lambda>x. fst (snd x)) b)" by (simp add: distinct_map)
    then show ?thesis by (simp add: comp_def)
  qed
  then have d: "distinct (map fst (sort_key fst ?L))"
    by (metis mset_map mset_sort mset_eq_imp_distinct_iff)
  have sset: "set (map fst (sort_key fst ?L)) = set (filter (representative ms) [0..<?n])"
    using fst_set by (simp only: set_map set_sort) auto
  have "map fst (sort_key fst ?L) = filter (representative ms) [0..<?n]"
    by (rule sorted_distinct_set_unique [OF sorted_sort_key d _ _ sset])
      (simp_all add: sorted_wrt_filter)
  moreover have "map snd (sort_key fst ?L) = map (nth ms) (map fst (sort_key fst ?L))"
  proof -
    have "snd x = ms ! fst x" if "x \<in> set ?L" for x using mem [of "fst x" "snd x"] that by auto
    then show ?thesis by (simp only: map_map o_def map_eq_conv set_sort) blast
  qed
  ultimately show ?thesis
    using False by (simp add: deduplicate_matches_def u(1) b(1))
qed

end
