(* ===== verification/Recall.thy ===== *)
theory Recall
  imports Dedup EvalStore RoiCollector
begin

text \<open>
  \<open>engramia/reuse/matcher.py\<close> and \<open>engramia/core/services/recall.py\<close>. The
  embedding provider is a parameter: \<open>None\<close> when none is configured, otherwise a
  function that may raise. Every step returns the state it leaves (a search may load an index)
  with its result or exception.
\<close>

type_synonym embedder = "(string \<Rightarrow> real list res) option"

section \<open>The eval-weighted matcher\<close>

definition clamp01 :: "real \<Rightarrow> real" where
  "clamp01 x = min (max x 0) 1"

definition weigh ::
  "'s backend \<Rightarrow> eval_store \<Rightarrow> real \<Rightarrow> scope \<Rightarrow> 's \<Rightarrow> string \<Rightarrow> string \<times> real \<Rightarrow> (real \<times> match) option res" where
  "weigh B st now sc s task hit =
     (case hit of (key, sim) \<Rightarrow>
        bind_res (be_load B sc s key) (\<lambda>d.
          case d of
            None \<Rightarrow> Inr None
          | Some x \<Rightarrow>
              (case validate_doc now x of
                 Inl e \<Rightarrow> Inr None
               | Inr p \<Rightarrow>
                   bind_res (get_eval_multiplier B st sc s key task [] [] Median DEFAULT_AGGREGATION_WINDOW)
                     (\<lambda>mult. let effective = sim * mult in
                        bind_res (mk_match p (py_round 6 (clamp01 sim)) (reuse_tier_of (clamp01 sim)) key
                                   (Some (py_round 6 (clamp01 effective))))
                          (\<lambda>m. Inr (Some (effective, m)))))))"

fun weigh_all ::
  "'s backend \<Rightarrow> eval_store \<Rightarrow> real \<Rightarrow> scope \<Rightarrow> 's \<Rightarrow> string \<Rightarrow> (string \<times> real) list \<Rightarrow> (real \<times> match) list res" where
  "weigh_all B st now sc s task [] = Inr []"
| "weigh_all B st now sc s task (hit # hits) =
     bind_res (weigh B st now sc s task hit) (\<lambda>w.
     bind_res (weigh_all B st now sc s task hits) (\<lambda>ws.
       Inr (case w of None \<Rightarrow> ws | Some x \<Rightarrow> x # ws)))"

definition matcher_find ::
  "'s backend \<Rightarrow> eval_store \<Rightarrow> embedder \<Rightarrow> real \<Rightarrow> scope \<Rightarrow> 's \<Rightarrow> string \<Rightarrow> nat \<Rightarrow> nat \<Rightarrow> match list res \<times> 's" where
  "matcher_find B st emb now sc s task limit fetch =
     (case emb of
        None \<Rightarrow> (Inr [], s)
      | Some embf \<Rightarrow>
          (case bind_res (embf task) (\<lambda>v. be_search B sc s v (limit * max 1 fetch) PATTERNS_PREFIX) of
             Inl e \<Rightarrow> (Inl e, s)
           | Inr (hits, s') \<Rightarrow>
               (bind_res (weigh_all B st now sc s' task hits) (\<lambda>ws. Inr (map snd (take limit (sort_desc fst ws)))), s')))"

section \<open>Recency\<close>

definition recency_factor :: "real \<Rightarrow> real \<Rightarrow> pattern \<Rightarrow> real" where
  "recency_factor now half_life_days p =
     (1 / 2) powr (max 0 (now - p_timestamp p) / (half_life_days * 86400))"

definition base_score :: "match \<Rightarrow> real" where
  "base_score m = (case m_effective m of Some e \<Rightarrow> e | None \<Rightarrow> m_similarity m)"

definition apply_recency_weight :: "match list \<Rightarrow> real \<Rightarrow> real \<Rightarrow> real \<Rightarrow> match list" where
  "apply_recency_weight ms weight half_life_days now =
     (if weight \<le> 0 \<or> ms = [] then ms
      else sort_desc (\<lambda>m. or_zero (m_effective m))
        (map (\<lambda>m. m\<lparr>m_effective := Some (py_round 6 (clamp01
                (base_score m * (recency_factor now half_life_days (m_pattern m) powr weight))))\<rparr>) ms))"

section \<open>Keyword fallback\<close>

fun score_keys :: "'s backend \<Rightarrow> real \<Rightarrow> scope \<Rightarrow> 's \<Rightarrow> string \<Rightarrow> string list \<Rightarrow> (real \<times> string \<times> pattern) list res" where
  "score_keys B now sc s task [] = Inr []"
| "score_keys B now sc s task (k # ks) =
     bind_res (be_load B sc s k) (\<lambda>d.
     bind_res (score_keys B now sc s task ks) (\<lambda>rest.
       Inr (case d of
              None \<Rightarrow> rest
            | Some x \<Rightarrow>
                (case validate_doc now x of
                   Inl _ \<Rightarrow> rest
                 | Inr p \<Rightarrow> if 0 < jaccard task (p_task p) then (jaccard task (p_task p), k, p) # rest else rest))))"

fun mk_matches :: "(real \<times> string \<times> pattern) list \<Rightarrow> match list res" where
  "mk_matches [] = Inr []"
| "mk_matches ((s, k, p) # xs) =
     bind_res (mk_match p s (reuse_tier_of s) k None) (\<lambda>m. bind_res (mk_matches xs) (\<lambda>ms. Inr (m # ms)))"

definition keyword_fallback ::
  "'s backend \<Rightarrow> real \<Rightarrow> scope \<Rightarrow> 's \<Rightarrow> string \<Rightarrow> nat \<Rightarrow> match list res" where
  "keyword_fallback B now sc s task limit =
     bind_res (be_list_keys B sc s PATTERNS_PREFIX) (\<lambda>ks.
     bind_res (score_keys B now sc s task ks) (\<lambda>scored.
       mk_matches (take limit (sort_desc fst scored))))"

section \<open>Recall\<close>

fun plain_matches :: "'s backend \<Rightarrow> real \<Rightarrow> scope \<Rightarrow> 's \<Rightarrow> (string \<times> real) list \<Rightarrow> match list res" where
  "plain_matches B now sc s [] = Inr []"
| "plain_matches B now sc s ((key, sim) # hits) =
     bind_res (be_load B sc s key) (\<lambda>d.
       case d of
         None \<Rightarrow> plain_matches B now sc s hits
       | Some x \<Rightarrow>
           bind_res (validate_doc now x) (\<lambda>p.
           bind_res (mk_match p (min sim 1) (reuse_tier_of sim) key None) (\<lambda>m.
           bind_res (plain_matches B now sc s hits) (\<lambda>ms. Inr (m # ms)))))"

record recall_args =
  ra_task :: string
  ra_limit :: nat
  ra_deduplicate :: bool
  ra_eval_weighted :: bool
  ra_recency_weight :: real
  ra_half_life :: real
  ra_readonly :: bool

definition DEDUP_FETCH_MULTIPLIER :: nat where "DEDUP_FETCH_MULTIPLIER = 3"

definition fetch_multiplier :: "recall_args \<Rightarrow> nat" where
  "fetch_multiplier a = (if ra_deduplicate a then DEDUP_FETCH_MULTIPLIER else 1)"

text \<open>The body of the try block.\<close>

definition semantic_matches ::
  "'s backend \<Rightarrow> eval_store \<Rightarrow> embedder \<Rightarrow> real \<Rightarrow> scope \<Rightarrow> 's \<Rightarrow> recall_args \<Rightarrow> match list res \<times> 's" where
  "semantic_matches B st emb now sc s a =
     (case emb of
        None \<Rightarrow> (Inl (ProviderError ''No embedding provider configured''), s)
      | Some embf \<Rightarrow>
          if ra_eval_weighted a then matcher_find B st emb now sc s (ra_task a) (ra_limit a) (fetch_multiplier a)
          else (case bind_res (embf (ra_task a)) (\<lambda>v.
                       be_search B sc s v (ra_limit a * fetch_multiplier a) PATTERNS_PREFIX) of
                  Inl e \<Rightarrow> (Inl e, s)
                | Inr (hits, s') \<Rightarrow> (plain_matches B now sc s' hits, s')))"

definition provider_failure :: "exn \<Rightarrow> bool" where
  "provider_failure e = (case e of ProviderError _ \<Rightarrow> True | TimeoutError _ \<Rightarrow> True
     | ConnectionError _ \<Rightarrow> True | _ \<Rightarrow> False)"

definition find_matches ::
  "'s backend \<Rightarrow> eval_store \<Rightarrow> embedder \<Rightarrow> real \<Rightarrow> scope \<Rightarrow> 's \<Rightarrow> recall_args \<Rightarrow> match list res \<times> 's" where
  "find_matches B st emb now sc s a =
     (case semantic_matches B st emb now sc s a of
        (Inl e, s') \<Rightarrow>
          if provider_failure e
          then (keyword_fallback B now sc s' (ra_task a) (ra_limit a * fetch_multiplier a), s')
          else (Inl e, s')
      | (Inr ms, s') \<Rightarrow> (Inr ms, s'))"

text \<open>\<open>deduplicate_matches_spec\<close> shows the loop always returns, so the None case is void.\<close>

definition dedup :: "match list \<Rightarrow> match list" where
  "dedup ms = (case deduplicate_matches ms of Some r \<Rightarrow> r | None \<Rightarrow> [])"

definition rank_matches :: "recall_args \<Rightarrow> real \<Rightarrow> match list \<Rightarrow> match list" where
  "rank_matches a now ms =
     (let ms1 = (if 0 < ra_recency_weight a
                 then apply_recency_weight ms (ra_recency_weight a) (ra_half_life a) now else ms);
          ms2 = (if ra_deduplicate a then dedup ms1 else ms1)
      in take (ra_limit a) ms2)"

fun mark_all :: "'s backend \<Rightarrow> real \<Rightarrow> scope \<Rightarrow> 's \<Rightarrow> match list \<Rightarrow> unit res \<times> 's" where
  "mark_all B now sc s [] = (Inr (), s)"
| "mark_all B now sc s (m # ms) =
     (case mark_reused B now sc s (m_key m) of
        Inl e \<Rightarrow> (Inl e, s)
      | Inr s' \<Rightarrow> mark_all B now sc s' ms)"

definition record_recall_event :: "'s backend \<Rightarrow> real \<Rightarrow> scope \<Rightarrow> 's \<Rightarrow> match list \<Rightarrow> 's" where
  "record_recall_event B now sc s result =
     (case result of
        [] \<Rightarrow> roi_record_recall B now sc s None None []
      | m # ms \<Rightarrow> roi_record_recall B now sc s (Some (m_similarity m)) (Some (m_tier m)) (m_key m))"

definition recall ::
  "'s backend \<Rightarrow> eval_store \<Rightarrow> embedder \<Rightarrow> real \<Rightarrow> scope \<Rightarrow> 's \<Rightarrow> recall_args \<Rightarrow> match list res \<times> 's" where
  "recall B st emb now sc s a =
     (case find_matches B st emb now sc s a of
        (Inl e, s') \<Rightarrow> (Inl e, s')
      | (Inr ms, s') \<Rightarrow>
          (let result = rank_matches a now ms in
           (case (if ra_readonly a then (Inr (), s') else mark_all B now sc s' result) of
              (Inl e, s2) \<Rightarrow> (Inl e, s2)
            | (Inr u, s2) \<Rightarrow> (Inr result, record_recall_event B now sc s2 result))))"

section \<open>Matches come from the store\<close>

lemma mk_match_ok:
  "mk_match p sim tier key eff = Inr m \<longleftrightarrow>
     0 \<le> sim \<and> sim \<le> 1 \<and> (case eff of None \<Rightarrow> True | Some e \<Rightarrow> 0 \<le> e \<and> e \<le> 1) \<and>
     m = \<lparr>m_pattern = p, m_similarity = sim, m_tier = tier, m_key = key, m_effective = eff\<rparr>"
  by (auto simp: mk_match_def)

lemma distinct_subseq: "subseq xs ys \<Longrightarrow> distinct ys \<Longrightarrow> distinct xs"
  by (auto simp: subseq_conv_nths intro: distinct_nthsI)

lemma subseq_set: "subseq xs ys \<Longrightarrow> set xs \<subseteq> set ys"
  by (auto simp: subseq_conv_nths dest: in_set_nthsD)

text \<open>A match whose pattern is the document stored under its key.\<close>

definition match_ok :: "('l \<Rightarrow> doc option) \<Rightarrow> (string \<Rightarrow> 'l) \<Rightarrow> real \<Rightarrow> match \<Rightarrow> bool" where
  "match_ok v l now m \<longleftrightarrow> holds now (v (l (m_key m))) (Some (m_pattern m)) \<and>
     0 \<le> m_similarity m \<and> m_similarity m \<le> 1"

definition matches_ok :: "('l \<Rightarrow> doc option) \<Rightarrow> (string \<Rightarrow> 'l) \<Rightarrow> (string \<Rightarrow> bool) \<Rightarrow> real \<Rightarrow> match list \<Rightarrow> bool" where
  "matches_ok v l g now ms \<longleftrightarrow>
     distinct (map m_key ms) \<and> (\<forall>m \<in> set ms. match_ok v l now m \<and> g (m_key m))"

lemma matches_ok_subset:
  "matches_ok v l g now ms \<Longrightarrow> distinct (map m_key ms') \<Longrightarrow> set ms' \<subseteq> set ms \<Longrightarrow> matches_ok v l g now ms'"
  by (auto simp: matches_ok_def)

lemma matches_ok_subseq: "matches_ok v l g now ms \<Longrightarrow> subseq ms' ms \<Longrightarrow> matches_ok v l g now ms'"
  by (meson distinct_subseq matches_ok_def matches_ok_subset subseq_map subseq_set)

lemma distinct_map_sort_desc: "distinct (map f (sort_desc g xs)) \<longleftrightarrow> distinct (map f xs)"
  by (metis mset_eq_imp_distinct_iff mset_map mset_sort_desc)

lemma distinct_map_take: "distinct (map f xs) \<Longrightarrow> distinct (map f (take n xs))"
  by (metis distinct_take take_map)

lemma matches_ok_take_sort:
  "distinct (map f xs) \<Longrightarrow> distinct (map f (take n (sort_desc g xs)))"
  by (simp add: distinct_map_take distinct_map_sort_desc)

lemma set_take_sort: "set (take n (sort_desc g xs)) \<subseteq> set xs"
  by (metis set_sort_desc set_take_subset)

lemma mk_matches_ok:
  "mk_matches xs = Inr ms \<Longrightarrow> ms = map (\<lambda>(s, k, p). \<lparr>m_pattern = p, m_similarity = s,
     m_tier = reuse_tier_of s, m_key = k, m_effective = None\<rparr>) xs \<and> (\<forall>(s, k, p) \<in> set xs. 0 \<le> s \<and> s \<le> 1)"
  by (induction xs arbitrary: ms rule: mk_matches.induct) (auto simp: res_simps mk_match_ok)

lemma mk_matches_total: "(\<forall>(s, k, p) \<in> set xs. 0 \<le> s \<and> s \<le> 1) \<Longrightarrow> \<exists>ms. mk_matches xs = Inr ms"
  by (induction xs rule: mk_matches.induct) (auto simp: mk_match_def)

context storage
begin

lemma load_holds:
  assumes "wf s" and "okscope sc" and "good k" and "be_load B sc s k = Inr (Some x)" and "validate_doc now x = Inr p"
  shows "holds now (val s (loc sc k)) (Some p)"
  using assms by (auto simp: load_law holds_def)

lemma weigh_ok:
  assumes "wf s" and "okscope sc" and "good (fst hit)" and "weigh B st now sc s task hit = Inr (Some x)"
  shows "match_ok (val s) (loc sc) now (snd x) \<and> m_key (snd x) = fst hit \<and>
    m_effective (snd x) = Some (py_round 6 (clamp01 (fst x)))"
proof -
  obtain key sim where h: "hit = (key, sim)" by (cases hit)
  obtain d where d: "be_load B sc s key = Inr (Some d)"
    using assms(4) h by (auto simp: weigh_def res_simps split: option.splits)
  obtain p where p: "validate_doc now d = Inr p"
    using assms(4) h d by (cases "validate_doc now d") (auto simp: weigh_def)
  then have "0 \<le> m_similarity (snd x)" "m_similarity (snd x) \<le> 1" "m_pattern (snd x) = p" "m_key (snd x) = key"
    "m_effective (snd x) = Some (py_round 6 (clamp01 (fst x)))"
    using assms(4) h d by (auto simp: weigh_def res_simps mk_match_ok Let_def)
  then show ?thesis using load_holds [OF assms(1,2), of key d now p] d p assms(3) h by (simp add: match_ok_def)
qed

lemma weigh_all_ok:
  assumes "wf s" and "okscope sc" and "\<forall>h \<in> set hits. good (fst h)" and "weigh_all B st now sc s task hits = Inr ws"
  shows "(\<forall>x \<in> set ws. match_ok (val s) (loc sc) now (snd x) \<and> m_effective (snd x) = Some (py_round 6 (clamp01 (fst x)))) \<and>
    subseq (map (\<lambda>x. m_key (snd x)) ws) (map fst hits)"
  using assms(3,4)
proof (induction hits arbitrary: ws)
  case (Cons hit hits)
  obtain w ws' where w: "weigh B st now sc s task hit = Inr w" "weigh_all B st now sc s task hits = Inr ws'"
    "ws = (case w of None \<Rightarrow> ws' | Some x \<Rightarrow> x # ws')"
    using Cons.prems(2) by (auto simp: res_simps)
  have IH: "(\<forall>x \<in> set ws'. match_ok (val s) (loc sc) now (snd x) \<and> m_effective (snd x) = Some (py_round 6 (clamp01 (fst x)))) \<and>
    subseq (map (\<lambda>x. m_key (snd x)) ws') (map fst hits)"
    using Cons.IH [OF _ w(2)] Cons.prems(1) by simp
  show ?case
  proof (cases w)
    case None
    then show ?thesis using IH w(3) by (auto intro: list_emb_Cons)
  next
    case (Some x)
    then show ?thesis using IH w weigh_ok [OF assms(1,2), of hit st now task x] Cons.prems(1) by auto
  qed
qed simp

lemma plain_matches_ok:
  assumes "wf s" and "okscope sc" and "\<forall>h \<in> set hits. good (fst h)" and "plain_matches B now sc s hits = Inr ms"
  shows "(\<forall>m \<in> set ms. match_ok (val s) (loc sc) now m) \<and> subseq (map m_key ms) (map fst hits)"
  using assms(3,4)
proof (induction hits arbitrary: ms)
  case (Cons hit hits)
  obtain key sim where h: "hit = (key, sim)" by (cases hit)
  obtain d where d: "be_load B sc s key = Inr d" using Cons.prems(2) h by (auto simp: res_simps)
  show ?case
  proof (cases d)
    case None
    then show ?thesis using Cons h d by (auto intro: list_emb_Cons)
  next
    case (Some x)
    then obtain p m ms' where p: "validate_doc now x = Inr p" "mk_match p (min sim 1) (reuse_tier_of sim) key None = Inr m"
      "plain_matches B now sc s hits = Inr ms'" "ms = m # ms'"
      using Cons.prems(2) h d by (auto simp: res_simps)
    then show ?thesis
      using Cons.IH [OF _ p(3)] Cons.prems(1) h load_holds [OF assms(1,2), of key x now p] d Some
      by (auto simp: mk_match_ok match_ok_def)
  qed
qed simp

lemma score_keys_ok:
  assumes "wf s" and "okscope sc" and "\<forall>k \<in> set ks. good k"
  shows "\<exists>xs. score_keys B now sc s task ks = Inr xs \<and> subseq (map (\<lambda>x. fst (snd x)) xs) ks \<and>
    (\<forall>(x, k, p) \<in> set xs. holds now (val s (loc sc k)) (Some p) \<and> x = jaccard task (p_task p) \<and> 0 < x)"
  using assms(3)
proof (induction ks)
  case (Cons k ks)
  obtain xs where xs: "score_keys B now sc s task ks = Inr xs" "subseq (map (\<lambda>x. fst (snd x)) xs) ks"
    "\<forall>(x, k, p) \<in> set xs. holds now (val s (loc sc k)) (Some p) \<and> x = jaccard task (p_task p) \<and> 0 < x"
    using Cons by auto
  have load: "be_load B sc s k = Inr (val s (loc sc k))" using assms(1,2) Cons.prems by (simp add: load_law)
  show ?case
  proof (cases "val s (loc sc k)")
    case None
    then show ?thesis using xs load by (auto intro: list_emb_Cons)
  next
    case (Some x)
    show ?thesis
    proof (cases "validate_doc now x")
      case (Inl e)
      then show ?thesis using xs load Some by (auto intro: list_emb_Cons)
    next
      case (Inr p)
      then show ?thesis using xs load Some
        by (cases "0 < jaccard task (p_task p)") (auto simp: holds_def intro: list_emb_Cons)
    qed
  qed
qed simp

end

section \<open>Ranking\<close>

definition ranked :: "match list \<Rightarrow> bool" where
  "ranked ms \<longleftrightarrow> sorted_wrt (\<lambda>a b. base_score b \<le> base_score a) ms"

lemma sorted_wrt_subseq: "subseq xs ys \<Longrightarrow> sorted_wrt P ys \<Longrightarrow> sorted_wrt P xs"
proof (induction rule: list_emb.induct)
  case (list_emb_Cons2 x y xs ys)
  then show ?case using subseq_set [of xs ys] by auto
qed simp_all

lemma ranked_subseq: "ranked ms \<Longrightarrow> subseq ms' ms \<Longrightarrow> ranked ms'"
  by (simp add: ranked_def sorted_wrt_subseq)

lemma clamp01_mono: "x \<le> y \<Longrightarrow> clamp01 x \<le> clamp01 y"
  by (auto simp: clamp01_def)

lemma ranked_weighted:
  assumes "\<forall>x \<in> set ws. m_effective (snd x) = Some (py_round 6 (clamp01 (fst x)))"
  shows "ranked (map snd (take n (sort_desc fst ws)))"
proof -
  let ?r = "take n (sort_desc fst ws)"
  have "sorted_wrt (\<lambda>a b. fst b \<le> fst a) ?r" by (rule sorted_wrt_take [OF sort_desc_sorted])
  moreover have "base_score (snd x) = py_round 6 (clamp01 (fst x))" if "x \<in> set ?r" for x
    using assms that set_take_sort [of n fst ws] by (auto simp: base_score_def)
  ultimately have "sorted_wrt (\<lambda>a b. base_score (snd b) \<le> base_score (snd a)) ?r"
    by (elim sorted_wrt_mono_rel [rotated]) (simp add: py_round_mono clamp01_mono)
  then show ?thesis by (simp add: ranked_def sorted_wrt_map)
qed

lemma ranked_recency:
  assumes "0 < w"
  shows "ranked (apply_recency_weight ms w h now)"
proof (cases "ms = []")
  case True
  then show ?thesis by (simp add: apply_recency_weight_def ranked_def)
next
  case False
  let ?f = "\<lambda>m. m\<lparr>m_effective := Some (py_round 6 (clamp01
                (base_score m * (recency_factor now h (m_pattern m) powr w))))\<rparr>"
  have "base_score m = or_zero (m_effective m)" if "m \<in> set (map ?f ms)" for m
    using that by (auto simp: base_score_def or_zero_def)
  then have "sorted_wrt (\<lambda>a b. base_score b \<le> base_score a) (sort_desc (\<lambda>m. or_zero (m_effective m)) (map ?f ms))"
    using sort_desc_sorted [of "\<lambda>m. or_zero (m_effective m)" "map ?f ms"]
    by (elim sorted_wrt_mono_rel [rotated]) (simp only: set_sort_desc)
  then show ?thesis using assms False by (simp add: apply_recency_weight_def ranked_def)
qed

lemma dedup_eq: "dedup ms = map (nth ms) (filter (representative ms) [0..<length ms])"
  by (simp add: dedup_def deduplicate_matches_spec)

lemma subseq_dedup: "subseq (dedup ms) ms"
proof -
  have "subseq (map (nth ms) (filter (representative ms) [0..<length ms])) (map (nth ms) [0..<length ms])"
    by (rule subseq_map) simp
  then show ?thesis by (simp add: dedup_eq map_nth)
qed

text \<open>No two matches that stay describe the same task.\<close>

definition different_tasks :: "match \<Rightarrow> match \<Rightarrow> bool" where
  "different_tasks a b \<longleftrightarrow> jaccard (p_task (m_pattern a)) (p_task (m_pattern b)) \<le> JACCARD_DEDUP_THRESHOLD"

lemma dedup_different: "sorted_wrt different_tasks (dedup ms)"
proof -
  let ?is = "filter (representative ms) [0..<length ms]"
  have "sorted_wrt (<) ?is" by (rule sorted_wrt_filter) simp
  moreover have "different_tasks (ms ! i) (ms ! j)" if "i \<in> set ?is" "j \<in> set ?is" "i < j" for i j
  proof (rule ccontr)
    assume "\<not> different_tasks (ms ! i) (ms ! j)"
    then have c: "(i, j) \<in> component ms"
      using that by (auto simp: component_def different_tasks_def same_task_def intro!: eq_closure_step)
    then have "(j, i) \<in> component ms" unfolding component_def by (rule eq_closure_sym)
    then have "score_at ms i < score_at ms j \<or> score_at ms i = score_at ms j \<and> j \<le> i"
      "score_at ms j < score_at ms i \<or> score_at ms j = score_at ms i \<and> i \<le> j"
      using c that(1,2) by (simp_all add: representative_def)
    then show False using that(3) by auto
  qed
  ultimately have "sorted_wrt (\<lambda>i j. different_tasks (ms ! i) (ms ! j)) ?is"
    by (elim sorted_wrt_mono_rel [rotated]) blast
  then show ?thesis by (simp add: dedup_eq sorted_wrt_map)
qed

text \<open>Every match is represented by one of its component that scores at least as high.\<close>

lemma recency_matches_ok:
  assumes "matches_ok v l g now ms"
  shows "matches_ok v l g now (apply_recency_weight ms w h t)"
proof (cases "w \<le> 0 \<or> ms = []")
  case True
  then show ?thesis using assms by (simp add: apply_recency_weight_def)
next
  case False
  let ?f = "\<lambda>m. m\<lparr>m_effective := Some (py_round 6 (clamp01
                (base_score m * (recency_factor t h (m_pattern m) powr w))))\<rparr>"
  have "matches_ok v l g now (map ?f ms)"
    using assms by (auto simp: matches_ok_def match_ok_def comp_def)
  then show ?thesis
    using False by (auto simp: apply_recency_weight_def matches_ok_def distinct_map_sort_desc)
qed

lemma rank_matches_ok:
  assumes "matches_ok v l g now ms"
  shows "matches_ok v l g now (rank_matches a t ms)" and "length (rank_matches a t ms) \<le> ra_limit a"
proof -
  have tk: "subseq (take n xs) xs" for n and xs :: "match list"
    by (metis prefix_imp_subseq take_is_prefix)
  define ms1 where "ms1 = (if 0 < ra_recency_weight a
      then apply_recency_weight ms (ra_recency_weight a) (ra_half_life a) t else ms)"
  define ms2 where "ms2 = (if ra_deduplicate a then dedup ms1 else ms1)"
  have "matches_ok v l g now ms1" using recency_matches_ok [OF assms] assms by (simp add: ms1_def)
  then have "matches_ok v l g now ms2" by (simp add: ms2_def matches_ok_subseq [OF _ subseq_dedup])
  then have "matches_ok v l g now (take (ra_limit a) ms2)" by (rule matches_ok_subseq [OF _ tk])
  then show "matches_ok v l g now (rank_matches a t ms)"
    by (simp only: rank_matches_def Let_def ms1_def ms2_def)
  show "length (rank_matches a t ms) \<le> ra_limit a" by (simp add: rank_matches_def Let_def)
qed

lemma rank_matches_ranked:
  assumes "ranked ms"
  shows "ranked (rank_matches a t ms)"
proof -
  define ms1 where "ms1 = (if 0 < ra_recency_weight a
      then apply_recency_weight ms (ra_recency_weight a) (ra_half_life a) t else ms)"
  define ms2 where "ms2 = (if ra_deduplicate a then dedup ms1 else ms1)"
  have "ranked ms1" using ranked_recency assms by (simp add: ms1_def)
  then have "ranked ms2" by (simp add: ms2_def ranked_subseq [OF _ subseq_dedup])
  then have "ranked (take (ra_limit a) ms2)" by (rule ranked_subseq) (intro prefix_imp_subseq take_is_prefix)
  then show ?thesis by (simp only: rank_matches_def Let_def ms1_def ms2_def)
qed

lemma rank_matches_different:
  "ra_deduplicate a \<Longrightarrow> sorted_wrt different_tasks (rank_matches a t ms)"
  by (auto simp: rank_matches_def Let_def intro: sorted_wrt_take dedup_different)

lemma plain_matches_scores:
  "plain_matches B now sc s hits = Inr ms \<Longrightarrow> subseq (map base_score ms) (map (\<lambda>h. min (snd h) 1) hits)"
proof (induction hits arbitrary: ms)
  case (Cons hit hits)
  obtain key sim where h: "hit = (key, sim)" by (cases hit)
  show ?case
  proof (cases "be_load B sc s key")
    case (Inr d)
    then show ?thesis
      using Cons h by (cases d) (auto simp: res_simps mk_match_ok base_score_def intro: list_emb_Cons)
  qed (use Cons h in simp)
qed simp

lemma ranked_scores: "ranked ms \<longleftrightarrow> sorted_wrt (\<lambda>x y. y \<le> x) (map base_score ms)"
  by (simp add: ranked_def sorted_wrt_map)

lemma keyword_ranked:
  assumes "mk_matches (take n (sort_desc fst xs)) = Inr ms"
  shows "ranked ms"
proof -
  have "map base_score ms = map fst (take n (sort_desc fst xs))"
    using mk_matches_ok [OF assms] by (auto simp: base_score_def)
  moreover have "sorted_wrt (\<lambda>x y. y \<le> x) (map fst (take n (sort_desc fst xs)))"
    unfolding sorted_wrt_map by (rule sorted_wrt_take [OF sort_desc_sorted])
  ultimately show ?thesis by (simp add: ranked_scores)
qed

definition pattern_key_ok :: "(string \<Rightarrow> bool) \<Rightarrow> string \<Rightarrow> bool" where
  "pattern_key_ok good k \<longleftrightarrow> good k \<and> prefix PATTERNS_PREFIX k"

text \<open>What \<open>find_matches\<close> and the provider's failures lead to.\<close>

context storage
begin

lemma keyword_fallback_ok:
  assumes "wf s" and "okscope sc"
  shows "\<exists>ms. keyword_fallback B now sc s task n = Inr ms \<and> ranked ms \<and> length ms \<le> n \<and>
    matches_ok (val s) (loc sc) (pattern_key_ok good) now ms"
proof -
  obtain ks where ks: "be_list_keys B sc s PATTERNS_PREFIX = Inr ks" "distinct ks"
    "set ks = {k. prefix PATTERNS_PREFIX k \<and> plain k \<and> val s (loc sc k) \<noteq> None}"
    by (rule list_keys_ok [OF assms])
  have g: "\<forall>k \<in> set ks. good k" using ks(3) plain_good by auto
  obtain xs where xs: "score_keys B now sc s task ks = Inr xs" "subseq (map (\<lambda>x. fst (snd x)) xs) ks"
    "\<forall>(x, k, p) \<in> set xs. holds now (val s (loc sc k)) (Some p) \<and> x = jaccard task (p_task p) \<and> 0 < x"
    using score_keys_ok [OF assms g] by blast
  let ?t = "take n (sort_desc fst xs)"
  have sub: "x \<in> set xs" if "x \<in> set ?t" for x using that set_take_sort [of n fst xs] by blast
  have b: "\<forall>(x, k, p) \<in> set ?t. 0 \<le> x \<and> x \<le> 1"
    using sub xs(3) jaccard_nonneg jaccard_le_1 by fastforce
  obtain ms where ms: "mk_matches ?t = Inr ms" using mk_matches_total [OF b] by blast
  note m = mk_matches_ok [OF ms]
  have keys: "map m_key ms = map (\<lambda>x. fst (snd x)) ?t" using m by auto
  have "distinct (map (\<lambda>x. fst (snd x)) ?t)"
    by (rule matches_ok_take_sort) (rule distinct_subseq [OF xs(2) ks(2)])
  moreover have "match_ok (val s) (loc sc) now x \<and> pattern_key_ok good (m_key x)" if xm: "x \<in> set ms" for x
  proof -
    obtain j k p where j: "(j, k, p) \<in> set ?t" "x = \<lparr>m_pattern = p, m_similarity = j,
        m_tier = reuse_tier_of j, m_key = k, m_effective = None\<rparr>"
      using m xm by auto
    have "k \<in> set ks" using sub [OF j(1)] subseq_set [OF xs(2)] by force
    then have "pattern_key_ok good k" using ks(3) plain_good by (auto simp: pattern_key_ok_def)
    then show ?thesis using sub [OF j(1)] xs(3) b j by (auto simp: match_ok_def)
  qed
  ultimately have "matches_ok (val s) (loc sc) (pattern_key_ok good) now ms"
    by (simp add: matches_ok_def keys)
  moreover have "length ms \<le> n" using m by simp
  ultimately show ?thesis
    using ks(1) xs(1) ms keyword_ranked [OF ms] by (simp add: keyword_fallback_def)
qed

lemma search_hits:
  assumes "wf s" and "okscope sc" and "\<forall>k. emb s sc k \<noteq> None \<longrightarrow> good k"
    and "bind_res (f task) (\<lambda>v. be_search B sc s v n PATTERNS_PREFIX) = Inr (hs, t)"
  shows "wf t \<and> val t = val s \<and> emb t = emb s \<and> distinct (map fst hs) \<and>
    sorted_wrt (\<lambda>a b. snd b \<le> snd a) hs \<and> (\<forall>h \<in> set hs. pattern_key_ok good (fst h))"
proof -
  obtain v where "be_search B sc s v n PATTERNS_PREFIX = Inr (hs, t)" using assms(4) by (auto simp: res_simps)
  from search_law [OF assms(1,2) this] assms(3) show ?thesis by (auto simp: pattern_key_ok_def)
qed

lemma weighted_hits_ok:
  assumes "wf t" and "okscope sc" and "distinct (map fst hs)" and "\<forall>h \<in> set hs. pattern_key_ok good (fst h)"
    and "weigh_all B st now sc t task hs = Inr ws" and "ms = map snd (take n (sort_desc fst ws))"
  shows "ranked ms \<and> matches_ok (val t) (loc sc) (pattern_key_ok good) now ms"
proof -
  have "\<forall>h \<in> set hs. good (fst h)" using assms(4) by (simp add: pattern_key_ok_def)
  from weigh_all_ok [OF assms(1,2) this assms(5)]
  have w: "\<forall>x \<in> set ws. match_ok (val t) (loc sc) now (snd x) \<and> m_effective (snd x) = Some (py_round 6 (clamp01 (fst x)))"
    "subseq (map (\<lambda>x. m_key (snd x)) ws) (map fst hs)" by auto
  have "distinct (map (\<lambda>x. m_key (snd x)) (take n (sort_desc fst ws)))"
    using assms(3) by (intro matches_ok_take_sort distinct_subseq [OF w(2)]) simp
  moreover have "pattern_key_ok good (m_key (snd x))" if "x \<in> set ws" for x
    using subseq_set [OF w(2)] that assms(4) by force
  ultimately have "matches_ok (val t) (loc sc) (pattern_key_ok good) now ms"
    using w(1) set_take_sort [of n fst ws] by (auto simp: matches_ok_def assms(6) comp_def)
  moreover have "ranked ms" unfolding assms(6) by (rule ranked_weighted) (use w(1) in blast)
  ultimately show ?thesis by blast
qed

lemma plain_hits_ok:
  assumes "wf t" and "okscope sc" and "distinct (map fst hs)" and "\<forall>h \<in> set hs. pattern_key_ok good (fst h)"
    and "sorted_wrt (\<lambda>a b. snd b \<le> snd a) hs" and "plain_matches B now sc t hs = Inr ms"
  shows "ranked ms \<and> matches_ok (val t) (loc sc) (pattern_key_ok good) now ms"
proof -
  have "\<forall>h \<in> set hs. good (fst h)" using assms(4) by (simp add: pattern_key_ok_def)
  from plain_matches_ok [OF assms(1,2) this assms(6)]
  have w: "\<forall>m \<in> set ms. match_ok (val t) (loc sc) now m" "subseq (map m_key ms) (map fst hs)" by auto
  have "distinct (map m_key ms)" using distinct_subseq [OF w(2) assms(3)] .
  moreover have "pattern_key_ok good (m_key m)" if "m \<in> set ms" for m
    using subseq_set [OF w(2)] that assms(4) by force
  moreover have "sorted_wrt (\<lambda>x y. y \<le> x) (map (\<lambda>h. min (snd h) 1) hs)"
    unfolding sorted_wrt_map using assms(5) by (elim sorted_wrt_mono_rel [rotated]) auto
  then have "ranked ms"
    unfolding ranked_scores by (rule sorted_wrt_subseq [OF plain_matches_scores [OF assms(6)]])
  ultimately show ?thesis using w(1) by (auto simp: matches_ok_def)
qed

lemma semantic_matches_ok:
  assumes "wf s" and "okscope sc" and "\<forall>k. emb s sc k \<noteq> None \<longrightarrow> good k"
    and "semantic_matches B st emb' now sc s a = (q, t)"
  shows "wf t \<and> val t = val s \<and> emb t = emb s \<and>
    (\<forall>ms. q = Inr ms \<longrightarrow> ranked ms \<and> matches_ok (val s) (loc sc) (pattern_key_ok good) now ms)"
proof (cases emb')
  case None
  then show ?thesis using assms(1,4) by (auto simp: semantic_matches_def)
next
  case (Some f)
  define n where "n = (if ra_eval_weighted a then ra_limit a * max 1 (fetch_multiplier a)
      else ra_limit a * fetch_multiplier a)"
  show ?thesis
  proof (cases "bind_res (f (ra_task a)) (\<lambda>v. be_search B sc s v n PATTERNS_PREFIX)")
    case (Inl e)
    then show ?thesis
      using assms(1,4) Some by (auto simp: semantic_matches_def matcher_find_def n_def split: if_splits)
  next
    case (Inr x)
    obtain hs u where x: "x = (hs, u)" by (cases x)
    note h = search_hits [where f = f, OF assms(1-3) Inr [unfolded x]]
    have tu: "t = u"
      using assms(4) Some Inr x by (auto simp: semantic_matches_def matcher_find_def n_def split: if_splits)
    have "ranked ms \<and> matches_ok (val u) (loc sc) (pattern_key_ok good) now ms" if qms: "q = Inr ms" for ms
    proof (cases "ra_eval_weighted a")
      case True
      then obtain ws where "weigh_all B st now sc u (ra_task a) hs = Inr ws"
        "ms = map snd (take (ra_limit a) (sort_desc fst ws))"
        using assms(4) Some Inr x qms by (auto simp: semantic_matches_def matcher_find_def n_def res_simps)
      then show ?thesis using weighted_hits_ok [OF _ assms(2)] h by blast
    next
      case False
      then have "plain_matches B now sc u hs = Inr ms"
        using assms(4) Some Inr x qms by (auto simp: semantic_matches_def n_def)
      then show ?thesis using plain_hits_ok [OF _ assms(2)] h by blast
    qed
    then show ?thesis using h tu by auto
  qed
qed

lemma find_matches_ok:
  assumes "wf s" and "okscope sc" and "\<forall>k. emb s sc k \<noteq> None \<longrightarrow> good k"
    and "find_matches B st emb' now sc s a = (r, s')"
  shows "wf s' \<and> val s' = val s \<and> emb s' = emb s \<and>
    (\<forall>ms. r = Inr ms \<longrightarrow> ranked ms \<and> matches_ok (val s) (loc sc) (pattern_key_ok good) now ms)"
proof -
  obtain q t where q: "semantic_matches B st emb' now sc s a = (q, t)"
    by (cases "semantic_matches B st emb' now sc s a")
  note sem = semantic_matches_ok [OF assms(1-3) q]
  show ?thesis
  proof (cases "\<exists>e. q = Inl e \<and> provider_failure e")
    case True
    then show ?thesis
      using assms(2,4) q sem keyword_fallback_ok [of t sc now "ra_task a" "ra_limit a * fetch_multiplier a"]
      by (auto simp: find_matches_def)
  next
    case False
    then show ?thesis
      using assms(4) q sem by (auto simp: find_matches_def split: sum.splits if_splits)
  qed
qed

lemma mark_all_ok:
  assumes "wf s" and "okscope sc" and "matches_ok (val s) (loc sc) (pattern_key_ok good) now ms"
  shows "\<exists>s'. mark_all B now sc s ms = (Inr (), s') \<and> wf s' \<and> emb s' = emb s \<and>
    (\<forall>m \<in> set ms. holds now (val s' (loc sc (m_key m))) (Some (reused (m_pattern m)))) \<and>
    (\<forall>l. l \<notin> (\<lambda>m. loc sc (m_key m)) ` set ms \<longrightarrow> val s' l = val s l)"
  using assms
proof (induction ms arbitrary: s)
  case (Cons m ms)
  have m: "good (m_key m)" "holds now (val s (loc sc (m_key m))) (Some (m_pattern m))"
    using Cons.prems(3) by (auto simp: matches_ok_def match_ok_def pattern_key_ok_def)
  obtain s1 where s1: "mark_reused B now sc s (m_key m) = Inr s1" "wf s1" "emb s1 = emb s"
    "holds now (val s1 (loc sc (m_key m))) (Some (reused (m_pattern m)))"
    "\<forall>l. l \<noteq> loc sc (m_key m) \<longrightarrow> val s1 l = val s l"
    using mark_reused_ok [OF Cons.prems(1,2) m] by blast
  have ne: "loc sc (m_key x) \<noteq> loc sc (m_key m)" if "x \<in> set ms" for x
    using loc_inj [of "m_key x" "m_key m" sc] Cons.prems(3) that
    by (auto simp: matches_ok_def pattern_key_ok_def image_iff)
  then have "matches_ok (val s1) (loc sc) (pattern_key_ok good) now ms"
    using s1(5) Cons.prems(3) by (auto simp: matches_ok_def match_ok_def)
  from Cons.IH [OF s1(2) Cons.prems(2) this] obtain s2 where s2: "mark_all B now sc s1 ms = (Inr (), s2)" "wf s2"
    "emb s2 = emb s1" "\<forall>m \<in> set ms. holds now (val s2 (loc sc (m_key m))) (Some (reused (m_pattern m)))"
    "\<forall>l. l \<notin> (\<lambda>m. loc sc (m_key m)) ` set ms \<longrightarrow> val s2 l = val s1 l" by blast
  have "loc sc (m_key m) \<notin> (\<lambda>m. loc sc (m_key m)) ` set ms" by (metis (mono_tags, lifting) imageE ne)
  then have "val s2 (loc sc (m_key m)) = val s1 (loc sc (m_key m))" using s2(5) by blast
  then show ?case using s1 s2 by (intro exI [of _ s2]) auto
qed simp

lemma record_recall_event_frame:
  assumes "wf s" and "okscope sc"
  shows "wf (record_recall_event B now sc s ms) \<and> emb (record_recall_event B now sc s ms) = emb s \<and>
    (\<forall>l. l \<noteq> loc sc EVENTS_KEY \<longrightarrow> val (record_recall_event B now sc s ms) l = val s l)"
  using swallow_event [OF assms] by (cases ms) (auto simp: record_recall_event_def roi_record_recall_def)

lemma events_not_pattern: "pattern_key_ok good k \<Longrightarrow> loc sc k \<noteq> loc sc EVENTS_KEY"
  using loc_inj [of k EVENTS_KEY sc] good_key [OF good_events_key]
  by (auto simp: pattern_key_ok_def EVENTS_KEY_def PATTERNS_PREFIX_def)

text \<open>
  A recall that returns: the matches are stored patterns, ranked, at most the limit; unless it
  is readonly each of them is marked reused once, and nothing else changes but the event log.
\<close>

theorem recall_ok:
  assumes "wf s" and "okscope sc" and "\<forall>k. emb s sc k \<noteq> None \<longrightarrow> good k"
    and "recall B st emb' now sc s a = (Inr ms, s')"
  shows "wf s' \<and> emb s' = emb s \<and> ranked ms \<and> length ms \<le> ra_limit a \<and>
    matches_ok (val s) (loc sc) (pattern_key_ok good) now ms \<and>
    (ra_deduplicate a \<longrightarrow> sorted_wrt different_tasks ms) \<and>
    (\<forall>m \<in> set ms. \<not> ra_readonly a \<longrightarrow>
       holds now (val s' (loc sc (m_key m))) (Some (reused (m_pattern m)))) \<and>
    (\<forall>l. l \<noteq> loc sc EVENTS_KEY \<and> (ra_readonly a \<or> l \<notin> (\<lambda>m. loc sc (m_key m)) ` set ms) \<longrightarrow>
       val s' l = val s l)"
proof -
  obtain r t where f: "find_matches B st emb' now sc s a = (r, t)"
    by (cases "find_matches B st emb' now sc s a")
  obtain ms0 where r: "r = Inr ms0" using assms(4) f by (cases r) (auto simp: recall_def)
  have t: "wf t" "val t = val s" "emb t = emb s" "ranked ms0"
    "matches_ok (val s) (loc sc) (pattern_key_ok good) now ms0"
    using find_matches_ok [OF assms(1-3) f] r by auto
  let ?ms = "rank_matches a now ms0"
  note ok = rank_matches_ok [OF t(5), of a now]
  obtain u where u: "mark_all B now sc t ?ms = (Inr (), u)" "wf u" "emb u = emb t"
    "\<forall>m \<in> set ?ms. holds now (val u (loc sc (m_key m))) (Some (reused (m_pattern m)))"
    "\<forall>l. l \<notin> (\<lambda>m. loc sc (m_key m)) ` set ?ms \<longrightarrow> val u l = val t l"
    using mark_all_ok [OF t(1) assms(2), of now ?ms] ok(1) t(2) by auto
  define v where "v = (if ra_readonly a then t else u)"
  have res: "ms = ?ms" "s' = record_recall_event B now sc v ?ms"
    using assms(4) f r u(1) by (auto simp: recall_def v_def Let_def split: if_splits)
  have v: "wf v" "emb v = emb s" using t u by (simp_all add: v_def)
  note e = record_recall_event_frame [OF v(1) assms(2), of now ?ms]
  have ne: "loc sc (m_key m) \<noteq> loc sc EVENTS_KEY" if "m \<in> set ?ms" for m
    using ok(1) that by (intro events_not_pattern) (simp add: matches_ok_def)
  have marked: "\<forall>m \<in> set ms. \<not> ra_readonly a \<longrightarrow>
      holds now (val s' (loc sc (m_key m))) (Some (reused (m_pattern m)))"
    using u(4) e ne res by (auto simp: v_def)
  have frame: "\<forall>l. l \<noteq> loc sc EVENTS_KEY \<and> (ra_readonly a \<or> l \<notin> (\<lambda>m. loc sc (m_key m)) ` set ms) \<longrightarrow>
      val s' l = val s l"
    using u(5) e t(2) res by (auto simp: v_def)
  show ?thesis
    using e v rank_matches_ranked [OF t(4)] ok rank_matches_different marked frame
    unfolding res by (intro conjI) auto
qed

end

end
