(* ===== verification/MemoryFacade.thy ===== *)
theory MemoryFacade
  imports Learning Recall SkillRegistry EvalFeedback
begin

text \<open>
  \<open>engramia/memory.py\<close>: the facade's validation, and the operations it implements on the
  stores itself: refining, deleting, finding by skills, export and import, metrics. The methods
  that only call an LLM service are not modelled.
\<close>

section \<open>Validation\<close>

definition MAX_TASK_LEN :: nat where "MAX_TASK_LEN = 10000"
definition MAX_CODE_LEN :: nat where "MAX_CODE_LEN = 500000"
definition EXPORT_VERSION :: int where "EXPORT_VERSION = 1"

definition validate_task :: "string \<Rightarrow> unit res" where
  "validate_task task =
     (if task = [] \<or> py_strip task = [] then Inl (ValidationError ''task must be a non-empty string'')
      else if MAX_TASK_LEN < length task then Inl (ValidationError ''task exceeds maximum length'')
      else Inr ())"

definition validate_code :: "string \<Rightarrow> unit res" where
  "validate_code c =
     (if c = [] \<or> py_strip c = [] then Inl (ValidationError ''code must be a non-empty string'')
      else if MAX_CODE_LEN < length c then Inl (ValidationError ''code exceeds maximum length'')
      else Inr ())"

definition validate_limit :: "int \<Rightarrow> unit res" where
  "validate_limit n = (if n < 1 then Inl (ValidationError ''limit must be >= 1'') else Inr ())"

definition validate_eval_score :: "real \<Rightarrow> unit res" where
  "validate_eval_score x =
     (if 0 \<le> x \<and> x \<le> 10 then Inr () else Inl (ValidationError ''eval_score must be between 0 and 10''))"

definition validate_recency_weight :: "real \<Rightarrow> unit res" where
  "validate_recency_weight w =
     (if 0 \<le> w \<and> w \<le> 1 then Inr () else Inl (ValidationError ''recency_weight''))"

definition validate_recency_half_life :: "real \<Rightarrow> unit res" where
  "validate_recency_half_life h =
     (if h \<le> 0 then Inl (ValidationError ''recency_half_life_days must be > 0'') else Inr ())"

section \<open>Learn and recall\<close>

definition mem_learn ::
  "'s backend \<Rightarrow> eval_store \<Rightarrow> embed_fn \<Rightarrow> redactor \<Rightarrow> real \<Rightarrow> string \<Rightarrow> scope \<Rightarrow> 's \<Rightarrow> learn_args
   \<Rightarrow> learn_result res \<times> 's" where
  "mem_learn B st emb red now fresh sc s a =
     (case bind_res (validate_task (la_task a)) (\<lambda>_.
           bind_res (validate_code (la_code a)) (\<lambda>_. validate_eval_score (la_score a))) of
        Inl e \<Rightarrow> (Inl e, s)
      | Inr _ \<Rightarrow> learn B st emb red now fresh sc s a)"

definition mem_recall ::
  "'s backend \<Rightarrow> eval_store \<Rightarrow> embedder \<Rightarrow> real \<Rightarrow> scope \<Rightarrow> 's \<Rightarrow> string \<Rightarrow> int \<Rightarrow> bool \<Rightarrow> bool
   \<Rightarrow> real \<Rightarrow> real \<Rightarrow> bool \<Rightarrow> match list res \<times> 's" where
  "mem_recall B st emb now sc s task limit dedupl weighted weight half_life readonly =
     (case bind_res (validate_task task) (\<lambda>_. bind_res (validate_limit limit) (\<lambda>_.
           bind_res (validate_recency_weight weight) (\<lambda>_. validate_recency_half_life half_life))) of
        Inl e \<Rightarrow> (Inl e, s)
      | Inr _ \<Rightarrow> recall B st emb now sc s
          \<lparr>ra_task = task, ra_limit = nat limit, ra_deduplicate = dedupl, ra_eval_weighted = weighted,
           ra_recency_weight = weight, ra_half_life = half_life, ra_readonly = readonly\<rparr>)"

section \<open>Refining and deleting\<close>

text \<open>A stored task that is not a text, which validation never lets in, is an error here.\<close>

definition task_text :: "doc \<Rightarrow> string res" where
  "task_text d =
     (case d of
        DDict x \<Rightarrow> (case dget x ''task'' of None \<Rightarrow> Inr [] | Some (JStr t) \<Rightarrow> Inr t
                     | Some _ \<Rightarrow> Inl (OtherError ''task is not a text''))
      | _ \<Rightarrow> Inl (OtherError ''AttributeError''))"

definition refine_pattern ::
  "'s backend \<Rightarrow> eval_store \<Rightarrow> real \<Rightarrow> scope \<Rightarrow> 's \<Rightarrow> string \<Rightarrow> real \<Rightarrow> string option \<Rightarrow> string \<Rightarrow> 's res" where
  "refine_pattern B st now sc s key score task feedback =
     bind_res (validate_eval_score score) (\<lambda>_.
     bind_res (be_load B sc s key) (\<lambda>d.
       case d of
         None \<Rightarrow> Inl (ValidationError ''pattern_key does not exist in storage'')
       | Some x \<Rightarrow>
           bind_res (case task of Some t \<Rightarrow> Inr t | None \<Rightarrow> task_text x) (\<lambda>t.
             save_eval B st sc s
               \<lparr>er_agent = key, er_task = t, er_overall = Some score, er_feedback = feedback, er_ts = now\<rparr> [] [])))"

definition pattern_key_allowed :: "string \<Rightarrow> bool" where
  "pattern_key_allowed key \<longleftrightarrow> prefix (PATTERNS_PREFIX @ ''/'') key \<and> \<not> py_in ''..'' key"

definition delete_pattern :: "'s backend \<Rightarrow> scope \<Rightarrow> 's \<Rightarrow> string \<Rightarrow> (bool \<times> 's) res" where
  "delete_pattern B sc s key =
     (if \<not> pattern_key_allowed key then Inl (ValidationError ''pattern_key must start with patterns/'')
      else bind_res (be_load B sc s key) (\<lambda>d.
        case d of
          None \<Rightarrow> Inr (False, s)
        | Some _ \<Rightarrow> bind_res (be_delete B sc s key) (\<lambda>s'. Inr (True, s'))))"

section \<open>Skills\<close>

fun skill_matches :: "'s backend \<Rightarrow> real \<Rightarrow> scope \<Rightarrow> 's \<Rightarrow> string list \<Rightarrow> match list res" where
  "skill_matches B now sc s [] = Inr []"
| "skill_matches B now sc s (k # ks) =
     bind_res (be_load B sc s k) (\<lambda>d.
       case d of
         None \<Rightarrow> skill_matches B now sc s ks
       | Some x \<Rightarrow>
           (case validate_doc now x of
              Inl _ \<Rightarrow> skill_matches B now sc s ks
            | Inr p \<Rightarrow>
                bind_res (mk_match p 1 Duplicate k None) (\<lambda>m.
                bind_res (skill_matches B now sc s ks) (\<lambda>ms. Inr (m # ms)))))"

definition mem_find_by_skills ::
  "'s backend \<Rightarrow> real \<Rightarrow> scope \<Rightarrow> 's \<Rightarrow> string list \<Rightarrow> bool \<Rightarrow> match list res" where
  "mem_find_by_skills B now sc s required match_all =
     bind_res (find_by_skills B sc s required match_all) (\<lambda>ks. skill_matches B now sc s ks)"

section \<open>Export and import\<close>

record export_record =
  ex_version :: int
  ex_key :: string
  ex_data :: doc

fun export_keys :: "'s backend \<Rightarrow> scope \<Rightarrow> 's \<Rightarrow> string list \<Rightarrow> export_record list res" where
  "export_keys B sc s [] = Inr []"
| "export_keys B sc s (k # ks) =
     bind_res (be_load B sc s k) (\<lambda>d.
     bind_res (export_keys B sc s ks) (\<lambda>rs.
       Inr (case d of None \<Rightarrow> rs
            | Some x \<Rightarrow> \<lparr>ex_version = EXPORT_VERSION, ex_key = k, ex_data = x\<rparr> # rs)))"

definition export :: "'s backend \<Rightarrow> scope \<Rightarrow> 's \<Rightarrow> export_record list res" where
  "export B sc s = bind_res (be_list_keys B sc s PATTERNS_PREFIX) (\<lambda>ks. export_keys B sc s ks)"

text \<open>An import record as it arrives: any JSON under version and key, data only if it is a dict.\<close>

record import_record =
  ir_version :: "json option"
  ir_key :: "json option"
  ir_data :: "doc option"

definition version_ok :: "json option \<Rightarrow> bool" where
  "version_ok v = (case v of None \<Rightarrow> True | Some (JInt i) \<Rightarrow> i \<le> EXPORT_VERSION
     | Some (JBool b) \<Rightarrow> True | Some _ \<Rightarrow> False)"

text \<open>The key of a record: \<open>Inr None\<close> skips it, a truthy value without startswith raises.\<close>

definition import_key :: "json option \<Rightarrow> string option res" where
  "import_key k =
     (case k of
        None \<Rightarrow> Inr None
      | Some JNull \<Rightarrow> Inr None
      | Some (JStr w) \<Rightarrow> Inr (if w = [] then None else Some w)
      | Some (JBool b) \<Rightarrow> if b then Inl (OtherError ''AttributeError'') else Inr None
      | Some (JInt i) \<Rightarrow> if i \<noteq> 0 then Inl (OtherError ''AttributeError'') else Inr None
      | Some (JNum r) \<Rightarrow> if r \<noteq> 0 then Inl (OtherError ''AttributeError'') else Inr None
      | Some (JList l) \<Rightarrow> if l \<noteq> [] then Inl (OtherError ''AttributeError'') else Inr None
      | Some (JObj y) \<Rightarrow> if y \<noteq> [] then Inl (OtherError ''AttributeError'') else Inr None)"

definition reembed :: "'s backend \<Rightarrow> embed_fn \<Rightarrow> scope \<Rightarrow> 's \<Rightarrow> string \<Rightarrow> doc \<Rightarrow> 's" where
  "reembed B emb sc s key d =
     (case doc_task d of
        None \<Rightarrow> s
      | Some t \<Rightarrow> if t = [] then s
          else (case save_vector B emb sc s key t of Inl _ \<Rightarrow> s | Inr s' \<Rightarrow> s'))"

text \<open>One record: whether it was imported, and the next state.\<close>

definition import_one ::
  "'s backend \<Rightarrow> embed_fn \<Rightarrow> scope \<Rightarrow> bool \<Rightarrow> 's \<Rightarrow> import_record \<Rightarrow> (bool \<times> 's) res" where
  "import_one B emb sc overwrite s r =
     (if \<not> version_ok (ir_version r) then Inr (False, s)
      else
        (case (ir_key r, ir_data r) of
           (k, Some (DDict x)) \<Rightarrow>
             bind_res (import_key k) (\<lambda>ko.
               case ko of
                 None \<Rightarrow> Inr (False, s)
               | Some key \<Rightarrow>
                   if \<not> pattern_key_allowed key then Inr (False, s)
                   else
                     bind_res (if overwrite then Inr None else be_load B sc s key) (\<lambda>old.
                       if old \<noteq> None then Inr (False, s)
                       else bind_res (be_save B sc s key (DDict x)) (\<lambda>s'.
                         Inr (True, reembed B emb sc s' key (DDict x)))))
         | _ \<Rightarrow> Inr (False, s)))"

fun import_all ::
  "'s backend \<Rightarrow> embed_fn \<Rightarrow> scope \<Rightarrow> bool \<Rightarrow> 's \<Rightarrow> import_record list \<Rightarrow> nat \<Rightarrow> nat res \<times> 's" where
  "import_all B emb sc overwrite s [] n = (Inr n, s)"
| "import_all B emb sc overwrite s (r # rs) n =
     (case import_one B emb sc overwrite s r of
        Inl e \<Rightarrow> (Inl e, s)
      | Inr (b, s') \<Rightarrow> import_all B emb sc overwrite s' rs (if b then n + 1 else n))"

definition import_data ::
  "'s backend \<Rightarrow> embed_fn \<Rightarrow> scope \<Rightarrow> 's \<Rightarrow> import_record list \<Rightarrow> bool \<Rightarrow> nat res \<times> 's" where
  "import_data B emb sc s rs overwrite = import_all B emb sc overwrite s rs 0"

section \<open>Metrics\<close>

record mem_metrics =
  mm_base :: metrics
  mm_pattern_count :: nat
  mm_avg_eval_score :: "real option"

definition mem_metrics_of :: "'s backend \<Rightarrow> eval_store \<Rightarrow> scope \<Rightarrow> 's \<Rightarrow> mem_metrics res" where
  "mem_metrics_of B st sc s =
     bind_res (get_metrics B sc s) (\<lambda>m.
     bind_res (get_count B sc s) (\<lambda>n.
     bind_res (get_average_score B st sc s [] []) (\<lambda>avg.
       Inr \<lparr>mm_base = m, mm_pattern_count = n, mm_avg_eval_score = avg\<rparr>)))"

section \<open>What the operations do\<close>

text \<open>An exported record, as import reads it back.\<close>

definition as_import :: "export_record \<Rightarrow> import_record" where
  "as_import r = \<lparr>ir_version = Some (JInt (ex_version r)), ir_key = Some (JStr (ex_key r)), ir_data = Some (ex_data r)\<rparr>"

definition import_of :: "string \<times> pydict \<Rightarrow> import_record" where
  "import_of kx = as_import \<lparr>ex_version = EXPORT_VERSION, ex_key = fst kx, ex_data = DDict (snd kx)\<rparr>"

lemma allowed_nonempty: "pattern_key_allowed k \<Longrightarrow> k \<noteq> []"
  by (auto simp: pattern_key_allowed_def)

lemma allowed_prefix: "pattern_key_allowed k \<Longrightarrow> prefix PATTERNS_PREFIX k"
  unfolding pattern_key_allowed_def by (auto simp: prefix_def)

lemma last_n_ends: "0 < n \<Longrightarrow> \<exists>ys. last_n n (xs @ [x]) = ys @ [x]"
  by (auto simp: last_n_def Suc_diff_le not_less_eq_eq)

lemma agent_score_latest:
  "agent_score (last_n MAX_EVALS (es @ [e])) (er_agent e) t 0 Latest w = Inr (er_overall e)"
  using last_n_ends [of MAX_EVALS es e] by (auto simp: agent_score_def MAX_EVALS_def eval_matches_def)

text \<open>Whether import writes a record, by what its key holds.\<close>

definition imported :: "bool \<Rightarrow> doc option \<Rightarrow> bool" where
  "imported overwrite old \<longleftrightarrow> overwrite \<or> old = None"

context storage
begin

lemma delete_pattern_ok:
  assumes "wf s" and "okscope sc" and "good key" and "pattern_key_allowed key"
  shows "\<exists>s'. delete_pattern B sc s key = Inr (val s (loc sc key) \<noteq> None, s') \<and> wf s' \<and>
    val s' = (val s)(loc sc key := None)"
proof (cases "val s (loc sc key)")
  case None
  then show ?thesis using assms by (simp add: delete_pattern_def load_law fun_upd_idem)
next
  case (Some d)
  obtain s' where "be_delete B sc s key = Inr s'" "wf s'" "val s' = (val s)(loc sc key := None)"
    using delete_law [OF assms(1-3)] by blast
  with Some show ?thesis using assms by (simp add: delete_pattern_def load_law)
qed

lemma refine_pattern_ok:
  assumes "wf s" and "okscope sc" and "good key" and "good (eval_key sc)" and "named_scope sc"
    and "evals_doc (val s (loc sc (eval_key sc))) es" and "0 \<le> score" and "score \<le> 10"
    and "val s (loc sc key) = Some x" and "(case task of Some t \<Rightarrow> Inr t | None \<Rightarrow> task_text x) = Inr t"
  shows "\<exists>s'. refine_pattern B st now sc s key score task fb = Inr s' \<and> wf s' \<and>
    (\<forall>l. l \<noteq> loc sc (eval_key sc) \<longrightarrow> val s' l = val s l) \<and>
    evals_in_scope B st sc s' [] [] = Inr (last_n MAX_EVALS (es @
      [\<lparr>er_agent = key, er_task = t, er_overall = Some score, er_feedback = fb, er_ts = now\<rparr>]))"
proof -
  let ?e = "\<lparr>er_agent = key, er_task = t, er_overall = Some score, er_feedback = fb, er_ts = now\<rparr>"
  obtain s' where s': "save_eval B st sc s ?e [] [] = Inr s'" "wf s'"
    "evals_doc (val s' (loc sc (eval_key sc))) (last_n MAX_EVALS (es @ [?e]))"
    "\<forall>l. l \<noteq> loc sc (eval_key sc) \<longrightarrow> val s' l = val s l"
    using save_eval_ok [OF assms(1,2,4,5,6), of st ?e] by blast
  then have "refine_pattern B st now sc s key score task fb = Inr s'"
    using assms(1-3,7-10) by (simp add: refine_pattern_def validate_eval_score_def load_law)
  then show ?thesis using s' evals_in_scope_ok [OF s'(2) assms(2,4,5) s'(3)] by blast
qed

lemma export_keys_ok:
  assumes "wf s" and "okscope sc" and "\<forall>k \<in> set ks. good k \<and> val s (loc sc k) = Some (D k)"
  shows "export_keys B sc s ks = Inr (map (\<lambda>k. \<lparr>ex_version = EXPORT_VERSION, ex_key = k, ex_data = D k\<rparr>) ks)"
  using assms(3) by (induction ks) (use assms(1,2) in \<open>auto simp: load_law\<close>)

lemma export_ok:
  assumes "wf s" and "okscope sc"
  shows "\<exists>ks. export B sc s = Inr (map (\<lambda>k. \<lparr>ex_version = EXPORT_VERSION, ex_key = k,
      ex_data = the (val s (loc sc k))\<rparr>) ks) \<and> distinct ks \<and>
    set ks = {k. prefix PATTERNS_PREFIX k \<and> plain k \<and> val s (loc sc k) \<noteq> None}"
proof -
  obtain ks where ks: "be_list_keys B sc s PATTERNS_PREFIX = Inr ks" "distinct ks"
    "set ks = {k. prefix PATTERNS_PREFIX k \<and> plain k \<and> val s (loc sc k) \<noteq> None}"
    by (rule list_keys_ok [OF assms])
  have "\<forall>k \<in> set ks. good k \<and> val s (loc sc k) = Some (the (val s (loc sc k)))"
    using ks(3) plain_good by auto
  from export_keys_ok [OF assms this] ks show ?thesis by (auto simp: export_def)
qed

lemma reembed_facts:
  assumes "wf s" and "okscope sc"
  shows "wf (reembed B f sc s key d) \<and> val (reembed B f sc s key d) = val s"
  using assms embed_law [OF assms]
  by (auto simp: reembed_def save_vector_def res_simps split: option.splits sum.splits)

lemma import_one_ok:
  assumes "wf s" and "okscope sc" and "good k" and "pattern_key_allowed k"
  shows "\<exists>s'. import_one B f sc overwrite s (import_of (k, x)) = Inr (imported overwrite (val s (loc sc k)), s') \<and> wf s' \<and>
    val s' = (if imported overwrite (val s (loc sc k)) then (val s)(loc sc k \<mapsto> DDict x) else val s)"
proof (cases "imported overwrite (val s (loc sc k))")
  case True
  obtain s1 where s1: "be_save B sc s k (DDict x) = Inr s1" "wf s1" "val s1 = (val s)(loc sc k \<mapsto> DDict x)"
    by (rule save_ok [OF assms(1-3)])
  with True show ?thesis
    using assms allowed_nonempty [OF assms(4)] reembed_facts [OF s1(2) assms(2)]
    by (auto simp: import_one_def import_of_def as_import_def version_ok_def import_key_def imported_def load_law)
next
  case False
  then show ?thesis
    using assms allowed_nonempty [OF assms(4)]
    by (auto simp: import_one_def import_of_def as_import_def version_ok_def import_key_def imported_def load_law)
qed

lemma import_all_ok:
  assumes "wf s" and "okscope sc" and "\<forall>k \<in> fst ` set kxs. good k \<and> pattern_key_allowed k"
    and "distinct (map fst kxs)"
  shows "\<exists>s'. import_all B f sc overwrite s (map import_of kxs) n =
      (Inr (n + length (filter (\<lambda>kx. imported overwrite (val s (loc sc (fst kx)))) kxs)), s') \<and> wf s' \<and>
    (\<forall>(k, x) \<in> set kxs. val s' (loc sc k) = (if imported overwrite (val s (loc sc k)) then Some (DDict x) else val s (loc sc k))) \<and>
    (\<forall>l. l \<notin> loc sc ` fst ` set kxs \<longrightarrow> val s' l = val s l)"
  using assms
proof (induction kxs arbitrary: s n)
  case (Cons kx kxs)
  obtain k x where kx: "kx = (k, x)" by force
  let ?i = "imported overwrite (val s (loc sc k))"
  obtain s1 where s1: "import_one B f sc overwrite s (import_of kx) = Inr (?i, s1)" "wf s1"
    "val s1 = (if ?i then (val s)(loc sc k \<mapsto> DDict x) else val s)"
    using import_one_ok [of s sc k f overwrite x] Cons.prems by (auto simp: kx)
  have ne: "loc sc j \<noteq> loc sc k" if "j \<in> fst ` set kxs" for j
    using loc_inj [of j k sc] Cons.prems(3,4) that by (auto simp: kx)
  have same: "imported overwrite (val s1 (loc sc (fst jy))) = imported overwrite (val s (loc sc (fst jy)))" if "jy \<in> set kxs" for jy
    using ne [of "fst jy"] that by (simp add: imported_def s1(3))
  then have flt: "filter (\<lambda>jy. imported overwrite (val s1 (loc sc (fst jy)))) kxs = filter (\<lambda>jy. imported overwrite (val s (loc sc (fst jy)))) kxs"
    by (rule filter_cong [OF refl])
  let ?m = "if ?i then n + 1 else n"
  from Cons.IH [OF s1(2) Cons.prems(2), of ?m] Cons.prems(3,4) obtain s2 where s2:
    "import_all B f sc overwrite s1 (map import_of kxs) ?m =
      (Inr (?m + length (filter (\<lambda>jy. imported overwrite (val s (loc sc (fst jy)))) kxs)), s2)" "wf s2"
    "\<forall>(j, y) \<in> set kxs. val s2 (loc sc j) = (if imported overwrite (val s1 (loc sc j)) then Some (DDict y) else val s1 (loc sc j))"
    "\<forall>l. l \<notin> loc sc ` fst ` set kxs \<longrightarrow> val s2 l = val s1 l" unfolding flt by auto
  have "loc sc k \<notin> loc sc ` fst ` set kxs" by (metis imageE ne)
  then have k: "val s2 (loc sc k) = (if ?i then Some (DDict x) else val s (loc sc k))"
    using s2(4) by (simp add: s1(3))
  have "val s2 (loc sc j) = (if imported overwrite (val s (loc sc j)) then Some (DDict y) else val s (loc sc j))"
    if "(j, y) \<in> set kxs" for j y
    using s2(3) same [OF that] ne [of j] that by (force simp: s1(3))
  moreover have "import_all B f sc overwrite s (map import_of (kx # kxs)) n =
      (Inr (n + length (filter (\<lambda>jy. imported overwrite (val s (loc sc (fst jy)))) (kx # kxs))), s2)"
    using s1(1) s2(1) by (simp add: kx)
  moreover have "\<forall>l. l \<notin> loc sc ` fst ` set (kx # kxs) \<longrightarrow> val s2 l = val s l"
    using s2(4) by (simp add: s1(3) kx)
  ultimately show ?case using k s2(2) by (intro exI [of _ s2]) (auto simp: kx)
qed simp

lemma import_keeps_key_out:
  "\<not> pattern_key_allowed k \<Longrightarrow> k \<noteq> [] \<Longrightarrow>
   import_one B f sc overwrite s \<lparr>ir_version = v, ir_key = Some (JStr k), ir_data = Some (DDict x)\<rparr> = Inr (False, s)"
  by (simp add: import_one_def import_key_def)

end

end
