(* ===== verification/MemoryProps.thy ===== *)
theory MemoryProps
  imports StoreProps MemoryFacade
begin

text \<open>
  Properties of the pattern lifecycle, recall, learning and the memory facade, over the JSON
  and the PostgreSQL backend.
\<close>

section \<open>Lifecycle\<close>

lemma wf_singleton: "wf_dict [(a, b)]"
  by (simp add: wf_dict_def)

text \<open>A PostgreSQL store with one pattern, for the examples.\<close>

definition sample_pattern :: pattern where
  "sample_pattern = \<lparr>p_task = ''sort the list'', p_design = [], p_success_score = 5,
     p_reuse_count = 0, p_timestamp = 0\<rparr>"

definition sample_pg :: pg_store where
  "sample_pg = \<lparr>pg_data = [(row_key default_scope ''patterns/a'', new_row (DDict (pattern_dump sample_pattern)))],
     pg_emb = []\<rparr>"

lemma sample_pg_wf: "pg_wf sample_pg"
  by (simp add: sample_pg_def pg_wf_def wf_singleton)

lemma sample_pg_val: "pg_val sample_pg (row_key sc k) =
    (if sc = default_scope \<and> k = ''patterns/a'' then Some (DDict (pattern_dump sample_pattern)) else None)"
  by (simp add: sample_pg_def pg_val_def new_row_def)

lemma sample_holds: "holds now (Some (DDict (pattern_dump sample_pattern))) (Some sample_pattern)"
  by (simp add: holds_def validate_doc_def validate_dump pattern_ok_def sample_pattern_def)

text \<open>
  C5. One aging run over a store whose patterns are all valid succeeds, removes exactly the
  patterns whose score, times 0.98 per week since creation, is below 0.1, returns their
  number, stores the rounded score in all others with their other fields unchanged, and
  touches no document that is not a pattern.
\<close>

theorem run_aging_exact:
  assumes "pg_wf s"
    and "\<forall>k. prefix PATTERNS_PREFIX k \<and> pg_val s (row_key sc k) \<noteq> None \<longrightarrow>
           holds now (pg_val s (row_key sc k)) (Some (P k))"
  shows "\<exists>n s'. run_aging (pg_backend edim cdist) now sc s = (Inr n, s') \<and> pg_wf s' \<and>
    n = card {k. prefix PATTERNS_PREFIX k \<and> pg_val s (row_key sc k) \<noteq> None \<and> aged now (P k) = None} \<and>
    (\<forall>k. prefix PATTERNS_PREFIX k \<and> pg_val s (row_key sc k) \<noteq> None \<longrightarrow>
       holds now (pg_val s' (row_key sc k)) (aged now (P k))) \<and>
    (\<forall>l. (\<forall>k. prefix PATTERNS_PREFIX k \<longrightarrow> l \<noteq> row_key sc k) \<longrightarrow> pg_val s' l = pg_val s l)"
  using pg.run_aging_ok [OF assms(1), of sc now P edim cdist] assms(2) by simp

lemma run_aging_exact_witness:
  "\<exists>n s'. run_aging (pg_backend 3 (\<lambda>v w. 0)) 0 default_scope sample_pg = (Inr n, s') \<and>
     holds 0 (pg_val s' (row_key default_scope ''patterns/a'')) (aged 0 sample_pattern)"
proof -
  have "\<forall>k. prefix PATTERNS_PREFIX k \<and> pg_val sample_pg (row_key default_scope k) \<noteq> None \<longrightarrow>
      holds 0 (pg_val sample_pg (row_key default_scope k)) (Some sample_pattern)"
    using sample_holds by (simp add: sample_pg_val)
  from run_aging_exact [OF sample_pg_wf this, of 3 "\<lambda>v w. 0"] show ?thesis
    by (fastforce simp: sample_pg_val PATTERNS_PREFIX_def)
qed

text \<open>
  Aging is charged again on every run: a pattern at least a week old that has just been
  aged loses more of its score when aging runs again at the same instant, although no time
  has passed, because the weeks are always counted from the pattern's creation.
\<close>

theorem aging_compounds:
  assumes "aged now p = Some q" and "1 \<le> age_weeks now p"
  shows "aged_score now q < aged_score now p"
proof -
  let ?d = "PATTERN_DECAY_PER_WEEK powr age_weeks now p" and ?x = "aged_score now p"
  have q: "q = p\<lparr>p_success_score := py_round 4 ?x\<rparr>" and x: "1 / 10 \<le> ?x"
    using assms(1) by (auto simp: aged_def PATTERN_MIN_SCORE_def split: if_splits)
  have "age_weeks now q = age_weeks now p" by (simp add: q age_weeks_def)
  then have aq: "aged_score now q = py_round 4 ?x * ?d" by (simp add: aged_score_def q)
  have "?d \<le> PATTERN_DECAY_PER_WEEK powr 1"
    using assms(2) by (intro powr_mono') (simp_all add: PATTERN_DECAY_PER_WEEK_def)
  then have d: "0 \<le> ?d" "?d \<le> 49 / 50" by (simp_all add: PATTERN_DECAY_PER_WEEK_def)
  have "\<bar>py_round 4 ?x - ?x\<bar> \<le> 1 / 20000" using py_round_error [of 4 ?x] by simp
  then have r: "py_round 4 ?x \<le> ?x + 1 / 20000" by linarith
  have "py_round 4 ?x * ?d \<le> (?x + 1 / 20000) * (49 / 50)"
    using r d x by (intro mult_mono) auto
  also have "\<dots> < ?x" using x by (simp add: field_simps)
  finally show ?thesis unfolding aq .
qed

lemma aging_compounds_witness:
  "aged_score 604800 (sample_pattern\<lparr>p_success_score := 49 / 10\<rparr>) < aged_score 604800 sample_pattern"
proof (rule aging_compounds)
  show "1 \<le> age_weeks 604800 sample_pattern" by (simp add: age_weeks_def sample_pattern_def)
  have "py_round 4 (49 / 10) = 49 / 10" by (simp add: py_round_def half_even_def)
  then show "aged 604800 sample_pattern = Some (sample_pattern\<lparr>p_success_score := 49 / 10\<rparr>)"
    by (simp add: aged_def aged_score_def age_weeks_def sample_pattern_def PATTERN_DECAY_PER_WEEK_def
        PATTERN_MIN_SCORE_def)
qed

text \<open>
  Import stores any dict under a patterns key, and one document that does not validate
  stops aging: after importing it, every aging run of the scope raises.
\<close>

theorem import_can_block_aging:
  assumes "pg_wf s" and "pattern_key_allowed k" and "pg_load sc s k = Inr None" and "pattern_validate now x = Inl e"
  shows "\<exists>s'. import_data (pg_backend edim cdist) emb sc s [import_of (k, x)] overwrite = (Inr 1, s') \<and>
    (\<exists>e' s2. run_aging (pg_backend edim cdist) now sc s' = (Inl e', s2))"
proof -
  let ?B = "pg_backend edim cdist"
  have none: "pg_val s (row_key sc k) = None" using assms(3) by (simp add: pg_load_def pg_val_def)
  then have imp: "imported overwrite (pg_val s (row_key sc k))" by (simp add: imported_def)
  obtain s' where s': "import_one ?B emb sc overwrite s (import_of (k, x)) = Inr (True, s')" "pg_wf s'"
    "pg_val s' = (pg_val s)(row_key sc k \<mapsto> DDict x)"
    using pg.import_one_ok [OF assms(1) _ _ assms(2), where sc = sc and edim = edim and cdist = cdist
        and f = emb and overwrite = overwrite and x = x] imp by auto
  obtain ks where ks: "be_list_keys ?B sc s' PATTERNS_PREFIX = Inr ks" "k \<in> set ks"
    using pg.list_law [OF s'(2), where sc = sc and p = PATTERNS_PREFIX and edim = edim and cdist = cdist]
      allowed_prefix [OF assms(2)] s'(3) by auto
  have "\<exists>e' s2. age_all ?B now sc s' ks 0 = (Inl e', s2)"
    using pg.age_all_invalid [OF s'(2) _ _ ks(2) _ assms(4)] s'(3) by simp
  then have "\<exists>e' s2. run_aging ?B now sc s' = (Inl e', s2)" by (simp add: run_aging_def ks(1))
  moreover have "import_data ?B emb sc s [import_of (k, x)] overwrite = (Inr 1, s')"
    by (simp add: import_data_def s'(1))
  ultimately show ?thesis by blast
qed

lemma import_can_block_aging_witness:
  "\<exists>s'. import_data (pg_backend 3 (\<lambda>v w. 0)) None default_scope sample_pg [import_of (''patterns/b'', [])] False = (Inr 1, s') \<and>
    (\<exists>e' s2. run_aging (pg_backend 3 (\<lambda>v w. 0)) 0 default_scope s' = (Inl e', s2))"
proof (rule import_can_block_aging [OF sample_pg_wf])
  show "pattern_key_allowed ''patterns/b''" by code_simp
  show "pg_load default_scope sample_pg ''patterns/b'' = Inr None" by (simp add: pg_load_def sample_pg_def)
  show "pattern_validate 0 [] = Inl (ValueError ''Pattern'')" by (simp add: pattern_validate_def)
qed

section \<open>Recall\<close>

text \<open>
  C6. Deduplication returns, keeps the order of its input, and keeps of every group of
  transitively similar tasks exactly one match: the one with the highest success score.
\<close>

theorem dedup_one_per_group:
  "\<exists>is. deduplicate_matches ms = Some (map (nth ms) is) \<and> sorted is \<and> distinct is \<and> set is \<subseteq> {..<length ms} \<and>
     (\<forall>i < length ms. \<exists>!k. k \<in> set is \<and> (i, k) \<in> component ms) \<and>
     (\<forall>i < length ms. \<forall>k \<in> set is. (i, k) \<in> component ms \<longrightarrow> score_at ms i \<le> score_at ms k)"
proof -
  let ?n = "length ms" and ?E = "component ms"
  let ?is = "filter (representative ms) [0..<?n]"
  note E = equiv_component [of ms]
  have one: "\<exists>!k. k \<in> set ?is \<and> (i, k) \<in> ?E" if i: "i < ?n" for i
  proof -
    have "i \<in> {j. j < ?n \<and> (i, j) \<in> ?E}" using i E(3) by (simp add: refl_on_def)
    then obtain k where k: "k < ?n" "(i, k) \<in> ?E"
      "\<And>j. j < ?n \<Longrightarrow> (i, j) \<in> ?E \<Longrightarrow> score_at ms j < score_at ms k \<or> score_at ms j = score_at ms k \<and> k \<le> j"
      using first_argmax [of "{j. j < ?n \<and> (i, j) \<in> ?E}" "score_at ms"] by auto
    have "representative ms k" using k E(2) by (auto simp: representative_def dest: transD)
    then have kin: "k \<in> set ?is \<and> (i, k) \<in> ?E" using k by simp
    moreover have "j = k" if j: "j \<in> set ?is \<and> (i, j) \<in> ?E" for j
    proof -
      have "(k, j) \<in> ?E" "(j, k) \<in> ?E" using j kin E(1,2) by (meson symD transD)+
      moreover have "j < ?n" "k < ?n" "representative ms j" "representative ms k" using j kin by auto
      ultimately show ?thesis unfolding representative_def by fastforce
    qed
    ultimately show ?thesis by blast
  qed
  have best: "score_at ms i \<le> score_at ms k" if "i < ?n" "k \<in> set ?is" "(i, k) \<in> ?E" for i k
    using that E(1) by (auto simp: representative_def dest: symD)
  have sub: "set ?is \<subseteq> {..<?n}" by auto
  show ?thesis
    using one best sub by (intro exI [of _ ?is]) (simp add: deduplicate_matches_spec sorted_filter [where f = id, simplified])
qed

lemma dedup_one_per_group_witness:
  "\<exists>is. deduplicate_matches (replicate 2 \<lparr>m_pattern = sample_pattern, m_similarity = 1, m_tier = Duplicate, m_key = ''a'',
       m_effective = None\<rparr>) = Some (map (nth (replicate 2 \<lparr>m_pattern = sample_pattern, m_similarity = 1,
       m_tier = Duplicate, m_key = ''a'', m_effective = None\<rparr>)) is) \<and> is \<noteq> []"
  using dedup_one_per_group [of "replicate 2 \<lparr>m_pattern = sample_pattern, m_similarity = 1, m_tier = Duplicate,
      m_key = ''a'', m_effective = None\<rparr>"] by fastforce

text \<open>
  C7. A recall that returns gives at most the limit of matches, best first, each the pattern
  stored under its key, with no two of nearly the same task when it deduplicates. Unless it is
  readonly it marks each returned pattern as reused exactly once, and it changes no other
  document than the event log.
\<close>

theorem recall_returns_stored:
  assumes "pg_wf s" and "recall (pg_backend edim cdist) st emb now sc s a = (Inr ms, s')"
  shows "pg_wf s' \<and> ranked ms \<and> length ms \<le> ra_limit a \<and>
    (\<forall>m \<in> set ms. holds now (pg_val s (row_key sc (m_key m))) (Some (m_pattern m))) \<and>
    (ra_deduplicate a \<longrightarrow> sorted_wrt different_tasks ms) \<and>
    (\<forall>m \<in> set ms. \<not> ra_readonly a \<longrightarrow>
       holds now (pg_val s' (row_key sc (m_key m))) (Some (reused (m_pattern m)))) \<and>
    (\<forall>l. l \<noteq> row_key sc EVENTS_KEY \<and> (ra_readonly a \<or> l \<notin> (\<lambda>m. row_key sc (m_key m)) ` set ms) \<longrightarrow>
       pg_val s' l = pg_val s l)"
  using pg.recall_ok [OF assms(1) _ _ assms(2)] by (simp add: matches_ok_def match_ok_def)

lemma recall_returns_stored_witness:
  "\<exists>ms s'. recall (pg_backend 3 (\<lambda>v w. 0)) \<lparr>es_tenant = ''d'', es_project = ''d''\<rparr> None 0 default_scope sample_pg
     \<lparr>ra_task = ''sort'', ra_limit = 2, ra_deduplicate = False, ra_eval_weighted = True, ra_recency_weight = 0,
      ra_half_life = 30, ra_readonly = True\<rparr> = (Inr ms, s') \<and> ranked ms \<and> length ms \<le> 2"
proof -
  let ?B = "pg_backend 3 (\<lambda>v w. 0)" and ?st = "\<lparr>es_tenant = ''d'', es_project = ''d''\<rparr>"
  let ?a = "\<lparr>ra_task = ''sort'', ra_limit = 2, ra_deduplicate = False, ra_eval_weighted = True,
    ra_recency_weight = 0, ra_half_life = 30, ra_readonly = True\<rparr>"
  obtain ms where "keyword_fallback ?B 0 default_scope sample_pg ''sort'' 2 = Inr ms"
    using pg.keyword_fallback_ok [OF sample_pg_wf] by blast
  then have "recall ?B ?st None 0 default_scope sample_pg ?a =
      (Inr (take 2 ms), record_recall_event ?B 0 default_scope sample_pg (take 2 ms))"
    by (simp add: recall_def find_matches_def semantic_matches_def provider_failure_def rank_matches_def
        fetch_multiplier_def Let_def)
  with recall_returns_stored [OF sample_pg_wf this] show ?thesis by auto
qed

text \<open>
  Recall survives the embedding provider: with none configured, or one that fails or
  times out, the keyword search answers. The call returns, and what it returns are stored
  patterns of the scope, best first.
\<close>

theorem recall_without_provider_returns:
  assumes "json_wf s" and "json_scope_ok sc" and "\<forall>k. json_emb s sc k \<noteq> None \<longrightarrow> good_key k"
    and "emb = None \<or> (\<exists>f e. emb = Some f \<and> f (ra_task a) = Inl e \<and> provider_failure e)"
  shows "\<exists>ms s'. recall (json_backend dot norm2) st emb now sc s a = (Inr ms, s') \<and> json_wf s' \<and>
    ranked ms \<and> length ms \<le> ra_limit a \<and>
    (\<forall>m \<in> set ms. holds now (json_val s (json_loc sc (m_key m))) (Some (m_pattern m)))"
proof -
  let ?B = "json_backend dot norm2"
  let ?n = "ra_limit a * fetch_multiplier a"
  obtain ms where ms: "keyword_fallback ?B now sc s (ra_task a) ?n = Inr ms"
    "matches_ok (json_val s) (json_loc sc) (pattern_key_ok good_key) now ms"
    using json.keyword_fallback_ok [OF assms(1,2)] by blast
  have "\<exists>e. semantic_matches ?B st emb now sc s a = (Inl e, s) \<and> provider_failure e"
    using assms(4) by (auto simp: semantic_matches_def matcher_find_def provider_failure_def)
  then have f: "find_matches ?B st emb now sc s a = (Inr ms, s)"
    using ms(1) by (auto simp: find_matches_def)
  note ok = rank_matches_ok [OF ms(2), of a now]
  obtain u where "mark_all ?B now sc s (rank_matches a now ms) = (Inr (), u)"
    using json.mark_all_ok [OF assms(1,2), where dot = dot and ?norm2.0 = norm2] ok by blast
  then have "\<exists>r s'. recall ?B st emb now sc s a = (Inr r, s')"
    by (cases "ra_readonly a") (simp_all add: recall_def f Let_def)
  then obtain r s' where r: "recall ?B st emb now sc s a = (Inr r, s')" by blast
  then show ?thesis using json.recall_ok [OF assms(1-3) r] by (auto simp: matches_ok_def match_ok_def)
qed

lemma recall_without_provider_returns_witness:
  "\<exists>ms s'. recall (json_backend (\<lambda>v w. 0) (\<lambda>v. 1)) \<lparr>es_tenant = ''d'', es_project = ''d''\<rparr>
     (Some (\<lambda>t. Inl (TimeoutError ''slow''))) 0 default_scope (json_open [])
     \<lparr>ra_task = ''sort'', ra_limit = 2, ra_deduplicate = True, ra_eval_weighted = True, ra_recency_weight = 1,
      ra_half_life = 30, ra_readonly = False\<rparr> = (Inr ms, s') \<and> length ms \<le> 2"
proof -
  have "json_scope_ok default_scope" by code_simp
  moreover have "\<forall>k. json_emb (json_open []) default_scope k \<noteq> None \<longrightarrow> good_key k"
    by (simp add: json_emb_def json_open_def load_embeddings_def)
  ultimately show ?thesis
    using recall_without_provider_returns [OF json_wf_empty, of default_scope
        "Some (\<lambda>t. Inl (TimeoutError ''slow''))" "\<lparr>ra_task = ''sort'', ra_limit = 2, ra_deduplicate = True,
        ra_eval_weighted = True, ra_recency_weight = 1, ra_half_life = 30, ra_readonly = False\<rparr>"
        "\<lambda>v w. 0" "\<lambda>v. 1" "\<lparr>es_tenant = ''d'', es_project = ''d''\<rparr>" 0]
    by (fastforce simp: provider_failure_def)
qed

text \<open>
  The eval-weighted recall cuts its candidates to the limit before it deduplicates them:
  when two of these candidates have nearly the same task, it returns fewer matches than the
  limit, however many more patterns it fetched from the store.
\<close>

theorem weighted_recall_truncates_before_dedup:
  assumes "ra_eval_weighted a" and "ra_deduplicate a" and "ra_recency_weight a \<le> 0"
    and "semantic_matches B st emb now sc s a = (Inr ms, s1)"
    and "i < j" and "j < length ms" and "same_task ms i j"
    and "recall B st emb now sc s a = (Inr r, s')"
  shows "length ms \<le> ra_limit a \<and> length r < length ms"
proof
  show "length ms \<le> ra_limit a"
    using assms(1,4) by (auto simp: semantic_matches_def matcher_find_def res_simps
        split: option.splits sum.splits prod.splits)
  have r: "r = take (ra_limit a) (dedup ms)"
    using assms(2-4,8) by (auto simp: recall_def find_matches_def rank_matches_def Let_def
        split: if_splits prod.splits sum.splits)
  have E: "(i, j) \<in> component ms" "(j, i) \<in> component ms"
  proof -
    show "(i, j) \<in> component ms" using assms(5-7) by (auto simp: component_def intro: eq_closure_step)
    then show "(j, i) \<in> component ms" by (rule symD [OF equiv_component(1)])
  qed
  then have "\<not> (representative ms i \<and> representative ms j)"
    using assms(5,6) unfolding representative_def by (metis less_trans not_le order_less_irrefl)
  then obtain k where "k < length ms" "\<not> representative ms k"
    using assms(5,6) by (meson less_trans)
  then have "length (filter (representative ms) [0..<length ms]) < length [0..<length ms]"
    by (intro length_filter_less [of k]) auto
  then show "length r < length ms"
    by (simp add: r dedup_def deduplicate_matches_spec)
qed

definition twin_pg :: pg_store where
  "twin_pg =
     \<lparr>pg_data = [(row_key default_scope ''patterns/a'', new_row (DDict (pattern_dump sample_pattern))),
        (row_key default_scope ''patterns/b'', new_row (DDict (pattern_dump sample_pattern))),
        (row_key default_scope ''patterns/c'', new_row (DDict (pattern_dump (sample_pattern\<lparr>p_task := ''parse json''\<rparr>))))],
      pg_emb = [(row_key default_scope ''patterns/a'', [1, 1]), (row_key default_scope ''patterns/b'', [1, 1]),
        (row_key default_scope ''patterns/c'', [1, 1])]\<rparr>"

lemma weighted_recall_truncates_before_dedup_witness:
  "\<exists>r s'. recall (pg_backend 2 (\<lambda>v w. 0)) \<lparr>es_tenant = ''d'', es_project = ''d''\<rparr> (Some (\<lambda>t. Inr [1, 1])) 0 default_scope twin_pg
     \<lparr>ra_task = ''sort'', ra_limit = 2, ra_deduplicate = True, ra_eval_weighted = True, ra_recency_weight = 0,
      ra_half_life = 30, ra_readonly = True\<rparr> = (Inr r, s') \<and> length r < 2"
proof -
  let ?B = "pg_backend 2 (\<lambda>v w. 0)" and ?st = "\<lparr>es_tenant = ''d'', es_project = ''d''\<rparr>"
  let ?emb = "Some (\<lambda>t. Inr [1, 1])"
  let ?a = "\<lparr>ra_task = ''sort'', ra_limit = 2, ra_deduplicate = True, ra_eval_weighted = True,
    ra_recency_weight = 0, ra_half_life = 30, ra_readonly = True\<rparr>"
  let ?m = "\<lambda>k. \<lparr>m_pattern = sample_pattern, m_similarity = 1, m_tier = reuse_tier_of 1, m_key = k, m_effective = Some (3 / 4)\<rparr>"
  have r: "py_round 6 1 = 1" "py_round 6 (3 / 4) = 3 / 4" by (simp_all add: py_round_def half_even_def)
  have v: "pattern_validate now (pattern_dump sample_pattern) = Inr sample_pattern"
    "pattern_validate now (pattern_dump (sample_pattern\<lparr>p_task := ''parse json''\<rparr>)) = Inr (sample_pattern\<lparr>p_task := ''parse json''\<rparr>)" for now
    by (simp_all add: validate_dump pattern_ok_def sample_pattern_def)
  have mult: "get_eval_multiplier ?B ?st default_scope twin_pg k ''sort'' [] [] Median w = Inr (3 / 4)" for k w
    by (simp add: get_eval_multiplier_def get_agent_score_def evals_in_scope_def resolve_scope_def py_or_def
        scoped_eval_key_def load_evals_def pg_backend_def pg_load_def twin_pg_def default_scope_def row_key_def
        agent_score_def multiplier_of_def Let_def)
  have load: "be_load ?B default_scope twin_pg ''patterns/a'' = Inr (Some (DDict (pattern_dump sample_pattern)))"
    "be_load ?B default_scope twin_pg ''patterns/b'' = Inr (Some (DDict (pattern_dump sample_pattern)))"
    "be_load ?B default_scope twin_pg ''patterns/c'' = Inr (Some (DDict (pattern_dump (sample_pattern\<lparr>p_task := ''parse json''\<rparr>))))"
    by (simp_all add: pg_backend_def pg_load_def twin_pg_def new_row_def)
  have hits: "be_search ?B default_scope twin_pg [1, 1] 6 PATTERNS_PREFIX =
      Inr ([(''patterns/a'', 1), (''patterns/b'', 1), (''patterns/c'', 1)], twin_pg)"
    by (simp add: pg_backend_def pg_search_def twin_pg_def PATTERNS_PREFIX_def) (simp add: row_key_def)
  have w: "weigh ?B ?st 0 default_scope twin_pg ''sort'' (k, 1) = Inr (Some (3 / 4, ?m k))"
    if "k = ''patterns/a'' \<or> k = ''patterns/b''" for k
    using that by (auto simp: weigh_def load v validate_doc_def mult clamp01_def r mk_match_def)
  have wc: "\<exists>m. weigh ?B ?st 0 default_scope twin_pg ''sort'' (''patterns/c'', 1) = Inr (Some (3 / 4, m))"
    by (auto simp: weigh_def load v validate_doc_def mult clamp01_def r mk_match_def Let_def)
  obtain m where wa: "weigh_all ?B ?st 0 default_scope twin_pg ''sort''
      [(''patterns/a'', 1), (''patterns/b'', 1), (''patterns/c'', 1)] =
      Inr [(3 / 4, ?m ''patterns/a''), (3 / 4, ?m ''patterns/b''), (3 / 4, m)]"
    using w [of "''patterns/a''"] w [of "''patterns/b''"] wc by auto
  have sem: "semantic_matches ?B ?st ?emb 0 default_scope twin_pg ?a =
      (Inr [?m ''patterns/a'', ?m ''patterns/b''], twin_pg)"
    by (simp add: semantic_matches_def matcher_find_def fetch_multiplier_def DEDUP_FETCH_MULTIPLIER_def hits
        wa sort_desc_def del: weigh_all.simps)
  then obtain r0 s' where rec: "recall ?B ?st ?emb 0 default_scope twin_pg ?a = (Inr r0, s')"
    by (simp add: recall_def find_matches_def Let_def)
  have "jaccard ''sort the list'' ''sort the list'' = 1" by (subst jaccard_refl) code_simp+
  then have "same_task [?m ''patterns/a'', ?m ''patterns/b''] 0 1"
    by (simp add: same_task_def JACCARD_DEDUP_THRESHOLD_def) (simp add: sample_pattern_def)
  from weighted_recall_truncates_before_dedup [OF _ _ _ sem _ _ this rec] rec show ?thesis by auto
qed

section \<open>Learning\<close>






definition sample_args :: learn_args where
  "sample_args = \<lparr>la_task = ''parse json'', la_code = ''x'', la_score = 8, la_output = None, la_run_id = None,
     la_classification = ''internal'', la_source = ''api'', la_author = None, la_on_duplicate = ReplaceWithBetter\<rparr>"




text \<open>
  C9. Learning a run whose task nearly equals a stored one never adds a second pattern
  (unless duplicates are kept): it leaves the store unchanged, or, when the new score is
  strictly better and replacing is on, it stores the run under the existing pattern's key.
\<close>

theorem learn_replaces_only_if_better:
  assumes "pg_wf s" and "be_list_keys (pg_backend edim cdist) sc s PATTERNS_PREFIX = Inr ks"
    and "length ks < MAX_PATTERN_COUNT" and "la_on_duplicate a \<noteq> KeepBoth"
    and "prefix PATTERNS_PREFIX k0" and "pg_load sc s k0 = Inr (Some d0)" and "near_duplicate (la_task a) d0"
  shows "\<exists>k d. prefix PATTERNS_PREFIX k \<and> pg_load sc s k = Inr (Some d) \<and> near_duplicate (la_task a) d \<and>
    learn (pg_backend edim cdist) st emb red now fresh sc s a =
      (if la_on_duplicate a = SkipDuplicate then (Inr \<lparr>lr_stored = False, lr_pattern_count = length ks\<rparr>, s)
       else (case stored_score d of
               Inl e \<Rightarrow> (Inl e, s)
             | Inr x \<Rightarrow> if la_score a \<le> x then (Inr \<lparr>lr_stored = False, lr_pattern_count = length ks\<rparr>, s)
                 else store_pattern (pg_backend edim cdist) st emb red now sc s a k))"
proof -
  have load: "pg_load sc s k = Inr (Some d) \<longleftrightarrow> pg_val s (row_key sc k) = Some d" for k d
    by (simp add: pg_load_def pg_val_def)
  show ?thesis
    using pg.learn_duplicate [OF assms(1) _ assms(2,3,4) _ assms(5) _ assms(7)] assms(6) unfolding load by blast
qed

lemma learn_replaces_only_if_better_witness:
  "learn (pg_backend 2 (\<lambda>v w. 0)) \<lparr>es_tenant = ''d'', es_project = ''d''\<rparr> None None 0 ''patterns/n'' default_scope
     sample_pg (sample_args\<lparr>la_task := ''sort the list'', la_score := 5, la_on_duplicate := SkipDuplicate\<rparr>) =
   (Inr \<lparr>lr_stored = False, lr_pattern_count = 1\<rparr>, sample_pg)"
proof -
  let ?a = "sample_args\<lparr>la_task := ''sort the list'', la_score := 5, la_on_duplicate := SkipDuplicate\<rparr>"
  have ks: "be_list_keys (pg_backend 2 (\<lambda>v w. 0)) default_scope sample_pg PATTERNS_PREFIX = Inr [''patterns/a'']"
    by (simp add: pg_backend_def pg_list_keys_def scope_keys_def sample_pg_def PATTERNS_PREFIX_def)
      (simp add: row_key_def)
  have load: "pg_load default_scope sample_pg ''patterns/a'' = Inr (Some (DDict (pattern_dump sample_pattern)))"
    by (simp add: pg_load_def sample_pg_def new_row_def)
  have "jaccard ''sort the list'' ''sort the list'' = 1" by (subst jaccard_refl) code_simp+
  then have near: "near_duplicate (la_task ?a) (DDict (pattern_dump sample_pattern))"
    by (simp add: near_duplicate_def doc_task_def pattern_dump_def sample_pattern_def json_str_def
        JACCARD_LEARN_DEDUP_THRESHOLD_def)
  have p: "prefix PATTERNS_PREFIX ''patterns/a''" by code_simp
  from learn_replaces_only_if_better [OF sample_pg_wf ks _ _ p load near] show ?thesis
    by (simp add: MAX_PATTERN_COUNT_def) blast
qed

text \<open>
  When the embedding provider fails during a learn the call raises, but the pattern is
  already stored, without a vector; and from then on every retry of the run, with a working
  provider too, is refused as a duplicate of that pattern and changes nothing, so the
  pattern never gets its vector.
\<close>

theorem failed_embedding_is_never_repaired:
  assumes "json_wf s" and "json_scope_ok sc" and "json_list_keys sc s PATTERNS_PREFIX = Inr ks"
    and "Suc (length ks) < MAX_PATTERN_COUNT" and "la_on_duplicate a \<noteq> KeepBoth"
    and "\<forall>k \<in> set ks. \<forall>d. json_load sc s k = Inr (Some d) \<longrightarrow> \<not> near_duplicate (la_task a) d"
    and "json_plain fresh" and "prefix PATTERNS_PREFIX fresh" and "0 \<le> la_score a" and "la_score a \<le> 10"
    and "f (la_task a) = Inl e" and "py_split (py_lower (la_task a)) \<noteq> []"
  shows "\<exists>s1. learn (json_backend dot norm2) st (Some f) red now fresh sc s a = (Inl e, s1) \<and>
    json_load sc s1 fresh = Inr (Some (learned_doc red now a)) \<and> json_emb s1 sc fresh = json_emb s sc fresh \<and>
    (\<forall>emb2 red2 now2 fresh2. \<exists>n. learn (json_backend dot norm2) st emb2 red2 now2 fresh2 sc s1 a =
       (Inr \<lparr>lr_stored = False, lr_pattern_count = n\<rparr>, s1))"
proof -
  let ?B = "json_backend dot norm2"
  have ks: "be_list_keys ?B sc s PATTERNS_PREFIX = Inr ks" using assms(3) by (simp add: json_backend_def)
  have set: "set ks = {k. prefix PATTERNS_PREFIX k \<and> json_plain k \<and> json_val s (json_loc sc k) \<noteq> None}"
    using json.list_keys_facts [OF assms(1,2) ks] by simp
  have "\<forall>k d. json_plain k \<and> prefix PATTERNS_PREFIX k \<and> json_val s (json_loc sc k) = Some d \<longrightarrow>
      \<not> near_duplicate (la_task a) d"
  proof (intro allI impI, elim conjE)
    fix k d assume k: "json_plain k" "prefix PATTERNS_PREFIX k" "json_val s (json_loc sc k) = Some d"
    then have "k \<in> set ks" by (simp add: set)
    moreover have "json_load sc s k = Inr (Some d)" using k by (simp add: json_load_law json_plain_def)
    ultimately show "\<not> near_duplicate (la_task a) d" using assms(6) by blast
  qed
  moreover have "jaccard (la_task a) (la_task a) = 1" using assms(12) unfolding py_split_empty jaccard_refl by auto
  ultimately obtain s1 where s1: "learn ?B st (Some f) red now fresh sc s a = (Inl e, s1)"
    "json_wf s1" "json_emb s1 = json_emb s"
    "json_val s1 = (json_val s)(json_loc sc fresh \<mapsto> learned_doc red now a)"
    "\<forall>emb2 red2 now2 fresh2. \<exists>n. learn ?B st emb2 red2 now2 fresh2 sc s1 a =
       (Inr \<lparr>lr_stored = False, lr_pattern_count = n\<rparr>, s1)"
    using json.embed_failure_sticks [OF assms(1,2) ks assms(4,5) _ assms(7-10), where f = f and e = e] assms(11) by blast
  have "json_load sc s1 fresh = Inr (Some (learned_doc red now a))"
    using assms(7) s1(4) by (simp add: json_load_law json_plain_def)
  then show ?thesis using s1 by (intro exI [of _ s1]) simp
qed

lemma failed_embedding_is_never_repaired_witness:
  "\<exists>s1. learn (json_backend (\<lambda>v w. 0) (\<lambda>v. 1)) \<lparr>es_tenant = ''d'', es_project = ''d''\<rparr>
      (Some (\<lambda>t. Inl (TimeoutError ''slow''))) None 0 ''patterns/n'' default_scope (json_open []) sample_args =
      (Inl (TimeoutError ''slow''), s1) \<and> json_emb s1 default_scope ''patterns/n'' = None"
proof -
  have l: "json_list_keys default_scope (json_open []) PATTERNS_PREFIX = Inr []"
    by (simp add: json_list_keys_def json_open_def)
  have c: "json_scope_ok default_scope" "json_plain ''patterns/n''" "prefix PATTERNS_PREFIX ''patterns/n''"
    "py_split (py_lower ''parse json'') \<noteq> []"
    by code_simp+
  have a: "la_task sample_args = ''parse json''" "la_on_duplicate sample_args \<noteq> KeepBoth" "la_score sample_args = 8"
    by (simp_all add: sample_args_def)
  have e: "json_emb (json_open []) default_scope ''patterns/n'' = None"
    by (simp add: json_emb_def json_open_def load_embeddings_def)
  show ?thesis
    using failed_embedding_is_never_repaired [OF json_wf_empty c(1) l _ a(2) _ c(2,3), where
        f = "\<lambda>t. Inl (TimeoutError ''slow'')" and e = "TimeoutError ''slow''" and dot = "\<lambda>v w. 0" and
        ?norm2.0 = "\<lambda>v. 1" and st = "\<lparr>es_tenant = ''d'', es_project = ''d''\<rparr>" and red = None and now = 0]
      a c(4) e by (auto simp: MAX_PATTERN_COUNT_def)
qed

section \<open>Export, import and deletion\<close>

text \<open>
  C10. Export and import move a scope from one backend to the other: importing what a JSON
  scope exports into any PostgreSQL scope, overwriting, succeeds, counts every record, and
  afterwards every exported pattern reads there as it did in the source, whatever the embedding
  provider does; no key outside the export changes.
\<close>

theorem export_import_round_trip:
  assumes "json_wf s" and "json_scope_ok sc" and "pg_wf t"
    and "\<forall>k d. json_plain k \<longrightarrow> prefix PATTERNS_PREFIX k \<longrightarrow> json_load sc s k = Inr (Some d) \<longrightarrow>
           pattern_key_allowed k \<and> (\<exists>x. d = DDict x)"
  shows "\<exists>rs t'. export (json_backend dot norm2) sc s = Inr rs \<and>
    import_data (pg_backend edim cdist) emb sc' t (map as_import rs) True = (Inr (length rs), t') \<and>
    (\<forall>k d. json_plain k \<longrightarrow> prefix PATTERNS_PREFIX k \<longrightarrow> json_load sc s k = Inr (Some d) \<longrightarrow>
       pg_load sc' t' k = Inr (Some d)) \<and>
    (\<forall>k. k \<notin> ex_key ` set rs \<longrightarrow> pg_load sc' t' k = pg_load sc' t k)"
proof -
  obtain ks where ks: "export (json_backend dot norm2) sc s = Inr (map (\<lambda>k. \<lparr>ex_version = EXPORT_VERSION, ex_key = k,
      ex_data = the (json_val s (json_loc sc k))\<rparr>) ks)" "distinct ks"
    "set ks = {k. prefix PATTERNS_PREFIX k \<and> json_plain k \<and> json_val s (json_loc sc k) \<noteq> None}"
    using json.export_ok [OF assms(1,2), of dot norm2] by blast
  have jl: "json_load sc s k = Inr (json_val s (json_loc sc k))" if "json_plain k" for k
    using that by (simp add: json_load_law json_plain_def)
  have "\<forall>k \<in> set ks. \<exists>x. json_val s (json_loc sc k) = Some (DDict x) \<and> pattern_key_allowed k"
    using assms(4) jl unfolding ks(3) by auto
  then obtain X where X: "k \<in> set ks \<Longrightarrow> json_val s (json_loc sc k) = Some (DDict (X k)) \<and> pattern_key_allowed k" for k
    by metis
  let ?rs = "map (\<lambda>k. \<lparr>ex_version = EXPORT_VERSION, ex_key = k, ex_data = the (json_val s (json_loc sc k))\<rparr>) ks"
  let ?kxs = "map (\<lambda>k. (k, X k)) ks"
  have rs: "map as_import ?rs = map import_of ?kxs"
    using X by (simp add: import_of_def comp_def)
  obtain t' where t': "import_all (pg_backend edim cdist) emb sc' True t (map import_of ?kxs) 0 = (Inr (length ks), t')"
    "\<forall>(k, x) \<in> set ?kxs. pg_val t' (row_key sc' k) = Some (DDict x)"
    "\<forall>l. l \<notin> row_key sc' ` fst ` set ?kxs \<longrightarrow> pg_val t' l = pg_val t l"
    using pg.import_all_ok [OF assms(3), where sc = sc' and kxs = ?kxs and overwrite = True and n = 0
        and f = emb and edim = edim and cdist = cdist] X ks(2) by (auto simp: imported_def comp_def)
  have pl: "pg_load sc' u k = Inr (pg_val u (row_key sc' k))" for u k by (simp add: pg_load_def pg_val_def)
  have "pg_load sc' t' k = Inr (Some d)"
    if "json_plain k" "prefix PATTERNS_PREFIX k" "json_load sc s k = Inr (Some d)" for k d
  proof -
    have "k \<in> set ks" using that jl by (simp add: ks(3))
    then show ?thesis using t'(2) X that jl by (auto simp: pl)
  qed
  moreover have "pg_load sc' t' k = pg_load sc' t k" if "k \<notin> ex_key ` set ?rs" for k
    using that t'(3) [THEN spec, of "row_key sc' k"] by (auto simp: pl image_image)
  ultimately show ?thesis
    using ks(1) t'(1) unfolding import_data_def rs [symmetric]
    by (intro exI [of _ ?rs] exI [of _ t']) simp
qed

lemma export_import_round_trip_witness:
  "\<exists>rs t'. export (json_backend (\<lambda>v w. 0) (\<lambda>v. 1)) default_scope
       (json_open [([''patterns'', ''a.json''], FDoc (DDict (pattern_dump sample_pattern)))]) = Inr rs \<and>
     import_data (pg_backend 2 (\<lambda>v w. 0)) None default_scope empty_pg (map as_import rs) True = (Inr (length rs), t') \<and>
     pg_load default_scope t' ''patterns/a'' = Inr (Some (DDict (pattern_dump sample_pattern)))"
proof -
  let ?s = "json_open [([''patterns'', ''a.json''], FDoc (DDict (pattern_dump sample_pattern)))]"
  have c: "json_scope_ok default_scope" "json_plain ''patterns/a''" "prefix PATTERNS_PREFIX ''patterns/a''"
    "pattern_key_allowed ''patterns/a''" "json_loc default_scope ''patterns/a'' = [''patterns'', ''a.json'']"
    "good_key ''patterns/a''" "is_json [''patterns'', ''a.json'']"
    by code_simp+
  have w: "json_wf ?s" by (rule json_wf_open) (simp add: disk_ok_def path_ok_def stem_def seg_ok_def wf_dict_def)
  have v: "json_val ?s p = (if p = [''patterns'', ''a.json''] then Some (DDict (pattern_dump sample_pattern)) else None)" for p
    using c(7) by (simp add: json_val_def json_open_def)
  have l: "json_load default_scope ?s k = Inr (json_val ?s (json_loc default_scope k))" if "json_plain k" for k
    using that by (simp add: json_load_law json_plain_def)
  have only: "k = ''patterns/a'' \<and> d = DDict (pattern_dump sample_pattern)"
    if k: "json_plain k" "json_load default_scope ?s k = Inr (Some d)" for k d
  proof -
    have "json_loc default_scope k = json_loc default_scope ''patterns/a''"
      using k l v c(5) by (simp split: if_splits)
    then have "k = ''patterns/a''" by (rule json_loc_inj)
    then show ?thesis using k l v c(5) by (auto split: if_splits)
  qed
  have here: "json_load default_scope ?s ''patterns/a'' = Inr (Some (DDict (pattern_dump sample_pattern)))"
    using l [OF c(2)] v c(5) by simp
  have "\<forall>k d. json_plain k \<longrightarrow> prefix PATTERNS_PREFIX k \<longrightarrow> json_load default_scope ?s k = Inr (Some d) \<longrightarrow>
      pattern_key_allowed k \<and> (\<exists>x. d = DDict x)"
    using only c(4) by blast
  from export_import_round_trip [OF w c(1) pg_wf_empty this, of "\<lambda>v w. 0" "\<lambda>v. 1" 2 "\<lambda>v w. 0" None default_scope]
  show ?thesis using here c(2,3) by blast
qed

text \<open>
  Deleting a pattern removes its document and vector and nothing else: its evaluation
  history stays, so the quality score of the deleted key reads as before, and its skill tags
  stay.
\<close>

theorem delete_pattern_keeps_history:
  assumes "pg_wf s" and "pattern_key_allowed key" and "pg_load sc s key = Inr (Some d)"
  shows "\<exists>s'. delete_pattern (pg_backend edim cdist) sc s key = Inr (True, s') \<and>
    pg_load sc s' key = Inr None \<and> pg_vec s' sc key = None \<and>
    (\<forall>sc' k. (sc', k) \<noteq> (sc, key) \<longrightarrow> pg_load sc' s' k = pg_load sc' s k) \<and>
    get_agent_score (pg_backend edim cdist) st sc s' key task mj t p agg w =
      get_agent_score (pg_backend edim cdist) st sc s key task mj t p agg w \<and>
    get_skills (pg_backend edim cdist) sc s' key = get_skills (pg_backend edim cdist) sc s key"
proof -
  let ?B = "pg_backend edim cdist"
  let ?s = "s\<lparr>pg_data := ddel (row_key sc key) (pg_data s), pg_emb := ddel (row_key sc key) (pg_emb s)\<rparr>"
  have del: "delete_pattern ?B sc s key = Inr (True, ?s)"
    using assms(2,3) by (simp add: delete_pattern_def pg_backend_def pg_delete_def)
  have other: "pg_load sc' ?s k = pg_load sc' s k" if "(sc', k) \<noteq> (sc, key)" for sc' k
    using that by (auto simp: pg_load_def dict_simps)
  have apart: "k \<noteq> key" if "scoped_eval_key u v = Inr k \<or> k = SKILLS_KEY" for u v k
    using that assms(2) by (auto simp: scoped_eval_key_def pattern_key_allowed_def PATTERNS_PREFIX_def
        SKILLS_KEY_def split: if_splits)
  have "load_evals ?B sc ?s k = load_evals ?B sc s k" if "k \<noteq> key" for k
    using other [of sc k] that by (simp add: load_evals_def pg_backend_def)
  then have "evals_in_scope ?B st sc ?s t p = evals_in_scope ?B st sc s t p"
    using apart by (cases "scoped_eval_key (fst (resolve_scope st sc t p)) (snd (resolve_scope st sc t p))")
      (auto simp: evals_in_scope_def split_def Let_def)
  then have "get_agent_score ?B st sc ?s key task mj t p agg w = get_agent_score ?B st sc s key task mj t p agg w"
    by (simp add: get_agent_score_def)
  moreover have "get_skills ?B sc ?s key = get_skills ?B sc s key"
    using other [of sc SKILLS_KEY] apart by (simp add: get_skills_def load_registry_def pg_backend_def)
  moreover have "pg_load sc ?s key = Inr None" "pg_vec ?s sc key = None"
    by (simp_all add: pg_load_def pg_vec_def dict_simps)
  ultimately show ?thesis using del other by blast
qed

lemma delete_pattern_keeps_history_witness:
  "\<exists>s'. delete_pattern (pg_backend 2 (\<lambda>v w. 0)) default_scope sample_pg ''patterns/a'' = Inr (True, s') \<and>
    pg_load default_scope s' ''patterns/a'' = Inr None"
proof -
  have "pattern_key_allowed ''patterns/a''" by code_simp
  moreover have "pg_load default_scope sample_pg ''patterns/a'' = Inr (Some (DDict (pattern_dump sample_pattern)))"
    by (simp add: pg_load_def sample_pg_def new_row_def)
  ultimately show ?thesis using delete_pattern_keeps_history [OF sample_pg_wf] by blast
qed

end
