(* ===== verification/Jobs.thy ===== *)
theory Jobs
  imports PyTime Storage
begin

text \<open>
  \<open>engramia/jobs\<close>: the queue of background jobs, as a dictionary from job id to job,
  in its two implementations (the in-memory dictionary and the PostgreSQL table \<open>jobs\<close>),
  and the system of concurrent workers over it. Times are whole seconds since the epoch; the
  service stores them as texts and compares the texts. The in-memory implementation and the
  service itself write \<open>%Y-%m-%dT%H:%M:%SZ\<close>, SQL's \<open>now()::text\<close> has a blank instead of
  the T and a fraction and zone at the end (the parameter u; the session runs in UTC). What a
  dispatched operation returns or raises, and whether it missed its deadline, is an argument.
\<close>

section \<open>Jobs\<close>

datatype job_status = JPending | JRunning | JCompleted | JFailed | JCancelled | JExpired

fun status_text :: "job_status \<Rightarrow> string" where
  "status_text JPending = ''pending''"
| "status_text JRunning = ''running''"
| "status_text JCompleted = ''completed''"
| "status_text JFailed = ''failed''"
| "status_text JCancelled = ''cancelled''"
| "status_text JExpired = ''expired''"

record job =
  j_id :: string
  j_tenant :: string
  j_project :: string
  j_key_id :: "string option"
  j_request_id :: "string option"
  j_operation :: string
  j_params :: pydict
  j_status :: job_status
  j_result :: "pydict option"
  j_error :: "string option"
  j_attempts :: nat
  j_max_attempts :: nat
  j_created_at :: string
  j_scheduled_at :: "string option"
  j_started_at :: "string option"
  j_completed_at :: "string option"
  j_expires_at :: "string option"
  j_max_exec :: "int option"

type_synonym jobs = "(string, job) dict"

definition job_operations :: "string list" where
  "job_operations = [''evaluate'', ''compose'', ''evolve'', ''aging'', ''feedback_decay'', ''import'',
     ''export'', ''retention_cleanup'', ''compact_audit_log'', ''cleanup_old_jobs'', ''roi_rollup'']"

definition DEFAULT_EXPIRES_SECONDS :: nat where "DEFAULT_EXPIRES_SECONDS = 3600"

definition iso_z :: "nat \<Rightarrow> string" where
  "iso_z t = stamp CHR ''T'' t @ ''Z''"

definition pg_now :: "string \<Rightarrow> nat \<Rightarrow> string" where
  "pg_now u t = stamp CHR '' '' t @ u"

text \<open>\<open>f"{type(exc).__name__}: {exc}"\<close>\<close>

fun exn_text :: "exn \<Rightarrow> string" where
  "exn_text (ValueError m) = ''ValueError: '' @ m"
| "exn_text (KeyError m) = ''KeyError: '' @ m"
| "exn_text (RuntimeError m) = ''RuntimeError: '' @ m"
| "exn_text (ValidationError m) = ''ValidationError: '' @ m"
| "exn_text (ProviderError m) = ''ProviderError: '' @ m"
| "exn_text (TimeoutError m) = ''TimeoutError: '' @ m"
| "exn_text (ConnectionError m) = ''ConnectionError: '' @ m"
| "exn_text (StripeError m) = ''StripeError: '' @ m"
| "exn_text (HttpError n m) = ''HTTPException: '' @ m"
| "exn_text (OtherError m) = m"

definition dec_int :: "int \<Rightarrow> string" where
  "dec_int i = (if i < 0 then CHR ''-'' # dec (nat (- i)) else dec (nat i))"

record job_info =
  ji_id :: string
  ji_operation :: string
  ji_status :: job_status
  ji_result :: "pydict option"
  ji_error :: "string option"
  ji_attempts :: nat
  ji_created_at :: string
  ji_started_at :: "string option"
  ji_completed_at :: "string option"
  ji_request_id :: "string option"

definition to_info :: "job \<Rightarrow> job_info" where
  "to_info j = \<lparr>ji_id = j_id j, ji_operation = j_operation j, ji_status = j_status j, ji_result = j_result j,
     ji_error = j_error j, ji_attempts = j_attempts j, ji_created_at = j_created_at j,
     ji_started_at = j_started_at j, ji_completed_at = j_completed_at j, ji_request_id = j_request_id j\<rparr>"

section \<open>Submitting\<close>

text \<open>The job a submission makes: \<open>jid\<close> is the fresh uuid, \<open>rid\<close> the request id.\<close>

definition new_job ::
  "string \<Rightarrow> scope \<Rightarrow> string option \<Rightarrow> string \<Rightarrow> string \<Rightarrow> pydict \<Rightarrow> int option \<Rightarrow> nat \<Rightarrow> job" where
  "new_job jid sc key rid op params max_exec now =
     \<lparr>j_id = jid, j_tenant = sc_tenant sc, j_project = sc_project sc, j_key_id = key,
      j_request_id = (if rid = [] then None else Some rid), j_operation = op, j_params = params,
      j_status = JPending, j_result = None, j_error = None, j_attempts = 0, j_max_attempts = 3,
      j_created_at = iso_z now, j_scheduled_at = None, j_started_at = None, j_completed_at = None,
      j_expires_at = Some (iso_z (now + DEFAULT_EXPIRES_SECONDS)), j_max_exec = max_exec\<rparr>"

definition check_operation :: "string \<Rightarrow> unit res" where
  "check_operation op = (if op \<in> set job_operations then Inr () else Inl (ValueError ''Unknown operation''))"

definition mem_submit ::
  "jobs \<Rightarrow> string \<Rightarrow> scope \<Rightarrow> string option \<Rightarrow> string \<Rightarrow> string \<Rightarrow> pydict \<Rightarrow> int option \<Rightarrow> nat \<Rightarrow> jobs res" where
  "mem_submit q jid sc key rid op params max_exec now =
     bind_res (check_operation op) (\<lambda>_. Inr (dput jid (new_job jid sc key rid op params max_exec now) q))"

text \<open>The INSERT raises when the primary key is taken.\<close>

definition db_submit ::
  "jobs \<Rightarrow> string \<Rightarrow> scope \<Rightarrow> string option \<Rightarrow> string \<Rightarrow> string \<Rightarrow> pydict \<Rightarrow> int option \<Rightarrow> nat \<Rightarrow> jobs res" where
  "db_submit q jid sc key rid op params max_exec now =
     bind_res (check_operation op) (\<lambda>_.
       if jid \<in> fst ` set q then Inl (OtherError ''IntegrityError'')
       else Inr (q @ [(jid, new_job jid sc key rid op params max_exec now)]))"

section \<open>Reading and cancelling\<close>

definition in_job_scope :: "scope \<Rightarrow> job \<Rightarrow> bool" where
  "in_job_scope sc j \<longleftrightarrow> j_tenant j = sc_tenant sc \<and> j_project j = sc_project sc"

definition mem_get :: "jobs \<Rightarrow> string \<Rightarrow> scope \<Rightarrow> job_info option" where
  "mem_get q jid sc =
     (case dget q jid of None \<Rightarrow> None | Some j \<Rightarrow> if in_job_scope sc j then Some (to_info j) else None)"

definition db_get :: "jobs \<Rightarrow> string \<Rightarrow> scope \<Rightarrow> job_info option" where
  "db_get q jid sc =
     (case filter (\<lambda>(k, j). k = jid \<and> in_job_scope sc j) q of [] \<Rightarrow> None | (k, j) # _ \<Rightarrow> Some (to_info j))"

definition mem_list :: "jobs \<Rightarrow> scope \<Rightarrow> string option \<Rightarrow> nat \<Rightarrow> job_info list" where
  "mem_list q sc status limit =
     map to_info (take limit (sort_desc j_created_at
       (filter (\<lambda>j. in_job_scope sc j \<and> (case status of None \<Rightarrow> True | Some w \<Rightarrow> status_text (j_status j) = w))
         (map snd q))))"

text \<open>An empty status filter is no filter; rows of equal time come in the order of the table.\<close>

definition db_list :: "jobs \<Rightarrow> scope \<Rightarrow> string option \<Rightarrow> nat \<Rightarrow> job_info list" where
  "db_list q sc status limit =
     map to_info (take limit (sort_desc j_created_at
       (filter (\<lambda>j. in_job_scope sc j \<and>
           (case status of None \<Rightarrow> True | Some w \<Rightarrow> w = [] \<or> status_text (j_status j) = w))
         (map snd q))))"

definition mem_cancel :: "jobs \<Rightarrow> string \<Rightarrow> scope \<Rightarrow> nat \<Rightarrow> bool \<times> jobs" where
  "mem_cancel q jid sc now =
     (case dget q jid of
        None \<Rightarrow> (False, q)
      | Some j \<Rightarrow>
          if \<not> in_job_scope sc j then (False, q)
          else if j_status j \<noteq> JPending then (False, q)
          else (True, dput jid (j\<lparr>j_status := JCancelled, j_completed_at := Some (iso_z now)\<rparr>) q))"

text \<open>UPDATE: every row that satisfies the condition; the result is the number of rows.\<close>

definition sql_update :: "(string \<Rightarrow> job \<Rightarrow> bool) \<Rightarrow> (job \<Rightarrow> job) \<Rightarrow> jobs \<Rightarrow> nat \<times> jobs" where
  "sql_update P f q =
     (length (filter (\<lambda>(k, j). P k j) q), map (\<lambda>(k, j). (k, if P k j then f j else j)) q)"

definition db_cancel :: "string \<Rightarrow> jobs \<Rightarrow> string \<Rightarrow> scope \<Rightarrow> nat \<Rightarrow> bool \<times> jobs" where
  "db_cancel u q jid sc now =
     (let (n, q') = sql_update (\<lambda>k j. k = jid \<and> in_job_scope sc j \<and> j_status j = JPending)
        (\<lambda>j. j\<lparr>j_status := JCancelled, j_completed_at := Some (pg_now u now)\<rparr>) q
      in (0 < n, q'))"

section \<open>Claiming\<close>

definition claimable :: "string \<Rightarrow> job \<Rightarrow> bool" where
  "claimable now_txt j \<longleftrightarrow> j_status j = JPending \<and> j_attempts j < j_max_attempts j \<and>
     (case j_scheduled_at j of None \<Rightarrow> True | Some w \<Rightarrow> w \<le> now_txt)"

definition start_job :: "string \<Rightarrow> job \<Rightarrow> job" where
  "start_job now_txt j = j\<lparr>j_status := JRunning, j_started_at := Some now_txt, j_attempts := j_attempts j + 1\<rparr>"

definition pick :: "(string \<Rightarrow> job \<Rightarrow> bool) \<Rightarrow> nat \<Rightarrow> jobs \<Rightarrow> jobs" where
  "pick P n q = take n (sort_key (\<lambda>(k, j). j_created_at j) (filter (\<lambda>(k, j). P k j) q))"

text \<open>The claimed jobs as they are after the claim, and the queue.\<close>

definition mem_claim :: "jobs \<Rightarrow> nat \<Rightarrow> nat \<Rightarrow> job list \<times> jobs" where
  "mem_claim q batch now =
     (let claimed = pick (\<lambda>k j. claimable (iso_z now) j) batch q
      in (map (\<lambda>(k, j). start_job (iso_z now) j) claimed,
          map (\<lambda>(k, j). (k, if k \<in> fst ` set claimed then start_job (iso_z now) j else j)) q))"

text \<open>\<open>FOR UPDATE SKIP LOCKED\<close>: rows other transactions have locked are passed over.\<close>

definition db_claim :: "string \<Rightarrow> string set \<Rightarrow> jobs \<Rightarrow> nat \<Rightarrow> nat \<Rightarrow> job list \<times> jobs" where
  "db_claim u locked q batch now =
     (let claimed = pick (\<lambda>k j. k \<notin> locked \<and> claimable (pg_now u now) j) batch q;
          (n, q') = sql_update (\<lambda>k j. k \<in> fst ` set claimed) (start_job (pg_now u now)) q
      in (map (\<lambda>(k, j). start_job (pg_now u now) j) claimed, q'))"

section \<open>Executing\<close>

text \<open>
  A deadline is missed when the future's result does not come in time; a \<open>TimeoutError\<close> the
  operation itself raises is the same class and is caught by the same clause.
\<close>

definition timed_out :: "int option \<Rightarrow> bool \<Rightarrow> 'a res \<Rightarrow> bool" where
  "timed_out max_exec late r \<longleftrightarrow> max_exec \<noteq> None \<and> (late \<or> (\<exists>m. r = Inl (TimeoutError m)))"

definition deadline_error :: "int option \<Rightarrow> string" where
  "deadline_error max_exec =
     ''Job exceeded max execution time ('' @ (case max_exec of None \<Rightarrow> [] | Some m \<Rightarrow> dec_int m) @ ''s)''"

text \<open>What the end of an execution does to the job: \<open>a\<close> and \<open>m\<close> are its attempts and their limit.\<close>

definition finish_job :: "nat \<Rightarrow> nat \<Rightarrow> int option \<Rightarrow> string \<Rightarrow> bool \<Rightarrow> pydict res \<Rightarrow> nat \<Rightarrow> job \<Rightarrow> job" where
  "finish_job a m max_exec now_txt late r now j =
     (if timed_out max_exec late r
      then j\<lparr>j_status := JExpired, j_error := Some (deadline_error max_exec), j_completed_at := Some now_txt\<rparr>
      else (case r of
              Inr d \<Rightarrow> j\<lparr>j_status := JCompleted, j_result := Some d, j_completed_at := Some now_txt\<rparr>
            | Inl e \<Rightarrow>
                if m \<le> a
                then j\<lparr>j_status := JFailed, j_error := Some (exn_text e), j_completed_at := Some now_txt\<rparr>
                else j\<lparr>j_status := JPending, j_scheduled_at := Some (iso_z (now + 2 ^ a))\<rparr>))"

text \<open>In memory the executed job is the object in the store.\<close>

definition mem_finish :: "jobs \<Rightarrow> job \<Rightarrow> bool \<Rightarrow> pydict res \<Rightarrow> nat \<Rightarrow> jobs" where
  "mem_finish q c late r now =
     (case dget q (j_id c) of
        None \<Rightarrow> q
      | Some j \<Rightarrow>
          dput (j_id c) (finish_job (j_attempts j) (j_max_attempts j) (j_max_exec j) (iso_z now) late r now j) q)"

text \<open>In the database the row is updated from what the claim returned, whatever its state is now.\<close>

definition db_finish :: "string \<Rightarrow> jobs \<Rightarrow> job \<Rightarrow> bool \<Rightarrow> pydict res \<Rightarrow> nat \<Rightarrow> jobs" where
  "db_finish u q c late r now =
     snd (sql_update (\<lambda>k j. k = j_id c)
       (finish_job (j_attempts c) (j_max_attempts c) (j_max_exec c) (pg_now u now) late r now) q)"

section \<open>Reaping\<close>

definition reapable :: "string \<Rightarrow> job \<Rightarrow> bool" where
  "reapable now_txt j \<longleftrightarrow> j_status j = JRunning \<and>
     (case j_expires_at j of None \<Rightarrow> False | Some w \<Rightarrow> w \<noteq> [] \<and> w < now_txt)"

definition expire_job :: "string \<Rightarrow> job \<Rightarrow> job" where
  "expire_job now_txt j = j\<lparr>j_status := JExpired, j_error := Some ''Job expired (exceeded time limit)'',
     j_completed_at := Some now_txt\<rparr>"

text \<open>The in-memory loop.\<close>

fun mem_reap :: "jobs \<Rightarrow> nat \<Rightarrow> nat \<times> jobs" where
  "mem_reap [] now = (0, [])"
| "mem_reap ((k, j) # q) now =
     (let (n, q') = mem_reap q now in
      if reapable (iso_z now) j then (n + 1, (k, expire_job (iso_z now) j) # q') else (n, (k, j) # q'))"

definition db_reap :: "jobs \<Rightarrow> nat \<Rightarrow> nat \<times> jobs" where
  "db_reap q now =
     sql_update (\<lambda>k j. j_status j = JRunning \<and> (case j_expires_at j of None \<Rightarrow> False | Some w \<Rightarrow> w < iso_z now))
       (expire_job (iso_z now)) q"

section \<open>Polling\<close>

text \<open>
  One serial poll (no executor): claim, then execute and finish the claimed jobs in order.
  \<open>run\<close> gives for a job whether it missed its deadline and what its operation returned.
\<close>

definition mem_poll :: "(job \<Rightarrow> bool \<times> pydict res) \<Rightarrow> jobs \<Rightarrow> nat \<Rightarrow> nat \<Rightarrow> nat \<times> jobs" where
  "mem_poll run q batch now =
     (let (claimed, q1) = mem_claim q batch now
      in (length claimed, fold (\<lambda>c q. mem_finish q c (fst (run c)) (snd (run c)) now) claimed q1))"

definition db_poll :: "string \<Rightarrow> string set \<Rightarrow> (job \<Rightarrow> bool \<times> pydict res) \<Rightarrow> jobs \<Rightarrow> nat \<Rightarrow> nat \<Rightarrow> nat \<times> jobs" where
  "db_poll u locked run q batch now =
     (let (claimed, q1) = db_claim u locked q batch now
      in (length claimed, fold (\<lambda>c q. db_finish u q c (fst (run c)) (snd (run c)) now) claimed q1))"

section \<open>Restarts and administrators\<close>

text \<open>
  The start of an API process puts running rows back (\<open>_recover_orphaned_jobs\<close>): the cut-off
  ten minutes ago has a T and is compared with the start time as a text, which has a blank.
  When the query \<open>fails\<close> the process starts all the same.
\<close>

definition orphaned :: "nat \<Rightarrow> job \<Rightarrow> bool" where
  "orphaned now j \<longleftrightarrow> j_status j = JRunning \<and>
     (case j_started_at j of None \<Rightarrow> False | Some w \<Rightarrow> w < iso_z (now - 600))"

definition reset_job :: "job \<Rightarrow> job" where
  "reset_job j = j\<lparr>j_status := JPending, j_started_at := None\<rparr>"

definition db_recover_orphaned :: "jobs \<Rightarrow> nat \<Rightarrow> bool \<Rightarrow> jobs" where
  "db_recover_orphaned q now fails =
     (if fails then q else snd (sql_update (\<lambda>k j. orphaned now j) reset_job q))"

text \<open>
  \<open>retry_job\<close> of the operators' console, without its entries in the audit of administrators:
  what it reads and checks, what it then writes whatever the row has become, and both.
\<close>

definition retry_check :: "jobs \<Rightarrow> string \<Rightarrow> unit res" where
  "retry_check q jid =
     (case dget q jid of
        None \<Rightarrow> Inl (HttpError 404 ''Job not found'')
      | Some j \<Rightarrow>
          if j_status j \<in> {JPending, JRunning} then Inl (HttpError 409 (''Job already '' @ status_text (j_status j)))
          else Inr ())"

definition requeue_job :: "job \<Rightarrow> job" where
  "requeue_job j = j\<lparr>j_status := JPending, j_error := None, j_started_at := None, j_completed_at := None,
     j_scheduled_at := None\<rparr>"

definition retry_write :: "jobs \<Rightarrow> string \<Rightarrow> jobs" where
  "retry_write q jid = snd (sql_update (\<lambda>k j. k = jid) requeue_job q)"

definition retry_job :: "jobs \<Rightarrow> string \<Rightarrow> jobs res" where
  "retry_job q jid = bind_res (retry_check q jid) (\<lambda>_. Inr (retry_write q jid))"

section \<open>Timestamps\<close>

lemma iso_z_le: "time_ok s \<Longrightarrow> time_ok t \<Longrightarrow> iso_z s \<le> iso_z t \<longleftrightarrow> s \<le> t"
proof -
  assume ok: "time_ok s" "time_ok t"
  have "iso_z s < iso_z t \<longleftrightarrow> s < t" if "time_ok s" "time_ok t" for s t
    using that by (simp add: iso_z_def append_less stamp_less_iff)
  then show ?thesis using ok by (metis not_le)
qed

lemma iso_z_less: "time_ok s \<Longrightarrow> time_ok t \<Longrightarrow> iso_z s < iso_z t \<longleftrightarrow> s < t"
  using iso_z_le [of t s] by (metis not_le)

lemma civil_less_iff: "time_ok s \<Longrightarrow> time_ok t \<Longrightarrow>
    date_str (civil (s div 86400)) < date_str (civil (t div 86400)) \<longleftrightarrow> s div 86400 < t div 86400"
proof -
  assume ok: "time_ok s" "time_ok t"
  have l: "date_str (civil (a div 86400)) < date_str (civil (b div 86400))"
    if "a div 86400 < b div 86400" "time_ok a" "time_ok b" for a b
    using that by (intro date_str_less civil_mono valid_civil) (auto simp: time_ok_def)
  show ?thesis using l [of s t] l [of t s] ok by (metis less_asym less_irrefl linorder_neqE_nat)
qed

text \<open>A text with a T is never at most the database's text of the same day.\<close>

lemma iso_z_pg_now:
  assumes "time_ok s" and "time_ok t"
  shows "iso_z s \<le> pg_now u t \<longleftrightarrow> s div 86400 < t div 86400"
proof -
  let ?d = "date_str (civil (s div 86400))" and ?e = "date_str (civil (t div 86400))"
  let ?x = "CHR ''T'' # clock_str (s mod 86400) @ ''Z''" and ?y = "CHR '' '' # clock_str (t mod 86400) @ u"
  have xy: "?y < ?x" by simp
  have "pg_now u t < iso_z s \<longleftrightarrow> ?e < ?d \<or> ?e = ?d \<and> ?y < ?x"
    unfolding pg_now_def iso_z_def stamp_def append_assoc append_Cons
    by (subst append_less) simp_all
  then have "pg_now u t < iso_z s \<longleftrightarrow> ?e \<le> ?d" using xy by (simp add: le_less)
  then show ?thesis using civil_less_iff [OF assms] by (metis not_le)
qed

end
