(* ===== verification/JobQueue.thy ===== *)
theory JobQueue
  imports Jobs
begin

text \<open>
  The contract of the job queue as a locale over its operations, its two interpretations on
  the in-memory and the database operations, and the system of workers, clients and the reaper
  over such a queue as a step relation: what is running is the list of claimed jobs whose
  execution has not ended. Any number of workers may claim, and executions end in any order.
\<close>

record job_ops =
  jo_submit :: "jobs \<Rightarrow> string \<Rightarrow> scope \<Rightarrow> string option \<Rightarrow> string \<Rightarrow> string \<Rightarrow> pydict \<Rightarrow> int option \<Rightarrow> nat \<Rightarrow> jobs res"
  jo_cancel :: "jobs \<Rightarrow> string \<Rightarrow> scope \<Rightarrow> nat \<Rightarrow> bool \<times> jobs"
  jo_claim :: "jobs \<Rightarrow> nat \<Rightarrow> nat \<Rightarrow> job list \<times> jobs"
  jo_finish :: "jobs \<Rightarrow> job \<Rightarrow> bool \<Rightarrow> pydict res \<Rightarrow> nat \<Rightarrow> jobs"
  jo_reap :: "jobs \<Rightarrow> nat \<Rightarrow> nat \<times> jobs"
  jo_shared :: bool
  jo_restart :: "jobs \<Rightarrow> nat \<Rightarrow> bool \<Rightarrow> jobs"
  jo_retry_check :: "jobs \<Rightarrow> string \<Rightarrow> unit res"
  jo_retry_write :: "jobs \<Rightarrow> string \<Rightarrow> jobs"
  jo_purge :: "jobs \<Rightarrow> (job \<Rightarrow> bool) \<Rightarrow> jobs"

text \<open>
  The service without an engine, and with one. The dictionary dies with its process, and the
  operators' console and the deletions of the lifecycle and of projects work on the table only.
\<close>

definition mem_ops :: job_ops where
  "mem_ops = \<lparr>jo_submit = mem_submit, jo_cancel = mem_cancel, jo_claim = mem_claim, jo_finish = mem_finish,
     jo_reap = mem_reap, jo_shared = False, jo_restart = (\<lambda>q t fails. []),
     jo_retry_check = (\<lambda>q. retry_check []), jo_retry_write = (\<lambda>q jid. q), jo_purge = (\<lambda>q P. q)\<rparr>"

definition purge_rows :: "jobs \<Rightarrow> (job \<Rightarrow> bool) \<Rightarrow> jobs" where
  "purge_rows q P = filter (\<lambda>(k, j). \<not> P j) q"

definition db_ops :: "string \<Rightarrow> string set \<Rightarrow> job_ops" where
  "db_ops u locked = \<lparr>jo_submit = db_submit, jo_cancel = db_cancel u, jo_claim = db_claim u locked,
     jo_finish = db_finish u, jo_reap = db_reap, jo_shared = True, jo_restart = db_recover_orphaned,
     jo_retry_check = retry_check, jo_retry_write = retry_write, jo_purge = purge_rows\<rparr>"

section \<open>The system\<close>

text \<open>
  \<open>sy_retrying\<close> holds the jobs whose retry has passed its check and not yet written. The last
  three components only record: how often each job has been claimed, the jobs of which an
  execution has ended without its result reaching the queue, and the jobs that were put back
  to pending while an execution of them was still under way.
\<close>

record jsys =
  sy_queue :: jobs
  sy_running :: "job list"
  sy_now :: nat
  sy_retrying :: "string set"
  sy_starts :: "string \<Rightarrow> nat"
  sy_lost :: "string set"
  sy_reset :: "string set"

definition starts_of :: "string \<Rightarrow> job list \<Rightarrow> nat" where
  "starts_of k cs = length (filter (\<lambda>c. j_id c = k) cs)"

text \<open>
  In a \<open>restart\<close> any of the executions end without a result, those not \<open>alive\<close> (their
  process has died, or the database has refused the write), and a process starts.
\<close>

inductive job_step :: "job_ops \<Rightarrow> jsys \<Rightarrow> jsys \<Rightarrow> bool" for Q where
  tick: "sy_now s \<le> t \<Longrightarrow> job_step Q s (s\<lparr>sy_now := t\<rparr>)"
| submit: "jid \<notin> fst ` set (sy_queue s) \<Longrightarrow> sy_starts s jid = 0 \<Longrightarrow>
    jo_submit Q (sy_queue s) jid sc key rid op params max_exec (sy_now s) = Inr q \<Longrightarrow>
    job_step Q s (s\<lparr>sy_queue := q\<rparr>)"
| cancel: "jo_cancel Q (sy_queue s) jid sc (sy_now s) = (b, q) \<Longrightarrow> job_step Q s (s\<lparr>sy_queue := q\<rparr>)"
| claim: "jo_claim Q (sy_queue s) n (sy_now s) = (cs, q) \<Longrightarrow>
    job_step Q s (s\<lparr>sy_queue := q, sy_running := sy_running s @ cs,
      sy_starts := (\<lambda>k. sy_starts s k + starts_of k cs)\<rparr>)"
| finish: "sy_running s = xs @ c # ys \<Longrightarrow>
    job_step Q s (s\<lparr>sy_queue := jo_finish Q (sy_queue s) c late r (sy_now s), sy_running := xs @ ys\<rparr>)"
| reap: "jo_reap Q (sy_queue s) (sy_now s) = (n, q) \<Longrightarrow> job_step Q s (s\<lparr>sy_queue := q\<rparr>)"
| restart: "rs = filter alive (sy_running s) \<Longrightarrow> jo_shared Q \<or> rs = [] \<Longrightarrow>
    q = jo_restart Q (sy_queue s) (sy_now s) fails \<Longrightarrow>
    job_step Q s (s\<lparr>sy_queue := q, sy_running := rs,
      sy_lost := sy_lost s \<union> j_id ` {c \<in> set (sy_running s). \<not> alive c},
      sy_reset := sy_reset s \<union> {k \<in> j_id ` set rs. dget q k \<noteq> dget (sy_queue s) k}\<rparr>)"
| retry_read: "jo_retry_check Q (sy_queue s) jid = Inr () \<Longrightarrow>
    job_step Q s (s\<lparr>sy_retrying := insert jid (sy_retrying s)\<rparr>)"
| retry_write: "jid \<in> sy_retrying s \<Longrightarrow>
    job_step Q s (s\<lparr>sy_queue := jo_retry_write Q (sy_queue s) jid,
      sy_reset := sy_reset s \<union> {jid} \<inter> j_id ` set (sy_running s)\<rparr>)"
| purge: "job_step Q s (s\<lparr>sy_queue := jo_purge Q (sy_queue s) P\<rparr>)"

definition jsys_init :: "nat \<Rightarrow> jsys" where
  "jsys_init t = \<lparr>sy_queue = [], sy_running = [], sy_now = t, sy_retrying = {}, sy_starts = (\<lambda>k. 0),
     sy_lost = {}, sy_reset = {}\<rparr>"

text \<open>Reachable states, when each step may use any of the operations given.\<close>

inductive job_reach :: "job_ops set \<Rightarrow> jsys \<Rightarrow> bool" for Qs where
  start: "job_reach Qs (jsys_init t)"
| next_step: "job_reach Qs s \<Longrightarrow> Q \<in> Qs \<Longrightarrow> job_step Q s s' \<Longrightarrow> job_reach Qs s'"

definition final_status :: "job_status set" where
  "final_status = {JCompleted, JFailed, JCancelled}"

definition job_table :: "jobs \<Rightarrow> bool" where
  "job_table q \<longleftrightarrow> wf_dict q \<and> (\<forall>k j. dget q k = Some j \<longrightarrow> j_id j = k)"

text \<open>A claimed job and its entry in the queue agree on what finishing reads.\<close>

definition claim_of :: "job \<Rightarrow> job \<Rightarrow> bool" where
  "claim_of c j \<longleftrightarrow> j_attempts j = j_attempts c \<and> j_max_attempts j = j_max_attempts c \<and> j_max_exec j = j_max_exec c"

definition jsys_ok :: "jsys \<Rightarrow> bool" where
  "jsys_ok s \<longleftrightarrow> job_table (sy_queue s) \<and> (\<forall>k. sy_starts s k \<le> 3) \<and>
     (\<forall>c \<in> set (sy_running s). 0 < sy_starts s (j_id c)) \<and>
     (\<forall>k j. dget (sy_queue s) k = Some j \<longrightarrow> j_attempts j = sy_starts s k \<and> j_max_attempts j = 3 \<and>
        (j_status j = JRunning \<longrightarrow> k \<in> j_id ` set (sy_running s) \<or> k \<in> sy_lost s)) \<and>
     (\<forall>k. k \<notin> sy_reset s \<longrightarrow> starts_of k (sy_running s) \<le> 1 \<and>
        (\<forall>j. k \<in> j_id ` set (sy_running s) \<longrightarrow> dget (sy_queue s) k = Some j \<longrightarrow> j_status j \<in> {JRunning, JExpired}))"

lemma job_reach_ok:
  assumes "job_reach Qs s" and "\<And>Q s s'. Q \<in> Qs \<Longrightarrow> job_step Q s s' \<Longrightarrow> jsys_ok s \<Longrightarrow> jsys_ok s'"
  shows "jsys_ok s"
  using assms(1)
proof (induction rule: job_reach.induct)
  case (start t)
  show ?case by (simp add: jsys_ok_def jsys_init_def job_table_def starts_of_def)
next
  case (next_step s Q s')
  then show ?case using assms(2) by blast
qed

text \<open>A serial poll over any operations.\<close>

definition poll_ops :: "job_ops \<Rightarrow> (job \<Rightarrow> bool \<times> pydict res) \<Rightarrow> jobs \<Rightarrow> nat \<Rightarrow> nat \<Rightarrow> nat \<times> jobs" where
  "poll_ops Q run q batch now =
     (let (claimed, q1) = jo_claim Q q batch now
      in (length claimed, fold (\<lambda>c q. jo_finish Q q c (fst (run c)) (snd (run c)) now) claimed q1))"

lemma mem_poll_ops: "mem_poll run q n t = poll_ops mem_ops run q n t"
  by (simp add: mem_poll_def poll_ops_def mem_ops_def)

lemma db_poll_ops: "db_poll u locked run q n t = poll_ops (db_ops u locked) run q n t"
  by (simp add: db_poll_def poll_ops_def db_ops_def)

section \<open>The contract\<close>

locale job_queue =
  fixes Q :: job_ops and due :: "nat \<Rightarrow> job \<Rightarrow> bool"
  assumes submit_law: "job_table q \<Longrightarrow> k \<notin> fst ` set q \<Longrightarrow>
      jo_submit Q q k sc key rid op params max_exec t = Inr q' \<Longrightarrow>
      job_table q' \<and> dget q' = (dget q)(k \<mapsto> new_job k sc key rid op params max_exec t)"
    and cancel_law: "job_table q \<Longrightarrow> jo_cancel Q q k sc t = (b, q') \<Longrightarrow>
      job_table q' \<and> (b \<longleftrightarrow> (\<exists>j. dget q k = Some j \<and> in_job_scope sc j \<and> j_status j = JPending)) \<and>
      (\<exists>w. dget q' = (if b then (dget q)(k := map_option (\<lambda>j. j\<lparr>j_status := JCancelled, j_completed_at := Some w\<rparr>) (dget q k))
        else dget q))"
    and claim_law: "job_table q \<Longrightarrow> jo_claim Q q n t = (cs, q') \<Longrightarrow>
      job_table q' \<and> length cs \<le> n \<and> distinct (map j_id cs) \<and>
      (\<exists>w. (\<forall>c \<in> set cs. \<exists>j. dget q (j_id c) = Some j \<and> c = start_job w j \<and> j_status j = JPending \<and>
              j_attempts j < j_max_attempts j \<and> due t j) \<and>
           (\<forall>k. dget q' k = map_option (\<lambda>j. if k \<in> j_id ` set cs then start_job w j else j) (dget q k)))"
    and claim_oldest: "job_table q \<Longrightarrow> jo_claim Q q n t = (cs, q') \<Longrightarrow> dget q k = Some j \<Longrightarrow>
      j_status j = JPending \<Longrightarrow> j_attempts j < j_max_attempts j \<Longrightarrow> due t j \<Longrightarrow> k \<notin> j_id ` set cs \<Longrightarrow>
      length cs = n \<and> (\<forall>c \<in> set cs. j_created_at c \<le> j_created_at j)"
    and finish_law: "job_table q \<Longrightarrow> dget q (j_id c) = Some j \<Longrightarrow> claim_of c j \<Longrightarrow>
      job_table (jo_finish Q q c late r t) \<and>
      (\<exists>w. dget (jo_finish Q q c late r t) = (dget q)(j_id c \<mapsto>
         finish_job (j_attempts c) (j_max_attempts c) (j_max_exec c) w late r t j))"
    and reap_law: "job_table q \<Longrightarrow> jo_reap Q q t = (n, q') \<Longrightarrow>
      job_table q' \<and> (\<exists>w P. \<forall>k. dget q' k =
        map_option (\<lambda>j. if P k \<and> j_status j = JRunning then expire_job w j else j) (dget q k))"
    and finish_frame: "job_table q \<Longrightarrow> job_table (jo_finish Q q c late r t) \<and>
      (\<exists>a m x w. \<forall>k. dget (jo_finish Q q c late r t) k =
        map_option (\<lambda>j. if k = j_id c then finish_job a m x w late r t j else j) (dget q k))"
    and restart_law: "job_table q \<Longrightarrow> job_table (jo_restart Q q t fails) \<and>
      (if jo_shared Q then \<exists>P. \<forall>k. dget (jo_restart Q q t fails) k =
         map_option (\<lambda>j. if P j \<and> j_status j = JRunning then reset_job j else j) (dget q k)
       else jo_restart Q q t fails = [])"
    and retry_law: "job_table q \<Longrightarrow> job_table (jo_retry_write Q q jid) \<and>
      (\<exists>b. \<forall>k. dget (jo_retry_write Q q jid) k =
         map_option (\<lambda>j. if b \<and> k = jid then requeue_job j else j) (dget q k))"
    and purge_law: "job_table q \<Longrightarrow> job_table (jo_purge Q q P) \<and>
      (\<forall>k j'. dget (jo_purge Q q P) k = Some j' \<longrightarrow> dget q k = Some j')"
begin

text \<open>A step that starts nothing: rows and executions may change or go, within the invariant.\<close>

lemma change_ok:
  assumes "jsys_ok s" and "job_table q" and "set rs \<subseteq> set (sy_running s)"
    and "\<forall>k. starts_of k rs \<le> starts_of k (sy_running s)" and "sy_lost s \<subseteq> L" and "sy_reset s \<subseteq> R"
    and rows: "\<And>k j'. dget q k = Some j' \<Longrightarrow> \<exists>j. dget (sy_queue s) k = Some j \<and> j_attempts j' = j_attempts j \<and>
      j_max_attempts j' = j_max_attempts j \<and>
      (j_status j' = JRunning \<longrightarrow> j_status j = JRunning \<and> (k \<in> j_id ` set (sy_running s) \<longrightarrow> k \<in> j_id ` set rs \<union> L)) \<and>
      (k \<notin> R \<longrightarrow> k \<in> j_id ` set rs \<longrightarrow> j_status j \<in> {JRunning, JExpired} \<longrightarrow> j_status j' \<in> {JRunning, JExpired})"
  shows "jsys_ok (s\<lparr>sy_queue := q, sy_running := rs, sy_lost := L, sy_reset := R\<rparr>)"
proof -
  have "j_attempts j' = sy_starts s k \<and> j_max_attempts j' = 3 \<and> (j_status j' = JRunning \<longrightarrow> k \<in> j_id ` set rs \<or> k \<in> L)"
    if row: "dget q k = Some j'" for k j'
  proof -
    obtain j where j: "dget (sy_queue s) k = Some j" "j_attempts j' = j_attempts j" "j_max_attempts j' = j_max_attempts j"
      "j_status j' = JRunning \<longrightarrow> j_status j = JRunning \<and> (k \<in> j_id ` set (sy_running s) \<longrightarrow> k \<in> j_id ` set rs \<union> L)"
      using rows [OF row] by blast
    then have "j_attempts j = sy_starts s k" "j_max_attempts j = 3"
      "j_status j = JRunning \<longrightarrow> k \<in> j_id ` set (sy_running s) \<or> k \<in> sy_lost s" using assms(1) by (simp_all add: jsys_ok_def)
    then show ?thesis using j(2-4) assms(5) by auto
  qed
  moreover have "starts_of k rs \<le> 1" if "k \<notin> R" for k
    using that assms(1,4,6) le_trans unfolding jsys_ok_def by blast
  moreover have "j_status j' \<in> {JRunning, JExpired}" if k: "k \<notin> R" "k \<in> j_id ` set rs" "dget q k = Some j'" for k j'
  proof -
    have "k \<notin> sy_reset s" "k \<in> j_id ` set (sy_running s)" using k assms(3,6) by blast+
    then have "\<And>j. dget (sy_queue s) k = Some j \<Longrightarrow> j_status j \<in> {JRunning, JExpired}"
      using assms(1) unfolding jsys_ok_def by blast
    then show ?thesis using rows [OF k(3)] k(1,2) by blast
  qed
  ultimately show ?thesis using assms(1-3) by (auto simp: jsys_ok_def)
qed

lemmas change_queue_ok = change_ok [where rs = "sy_running s" and L = "sy_lost s" and R = "sy_reset s" and s = s for s, simplified]

lemma not_started:
  assumes "jsys_ok s" and "sy_starts s k = 0"
  shows "k \<notin> j_id ` set (sy_running s)"
  using assms by (force simp: jsys_ok_def)

lemma submit_ok:
  assumes "jsys_ok s" and "jid \<notin> fst ` set (sy_queue s)" and "sy_starts s jid = 0"
    and "jo_submit Q (sy_queue s) jid sc key rid op params max_exec (sy_now s) = Inr q"
  shows "jsys_ok (s\<lparr>sy_queue := q\<rparr>)"
proof -
  have q: "job_table q" "dget q = (dget (sy_queue s))(jid \<mapsto> new_job jid sc key rid op params max_exec (sy_now s))"
    using submit_law [OF _ assms(2,4)] assms(1) by (simp_all add: jsys_ok_def)
  then show ?thesis using assms(1,3) not_started [OF assms(1,3)] by (simp add: jsys_ok_def new_job_def)
qed

lemma cancel_ok:
  assumes "jsys_ok s" and "jo_cancel Q (sy_queue s) jid sc (sy_now s) = (b, q)"
  shows "jsys_ok (s\<lparr>sy_queue := q\<rparr>)"
proof -
  obtain w where q: "job_table q" "b \<longrightarrow> (\<exists>j. dget (sy_queue s) jid = Some j \<and> j_status j = JPending)"
    "dget q = (if b then (dget (sy_queue s))(jid := map_option (\<lambda>j. j\<lparr>j_status := JCancelled, j_completed_at := Some w\<rparr>)
       (dget (sy_queue s) jid)) else dget (sy_queue s))"
    using cancel_law [OF _ assms(2)] assms(1) by (auto simp: jsys_ok_def)
  show ?thesis by (rule change_queue_ok [OF assms(1) q(1)]) (use q(2,3) in \<open>auto split: if_splits\<close>)
qed

lemma finish_job_status:
  "j_status (finish_job a m x w late r t j) \<noteq> JRunning"
  "j_attempts (finish_job a m x w late r t j) = j_attempts j"
  "j_max_attempts (finish_job a m x w late r t j) = j_max_attempts j"
  by (auto simp: finish_job_def split: sum.split)

lemma starts_of_pos: "0 < starts_of k cs \<longleftrightarrow> k \<in> j_id ` set cs"
  by (auto simp: starts_of_def filter_empty_conv)

lemma starts_of_distinct: "distinct (map j_id cs) \<Longrightarrow> starts_of k cs = (if k \<in> j_id ` set cs then 1 else 0)"
  by (induction cs) (auto simp: starts_of_def)

lemma starts_of_append [simp]: "starts_of k (xs @ ys) = starts_of k xs + starts_of k ys"
  by (simp add: starts_of_def)

lemma starts_of_Cons [simp]: "starts_of k (c # cs) = (if j_id c = k then 1 else 0) + starts_of k cs"
  by (simp add: starts_of_def)

lemma starts_of_filter: "starts_of k (filter P cs) \<le> starts_of k cs"
  by (induction cs) (auto simp: starts_of_def)

lemma claim_ok:
  assumes "jsys_ok s" and "jo_claim Q (sy_queue s) n (sy_now s) = (cs, q)"
  shows "jsys_ok (s\<lparr>sy_queue := q, sy_running := sy_running s @ cs, sy_starts := (\<lambda>k. sy_starts s k + starts_of k cs)\<rparr>)"
proof -
  let ?q = "sy_queue s" and ?R = "sy_running s" and ?I = "j_id ` set cs"
  obtain w where q: "job_table q" "distinct (map j_id cs)"
    "\<forall>c \<in> set cs. \<exists>j. dget ?q (j_id c) = Some j \<and> c = start_job w j \<and> j_status j = JPending \<and>
       j_attempts j < j_max_attempts j"
    "\<forall>k. dget q k = map_option (\<lambda>j. if k \<in> ?I then start_job w j else j) (dget ?q k)"
  proof -
    have "job_table ?q" using assms(1) by (simp add: jsys_ok_def)
    from claim_law [OF this assms(2)] show thesis by (elim conjE exE) (rule that, blast+)
  qed
  have row: "\<exists>j. dget ?q k = Some j \<and> j_status j = JPending \<and> sy_starts s k < 3" if "k \<in> ?I" for k
    using that q(3) assms(1) by (fastforce simp: jsys_ok_def)
  note st = starts_of_distinct [OF q(2)]
  have "sy_starts s k + starts_of k cs \<le> 3" for k using row [of k] assms(1) by (auto simp: st jsys_ok_def)
  moreover have "0 < sy_starts s (j_id c) + starts_of (j_id c) cs" if "c \<in> set (?R @ cs)" for c
    using that assms(1) by (auto simp: st jsys_ok_def)
  moreover have "j_attempts j = sy_starts s k + starts_of k cs \<and> j_max_attempts j = 3 \<and>
      (j_status j = JRunning \<longrightarrow> k \<in> j_id ` set (?R @ cs) \<or> k \<in> sy_lost s)" if kj: "dget q k = Some j" for k j
  proof -
    obtain i where i: "dget ?q k = Some i" "j = (if k \<in> ?I then start_job w i else i)" using kj q(4) by auto
    then have "j_attempts i = sy_starts s k" "j_max_attempts i = 3"
      "j_status i = JRunning \<longrightarrow> k \<in> j_id ` set ?R \<or> k \<in> sy_lost s" using assms(1) by (simp_all add: jsys_ok_def)
    then show ?thesis using i(2) by (auto simp: st start_job_def)
  qed
  moreover have "starts_of k (?R @ cs) \<le> 1 \<and> (\<forall>j. k \<in> j_id ` set (?R @ cs) \<longrightarrow> dget q k = Some j \<longrightarrow>
      j_status j \<in> {JRunning, JExpired})" if k: "k \<notin> sy_reset s" for k
  proof (cases "k \<in> ?I")
    case True
    then have "k \<notin> j_id ` set ?R" using row [OF True] k assms(1) by (fastforce simp: jsys_ok_def)
    then have "starts_of k ?R = 0" using starts_of_pos [of k ?R] by blast
    then show ?thesis using True row [OF True] q(4) by (auto simp: st start_job_def)
  next
    case False
    then show ?thesis using k q(4) assms(1) by (auto simp: st jsys_ok_def image_Un)
  qed
  ultimately show ?thesis using q(1) by (simp add: jsys_ok_def)
qed

lemma finish_ok:
  assumes "jsys_ok s" and "sy_running s = xs @ c # ys"
  shows "jsys_ok (s\<lparr>sy_queue := jo_finish Q (sy_queue s) c late r (sy_now s), sy_running := xs @ ys\<rparr>)"
proof -
  let ?q = "jo_finish Q (sy_queue s) c late r (sy_now s)"
  obtain a m x w where q: "job_table ?q" "\<forall>k. dget ?q k =
      map_option (\<lambda>j. if k = j_id c then finish_job a m x w late r (sy_now s) j else j) (dget (sy_queue s) k)"
    using finish_frame assms(1) by (fastforce simp: jsys_ok_def)
  have once: "j_id c \<in> sy_reset s" if "j_id c \<in> j_id ` set (xs @ ys)"
  proof (rule ccontr)
    assume "j_id c \<notin> sy_reset s"
    then have "starts_of (j_id c) (xs @ c # ys) \<le> 1" using assms(1) unfolding jsys_ok_def assms(2) by blast
    then show False using that starts_of_pos [of "j_id c" "xs @ ys"] by simp
  qed
  have "jsys_ok (s\<lparr>sy_queue := ?q, sy_running := xs @ ys, sy_lost := sy_lost s, sy_reset := sy_reset s\<rparr>)"
  proof (rule change_ok [OF assms(1) q(1)], goal_cases)
    case (5 k j')
    then obtain j where "dget (sy_queue s) k = Some j"
      "j' = (if k = j_id c then finish_job a m x w late r (sy_now s) j else j)" using q(2) by auto
    then show ?case using once assms(2) by (auto simp: finish_job_status)
  qed (use assms(2) in auto)
  then show ?thesis by simp
qed

lemma reap_ok:
  assumes "jsys_ok s" and "jo_reap Q (sy_queue s) (sy_now s) = (n, q)"
  shows "jsys_ok (s\<lparr>sy_queue := q\<rparr>)"
proof -
  obtain w P where q: "job_table q" "\<forall>k. dget q k =
      map_option (\<lambda>j. if P k \<and> j_status j = JRunning then expire_job w j else j) (dget (sy_queue s) k)"
    using reap_law [OF _ assms(2)] assms(1) by (auto simp: jsys_ok_def)
  show ?thesis by (rule change_queue_ok [OF assms(1) q(1)]) (use q(2) in \<open>auto simp: expire_job_def\<close>)
qed

lemma restart_ok:
  assumes "jsys_ok s" and "rs = filter alive (sy_running s)" and "q = jo_restart Q (sy_queue s) (sy_now s) fails"
  shows "jsys_ok (s\<lparr>sy_queue := q, sy_running := rs,
      sy_lost := sy_lost s \<union> j_id ` {c \<in> set (sy_running s). \<not> alive c},
      sy_reset := sy_reset s \<union> {k \<in> j_id ` set rs. dget q k \<noteq> dget (sy_queue s) k}\<rparr>)"
proof (rule change_ok [OF assms(1)], goal_cases)
  case 1
  show ?case using restart_law assms(1,3) by (simp add: jsys_ok_def)
next
  case (6 k j')
  then obtain j where "dget (sy_queue s) k = Some j" "j' = j \<or> j_status j = JRunning \<and> j' = reset_job j"
    using restart_law [of "sy_queue s" "sy_now s" fails] assms(1,3) by (auto simp: jsys_ok_def split: if_splits)
  then show ?case using 6 assms(2) by (auto simp: reset_job_def)
qed (use assms(2) starts_of_filter in auto)

lemma retry_ok:
  assumes "jsys_ok s"
  shows "jsys_ok (s\<lparr>sy_queue := jo_retry_write Q (sy_queue s) jid, sy_reset := sy_reset s \<union> {jid} \<inter> j_id ` set (sy_running s)\<rparr>)"
proof -
  obtain b where q: "job_table (jo_retry_write Q (sy_queue s) jid)" "\<forall>k. dget (jo_retry_write Q (sy_queue s) jid) k =
      map_option (\<lambda>j. if b \<and> k = jid then requeue_job j else j) (dget (sy_queue s) k)"
    using retry_law assms by (fastforce simp: jsys_ok_def)
  have "jsys_ok (s\<lparr>sy_queue := jo_retry_write Q (sy_queue s) jid, sy_running := sy_running s, sy_lost := sy_lost s,
      sy_reset := sy_reset s \<union> {jid} \<inter> j_id ` set (sy_running s)\<rparr>)"
    by (rule change_ok [OF assms q(1)]) (use q(2) in \<open>auto simp: requeue_job_def\<close>)
  then show ?thesis by simp
qed

lemma purge_ok:
  assumes "jsys_ok s"
  shows "jsys_ok (s\<lparr>sy_queue := jo_purge Q (sy_queue s) P\<rparr>)"
proof -
  have "job_table (sy_queue s)" using assms by (simp add: jsys_ok_def)
  note p = purge_law [OF this, of P]
  show ?thesis
  proof (rule change_queue_ok [OF assms conjunct1 [OF p]], goal_cases)
    case (1 k j')
    then have "dget (sy_queue s) k = Some j'" using p by blast
    then show ?case by (intro exI [of _ j']) simp
  qed
qed

lemma step_ok: "job_step Q s s' \<Longrightarrow> jsys_ok s \<Longrightarrow> jsys_ok s'"
proof (induction rule: job_step.induct)
  case (tick s t)
  then show ?case by (simp add: jsys_ok_def)
next
  case retry_read
  then show ?case by (simp add: jsys_ok_def)
next
  case submit
  then show ?case by (intro submit_ok)
next
  case cancel
  then show ?case by (intro cancel_ok)
next
  case claim
  then show ?case by (intro claim_ok)
next
  case finish
  then show ?case by (intro finish_ok)
next
  case reap
  then show ?case by (intro reap_ok)
next
  case restart
  then show ?case by (intro restart_ok)
next
  case retry_write
  then show ?case by (intro retry_ok)
next
  case purge
  then show ?case by (intro purge_ok)
qed

text \<open>
  What a step does to a row: it stays in the table unless it is deleted or the dictionary is
  gone with its process, its attempts never fall, and a job that is completed, failed or
  cancelled changes only where an administrator retries it, or a second execution of it ends.
\<close>

lemma row_step:
  assumes "job_step Q s s'" and "jsys_ok s" and "dget (sy_queue s) k = Some j"
  shows "dget (sy_queue s') k = None \<and> ((\<exists>P. sy_queue s' = jo_purge Q (sy_queue s) P) \<or> \<not> jo_shared Q \<and> sy_queue s' = []) \<or>
    (\<exists>j'. dget (sy_queue s') k = Some j' \<and> j_attempts j \<le> j_attempts j' \<and>
       (j_status j \<in> final_status \<longrightarrow> k \<notin> sy_reset s \<longrightarrow> j' = j \<or> k \<in> sy_retrying s \<and> j' = requeue_job j))"
  using assms
proof (induction rule: job_step.induct)
  case (submit jid s sc key rid op params max_exec q)
  have "dget (sy_queue s) jid = None" using submit(1) by (simp add: dget_None_iff)
  then show ?case using submit_law [OF _ submit(1,3)] submit(4,5) by (auto simp: jsys_ok_def)
next
  case (cancel s jid sc b q)
  obtain w where "b \<longrightarrow> (\<exists>j. dget (sy_queue s) jid = Some j \<and> j_status j = JPending)"
    "dget q = (if b then (dget (sy_queue s))(jid := map_option (\<lambda>j. j\<lparr>j_status := JCancelled, j_completed_at := Some w\<rparr>)
       (dget (sy_queue s) jid)) else dget (sy_queue s))"
    using cancel_law [OF _ cancel(1)] cancel(2) by (auto simp: jsys_ok_def)
  then show ?case using cancel(3) by (cases "b \<and> k = jid") (auto simp: final_status_def)
next
  case (claim s n cs q)
  obtain w where "\<forall>c \<in> set cs. \<exists>j. dget (sy_queue s) (j_id c) = Some j \<and> j_status j = JPending"
    "\<forall>k. dget q k = map_option (\<lambda>j. if k \<in> j_id ` set cs then start_job w j else j) (dget (sy_queue s) k)"
    using claim_law [OF _ claim(1)] claim(2) by (auto simp: jsys_ok_def) blast
  then show ?case using claim(3) by (cases "k \<in> j_id ` set cs") (auto simp: final_status_def start_job_def)
next
  case (finish s xs c ys late r)
  obtain a m x w where q: "\<forall>k. dget (jo_finish Q (sy_queue s) c late r (sy_now s)) k =
      map_option (\<lambda>j. if k = j_id c then finish_job a m x w late r (sy_now s) j else j) (dget (sy_queue s) k)"
    using finish_frame finish(2) by (fastforce simp: jsys_ok_def)
  have "j_status j \<in> {JRunning, JExpired}" if "k = j_id c" "k \<notin> sy_reset s"
  proof -
    have "k \<in> j_id ` set (sy_running s)" using finish(1) that(1) by simp
    then show ?thesis using finish(2,3) that(2) unfolding jsys_ok_def by blast
  qed
  then show ?case using q finish(3) by (cases "k = j_id c") (auto simp: finish_job_status final_status_def)
next
  case (reap s n q)
  obtain w P where "\<forall>k. dget q k =
      map_option (\<lambda>j. if P k \<and> j_status j = JRunning then expire_job w j else j) (dget (sy_queue s) k)"
    using reap_law [OF _ reap(1)] reap(2) by (auto simp: jsys_ok_def)
  then show ?case using reap(3) by (cases "P k \<and> j_status j = JRunning") (auto simp: final_status_def expire_job_def)
next
  case (restart rs alive s q fails)
  show ?case
  proof (cases "jo_shared Q")
    case True
    then obtain P where "\<forall>k. dget q k = map_option (\<lambda>j. if P j \<and> j_status j = JRunning then reset_job j else j) (dget (sy_queue s) k)"
      using restart_law [of "sy_queue s" "sy_now s" fails] restart(3,4) by (auto simp: jsys_ok_def)
    then show ?thesis using restart(5)
      by (cases "P j \<and> j_status j = JRunning") (auto simp: final_status_def reset_job_def)
  next
    case False
    then show ?thesis using restart_law [of "sy_queue s" "sy_now s" fails] restart(3,4) by (auto simp: jsys_ok_def)
  qed
next
  case (retry_write jid s)
  obtain b where "\<forall>k. dget (jo_retry_write Q (sy_queue s) jid) k =
      map_option (\<lambda>j. if b \<and> k = jid then requeue_job j else j) (dget (sy_queue s) k)"
    using retry_law retry_write(2) by (fastforce simp: jsys_ok_def)
  then show ?case using retry_write(1,3) by (cases "b \<and> k = jid") (auto simp: requeue_job_def)
next
  case (purge s P)
  then show ?case using purge_law [of "sy_queue s" P] by (cases "dget (jo_purge Q (sy_queue s) P) k") (auto simp: jsys_ok_def)
qed auto

text \<open>Finishing a list of claimed jobs touches only these jobs.\<close>

lemma fold_finish:
  assumes "job_table q" and "distinct (map j_id cs)"
    and "\<forall>c \<in> set cs. \<exists>j. dget q (j_id c) = Some j \<and> claim_of c j"
  shows "job_table (fold (\<lambda>c q. jo_finish Q q c (fst (run c)) (snd (run c)) t) cs q) \<and>
    (\<forall>k. k \<notin> j_id ` set cs \<longrightarrow>
       dget (fold (\<lambda>c q. jo_finish Q q c (fst (run c)) (snd (run c)) t) cs q) k = dget q k) \<and>
    (\<forall>c \<in> set cs. \<exists>j w. dget q (j_id c) = Some j \<and>
       dget (fold (\<lambda>c q. jo_finish Q q c (fst (run c)) (snd (run c)) t) cs q) (j_id c) =
       Some (finish_job (j_attempts c) (j_max_attempts c) (j_max_exec c) w (fst (run c)) (snd (run c)) t j))"
  using assms
proof (induction cs arbitrary: q)
  case (Cons c cs)
  let ?q1 = "jo_finish Q q c (fst (run c)) (snd (run c)) t"
  obtain j where j: "dget q (j_id c) = Some j" "claim_of c j" using Cons.prems(3) by auto
  obtain w where q1: "job_table ?q1" "dget ?q1 = (dget q)(j_id c \<mapsto>
      finish_job (j_attempts c) (j_max_attempts c) (j_max_exec c) w (fst (run c)) (snd (run c)) t j)"
    using finish_law [OF Cons.prems(1) j] by blast
  have ne: "j_id d \<noteq> j_id c" if "d \<in> set cs" for d using that Cons.prems(2) by (metis distinct.simps(2) imageI list.map(2) list.set_map)
  have pre: "\<forall>d \<in> set cs. \<exists>j. dget ?q1 (j_id d) = Some j \<and> claim_of d j"
    using Cons.prems(3) ne q1(2) by simp
  note IH = Cons.IH [OF q1(1) _ pre]
  have c: "j_id c \<notin> j_id ` set cs" using Cons.prems(2) by simp
  show ?case
  proof (intro conjI ballI allI impI)
    show "job_table (fold (\<lambda>c q. jo_finish Q q c (fst (run c)) (snd (run c)) t) (c # cs) q)"
      using IH Cons.prems(2) by simp
    show "dget (fold (\<lambda>c q. jo_finish Q q c (fst (run c)) (snd (run c)) t) (c # cs) q) k = dget q k"
      if "k \<notin> j_id ` set (c # cs)" for k
      using IH Cons.prems(2) that q1(2) by simp
    show "\<exists>j w. dget q (j_id d) = Some j \<and>
       dget (fold (\<lambda>c q. jo_finish Q q c (fst (run c)) (snd (run c)) t) (c # cs) q) (j_id d) =
       Some (finish_job (j_attempts d) (j_max_attempts d) (j_max_exec d) w (fst (run d)) (snd (run d)) t j)"
      if "d \<in> set (c # cs)" for d
    proof (cases "d = c")
      case True
      then show ?thesis using IH Cons.prems(2) c q1(2) j(1) by auto
    next
      case False
      then have "d \<in> set cs" using that by simp
      then show ?thesis using IH Cons.prems(2) q1(2) ne by fastforce
    qed
  qed
qed simp

text \<open>
  A poll that can take the whole queue executes exactly the due pending jobs: each ends as its
  result says, all others stay as they are.
\<close>

lemma poll_effect:
  assumes "job_table q" and "length q \<le> n" and "dget q k = Some j"
  shows "job_table (snd (poll_ops Q run q n t)) \<and>
    (if j_status j = JPending \<and> j_attempts j < j_max_attempts j \<and> due t j
     then (\<exists>w1 w2. let c = start_job w1 j in
       dget (snd (poll_ops Q run q n t)) k =
       Some (finish_job (j_attempts c) (j_max_attempts c) (j_max_exec c) w2 (fst (run c)) (snd (run c)) t c))
     else dget (snd (poll_ops Q run q n t)) k = Some j)"
proof -
  obtain cs q1 where cl: "jo_claim Q q n t = (cs, q1)" by (cases "jo_claim Q q n t")
  obtain w where c: "job_table q1" "length cs \<le> n" "distinct (map j_id cs)"
    "\<forall>c \<in> set cs. \<exists>j. dget q (j_id c) = Some j \<and> c = start_job w j \<and> j_status j = JPending \<and>
       j_attempts j < j_max_attempts j \<and> due t j"
    "\<forall>k. dget q1 k = map_option (\<lambda>j. if k \<in> j_id ` set cs then start_job w j else j) (dget q k)"
    using claim_law [OF assms(1) cl] by blast
  have own: "dget q1 (j_id d) = Some d" if d: "d \<in> set cs" for d
  proof -
    obtain i where "dget q (j_id d) = Some i" "d = start_job w i" using c(4) d by blast
    moreover have "j_id d \<in> j_id ` set cs" using d by blast
    ultimately show ?thesis using c(5) by simp
  qed
  then have pre: "\<forall>c \<in> set cs. \<exists>j. dget q1 (j_id c) = Some j \<and> claim_of c j" by (auto simp: claim_of_def)
  note fin = fold_finish [OF c(1,3) pre, of run t]
  have poll: "snd (poll_ops Q run q n t) = fold (\<lambda>c q. jo_finish Q q c (fst (run c)) (snd (run c)) t) cs q1"
    by (simp add: poll_ops_def cl)
  show ?thesis
  proof (cases "k \<in> j_id ` set cs")
    case True
    then obtain d where d: "d \<in> set cs" "k = j_id d" by blast
    then have dj: "d = start_job w j" "j_status j = JPending \<and> j_attempts j < j_max_attempts j \<and> due t j"
      using c(4) assms(3) by auto
    have "\<exists>w2. dget (snd (poll_ops Q run q n t)) k =
       Some (finish_job (j_attempts d) (j_max_attempts d) (j_max_exec d) w2 (fst (run d)) (snd (run d)) t d)"
      using fin d own [OF d(1)] unfolding poll by fastforce
    then obtain w2 where w2: "dget (snd (poll_ops Q run q n t)) k =
       Some (finish_job (j_attempts d) (j_max_attempts d) (j_max_exec d) w2 (fst (run d)) (snd (run d)) t d)" by blast
    have "job_table (snd (poll_ops Q run q n t))" using fin unfolding poll by (rule conjunct1)
    then show ?thesis using dj(2) w2 unfolding dj(1) Let_def by (simp only: if_True simp_thms) blast
  next
    case False
    have "\<not> (j_status j = JPending \<and> j_attempts j < j_max_attempts j \<and> due t j)"
    proof
      assume "j_status j = JPending \<and> j_attempts j < j_max_attempts j \<and> due t j"
      then have "length cs = n" using claim_oldest [OF assms(1) cl assms(3) _ _ _ False] by blast
      moreover have "j_id ` set cs \<subseteq> fst ` set q - {k}"
        using c(4) False by (auto dest!: dget_in_dkeys)
      then have "card (j_id ` set cs) \<le> card (fst ` set q - {k})" by (intro card_mono) auto
      moreover have "card (j_id ` set cs) = length cs" using c(3) by (metis distinct_card length_map list.set_map)
      moreover have "card (fst ` set q - {k}) < length q"
        using dget_in_dkeys [OF assms(3)] assms(1)
        by (metis card_Diff1_less distinct_card finite_imageI finite_set job_table_def length_map list.set_map wf_dict_def)
      ultimately show False using assms(2) by linarith
    qed
    then show ?thesis using fin False c(5) assms(3) unfolding poll by auto
  qed
qed

lemma poll_dom:
  assumes "job_table q"
  shows "dget (snd (poll_ops Q run q n t)) k = None \<longleftrightarrow> dget q k = None"
proof -
  obtain cs q1 where cl: "jo_claim Q q n t = (cs, q1)" by (cases "jo_claim Q q n t")
  obtain w where c: "job_table q1" "distinct (map j_id cs)"
    "\<forall>c \<in> set cs. \<exists>j. dget q (j_id c) = Some j \<and> c = start_job w j"
    "\<forall>k. dget q1 k = map_option (\<lambda>j. if k \<in> j_id ` set cs then start_job w j else j) (dget q k)"
    using claim_law [OF assms cl] by blast
  have "\<forall>d \<in> set cs. \<exists>j. dget q1 (j_id d) = Some j \<and> claim_of d j"
  proof
    fix d assume d: "d \<in> set cs"
    then obtain i where "dget q (j_id d) = Some i" "d = start_job w i" using c(3) by blast
    then show "\<exists>j. dget q1 (j_id d) = Some j \<and> claim_of d j" using c(4) d by (auto simp: claim_of_def)
  qed
  note fin = fold_finish [OF c(1,2) this, of run t]
  have dom: "dget q1 k = None \<longleftrightarrow> dget q k = None" using c(4) by simp
  show ?thesis
  proof (cases "k \<in> j_id ` set cs")
    case True
    then show ?thesis using fin c(3) by (fastforce simp: poll_ops_def cl)
  next
    case False
    then show ?thesis using fin dom by (simp add: poll_ops_def cl)
  qed
qed

lemma poll_table:
  assumes "job_table q" and "length q \<le> n"
  shows "job_table (snd (poll_ops Q run q n t)) \<and> length (snd (poll_ops Q run q n t)) = length q"
proof (cases "q = []")
  case True
  obtain cs q1 where cl: "jo_claim Q q n t = (cs, q1)" by (cases "jo_claim Q q n t")
  have "cs = []" "job_table q1" "\<forall>k. dget q1 k = None"
    using claim_law [OF assms(1) cl] True by auto
  then have "snd (poll_ops Q run q n t) = []" by (cases q1) (auto simp: poll_ops_def cl split: if_splits)
  then show ?thesis using True by (simp add: job_table_def)
next
  case False
  then have "dget q (fst (hd q)) = Some (snd (hd q))" by (cases q) auto
  then obtain k j where "dget q k = Some j" by blast
  then have t: "job_table (snd (poll_ops Q run q n t))" using poll_effect [OF assms] by blast
  let ?q = "snd (poll_ops Q run q n t)"
  have "fst ` set ?q = fst ` set q"
    using poll_dom [OF assms(1), where run = run and n = n and t = t] by (auto simp: dget_None_iff set_eq_iff)
  moreover have "card (fst ` set r) = length r" if "job_table r" for r
    using that by (metis distinct_card job_table_def length_map list.set_map wf_dict_def)
  ultimately have "length ?q = length q" using t assms(1) by metis
  with t show ?thesis by blast
qed

text \<open>A due job whose operation raises goes back to the queue, or fails on its last attempt.\<close>

lemma poll_fail:
  assumes "job_table q" and "length q \<le> n" and "dget q k = Some j"
    and "j_status j = JPending" and "j_attempts j < j_max_attempts j" and "due t j"
    and "\<forall>c. j_id c = k \<longrightarrow> run c = (False, Inl e)" and "\<not> timed_out (j_max_exec j) False (Inl e :: pydict res)"
  shows "\<exists>j'. dget (snd (poll_ops Q run q n t)) k = Some j' \<and> j_attempts j' = Suc (j_attempts j) \<and>
    j_max_attempts j' = j_max_attempts j \<and> j_max_exec j' = j_max_exec j \<and>
    (if j_max_attempts j \<le> Suc (j_attempts j)
     then j_status j' = JFailed \<and> j_error j' = Some (exn_text e)
     else j_status j' = JPending \<and> j_scheduled_at j' = Some (iso_z (t + 2 ^ Suc (j_attempts j))))"
proof -
  obtain w1 w2 where p: "let c = start_job w1 j in dget (snd (poll_ops Q run q n t)) k =
       Some (finish_job (j_attempts c) (j_max_attempts c) (j_max_exec c) w2 (fst (run c)) (snd (run c)) t c)"
    using poll_effect [OF assms(1-3), where t = t and run = run] assms(4-6) by auto
  have "j_id (start_job w1 j) = k" using assms(1,3) by (simp add: start_job_def job_table_def)
  then have r: "run (start_job w1 j) = (False, Inl e)" using assms(7) by blast
  have x: "j_max_exec (start_job w1 j) = j_max_exec j" "j_attempts (start_job w1 j) = Suc (j_attempts j)"
    "j_max_attempts (start_job w1 j) = j_max_attempts j" by (simp_all add: start_job_def)
  have "dget (snd (poll_ops Q run q n t)) k = Some (finish_job (Suc (j_attempts j)) (j_max_attempts j) (j_max_exec j)
      w2 False (Inl e) t (start_job w1 j))"
    using p unfolding Let_def r x by simp
  then show ?thesis using assms(8) x by (simp add: finish_job_def)
qed

end

section \<open>Picking and updating rows\<close>

lemma pick_mem:
  assumes "(k, j) \<in> set (pick P n q)"
  shows "(k, j) \<in> set q \<and> P k j"
proof -
  have "(k, j) \<in> set (sort_key (\<lambda>(k, j). j_created_at j) (filter (\<lambda>(k, j). P k j) q))"
    using assms unfolding pick_def by (rule in_set_takeD)
  then show ?thesis by simp
qed

lemma length_pick: "length (pick P n q) \<le> n"
  by (simp add: pick_def)

lemma distinct_pick:
  assumes "wf_dict q"
  shows "distinct (map fst (pick P n q))"
proof -
  have "distinct (map fst (sort_key (\<lambda>(k, j). j_created_at j) (filter (\<lambda>(k, j). P k j) q)))"
    using assms by (metis (no_types, lifting) distinct_map_filter mset_eq_imp_distinct_iff mset_map mset_sort wf_dict_def)
  then show ?thesis unfolding pick_def take_map [symmetric] by (rule distinct_take)
qed

lemma pick_oldest:
  assumes "(k, j) \<in> set q" and "P k j" and "(k, j) \<notin> set (pick P n q)"
  shows "length (pick P n q) = n \<and> (\<forall>(k', c) \<in> set (pick P n q). j_created_at c \<le> j_created_at j)"
proof -
  let ?f = "\<lambda>(k::string, j). j_created_at j"
  let ?xs = "sort_key ?f (filter (\<lambda>(k, j). P k j) q)"
  have "(k, j) \<in> set ?xs" using assms(1,2) by simp
  then have "(k, j) \<in> set (take n ?xs @ drop n ?xs)" by (simp only: append_take_drop_id)
  then have d: "(k, j) \<in> set (drop n ?xs)" using assms(3) unfolding pick_def set_append by blast
  then have n: "n < length ?xs" by (metis drop_all empty_iff list.set(1) not_le)
  have "sorted (map ?f (take n ?xs @ drop n ?xs))" by (simp only: append_take_drop_id sorted_sort_key)
  then have s: "\<forall>a \<in> set (take n ?xs). \<forall>b \<in> set (drop n ?xs). ?f a \<le> ?f b"
    by (simp only: map_append sorted_append) auto
  have "\<forall>a \<in> set (take n ?xs). ?f a \<le> ?f (k, j)" using s d by blast
  then show ?thesis using n unfolding pick_def by (auto simp: min_def)
qed

lemma dget_map_rows: "dget (map (\<lambda>(k, j). (k, f k j)) q) k = map_option (f k) (dget q k)"
  by (induction q) auto

lemma job_table_map_rows:
  assumes "job_table q" and "\<And>k j. j_id (f k j) = j_id j"
  shows "job_table (map (\<lambda>(k, j). (k, f k j)) q)"
proof -
  have "map fst (map (\<lambda>(k, j). (k, f k j)) q) = map fst q" by (induction q) auto
  then have "wf_dict (map (\<lambda>(k, j). (k, f k j)) q)" using assms(1) unfolding job_table_def wf_dict_def by metis
  then show ?thesis using assms by (auto simp: job_table_def dget_map_rows)
qed

lemma sql_update_rows: "snd (sql_update P f q) = map (\<lambda>(k, j). (k, if P k j then f j else j)) q"
  by (simp add: sql_update_def)

lemma job_table_dput: "job_table q \<Longrightarrow> j_id j = k \<Longrightarrow> job_table (dput k j q)"
  by (simp add: job_table_def dict_simps)

lemma finish_job_id [simp]: "j_id (finish_job a m x w late r t j) = j_id j"
  by (auto simp: finish_job_def split: sum.split)

lemma job_table_mem: "job_table q \<Longrightarrow> (k, j) \<in> set q \<longleftrightarrow> dget q k = Some j \<and> j_id j = k"
  by (auto simp: job_table_def wf_dict_in_set)

lemma mem_reap_rows: "snd (mem_reap q now) =
    map (\<lambda>(k, j). (k, if reapable (iso_z now) j then expire_job (iso_z now) j else j)) q"
  by (induction q now rule: mem_reap.induct) (auto simp: Let_def split_def)

text \<open>Claiming picked rows, for both implementations.\<close>

definition claim_rows :: "(string \<Rightarrow> job \<Rightarrow> bool) \<Rightarrow> string \<Rightarrow> jobs \<Rightarrow> nat \<Rightarrow> job list \<times> jobs" where
  "claim_rows P w q n =
     (map (\<lambda>(k, j). start_job w j) (pick P n q),
      map (\<lambda>(k, j). (k, if k \<in> fst ` set (pick P n q) then start_job w j else j)) q)"

lemma mem_claim_rows: "mem_claim q n t = claim_rows (\<lambda>k j. claimable (iso_z t) j) (iso_z t) q n"
  by (simp add: mem_claim_def claim_rows_def Let_def)

lemma db_claim_rows:
  "db_claim u locked q n t = claim_rows (\<lambda>k j. k \<notin> locked \<and> claimable (pg_now u t) j) (pg_now u t) q n"
  by (simp add: db_claim_def claim_rows_def sql_update_def Let_def)

lemma claim_rows_ids:
  assumes "job_table q" and "claim_rows P w q n = (cs, q')"
  shows "j_id ` set cs = fst ` set (pick P n q)" and "map j_id cs = map fst (pick P n q)"
proof -
  have cs: "cs = map (\<lambda>(k, j). start_job w j) (pick P n q)" using assms(2) by (simp add: claim_rows_def)
  have "j_id j = k" if "(k, j) \<in> set (pick P n q)" for k j
    using pick_mem [OF that] job_table_mem [OF assms(1)] by simp
  then show "map j_id cs = map fst (pick P n q)" by (auto simp: cs start_job_def)
  then show "j_id ` set cs = fst ` set (pick P n q)" by (metis list.set_map)
qed

lemma claim_rows_law:
  assumes "job_table q" and "claim_rows P w q n = (cs, q')"
    and "\<And>k j. P k j \<Longrightarrow> j_status j = JPending \<and> j_attempts j < j_max_attempts j \<and> (j_id j = k \<longrightarrow> due j)"
  shows "job_table q' \<and> length cs \<le> n \<and> distinct (map j_id cs) \<and>
    (\<forall>c \<in> set cs. \<exists>j. dget q (j_id c) = Some j \<and> c = start_job w j \<and> j_status j = JPending \<and>
       j_attempts j < j_max_attempts j \<and> due j) \<and>
    (\<forall>k. dget q' k = map_option (\<lambda>j. if k \<in> j_id ` set cs then start_job w j else j) (dget q k))"
proof -
  note ids = claim_rows_ids [OF assms(1,2)]
  have cs: "cs = map (\<lambda>(k, j). start_job w j) (pick P n q)"
    and q': "q' = map (\<lambda>(k, j). (k, if k \<in> fst ` set (pick P n q) then start_job w j else j)) q"
    using assms(2) by (simp_all add: claim_rows_def)
  have "job_table q'" unfolding q' by (rule job_table_map_rows [OF assms(1)]) (simp add: start_job_def)
  moreover have "\<exists>j. dget q (j_id c) = Some j \<and> c = start_job w j \<and> j_status j = JPending \<and>
      j_attempts j < j_max_attempts j \<and> due j" if c: "c \<in> set cs" for c
  proof -
    obtain k j where kj: "(k, j) \<in> set (pick P n q)" "c = start_job w j" using c unfolding cs by auto
    have "dget q k = Some j \<and> j_id j = k" "P k j"
      using pick_mem [OF kj(1)] job_table_mem [OF assms(1)] by simp_all
    then show ?thesis using kj(2) assms(3) by (intro exI [of _ j]) (auto simp: start_job_def)
  qed
  moreover have "\<forall>k. dget q' k = map_option (\<lambda>j. if k \<in> j_id ` set cs then start_job w j else j) (dget q k)"
    unfolding q' ids(1) dget_map_rows by simp
  moreover have "distinct (map j_id cs)"
    unfolding ids(2) using assms(1) by (simp add: distinct_pick job_table_def)
  ultimately show ?thesis using length_pick [of P n q] by (simp add: cs)
qed

lemma claim_rows_oldest:
  assumes "job_table q" and "claim_rows P w q n = (cs, q')" and "dget q k = Some j" and "P k j" and "k \<notin> j_id ` set cs"
  shows "length cs = n \<and> (\<forall>c \<in> set cs. j_created_at c \<le> j_created_at j)"
proof -
  have cs: "cs = map (\<lambda>(k, j). start_job w j) (pick P n q)" using assms(2) by (simp add: claim_rows_def)
  have "(k, j) \<in> set q" using job_table_mem [OF assms(1)] assms(1,3) by (simp add: job_table_def)
  moreover have "(k, j) \<notin> set (pick P n q)"
    using assms(5) unfolding claim_rows_ids(1) [OF assms(1,2)] by (metis fst_conv imageI)
  ultimately show ?thesis using pick_oldest [of k j q P n] assms(4) by (auto simp: cs start_job_def)
qed

lemma purge_rows_table:
  assumes "job_table q"
  shows "job_table (purge_rows q P) \<and> (\<forall>k j'. dget (purge_rows q P) k = Some j' \<longrightarrow> dget q k = Some j')"
proof -
  have wf: "wf_dict q" "wf_dict (purge_rows q P)"
    using assms unfolding job_table_def wf_dict_def purge_rows_def by (auto intro: distinct_map_filter)
  have "dget q k = Some j'" if "dget (purge_rows q P) k = Some j'" for k j'
  proof -
    have "(k, j') \<in> set (purge_rows q P)" using that wf_dict_in_set [OF wf(2)] by blast
    then have "(k, j') \<in> set q" by (simp add: purge_rows_def)
    then show ?thesis using wf_dict_in_set [OF wf(1)] by blast
  qed
  then show ?thesis using assms wf(2) by (auto simp: job_table_def)
qed

section \<open>The two implementations\<close>

definition mem_due :: "nat \<Rightarrow> job \<Rightarrow> bool" where
  "mem_due t j \<longleftrightarrow> (case j_scheduled_at j of None \<Rightarrow> True | Some w \<Rightarrow> w \<le> iso_z t)"

definition db_due :: "string \<Rightarrow> string set \<Rightarrow> nat \<Rightarrow> job \<Rightarrow> bool" where
  "db_due u locked t j \<longleftrightarrow> j_id j \<notin> locked \<and> (case j_scheduled_at j of None \<Rightarrow> True | Some w \<Rightarrow> w \<le> pg_now u t)"

interpretation memq: job_queue mem_ops mem_due
proof (unfold_locales, goal_cases)
  case (1 q k sc key rid op params max_exec t q')
  then show ?case
    by (auto simp: mem_ops_def mem_submit_def res_simps new_job_def fun_eq_iff dict_simps intro!: job_table_dput)
next
  case (2 q k sc t b q')
  then show ?case
    by (auto simp: mem_ops_def mem_cancel_def fun_eq_iff dict_simps job_table_def split: option.splits if_splits
        intro!: exI [of _ "iso_z t"])
next
  case (3 q n t cs q')
  then show ?case
    using claim_rows_law [of q _ "iso_z t" n cs q' "mem_due t"]
    by (intro conjI exI [of _ "iso_z t"]) (auto simp: mem_ops_def mem_claim_rows claimable_def mem_due_def)
next
  case (4 q n t cs q' k j)
  then show ?case
    using claim_rows_oldest [of q _ "iso_z t" n cs q' k j]
    by (simp add: mem_ops_def mem_claim_rows claimable_def mem_due_def)
next
  case (5 q c j late r t)
  then show ?case
    by (auto simp: mem_ops_def mem_finish_def claim_of_def fun_eq_iff dict_simps job_table_def)
next
  case (6 q t n q')
  have q': "q' = map (\<lambda>(k, j). (k, if reapable (iso_z t) j then expire_job (iso_z t) j else j)) q"
    using 6(2) mem_reap_rows [of q t] by (simp add: mem_ops_def)
  have "job_table q'" unfolding q' by (rule job_table_map_rows [OF 6(1)]) (simp add: expire_job_def)
  moreover have "\<forall>k. dget q' k = map_option (\<lambda>j. if (case dget q k of None \<Rightarrow> False | Some i \<Rightarrow> reapable (iso_z t) i) \<and>
      j_status j = JRunning then expire_job (iso_z t) j else j) (dget q k)"
  proof
    fix k
    show "dget q' k = map_option (\<lambda>j. if (case dget q k of None \<Rightarrow> False | Some i \<Rightarrow> reapable (iso_z t) i) \<and>
      j_status j = JRunning then expire_job (iso_z t) j else j) (dget q k)"
    unfolding q' dget_map_rows by (cases "dget q k") (auto simp: reapable_def)
  qed
  ultimately show ?case by (intro conjI exI)
next
  case (7 q c late r t)
  show ?case
  proof (cases "dget q (j_id c)")
    case None
    then have "jo_finish mem_ops q c late r t = q" by (simp add: mem_ops_def mem_finish_def)
    moreover have "dget q k = map_option (\<lambda>j. if k = j_id c then f j else j) (dget q k)" for k f
      using None by (cases "k = j_id c") (simp_all add: option.map_ident)
    ultimately show ?thesis using 7 by metis
  next
    case (Some j)
    let ?f = "finish_job (j_attempts j) (j_max_attempts j) (j_max_exec j) (iso_z t) late r t"
    have q': "jo_finish mem_ops q c late r t = dput (j_id c) (?f j) q" using Some by (simp add: mem_ops_def mem_finish_def)
    moreover have "job_table (dput (j_id c) (?f j) q)" using 7 Some by (intro job_table_dput) (auto simp: job_table_def)
    moreover have "\<forall>k. dget (dput (j_id c) (?f j) q) k = map_option (\<lambda>j. if k = j_id c then ?f j else j) (dget q k)"
      using Some by (auto simp: dict_simps option.map_ident)
    ultimately show ?thesis unfolding q' by (intro conjI exI)
  qed
next
  case (8 q t fails)
  then show ?case by (simp add: mem_ops_def job_table_def)
next
  case (9 q jid)
  then show ?case by (auto simp: mem_ops_def option.map_ident intro!: exI [of _ False])
next
  case (10 q P)
  then show ?case by (simp add: mem_ops_def)
qed

interpretation dbq: job_queue "db_ops u locked" "db_due u locked" for u locked
proof (unfold_locales, goal_cases)
  case (1 q k sc key rid op params max_exec t q')
  then have q': "q' = q @ [(k, new_job k sc key rid op params max_exec t)]"
    by (auto simp: db_ops_def db_submit_def res_simps split: if_splits)
  have "dget q k = None" using 1(2) by (simp add: dget_None_iff)
  then have "dget q' = (dget q)(k \<mapsto> new_job k sc key rid op params max_exec t)"
    by (auto simp: q' map_add_def fun_eq_iff split: option.split)
  then show ?case using 1(1,2) q' by (auto simp: job_table_def wf_dict_def new_job_def)
next
  case (2 q k sc t b q')
  let ?P = "\<lambda>k' j. k' = k \<and> in_job_scope sc j \<and> j_status j = JPending"
  let ?f = "\<lambda>j. j\<lparr>j_status := JCancelled, j_completed_at := Some (pg_now u t)\<rparr>"
  have q': "q' = map (\<lambda>(k, j). (k, if ?P k j then ?f j else j)) q"
    and b: "b \<longleftrightarrow> (\<exists>j. (k, j) \<in> set q \<and> ?P k j)"
    using 2(2) by (auto simp: db_ops_def db_cancel_def sql_update_def filter_empty_conv)
  have "job_table q'" unfolding q' by (rule job_table_map_rows [OF 2(1)]) simp
  moreover have b': "b \<longleftrightarrow> (\<exists>j. dget q k = Some j \<and> in_job_scope sc j \<and> j_status j = JPending)"
    using b job_table_mem [OF 2(1)] 2(1) by (auto simp: job_table_def)
  moreover have "dget q' = (if b then (dget q)(k := map_option ?f (dget q k)) else dget q)"
    unfolding q' using b' by (auto simp: fun_eq_iff dget_map_rows map_option_case split: option.split)
  ultimately show ?case by blast
next
  case (3 q n t cs q')
  then show ?case
    using claim_rows_law [of q _ "pg_now u t" n cs q' "db_due u locked t"]
    by (intro conjI exI [of _ "pg_now u t"]) (auto simp: db_ops_def db_claim_rows claimable_def db_due_def)
next
  case (4 q n t cs q' k j)
  then show ?case
    using claim_rows_oldest [of q _ "pg_now u t" n cs q' k j]
    by (simp add: db_ops_def db_claim_rows claimable_def db_due_def job_table_def)
next
  case (5 q c j late r t)
  let ?f = "finish_job (j_attempts c) (j_max_attempts c) (j_max_exec c) (pg_now u t) late r t"
  have q': "jo_finish (db_ops u locked) q c late r t = map (\<lambda>(k, j). (k, if k = j_id c then ?f j else j)) q"
    by (simp add: db_ops_def db_finish_def sql_update_rows)
  have "job_table (jo_finish (db_ops u locked) q c late r t)"
    unfolding q' by (rule job_table_map_rows [OF 5(1)]) simp
  moreover have "dget (jo_finish (db_ops u locked) q c late r t) = (dget q)(j_id c \<mapsto> ?f j)"
    unfolding q' using 5(2) by (auto simp: fun_eq_iff dget_map_rows option.map_ident)
  ultimately show ?case by blast
next
  case (6 q t n q')
  let ?P = "\<lambda>j. j_status j = JRunning \<and> (case j_expires_at j of None \<Rightarrow> False | Some w \<Rightarrow> w < iso_z t)"
  have q': "q' = map (\<lambda>(k, j). (k, if ?P j then expire_job (iso_z t) j else j)) q"
    using 6(2) by (simp add: db_ops_def db_reap_def sql_update_def)
  have "job_table q'" unfolding q' by (rule job_table_map_rows [OF 6(1)]) (simp add: expire_job_def)
  moreover have "\<forall>k. dget q' k = map_option (\<lambda>j. if (case dget q k of None \<Rightarrow> False | Some i \<Rightarrow> ?P i) \<and>
      j_status j = JRunning then expire_job (iso_z t) j else j) (dget q k)"
  proof
    fix k
    show "dget q' k = map_option (\<lambda>j. if (case dget q k of None \<Rightarrow> False | Some i \<Rightarrow> ?P i) \<and>
      j_status j = JRunning then expire_job (iso_z t) j else j) (dget q k)"
    unfolding q' dget_map_rows by (cases "dget q k") auto
  qed
  ultimately show ?case by (intro conjI exI)
next
  case (7 q c late r t)
  let ?f = "finish_job (j_attempts c) (j_max_attempts c) (j_max_exec c) (pg_now u t) late r t"
  have q': "jo_finish (db_ops u locked) q c late r t = map (\<lambda>(k, j). (k, if k = j_id c then ?f j else j)) q"
    by (simp add: db_ops_def db_finish_def sql_update_rows)
  have "job_table (jo_finish (db_ops u locked) q c late r t)"
    unfolding q' by (rule job_table_map_rows [OF 7]) simp
  moreover have "\<forall>k. dget (jo_finish (db_ops u locked) q c late r t) k =
      map_option (\<lambda>j. if k = j_id c then ?f j else j) (dget q k)" unfolding q' dget_map_rows by simp
  ultimately show ?case by (intro conjI exI)
next
  case (8 q t fails)
  have q': "jo_restart (db_ops u locked) q t fails =
      map (\<lambda>(k, j). (k, if \<not> fails \<and> orphaned t j then reset_job j else j)) q"
    by (cases fails) (simp_all add: db_ops_def db_recover_orphaned_def sql_update_rows)
  have "job_table (jo_restart (db_ops u locked) q t fails)"
    unfolding q' by (rule job_table_map_rows [OF 8]) (simp add: reset_job_def)
  moreover have "\<forall>k. dget (jo_restart (db_ops u locked) q t fails) k = map_option
      (\<lambda>j. if (\<not> fails \<and> orphaned t j) \<and> j_status j = JRunning then reset_job j else j) (dget q k)"
    unfolding q' dget_map_rows by (auto simp: orphaned_def intro!: map_option_cong)
  ultimately show ?case by (simp add: db_ops_def) (rule exI [of _ "\<lambda>j. \<not> fails \<and> orphaned t j"], simp)
next
  case (9 q jid)
  have q': "jo_retry_write (db_ops u locked) q jid = map (\<lambda>(k, j). (k, if k = jid then requeue_job j else j)) q"
    by (simp add: db_ops_def retry_write_def sql_update_rows)
  have "job_table (jo_retry_write (db_ops u locked) q jid)"
    unfolding q' by (rule job_table_map_rows [OF 9]) (simp add: requeue_job_def)
  then show ?case unfolding q' dget_map_rows by (auto intro!: exI [of _ True])
next
  case (10 q P)
  show ?case unfolding db_ops_def job_ops.simps by (rule purge_rows_table [OF 10])
qed

end
