(* ===== verification/JobProps.thy ===== *)
theory JobProps
  imports JobQueue
begin

text \<open>Properties of the job queue, over the in-memory and the database operations.\<close>

definition all_db_ops :: "job_ops set" where
  "all_db_ops = {db_ops u locked |u locked. True}"

lemma reach_ops_ok: "job_reach Qs s \<Longrightarrow> Qs = {mem_ops} \<or> Qs = all_db_ops \<Longrightarrow> jsys_ok s"
  by (erule job_reach_ok) (auto simp: all_db_ops_def intro: memq.step_ok dbq.step_ok)

text \<open>In memory nothing is put back while it runs: a restart ends the executions with the dictionary.\<close>

lemma mem_never_resets: "job_reach {mem_ops} s \<Longrightarrow> sy_retrying s = {} \<and> sy_reset s = {}"
proof (induction rule: job_reach.induct)
  case (next_step s Q s')
  from next_step(3,2,4) show ?case
    by (induction rule: job_step.induct) (auto simp: mem_ops_def retry_check_def)
qed (simp add: jsys_init_def)

text \<open>
  C11. Whatever clients, workers, the reaper, restarts, administrators and deletions do, in
  memory or over the table: no job is started more than three times, since its attempts count
  its starts and neither a restart nor a retry sets them back; a row marked running is being
  executed, unless an execution of it ended without its result reaching the queue; two executions
  of one job overlap only when a restart or a retry has put it back to pending during the first
  (never in memory); a row goes only by a deletion, or with the process in memory, and its
  attempts never fall; and a job that is completed, failed or cancelled, and was never put back
  during an execution, changes only by an administrator's retry.
\<close>

theorem jobs_run_alone_and_at_most_thrice:
  assumes "job_reach Qs s" and "Qs = {mem_ops} \<or> Qs = all_db_ops"
  shows "(\<forall>k. sy_starts s k \<le> 3) \<and> (\<forall>k. k \<notin> sy_reset s \<longrightarrow> starts_of k (sy_running s) \<le> 1) \<and>
    (Qs = {mem_ops} \<longrightarrow> sy_reset s = {}) \<and>
    (\<forall>k j. dget (sy_queue s) k = Some j \<longrightarrow> j_attempts j = sy_starts s k \<and>
       (j_status j = JRunning \<longrightarrow> k \<in> j_id ` set (sy_running s) \<or> k \<in> sy_lost s) \<and>
       (\<forall>Q s'. Q \<in> Qs \<longrightarrow> job_step Q s s' \<longrightarrow>
          dget (sy_queue s') k = None \<and> ((\<exists>P. sy_queue s' = jo_purge Q (sy_queue s) P) \<or> \<not> jo_shared Q \<and> sy_queue s' = []) \<or>
          (\<exists>j'. dget (sy_queue s') k = Some j' \<and> j_attempts j \<le> j_attempts j' \<and>
             (j_status j \<in> final_status \<longrightarrow> k \<notin> sy_reset s \<longrightarrow> j' = j \<or> k \<in> sy_retrying s \<and> j' = requeue_job j))))"
proof -
  have ok: "jsys_ok s" by (rule reach_ops_ok [OF assms])
  have ops: "Q = mem_ops \<or> (\<exists>u locked. Q = db_ops u locked)" if "Q \<in> Qs" for Q
    using assms(2) that by (auto simp: all_db_ops_def)
  show ?thesis
  proof (intro conjI allI impI)
    fix Q s' k j assume "dget (sy_queue s) k = Some j" "Q \<in> Qs" "job_step Q s s'"
    then show "dget (sy_queue s') k = None \<and> ((\<exists>P. sy_queue s' = jo_purge Q (sy_queue s) P) \<or> \<not> jo_shared Q \<and> sy_queue s' = []) \<or>
        (\<exists>j'. dget (sy_queue s') k = Some j' \<and> j_attempts j \<le> j_attempts j' \<and>
           (j_status j \<in> final_status \<longrightarrow> k \<notin> sy_reset s \<longrightarrow> j' = j \<or> k \<in> sy_retrying s \<and> j' = requeue_job j))"
      using ops [of Q] memq.row_step [OF _ ok] dbq.row_step [OF _ ok] by blast
  next
    assume "Qs = {mem_ops}"
    then show "sy_reset s = {}" using mem_never_resets assms(1) by simp
  qed (use ok in \<open>auto simp: jsys_ok_def\<close>)
qed

definition sample_job :: job where
  "sample_job = new_job ''a'' default_scope None [] ''aging'' [] None 0"

lemma sample_submit: "mem_submit [] ''a'' default_scope None [] ''aging'' [] None 0 = Inr [(''a'', sample_job)]"
  by (simp add: mem_submit_def check_operation_def job_operations_def sample_job_def)

lemma jobs_run_alone_and_at_most_thrice_witness:
  "\<exists>s. job_reach {mem_ops} s \<and> sy_queue s = [(''a'', sample_job)] \<and> sy_starts s ''a'' \<le> 3 \<and> sy_reset s = {}"
proof -
  have step: "job_step mem_ops (jsys_init 0) ((jsys_init 0)\<lparr>sy_queue := [(''a'', sample_job)]\<rparr>)"
    by (rule job_step.submit [where jid = "''a''" and sc = default_scope and key = None and rid = "[]" and op = "''aging''"
          and params = "[]" and max_exec = None]) (simp_all add: jsys_init_def mem_ops_def sample_submit)
  from job_reach.next_step [OF job_reach.start _ this, of "{mem_ops}"]
  have r: "job_reach {mem_ops} ((jsys_init 0)\<lparr>sy_queue := [(''a'', sample_job)]\<rparr>)" by simp
  have "sy_starts ((jsys_init 0)\<lparr>sy_queue := [(''a'', sample_job)]\<rparr>) ''a'' \<le> 3 \<and>
      sy_reset ((jsys_init 0)\<lparr>sy_queue := [(''a'', sample_job)]\<rparr>) = {}"
    using jobs_run_alone_and_at_most_thrice [OF r disjI1 [OF refl]] by blast
  then show ?thesis by (intro exI [of _ "(jsys_init 0)\<lparr>sy_queue := [(''a'', sample_job)]\<rparr>"]) (simp add: r)
qed

section \<open>Restarts and retries by administrators\<close>

text \<open>
  The ten minutes of the recovery are not kept: a row that was started on the UTC day of the
  cut-off, or before it, is put back however young it is.
\<close>

lemma recovery_takes_the_whole_day:
  assumes "job_table q" and "dget q k = Some j" and "j_status j = JRunning" and "j_started_at j = Some (pg_now u s)"
    and "time_ok s" and "time_ok (t - 600)"
  shows "dget (db_recover_orphaned q t False) k = Some (if s div 86400 \<le> (t - 600) div 86400 then reset_job j else j)"
proof -
  have "pg_now u s < iso_z (t - 600) \<longleftrightarrow> s div 86400 \<le> (t - 600) div 86400"
    using iso_z_pg_now [OF assms(6,5), of u] by (metis not_le)
  then show ?thesis
    using assms(2-4) by (simp add: db_recover_orphaned_def sql_update_rows dget_map_rows orphaned_def)
qed

lemma reset_job_changes:
  assumes "j_status j = JRunning"
  shows "reset_job j \<noteq> j"
proof
  assume "reset_job j = j"
  then have "j_status (reset_job j) = j_status j" by (rule arg_cong)
  then show False using assms by (simp add: reset_job_def)
qed

text \<open>
  So the start of a second process takes a job away from the worker that executes it, and
  the job is executed twice at the same time.
\<close>

lemma restart_runs_a_job_twice: "\<exists>s. job_reach all_db_ops s \<and> starts_of ''a'' (sy_running s) = 2"
proof -
  let ?Q = "db_ops [] {}" and ?j = "new_job ''a'' default_scope None [] ''aging'' [] None 3600"
  let ?c = "start_job (pg_now [] 3600) ?j"
  let ?d = "start_job (pg_now [] 3600) (reset_job ?c)"
  let ?s0 = "jsys_init 3600"
  let ?s1 = "?s0\<lparr>sy_queue := [(''a'', ?j)]\<rparr>"
  let ?s2 = "?s1\<lparr>sy_queue := [(''a'', ?c)], sy_running := [?c], sy_starts := (\<lambda>k. starts_of k [?c])\<rparr>"
  let ?s3 = "?s2\<lparr>sy_queue := [(''a'', reset_job ?c)], sy_reset := {''a''}\<rparr>"
  let ?s4 = "?s3\<lparr>sy_queue := [(''a'', ?d)], sy_running := [?c, ?d],
    sy_starts := (\<lambda>k. starts_of k [?c] + starts_of k [?d])\<rparr>"
  have Q: "?Q \<in> all_db_ops" by (auto simp: all_db_ops_def)
  note reach = job_reach.next_step [OF _ Q]
  have "job_step ?Q ?s0 ?s1"
    by (rule job_step.submit [where jid = "''a''" and sc = default_scope and key = None and rid = "[]" and op = "''aging''"
          and params = "[]" and max_exec = None])
      (simp_all add: jsys_init_def db_ops_def db_submit_def check_operation_def job_operations_def res_simps)
  then have s1: "job_reach all_db_ops ?s1" by (rule reach [OF job_reach.start])
  have claim: "jo_claim ?Q [(''a'', j)] 1 3600 = ([start_job (pg_now [] 3600) j], [(''a'', start_job (pg_now [] 3600) j)])"
    if "j_status j = JPending" "j_attempts j < 3" "j_max_attempts j = 3" "j_scheduled_at j = None" for j
    using that by (simp add: db_ops_def db_claim_def pick_def claimable_def sql_update_def)
  have "jo_claim ?Q (sy_queue ?s1) 1 (sy_now ?s1) = ([?c], [(''a'', ?c)])"
    using claim [of ?j] by (simp add: jsys_init_def new_job_def)
  from reach [OF s1 job_step.claim [OF this]] have s2: "job_reach all_db_ops ?s2" by (simp add: jsys_init_def)
  have t: "time_ok 3000" "time_ok 3600" by (simp_all add: time_ok_def)
  have "pg_now [] 3600 < iso_z 3000" using iso_z_pg_now [OF t, of "[]"] by (simp add: not_le [symmetric])
  then have "orphaned 3600 ?c" by (simp add: orphaned_def start_job_def)
  then have r: "jo_restart ?Q (sy_queue ?s2) (sy_now ?s2) False = [(''a'', reset_job ?c)]"
    by (simp add: jsys_init_def db_ops_def db_recover_orphaned_def sql_update_def)
  have "reset_job ?c \<noteq> ?c" by (rule reset_job_changes) (simp add: start_job_def)
  moreover have "j_id ?c = ''a''" by (simp add: start_job_def new_job_def)
  ultimately have x: "{k. k = j_id ?c \<and> dget [(''a'', reset_job ?c)] k \<noteq> dget [(''a'', ?c)] k} = {''a''}" by auto
  have "jo_shared ?Q" by (simp add: db_ops_def)
  then have s3: "job_reach all_db_ops ?s3"
    using reach [OF s2 job_step.restart [OF refl _ r [symmetric], where alive = "\<lambda>_. True"]] x by (simp add: jsys_init_def)
  have "jo_claim ?Q (sy_queue ?s3) 1 (sy_now ?s3) = ([?d], [(''a'', ?d)])"
    using claim [of "reset_job ?c"] by (simp add: jsys_init_def new_job_def reset_job_def start_job_def)
  from reach [OF s3 job_step.claim [OF this]] have "job_reach all_db_ops ?s4" by (simp add: jsys_init_def)
  moreover have "starts_of ''a'' (sy_running ?s4) = 2" by (simp add: start_job_def reset_job_def new_job_def starts_of_def)
  ultimately show ?thesis by (intro exI conjI)
qed

text \<open>
  A retry does not give a job that failed for good another start: its attempts are kept, so it
  stays pending and no poll ever claims it, whatever happens to it.
\<close>

lemma retried_failures_never_run:
  assumes "retry_job q k = Inr q'" and "job_table q" and "dget q k = Some j" and "j_max_attempts j \<le> j_attempts j"
  shows "dget q' k = Some (requeue_job j) \<and> j_status (requeue_job j) = JPending \<and>
    (\<forall>u locked n t. k \<notin> j_id ` set (fst (db_claim u locked q' n t)))"
proof -
  have q': "q' = retry_write q k" using assms(1) by (auto simp: retry_job_def res_simps split: sum.splits)
  have d: "dget q' k = Some (requeue_job j)" using assms(3) by (simp add: q' retry_write_def sql_update_rows dget_map_rows)
  have tab: "job_table q'" using dbq.retry_law [OF assms(2), of "[]" "{}" k] by (simp add: q' db_ops_def)
  have "k \<notin> j_id ` set (fst (db_claim u locked q' n t))" for u locked n t
  proof
    assume "k \<in> j_id ` set (fst (db_claim u locked q' n t))"
    then obtain i where "dget q' k = Some i" "j_attempts i < j_max_attempts i"
      using dbq.claim_law [OF tab, of u locked n t "fst (db_claim u locked q' n t)" "snd (db_claim u locked q' n t)"]
      by (auto simp: db_ops_def)
    then show False using d assms(4) by (auto simp: requeue_job_def)
  qed
  then show ?thesis using d by (auto simp: requeue_job_def)
qed

section \<open>Retries\<close>

text \<open>
  C12. In memory a job whose operation keeps raising is tried exactly three times and then
  failed with the error: polls at least 2 and then 4 seconds apart find it pending after the
  first and second and failed after the third.
\<close>

theorem mem_job_fails_after_three_attempts:
  assumes "job_table q" and "length q \<le> n" and "dget q k = Some (new_job k sc key rid op params max_exec t0)"
    and "\<forall>c. j_id c = k \<longrightarrow> run c = (False, Inl e)" and "\<not> timed_out max_exec False (Inl e :: pydict res)"
    and "t1 + 2 \<le> t2" and "t2 + 4 \<le> t3" and "time_ok t3"
  shows "\<exists>j1 j2 j3. dget (snd (mem_poll run q n t1)) k = Some j1 \<and> j_status j1 = JPending \<and>
    dget (snd (mem_poll run (snd (mem_poll run q n t1)) n t2)) k = Some j2 \<and> j_status j2 = JPending \<and>
    dget (snd (mem_poll run (snd (mem_poll run (snd (mem_poll run q n t1)) n t2)) n t3)) k = Some j3 \<and>
    j_status j3 = JFailed \<and> j_attempts j3 = 3 \<and> j_error j3 = Some (exn_text e)"
proof -
  let ?q1 = "snd (mem_poll run q n t1)" let ?q2 = "snd (mem_poll run ?q1 n t2)"
  have due: "mem_due s j" if "j_scheduled_at j = Some (iso_z r)" "r \<le> s" "s \<le> t3" for s r j
    using that iso_z_le [of r s] time_ok_mono [OF _ assms(8)] by (simp add: mem_due_def)
  note tab1 = memq.poll_table [OF assms(1,2), of run t1, folded mem_poll_ops]
  then have l1: "job_table ?q1" "length ?q1 \<le> n" using assms(2) by simp_all
  note tab2 = memq.poll_table [OF l1, of run t2, folded mem_poll_ops]
  then have l2: "job_table ?q2" "length ?q2 \<le> n" using l1(2) by simp_all
  obtain j1 where j1: "dget ?q1 k = Some j1" "j_attempts j1 = 1" "j_max_attempts j1 = 3" "j_max_exec j1 = max_exec"
    "j_status j1 = JPending" "j_scheduled_at j1 = Some (iso_z (t1 + 2))"
    using memq.poll_fail [OF assms(1-3) _ _ _ assms(4), of t1, folded mem_poll_ops] assms(5)
    by (auto simp: new_job_def mem_due_def)
  have "mem_due t2 j1" using due [OF j1(6)] assms(6,7) by simp
  then obtain j2 where j2: "dget ?q2 k = Some j2" "j_attempts j2 = 2" "j_max_attempts j2 = 3" "j_max_exec j2 = max_exec"
    "j_status j2 = JPending" "j_scheduled_at j2 = Some (iso_z (t2 + 4))"
    using memq.poll_fail [OF l1 j1(1,5) _ _ assms(4), of t2, folded mem_poll_ops] assms(5) j1 by auto
  have "mem_due t3 j2" using due [OF j2(6)] assms(7) by simp
  then obtain j3 where "dget (snd (mem_poll run ?q2 n t3)) k = Some j3" "j_attempts j3 = 3" "j_status j3 = JFailed"
    "j_error j3 = Some (exn_text e)"
    using memq.poll_fail [OF l2 j2(1,5) _ _ assms(4), of t3, folded mem_poll_ops] assms(5) j2 by auto
  then show ?thesis using j1 j2 by blast
qed

lemma sample_table: "job_table [(''a'', sample_job)]"
  by (simp add: job_table_def wf_dict_def sample_job_def new_job_def)

lemma mem_job_fails_after_three_attempts_witness:
  "\<exists>j3. dget (snd (mem_poll (\<lambda>c. (False, Inl (ValueError []))) (snd (mem_poll (\<lambda>c. (False, Inl (ValueError [])))
     (snd (mem_poll (\<lambda>c. (False, Inl (ValueError []))) [(''a'', sample_job)] 3 0)) 3 2)) 3 6)) ''a'' = Some j3 \<and>
     j_status j3 = JFailed"
proof -
  have "dget [(''a'', sample_job)] ''a'' = Some (new_job ''a'' default_scope None [] ''aging'' [] None 0)"
    by (simp add: sample_job_def)
  moreover have "time_ok 6" by (simp add: time_ok_def)
  ultimately show ?thesis
    using mem_job_fails_after_three_attempts [OF sample_table, of 3 "''a''" default_scope None "[]" "''aging''" "[]"
        None 0 "\<lambda>c. (False, Inl (ValueError []))" "ValueError []" 0 2 6] by (auto simp: timed_out_def)
qed

text \<open>
  C13. Over the database a failed attempt is not retried after its backoff of a few seconds:
  the row's retry time has a T where now()::text has a blank, so the job cannot be claimed
  until the UTC date is later than the date of the retry time.
\<close>

theorem db_retry_waits_for_next_day:
  assumes "job_table q" and "length q \<le> n" and "dget q k = Some j"
    and "j_status j = JPending" and "Suc (j_attempts j) < j_max_attempts j" and "db_due u locked t j"
    and "\<forall>c. j_id c = k \<longrightarrow> run c = (False, Inl e)" and "\<not> timed_out (j_max_exec j) False (Inl e :: pydict res)"
    and "time_ok (t + 2 ^ Suc (j_attempts j))"
  shows "\<exists>j'. dget (snd (db_poll u locked run q n t)) k = Some j' \<and> j_status j' = JPending \<and>
    (\<forall>u' t'. time_ok t' \<longrightarrow>
       (claimable (pg_now u' t') j' \<longleftrightarrow> (t + 2 ^ Suc (j_attempts j)) div 86400 < t' div 86400))"
proof -
  obtain j' where j': "dget (snd (db_poll u locked run q n t)) k = Some j'" "j_attempts j' = Suc (j_attempts j)"
    "j_max_attempts j' = j_max_attempts j" "j_status j' = JPending"
    "j_scheduled_at j' = Some (iso_z (t + 2 ^ Suc (j_attempts j)))"
    using dbq.poll_fail [OF assms(1-4) _ assms(6,7), folded db_poll_ops] assms(5,8) by auto
  then show ?thesis using iso_z_pg_now [OF assms(9)] assms(5) by (auto simp: claimable_def)
qed

lemma db_retry_waits_for_next_day_witness:
  "\<exists>j'. dget (snd (db_poll [] {} (\<lambda>c. (False, Inl (ValueError []))) [(''a'', sample_job)] 3 0)) ''a'' = Some j' \<and>
     \<not> claimable (pg_now [] 3600) j'"
proof -
  have t: "time_ok (0 + 2 ^ Suc (j_attempts sample_job))" "time_ok 3600"
    by (simp_all add: time_ok_def sample_job_def new_job_def)
  have "\<exists>j'. dget (snd (db_poll [] {} (\<lambda>c. (False, Inl (ValueError []))) [(''a'', sample_job)] 3 0)) ''a'' = Some j' \<and>
      j_status j' = JPending \<and> (\<forall>u' t'. time_ok t' \<longrightarrow>
        claimable (pg_now u' t') j' \<longleftrightarrow> (0 + 2 ^ Suc (j_attempts sample_job)) div 86400 < t' div 86400)"
    by (rule db_retry_waits_for_next_day [OF sample_table _ _ _ _ _ _ _ t(1), where e = "ValueError []"])
      (simp_all add: sample_job_def new_job_def db_due_def timed_out_def)
  then show ?thesis using t(2) by (fastforce simp: sample_job_def new_job_def)
qed

section \<open>Deadlines and the reaper\<close>

text \<open>
  The reaper's verdict is not final: a job that outlives its hour is marked expired while
  its operation still runs, and when the operation then returns, the expired job is turned
  into a completed one, in memory and in the database.
\<close>

theorem reaped_job_is_completed_later:
  assumes "job_table q" and "c \<in> set (fst (db_claim u locked q n t1))" and "j_expires_at c = Some (iso_z x)"
    and "x < t2" and "time_ok t2" and "j_max_exec c = None"
  shows "\<exists>j2 j3. let q1 = snd (db_claim u locked q n t1); q2 = snd (db_reap q1 t2); q3 = db_finish u q2 c late (Inr d) t3 in
    dget q2 (j_id c) = Some j2 \<and> j_status j2 = JExpired \<and>
    dget q3 (j_id c) = Some j3 \<and> j_status j3 = JCompleted \<and> j_result j3 = Some d \<and>
    j_error j3 = Some ''Job expired (exceeded time limit)''"
proof -
  obtain cs q1 where cl: "db_claim u locked q n t1 = (cs, q1)" by (cases "db_claim u locked q n t1")
  have cl': "jo_claim (db_ops u locked) q n t1 = (cs, q1)" by (simp add: db_ops_def cl)
  have c: "c \<in> set cs" using assms(2) by (simp add: cl)
  obtain w where w: "\<forall>c \<in> set cs. \<exists>j. dget q (j_id c) = Some j \<and> c = start_job w j"
    "\<forall>k. dget q1 k = map_option (\<lambda>j. if k \<in> j_id ` set cs then start_job w j else j) (dget q k)"
    using dbq.claim_law [OF assms(1) cl'] by blast
  obtain j where j: "dget q (j_id c) = Some j" "c = start_job w j" using w(1) c by blast
  have "j_id c \<in> j_id ` set cs" using c by blast
  then have j3: "dget q1 (j_id c) = Some c" using w(2) j by simp
  let ?P = "\<lambda>j. j_status j = JRunning \<and> (case j_expires_at j of None \<Rightarrow> False | Some w \<Rightarrow> w < iso_z t2)"
  have q2: "snd (db_reap q1 t2) = map (\<lambda>(k, j). (k, if ?P j then expire_job (iso_z t2) j else j)) q1"
    by (simp add: db_reap_def sql_update_rows)
  have "?P c" using assms(3,5) iso_z_less [OF time_ok_mono [OF _ assms(5)] assms(5), of x] assms(4) j(2)
    by (simp add: start_job_def)
  then have d2: "dget (snd (db_reap q1 t2)) (j_id c) = Some (expire_job (iso_z t2) c)"
    unfolding q2 dget_map_rows using j3 by simp
  have "dget (db_finish u (snd (db_reap q1 t2)) c late (Inr d) t3) (j_id c) =
      Some (finish_job (j_attempts c) (j_max_attempts c) (j_max_exec c) (pg_now u t3) late (Inr d) t3 (expire_job (iso_z t2) c))"
    unfolding db_finish_def sql_update_rows dget_map_rows d2 by simp
  then show ?thesis
    using d2 assms(6) by (simp add: cl Let_def expire_job_def finish_job_def timed_out_def)
qed

lemma sample_db_claim: "db_claim [] {} [(''a'', sample_job)] 3 0 =
    ([start_job (pg_now [] 0) sample_job], [(''a'', start_job (pg_now [] 0) sample_job)])"
  by (simp add: db_claim_def pick_def claimable_def sample_job_def new_job_def sql_update_def)

lemma reaped_job_is_completed_later_witness:
  "\<exists>j3. dget (db_finish [] (snd (db_reap [(''a'', start_job (pg_now [] 0) sample_job)] 3601))
      (start_job (pg_now [] 0) sample_job) False (Inr []) 3602) ''a'' = Some j3 \<and> j_status j3 = JCompleted"
proof -
  have "time_ok 3601" by (simp add: time_ok_def)
  moreover have "j_id (start_job w sample_job) = ''a''" "j_max_exec (start_job w sample_job) = None"
    "j_expires_at (start_job w sample_job) = Some (iso_z 3600)" for w
    by (simp_all add: start_job_def sample_job_def new_job_def DEFAULT_EXPIRES_SECONDS_def)
  ultimately show ?thesis
    using reaped_job_is_completed_later [OF sample_table, of "start_job (pg_now [] 0) sample_job" "[]" "{}" 3 0 3600
        3601 False "[]" 3602] by (auto simp: sample_db_claim Let_def)
qed

text \<open>
  A job with an execution cap does not retry timeouts of its own: when its operation
  raises TimeoutError (an LLM call that timed out, say) well within the cap, the job is marked
  expired on the first attempt, while the same job without a cap goes back to the queue.
\<close>

theorem own_timeout_counts_as_deadline:
  assumes "job_table q" and "length q \<le> n" and "dget q k = Some j" and "j_status j = JPending"
    and "Suc (j_attempts j) < j_max_attempts j" and "mem_due t j"
    and "\<forall>c. j_id c = k \<longrightarrow> run c = (False, Inl (TimeoutError m))"
  shows "\<exists>j'. dget (snd (mem_poll run q n t)) k = Some j' \<and>
    j_status j' = (if j_max_exec j = None then JPending else JExpired)"
proof (cases "j_max_exec j")
  case None
  then have "\<not> timed_out (j_max_exec j) False (Inl (TimeoutError m) :: pydict res)" by (simp add: timed_out_def)
  from memq.poll_fail [OF assms(1-4) _ assms(6,7) this, folded mem_poll_ops] assms(5) None show ?thesis by auto
next
  case (Some x)
  obtain w1 w2 where p: "let c = start_job w1 j in dget (snd (mem_poll run q n t)) k =
       Some (finish_job (j_attempts c) (j_max_attempts c) (j_max_exec c) w2 (fst (run c)) (snd (run c)) t c)"
    using memq.poll_effect [OF assms(1-3), where t = t and run = run, folded mem_poll_ops] assms(4-6) by auto
  have "j_id (start_job w1 j) = k" using assms(1,3) by (simp add: start_job_def job_table_def)
  then have "run (start_job w1 j) = (False, Inl (TimeoutError m))" using assms(7) by blast
  then show ?thesis using p Some by (simp add: Let_def finish_job_def timed_out_def) (simp add: start_job_def)
qed

lemma own_timeout_counts_as_deadline_witness:
  "\<exists>j'. dget (snd (mem_poll (\<lambda>c. (False, Inl (TimeoutError ''llm''))) [(''a'', sample_job\<lparr>j_max_exec := Some 600\<rparr>)] 3 0)) ''a'' =
     Some j' \<and> j_status j' = JExpired"
proof -
  have "job_table [(''a'', sample_job\<lparr>j_max_exec := Some 600\<rparr>)]"
    by (simp add: job_table_def wf_dict_def sample_job_def new_job_def)
  from own_timeout_counts_as_deadline [OF this, of 3 "''a''" "sample_job\<lparr>j_max_exec := Some 600\<rparr>" 0
      "\<lambda>c. (False, Inl (TimeoutError ''llm''))" "''llm''"]
  show ?thesis by (auto simp: sample_job_def new_job_def mem_due_def)
qed

section \<open>Scopes\<close>

lemma filter_key:
  "wf_dict q \<Longrightarrow> filter (\<lambda>(k, j). k = x \<and> P j) q =
     (case dget q x of Some j \<Rightarrow> if P j then [(x, j)] else [] | None \<Rightarrow> [])"
proof (induction q)
  case (Cons kj q)
  obtain k j where kj: "kj = (k, j)" by (cases kj)
  show ?case
  proof (cases "k = x")
    case True
    then have "\<forall>(k', j') \<in> set q. k' \<noteq> x" using Cons.prems by (force simp: wf_dict_def kj)
    then have "filter (\<lambda>(k, j). k = x \<and> P j) q = []" by (auto simp: filter_empty_conv)
    then show ?thesis using True by (simp add: kj)
  next
    case False
    then show ?thesis using Cons by (simp add: kj wf_dict_def)
  qed
qed simp

text \<open>
  The two implementations answer alike and keep scopes apart: reading, listing (with any
  status filter that is not the empty text) and cancelling give the same answers in memory and
  in the database; a job is visible and cancellable only in its own tenant and project.
\<close>

theorem job_queries_agree_and_are_scoped:
  assumes "job_table q" and "status \<noteq> Some []"
  shows "mem_get q k sc = db_get q k sc \<and> mem_list q sc status limit = db_list q sc status limit \<and>
    fst (mem_cancel q k sc t) = fst (db_cancel u q k sc t) \<and>
    (\<forall>i. mem_get q k sc = Some i \<longrightarrow> (\<exists>j. dget q k = Some j \<and> in_job_scope sc j \<and> i = to_info j)) \<and>
    (\<forall>i \<in> set (mem_list q sc status limit). mem_get q (ji_id i) sc = Some i) \<and>
    (fst (mem_cancel q k sc t) \<longrightarrow> (\<exists>j. dget q k = Some j \<and> in_job_scope sc j \<and> j_status j = JPending))"
proof -
  have wf: "wf_dict q" using assms(1) by (simp add: job_table_def)
  have get: "mem_get q k sc = db_get q k sc" for k
    by (simp add: mem_get_def db_get_def filter_key [OF wf] split: option.split)
  have "(case status of None \<Rightarrow> True | Some w \<Rightarrow> w = [] \<or> status_text (j_status j) = w) =
      (case status of None \<Rightarrow> True | Some w \<Rightarrow> status_text (j_status j) = w)" for j
    using assms(2) by (auto split: option.split)
  then have "(in_job_scope sc j \<and> (case status of None \<Rightarrow> True | Some w \<Rightarrow> w = [] \<or> status_text (j_status j) = w)) =
      (in_job_scope sc j \<and> (case status of None \<Rightarrow> True | Some w \<Rightarrow> status_text (j_status j) = w))" for j by (rule arg_cong)
  then have list: "mem_list q sc status limit = db_list q sc status limit"
    unfolding mem_list_def db_list_def by (intro arg_cong [of _ _ "map to_info"] arg_cong [of _ _ "take limit"]
        arg_cong [of _ _ "sort_desc j_created_at"] filter_cong refl) simp
  have mc: "fst (mem_cancel q k sc t) \<longleftrightarrow> (\<exists>j. dget q k = Some j \<and> in_job_scope sc j \<and> j_status j = JPending)"
    using memq.cancel_law [OF assms(1), of k sc t "fst (mem_cancel q k sc t)" "snd (mem_cancel q k sc t)"]
    by (simp add: mem_ops_def)
  have dc: "fst (db_cancel u q k sc t) \<longleftrightarrow> (\<exists>j. dget q k = Some j \<and> in_job_scope sc j \<and> j_status j = JPending)"
    using dbq.cancel_law [OF assms(1), of u "{}" k sc t "fst (db_cancel u q k sc t)" "snd (db_cancel u q k sc t)"]
    by (simp add: db_ops_def)
  have mem: "mem_get q (ji_id i) sc = Some i" if i: "i \<in> set (mem_list q sc status limit)" for i
  proof -
    obtain x j where "(x, j) \<in> set q" "in_job_scope sc j" "i = to_info j"
      using i by (auto simp: mem_list_def dest!: in_set_takeD)
    then show ?thesis using job_table_mem [OF assms(1)] by (auto simp: mem_get_def to_info_def)
  qed
  have seen: "\<forall>i. mem_get q k sc = Some i \<longrightarrow> (\<exists>j. dget q k = Some j \<and> in_job_scope sc j \<and> i = to_info j)"
    by (auto simp: mem_get_def split: option.splits if_splits)
  show ?thesis
  proof (intro conjI)
    show "mem_get q k sc = db_get q k sc" by (rule get)
    show "mem_list q sc status limit = db_list q sc status limit" by (rule list)
    show "fst (mem_cancel q k sc t) = fst (db_cancel u q k sc t)" by (simp only: mc dc)
    show "\<forall>i \<in> set (mem_list q sc status limit). mem_get q (ji_id i) sc = Some i" by (rule ballI) (rule mem)
    show "fst (mem_cancel q k sc t) \<longrightarrow> (\<exists>j. dget q k = Some j \<and> in_job_scope sc j \<and> j_status j = JPending)"
      using mc by blast
  qed (rule seen)
qed

lemma job_queries_agree_and_are_scoped_witness:
  "mem_list [(''a'', sample_job)] default_scope None 5 = db_list [(''a'', sample_job)] default_scope None 5"
  using job_queries_agree_and_are_scoped [OF sample_table, of None "''a''" default_scope 5 0 "[]"] by simp

end
