(* ===== verification/Plans.thy ===== *)
theory Plans
  imports PyTime PyText
begin

text \<open>
  The static tables of billing: plan limits and overage prices (\<open>billing/models.py\<close>), Stripe
  price identifiers (\<open>billing/service.py\<close>), the tier order and its features
  (\<open>billing/entitlements.py\<close>) and the price card of LLM calls (\<open>billing/rate_cards.py\<close>),
  with the functions that read them. Counters, limits and prices are natural numbers, budget
  caps integers. The process environment is a dictionary.
\<close>

section \<open>Plans\<close>

record limits =
  lm_eval_runs :: "nat option"
  lm_patterns :: "nat option"
  lm_projects :: "nat option"

definition limits_of :: "nat option \<Rightarrow> nat option \<Rightarrow> nat option \<Rightarrow> limits" where
  "limits_of e pa pr = \<lparr>lm_eval_runs = e, lm_patterns = pa, lm_projects = pr\<rparr>"

definition PLAN_LIMITS :: "(string, limits) dict" where
  "PLAN_LIMITS =
    [(''developer'', limits_of (Some 5000) (Some 10000) (Some 2)),
     (''pro'', limits_of (Some 50000) (Some 100000) (Some 10)),
     (''team'', limits_of (Some 250000) (Some 1000000) (Some 50)),
     (''business'', limits_of (Some 1000000) (Some 10000000) (Some 250)),
     (''enterprise'', limits_of None None None),
     (''sandbox'', limits_of (Some 5000) (Some 10000) (Some 2))]"

definition developer_limits :: limits where
  "developer_limits = limits_of (Some 5000) (Some 10000) (Some 2)"

definition METRIC_EVAL_RUNS :: string where "METRIC_EVAL_RUNS = ''eval_runs''"

text \<open>Tier, then price in cents and size of a block; every entry is for eval runs.\<close>

definition OVERAGE_CONFIG :: "(string, nat \<times> nat) dict" where
  "OVERAGE_CONFIG = [(''pro'', (500, 5000)), (''team'', (2500, 50000)), (''business'', (10000, 250000))]"

record subscription =
  su_tenant :: string
  su_customer :: "string option"
  su_subscription :: "string option"
  su_tier :: string
  su_interval :: string
  su_status :: string
  su_eval_limit :: "nat option"
  su_patterns_limit :: "nat option"
  su_projects_limit :: "nat option"
  su_period_end :: "string option"
  su_past_due :: "string option"
  su_cancel_eop :: bool

definition plan_subscription :: "string \<Rightarrow> string \<Rightarrow> limits \<Rightarrow> subscription" where
  "plan_subscription tenant tier l =
     \<lparr>su_tenant = tenant, su_customer = None, su_subscription = None, su_tier = tier, su_interval = ''month'',
      su_status = ''active'', su_eval_limit = lm_eval_runs l, su_patterns_limit = lm_patterns l,
      su_projects_limit = lm_projects l, su_period_end = None, su_past_due = None, su_cancel_eop = False\<rparr>"

definition developer_default :: "string \<Rightarrow> subscription" where
  "developer_default tenant = plan_subscription tenant ''developer'' developer_limits"

record overage =
  ov_enabled :: bool
  ov_price :: nat
  ov_unit :: nat
  ov_cap :: "int option"

record billing_status =
  bs_tier :: string
  bs_status :: string
  bs_interval :: string
  bs_eval_used :: nat
  bs_eval_limit :: "nat option"
  bs_patterns_used :: nat
  bs_patterns_limit :: "nat option"
  bs_projects_used :: nat
  bs_projects_limit :: "nat option"
  bs_period_end :: "string option"
  bs_overage :: bool
  bs_cap :: "int option"
  bs_cancel_eop :: bool

lemma plan_limits_developer [simp]: "dget PLAN_LIMITS ''developer'' = Some developer_limits"
  by (simp add: PLAN_LIMITS_def developer_limits_def)

lemma overage_config_pos:
  "dget OVERAGE_CONFIG tier = Some (p, u) \<Longrightarrow> 0 < p \<and> 0 < u"
  by (auto simp: OVERAGE_CONFIG_def split: if_splits)

section \<open>Stripe prices\<close>

definition PRICE_ENV_VARS :: "(string \<times> string, string) dict" where
  "PRICE_ENV_VARS =
    [((''pro'', ''monthly''), ''STRIPE_PRICE_PRO_MONTHLY''),
     ((''pro'', ''yearly''), ''STRIPE_PRICE_PRO_YEARLY''),
     ((''team'', ''monthly''), ''STRIPE_PRICE_TEAM_MONTHLY''),
     ((''team'', ''yearly''), ''STRIPE_PRICE_TEAM_YEARLY''),
     ((''business'', ''monthly''), ''STRIPE_PRICE_BUSINESS_MONTHLY''),
     ((''business'', ''yearly''), ''STRIPE_PRICE_BUSINESS_YEARLY'')]"

definition env_price :: "(string, string) dict \<Rightarrow> string \<Rightarrow> string" where
  "env_price env v = py_strip (case dget env v of Some s \<Rightarrow> s | None \<Rightarrow> [])"

definition resolve_price_id :: "(string, string) dict \<Rightarrow> string \<Rightarrow> string \<Rightarrow> string res" where
  "resolve_price_id env plan interval =
     (case dget PRICE_ENV_VARS (plan, interval) of
        None \<Rightarrow> Inl (ValueError ''Unsupported plan/interval combination'')
      | Some v \<Rightarrow>
          if env_price env v = [] then Inl (RuntimeError (v @ '' is not set'')) else Inr (env_price env v))"

definition plan_tier_from_price_id :: "(string, string) dict \<Rightarrow> string option \<Rightarrow> string option" where
  "plan_tier_from_price_id env price =
     (case price of
        None \<Rightarrow> None
      | Some p \<Rightarrow>
          if p = [] then None
          else map_option (fst \<circ> fst)
            (find (\<lambda>(k, v). env_price env v \<noteq> [] \<and> env_price env v = p) PRICE_ENV_VARS))"

text \<open>A resolved price maps back to a plan that uses it; to the plan itself when prices are distinct.\<close>

lemma resolved_price_maps_back:
  assumes "resolve_price_id env plan interval = Inr p"
  shows "\<exists>plan' i. plan_tier_from_price_id env (Some p) = Some plan' \<and> resolve_price_id env plan' i = Inr p"
proof -
  obtain v where v: "dget PRICE_ENV_VARS (plan, interval) = Some v" "env_price env v = p" "p \<noteq> []"
    using assms by (auto simp: resolve_price_id_def split: option.splits if_splits)
  have "((plan, interval), v) \<in> set PRICE_ENV_VARS" using v(1) by (rule map_of_SomeD)
  then obtain x where x: "find (\<lambda>(k, v). env_price env v \<noteq> [] \<and> env_price env v = p) PRICE_ENV_VARS = Some x"
    using v(2,3) by (cases "find (\<lambda>(k, v). env_price env v \<noteq> [] \<and> env_price env v = p) PRICE_ENV_VARS")
      (auto simp: find_None_iff)
  obtain plan' i v' where k: "x = ((plan', i), v')" by (metis prod.collapse)
  have m: "((plan', i), v') \<in> set PRICE_ENV_VARS" "env_price env v' = p" using find_in_set [OF x] by (auto simp: k)
  have "wf_dict PRICE_ENV_VARS" by (simp add: wf_dict_def PRICE_ENV_VARS_def)
  then have "dget PRICE_ENV_VARS (plan', i) = Some v'" using m(1) by (simp add: wf_dict_in_set)
  then have "resolve_price_id env plan' i = Inr p" using m(2) v(3) by (simp add: resolve_price_id_def)
  moreover have "plan_tier_from_price_id env (Some p) = Some plan'"
    using x v(3) by (simp add: plan_tier_from_price_id_def k)
  ultimately show ?thesis by blast
qed

section \<open>Tiers and features\<close>

definition TIER_ORDER :: "string list" where
  "TIER_ORDER = [''developer'', ''pro'', ''team'', ''business'', ''enterprise'']"

definition FEATURE_MIN_TIER :: "(string, string) dict" where
  "FEATURE_MIN_TIER =
    [(''byok.role_models'', ''business''), (''byok.failover_chain'', ''business''),
     (''byok.role_cost_ceiling'', ''business'')]"

definition normalised_tier :: "string \<Rightarrow> string" where
  "normalised_tier tier = (if tier = ''sandbox'' then ''developer'' else tier)"

text \<open>\<open>list.index\<close>; None is the ValueError.\<close>

fun index_of :: "'a \<Rightarrow> 'a list \<Rightarrow> nat option" where
  "index_of x [] = None"
| "index_of x (y # ys) = (if x = y then Some 0 else map_option Suc (index_of x ys))"

definition tier_at_least :: "string \<Rightarrow> string \<Rightarrow> bool" where
  "tier_at_least current required =
     (case (index_of (normalised_tier current) TIER_ORDER, index_of (normalised_tier required) TIER_ORDER) of
        (Some c, Some r) \<Rightarrow> r \<le> c
      | _ \<Rightarrow> False)"

definition require_feature :: "subscription \<Rightarrow> string \<Rightarrow> unit res" where
  "require_feature sub feature =
     (case dget FEATURE_MIN_TIER feature of
        None \<Rightarrow> Inl (KeyError feature)
      | Some t \<Rightarrow> if tier_at_least (su_tier sub) t then Inr () else Inl (HttpError 402 ''ENTITLEMENT_REQUIRED''))"

definition has_feature :: "subscription \<Rightarrow> string \<Rightarrow> bool res" where
  "has_feature sub feature =
     (case dget FEATURE_MIN_TIER feature of
        None \<Rightarrow> Inl (KeyError feature) | Some t \<Rightarrow> Inr (tier_at_least (su_tier sub) t))"

lemma index_of_None: "index_of x ys = None \<longleftrightarrow> x \<notin> set ys"
  by (induction ys) auto

text \<open>A total preorder on the known tiers; an unknown tier is below every tier, itself included.\<close>

lemma tier_at_least_order:
  "tier_at_least a b \<Longrightarrow> tier_at_least b c \<Longrightarrow> tier_at_least a c"
  "normalised_tier a \<in> set TIER_ORDER \<Longrightarrow> normalised_tier b \<in> set TIER_ORDER \<Longrightarrow> tier_at_least a b \<or> tier_at_least b a"
  "normalised_tier a \<notin> set TIER_ORDER \<Longrightarrow> \<not> tier_at_least a b"
  using index_of_None [of "normalised_tier a" TIER_ORDER] index_of_None [of "normalised_tier b" TIER_ORDER]
  by (auto simp: tier_at_least_def split: option.splits)

section \<open>The price card\<close>

definition RATE_CARD :: "(string \<times> string, nat \<times> nat) dict" where
  "RATE_CARD =
    [((''openai'', ''gpt-5''), (250, 1000)),
     ((''openai'', ''gpt-4.1''), (200, 800)),
     ((''openai'', ''gpt-4.1-mini''), (40, 160)),
     ((''openai'', ''gpt-4o''), (250, 1000)),
     ((''openai'', ''gpt-4o-mini''), (15, 60)),
     ((''openai'', ''text-embedding-3-small''), (2, 0)),
     ((''openai'', ''text-embedding-3-large''), (13, 0)),
     ((''anthropic'', ''claude-opus-4-7''), (1500, 7500)),
     ((''anthropic'', ''claude-sonnet-4-6''), (300, 1500)),
     ((''anthropic'', ''claude-haiku-4-5''), (80, 400)),
     ((''gemini'', ''gemini-2.5-pro''), (125, 1000)),
     ((''gemini'', ''gemini-2.5-flash''), (30, 250)),
     ((''gemini'', ''gemini-embedding-001''), (2, 0))]"

definition cost_for :: "string \<Rightarrow> string \<Rightarrow> nat \<Rightarrow> nat \<Rightarrow> nat option" where
  "cost_for provider model tokens_in tokens_out =
     map_option (\<lambda>(pin, pout). pin * tokens_in div 1000000 + pout * tokens_out div 1000000)
       (dget RATE_CARD (provider, model))"

definition has_rate_card :: "string \<Rightarrow> string \<Rightarrow> bool" where
  "has_rate_card provider model \<longleftrightarrow> (provider, model) \<in> fst ` set RATE_CARD"

definition known_models_for_provider :: "string \<Rightarrow> string list" where
  "known_models_for_provider provider = sort (map (snd \<circ> fst) (filter (\<lambda>((p, m), r). p = provider) RATE_CARD))"

lemma has_rate_card_iff: "has_rate_card p m \<longleftrightarrow> (\<exists>c. cost_for p m i j = Some c)"
  using dget_None_iff [of RATE_CARD "(p, m)"] by (auto simp: has_rate_card_def cost_for_def)

lemma known_models_have_cards: "m \<in> set (known_models_for_provider p) \<longleftrightarrow> has_rate_card p m"
  by (force simp: known_models_for_provider_def has_rate_card_def)

end
