(* ===== verification/Metering.thy ===== *)
theory Metering
  imports Plans
begin

text \<open>
  The usage counters (\<open>billing/metering.py\<close>), the per-role spend counters
  (\<open>billing/role_metering.py\<close>) and the limit checks over them
  (\<open>billing/enforcement.py\<close>). A counter table is a dictionary from the unique key of its
  table to the row; \<open>None\<close> is the service without an engine. \<open>fails\<close> says whether
  the statement of the operation raises; the clock is in whole seconds.
\<close>

section \<open>Usage counters\<close>

type_synonym usage = "(string \<times> string \<times> nat \<times> nat, nat) dict"

definition current_period :: "nat \<Rightarrow> nat \<times> nat" where
  "current_period now = (case civil (now div 86400) of (y, m, d) \<Rightarrow> (y, m))"

definition usage_increment :: "bool \<Rightarrow> usage option \<Rightarrow> string \<Rightarrow> string \<Rightarrow> nat \<Rightarrow> nat \<times> usage option" where
  "usage_increment fails db tenant metric now =
     (case db of
        None \<Rightarrow> (0, db)
      | Some u \<Rightarrow>
          if fails then (0, db)
          else (let (y, m) = current_period now; k = (tenant, metric, y, m);
                    c = (case dget u k of None \<Rightarrow> 1 | Some c \<Rightarrow> c + 1)
                in (c, Some (dput k c u))))"

definition usage_get :: "bool \<Rightarrow> usage option \<Rightarrow> string \<Rightarrow> string \<Rightarrow> (nat \<times> nat) option \<Rightarrow> nat \<Rightarrow> nat" where
  "usage_get fails db tenant metric period now =
     (case db of
        None \<Rightarrow> 0
      | Some u \<Rightarrow>
          if fails then 0
          else (let (y, m) = (case period of None \<Rightarrow> current_period now | Some p \<Rightarrow> p)
                in case dget u (tenant, metric, y, m) of None \<Rightarrow> 0 | Some c \<Rightarrow> c))"

definition get_overage_units :: "bool \<Rightarrow> usage option \<Rightarrow> string \<Rightarrow> string \<Rightarrow> nat \<Rightarrow> nat \<Rightarrow> nat" where
  "get_overage_units fails db tenant metric limit now = usage_get fails db tenant metric None now - limit"

lemma usage_get_increment:
  "usage_get False (snd (usage_increment False (Some u) t m now)) t' m' p now' =
     (if (t', m', (case p of None \<Rightarrow> current_period now' | Some x \<Rightarrow> x)) = (t, m, current_period now)
      then usage_get False (Some u) t m None now + 1 else usage_get False (Some u) t' m' p now')"
  by (auto simp: usage_get_def usage_increment_def Let_def dict_simps split: option.splits prod.splits)

section \<open>Spend per role\<close>

record spend =
  sp_cents :: nat
  sp_in :: nat
  sp_out :: nat

type_synonym spends = "(string \<times> string \<times> string \<times> string, spend) dict"

text \<open>\<open>strftime("%Y-%m")\<close>; the callers' years have four digits.\<close>

definition current_month :: "nat \<Rightarrow> string" where
  "current_month now = (case civil (now div 86400) of (y, m, d) \<Rightarrow> pad 4 y @ ''-'' @ pad 2 m)"

definition increment_spend ::
  "bool \<Rightarrow> spends option \<Rightarrow> string \<Rightarrow> string \<Rightarrow> string \<Rightarrow> int \<Rightarrow> nat \<Rightarrow> nat \<Rightarrow> nat \<Rightarrow> nat \<times> spends option" where
  "increment_spend fails db tenant cred role cost tin tout now =
     (case db of
        None \<Rightarrow> (0, db)
      | Some s \<Rightarrow>
          if cost \<le> 0 then (0, db)
          else if fails then (0, db)
          else (let k = (tenant, cred, role, current_month now);
                    r = (case dget s k of
                           None \<Rightarrow> \<lparr>sp_cents = nat cost, sp_in = tin, sp_out = tout\<rparr>
                         | Some r \<Rightarrow> \<lparr>sp_cents = sp_cents r + nat cost, sp_in = sp_in r + tin, sp_out = sp_out r + tout\<rparr>)
                in (sp_cents r, Some (dput k r s))))"

definition month_or_current :: "string option \<Rightarrow> nat \<Rightarrow> string" where
  "month_or_current month now =
     (case month of None \<Rightarrow> current_month now | Some m \<Rightarrow> if m = [] then current_month now else m)"

definition get_spend :: "bool \<Rightarrow> spends option \<Rightarrow> string \<Rightarrow> string \<Rightarrow> string \<Rightarrow> string option \<Rightarrow> nat \<Rightarrow> nat" where
  "get_spend fails db tenant cred role month now =
     (case db of
        None \<Rightarrow> 0
      | Some s \<Rightarrow>
          if fails then 0
          else (case dget s (tenant, cred, role, month_or_current month now) of None \<Rightarrow> 0 | Some r \<Rightarrow> sp_cents r))"

definition list_for_credential ::
  "bool \<Rightarrow> spends option \<Rightarrow> string \<Rightarrow> string \<Rightarrow> string option \<Rightarrow> nat \<Rightarrow> (string, nat) dict" where
  "list_for_credential fails db tenant cred month now =
     (case db of
        None \<Rightarrow> []
      | Some s \<Rightarrow>
          if fails then []
          else map (\<lambda>((t, c, role, m), r). (role, sp_cents r))
            (filter (\<lambda>((t, c, role, m), r). t = tenant \<and> c = cred \<and> m = month_or_current month now) s))"

text \<open>A run of completed calls, each costed by the card and added to its role's counter.\<close>

definition meter_call ::
  "string \<Rightarrow> string \<Rightarrow> string \<Rightarrow> string \<Rightarrow> string \<Rightarrow> nat \<Rightarrow> nat \<times> nat \<Rightarrow> spends option \<Rightarrow> spends option" where
  "meter_call tenant cred role provider model now tokens db =
     (case cost_for provider model (fst tokens) (snd tokens) of
        None \<Rightarrow> db
      | Some c \<Rightarrow> snd (increment_spend False db tenant cred role (int c) (fst tokens) (snd tokens) now))"

lemma get_spend_increment:
  "get_spend False (snd (increment_spend False (Some s) t c r cost i j now)) t c r None now =
     get_spend False (Some s) t c r None now + nat cost"
  by (auto simp: get_spend_def increment_spend_def Let_def dict_simps month_or_current_def split: option.splits)

lemma increment_spend_Some: "\<exists>s'. snd (increment_spend False (Some s) t c r cost i j now) = Some s'"
  by (simp add: increment_spend_def Let_def)

lemma meter_calls:
  assumes "dget RATE_CARD (provider, model) = Some (pin, pout)"
  shows "\<exists>s'. fold (meter_call t c r provider model now) calls (Some s) = Some s' \<and>
    get_spend False (Some s') t c r None now = get_spend False (Some s) t c r None now +
      (\<Sum>(i, j)\<leftarrow>calls. pin * i div 1000000 + pout * j div 1000000)"
proof (induction calls arbitrary: s)
  case (Cons ij calls)
  obtain i j where ij: "ij = (i, j)" by (cases ij)
  let ?cost = "int (pin * i div 1000000 + pout * j div 1000000)"
  obtain s1 where s1: "snd (increment_spend False (Some s) t c r ?cost i j now) = Some s1"
    using increment_spend_Some by blast
  have "meter_call t c r provider model now ij (Some s) = Some s1"
    using assms s1 by (simp add: meter_call_def cost_for_def ij)
  moreover have "get_spend False (Some s1) t c r None now =
      get_spend False (Some s) t c r None now + (pin * i div 1000000 + pout * j div 1000000)"
    using get_spend_increment [of s t c r ?cost i j now] by (simp only: s1 nat_int)
  ultimately show ?case using Cons.IH [of s1] by (auto simp: ij)
qed simp

section \<open>Limit checks\<close>

text \<open>
  \<open>datetime.fromisoformat\<close> on the texts \<open>isoformat\<close> writes for UTC times, with the
  zone absent or UTC (None is the ValueError; other formats are not covered).
\<close>

definition strip_zone :: "string \<Rightarrow> string" where
  "strip_zone s =
     (if drop (length s - 6) s = ''+00:00'' then take (length s - 6) s
      else if drop (length s - 1) s = ''Z'' then butlast s else s)"

definition from_iso :: "string \<Rightarrow> int option" where
  "from_iso s = (let b = strip_zone s in if length b = 19 \<and> CHR '' '' \<notin> set b then parse_iso b else None)"

definition now_iso :: "nat \<Rightarrow> string" where
  "now_iso t = iso t @ ''+00:00''"

definition GRACE_PERIOD_DAYS :: int where "GRACE_PERIOD_DAYS = 7"

definition check_subscription_active :: "subscription \<Rightarrow> nat \<Rightarrow> unit res" where
  "check_subscription_active sub now =
     (if su_status sub = ''past_due'' then
        (if (case su_past_due sub of
               None \<Rightarrow> False
             | Some w \<Rightarrow>
                 (case from_iso w of None \<Rightarrow> False | Some since \<Rightarrow> (int now - since) div 86400 < GRACE_PERIOD_DAYS))
         then Inr () else Inl (HttpError 402 ''payment_required''))
      else if su_status sub = ''canceled'' then Inl (HttpError 403 ''subscription_canceled'')
      else Inr ())"

text \<open>The spend the cap is compared with.\<close>

definition overage_spend :: "nat \<Rightarrow> nat \<Rightarrow> overage \<Rightarrow> nat" where
  "overage_spend used limit ov = (used - limit) div ov_unit ov * ov_price ov"

definition enforce_eval_runs :: "nat \<Rightarrow> subscription \<Rightarrow> overage option \<Rightarrow> nat \<Rightarrow> unit res" where
  "enforce_eval_runs used sub ov now =
     bind_res (check_subscription_active sub now) (\<lambda>_.
       case su_eval_limit sub of
         None \<Rightarrow> Inr ()
       | Some limit \<Rightarrow>
           if used < limit then Inr ()
           else (case ov of
               Some w \<Rightarrow>
                 if ov_enabled w then
                   (case ov_cap w of
                      None \<Rightarrow> Inr ()
                    | Some cap \<Rightarrow>
                        if int (overage_spend used limit w) < cap then Inr ()
                        else Inl (HttpError 429 ''overage_budget_cap_reached''))
                 else Inl (HttpError 429 ''quota_exceeded'')
             | None \<Rightarrow> Inl (HttpError 429 ''quota_exceeded'')))"

definition enforce_patterns :: "nat \<Rightarrow> subscription \<Rightarrow> nat \<Rightarrow> unit res" where
  "enforce_patterns used sub now =
     bind_res (check_subscription_active sub now) (\<lambda>_.
       case su_patterns_limit sub of
         None \<Rightarrow> Inr ()
       | Some limit \<Rightarrow> if limit \<le> used then Inl (HttpError 429 ''quota_exceeded'') else Inr ())"

text \<open>The date a quota error names.\<close>

definition next_period_start :: "nat \<Rightarrow> string" where
  "next_period_start now =
     (case civil (now div 86400) of (y, m, d) \<Rightarrow> if m = 12 then date_str (y + 1, 1, 1) else date_str (y, m + 1, 1))"

lemma stamp_no_blank: "c \<in> set (iso t) \<Longrightarrow> c \<noteq> CHR '' ''"
proof -
  assume c: "c \<in> set (iso t)"
  obtain y m d where "civil (t div 86400) = (y, m, d)" by (cases "civil (t div 86400)")
  with c have "c \<in> set (pad 4 y) \<or> c \<in> set (pad 2 m) \<or> c \<in> set (pad 2 d) \<or> c \<in> {CHR ''-'', CHR ''T'', CHR '':''} \<or>
      c \<in> set (pad 2 (t mod 86400 div 3600)) \<or> c \<in> set (pad 2 (t mod 86400 div 60 mod 60)) \<or> c \<in> set (pad 2 (t mod 86400 mod 60))"
    by (auto simp: iso_def stamp_def clock_str_def simp del: pad.simps)
  then show ?thesis by (auto dest!: pad_digits simp: is_digit_def code_def simp del: pad.simps)
qed

lemma from_iso_now_iso: "time_ok t \<Longrightarrow> from_iso (now_iso t) = Some (int t)"
proof -
  assume t: "time_ok t"
  have l: "length (iso t) = 19" by (simp add: iso_def)
  have "strip_zone (now_iso t) = iso t" by (simp add: strip_zone_def now_iso_def l)
  moreover have "CHR '' '' \<notin> set (iso t)" using stamp_no_blank by blast
  ultimately show ?thesis using l parse_iso_iso [OF t] by (simp add: from_iso_def)
qed

end
