(* ===== verification/Billing.thy ===== *)
theory Billing
  imports Metering
begin

text \<open>
  \<open>engramia/billing/service.py\<close>: the billing service over its tables, and the endpoints of
  \<open>engramia/billing/webhooks.py\<close> that drive it. The Stripe client is a parameter (a
  record of what its calls answer); what it is told to charge is kept in the state. Each SQL
  statement has a name, and the set of names says which statements raise SQLAlchemyError in a
  call. A unique constraint that a write would violate raises too.
\<close>

section \<open>State\<close>

record cloud_user =
  cu_tenant :: string
  cu_email :: string
  cu_created :: string
  cu_deleted :: bool

record invoice_item =
  ii_customer :: string
  ii_amount :: int
  ii_description :: string
  ii_subscription :: "string option"

type_synonym subs = "(string, subscription) dict"

record bill =
  bi_engine :: bool
  bi_subs :: subs
  bi_tenants :: "(string, string option) dict"
  bi_overage :: "(string \<times> string, overage) dict"
  bi_usage :: usage
  bi_projects :: "(string \<times> bool) list"
  bi_users :: "cloud_user list"
  bi_events :: "(string, string) dict"
  bi_invoiced :: "invoice_item list"
  bi_env :: "(string, string) dict"

datatype stmt = QSub | QAdmin | QOverage | QProjects | QEmail | QCustomer | QUsage | QLink | QUpsert
  | QDowngrade | QStatus | QSetOverage | QNewCustomer | QIsProcessed | QMark

text \<open>A Stripe object normalised to a dictionary: the keys the handlers read.\<close>

record stripe_item =
  it_interval :: string
  it_period_end :: "nat option"
  it_price :: "string option"

record stripe_object =
  ob_id :: "string option"
  ob_customer :: "string option"
  ob_status :: "string option"
  ob_items :: "stripe_item list"
  ob_period_end :: "nat option"
  ob_meta_tier :: string
  ob_meta_tenant :: "string option"
  ob_cancel_eop :: bool
  ob_mode :: "string option"
  ob_client_ref :: "string option"
  ob_subscription :: "string option"

record stripe_event =
  se_id :: string
  se_type :: string
  se_object :: stripe_object

record stripe =
  st_checkout :: "string option \<Rightarrow> string \<Rightarrow> string \<Rightarrow> string \<Rightarrow> string \<Rightarrow> string \<Rightarrow> string option \<Rightarrow> string res"
  st_portal :: "string \<Rightarrow> string \<Rightarrow> string res"
  st_customer :: "string \<Rightarrow> string option \<Rightarrow> string res"
  st_cancel :: "string \<Rightarrow> unit res"
  st_retrieve :: "string \<Rightarrow> stripe_object res"
  st_invoice :: "invoice_item \<Rightarrow> unit res"
  st_event :: "string \<Rightarrow> string \<Rightarrow> stripe_event res"

definition truthy :: "string option \<Rightarrow> bool" where
  "truthy s \<longleftrightarrow> s \<noteq> None \<and> s \<noteq> Some []"

definition is_stripe_error :: "exn \<Rightarrow> bool" where
  "is_stripe_error e \<longleftrightarrow> (\<exists>m. e = StripeError m \<or> e = ConnectionError m \<or> e = TimeoutError m)"

lemma is_stripe_error_code [code, simp]:
  "is_stripe_error (StripeError m)" "is_stripe_error (ConnectionError m)" "is_stripe_error (TimeoutError m)"
  "\<not> is_stripe_error (ValueError m)" "\<not> is_stripe_error (KeyError m)" "\<not> is_stripe_error (RuntimeError m)"
  "\<not> is_stripe_error (ValidationError m)" "\<not> is_stripe_error (ProviderError m)"
  "\<not> is_stripe_error (HttpError n m)" "\<not> is_stripe_error (OtherError m)"
  by (simp_all add: is_stripe_error_def)

definition usage_db :: "bill \<Rightarrow> usage option" where
  "usage_db b = (if bi_engine b then Some (bi_usage b) else None)"

section \<open>Subscriptions\<close>

definition admin_assigned_plan :: "stmt set \<Rightarrow> bill \<Rightarrow> string \<Rightarrow> string option" where
  "admin_assigned_plan fails b tenant =
     (if QAdmin \<in> fails then None
      else (case dget (bi_tenants b) tenant of
          None \<Rightarrow> None
        | Some t \<Rightarrow>
            (let tier = py_lower (py_strip (case t of None \<Rightarrow> [] | Some w \<Rightarrow> w))
             in if tier = [] \<or> tier = ''free'' \<or> tier = ''developer'' then None
                else if dget PLAN_LIMITS tier = None then None else Some tier)))"

text \<open>\<open>x or d\<close> on the text columns.\<close>

definition or_default :: "string \<Rightarrow> string \<Rightarrow> string" where
  "or_default s d = (if s = [] then d else s)"

definition get_subscription :: "stmt set \<Rightarrow> bill \<Rightarrow> string \<Rightarrow> subscription" where
  "get_subscription fails b tenant =
     (if \<not> bi_engine b then developer_default tenant
      else if QSub \<in> fails then developer_default tenant
      else (case dget (bi_subs b) tenant of
          Some r \<Rightarrow> r\<lparr>su_tenant := tenant, su_tier := or_default (su_tier r) ''developer'',
            su_interval := or_default (su_interval r) ''month'', su_status := or_default (su_status r) ''active''\<rparr>
        | None \<Rightarrow>
            (case admin_assigned_plan fails b tenant of
               Some tier \<Rightarrow>
                 (case dget PLAN_LIMITS tier of
                    Some l \<Rightarrow> plan_subscription tenant tier l
                  | None \<Rightarrow> developer_default tenant)
             | None \<Rightarrow> developer_default tenant)))"

definition get_overage_settings :: "stmt set \<Rightarrow> bill \<Rightarrow> string \<Rightarrow> string \<Rightarrow> overage option" where
  "get_overage_settings fails b tenant metric =
     (if \<not> bi_engine b \<or> QOverage \<in> fails then None else dget (bi_overage b) (tenant, metric))"

definition tenant_id_by_customer :: "stmt set \<Rightarrow> bill \<Rightarrow> string \<Rightarrow> string option" where
  "tenant_id_by_customer fails b cust =
     (if \<not> bi_engine b \<or> QCustomer \<in> fails then None
      else map_option fst (find (\<lambda>(t, r). su_customer r = Some cust) (bi_subs b)))"

definition count_projects :: "stmt set \<Rightarrow> bill \<Rightarrow> string \<Rightarrow> nat" where
  "count_projects fails b tenant =
     (if \<not> bi_engine b \<or> QProjects \<in> fails then 0
      else length (filter (\<lambda>(t, deleted). t = tenant \<and> \<not> deleted) (bi_projects b)))"

section \<open>Enforcement, metering, status\<close>

definition check_eval_runs :: "stmt set \<Rightarrow> bill \<Rightarrow> string \<Rightarrow> nat \<Rightarrow> unit res" where
  "check_eval_runs fails b tenant now =
     (if \<not> bi_engine b then Inr ()
      else enforce_eval_runs (usage_get (QUsage \<in> fails) (usage_db b) tenant METRIC_EVAL_RUNS None now)
        (get_subscription fails b tenant) (get_overage_settings fails b tenant METRIC_EVAL_RUNS) now)"

definition check_patterns :: "stmt set \<Rightarrow> bill \<Rightarrow> string \<Rightarrow> nat \<Rightarrow> nat \<Rightarrow> unit res" where
  "check_patterns fails b tenant current now =
     (if \<not> bi_engine b then Inr () else enforce_patterns current (get_subscription fails b tenant) now)"

definition increment_eval_runs :: "stmt set \<Rightarrow> bill \<Rightarrow> string \<Rightarrow> nat \<Rightarrow> bill" where
  "increment_eval_runs fails b tenant now =
     (case snd (usage_increment (QUsage \<in> fails) (usage_db b) tenant METRIC_EVAL_RUNS now) of
        None \<Rightarrow> b | Some u \<Rightarrow> b\<lparr>bi_usage := u\<rparr>)"

definition get_status :: "stmt set \<Rightarrow> bill \<Rightarrow> string \<Rightarrow> nat \<Rightarrow> nat \<Rightarrow> billing_status" where
  "get_status fails b tenant patterns now =
     (let sub = get_subscription fails b tenant;
          ov = get_overage_settings fails b tenant METRIC_EVAL_RUNS
      in \<lparr>bs_tier = su_tier sub, bs_status = su_status sub, bs_interval = su_interval sub,
          bs_eval_used = usage_get (QUsage \<in> fails) (usage_db b) tenant METRIC_EVAL_RUNS None now,
          bs_eval_limit = su_eval_limit sub, bs_patterns_used = patterns, bs_patterns_limit = su_patterns_limit sub,
          bs_projects_used = count_projects fails b tenant, bs_projects_limit = su_projects_limit sub,
          bs_period_end = su_period_end sub, bs_overage = (case ov of None \<Rightarrow> False | Some w \<Rightarrow> ov_enabled w),
          bs_cap = (case ov of None \<Rightarrow> None | Some w \<Rightarrow> ov_cap w), bs_cancel_eop = su_cancel_eop sub\<rparr>)"

text \<open>The run handler: check, run the evaluation, count it.\<close>

definition guarded_run :: "string \<Rightarrow> nat \<Rightarrow> bill \<Rightarrow> bill" where
  "guarded_run tenant now b =
     (case check_eval_runs {} b tenant now of Inr _ \<Rightarrow> increment_eval_runs {} b tenant now | Inl _ \<Rightarrow> b)"

section \<open>Rows\<close>

text \<open>The customer and the subscription identifier are unique over the table.\<close>

definition unique_ok :: "subs \<Rightarrow> string \<Rightarrow> subscription \<Rightarrow> bool" where
  "unique_ok q tenant row = list_all (\<lambda>(t, r). t = tenant \<or>
     (su_customer row = None \<or> su_customer r \<noteq> su_customer row) \<and>
     (su_subscription row = None \<or> su_subscription r \<noteq> su_subscription row)) q"

text \<open>\<open>INSERT ... ON CONFLICT (tenant_id) DO UPDATE\<close>; None when the statement raises.\<close>

definition upsert_row :: "bool \<Rightarrow> subs \<Rightarrow> string \<Rightarrow> subscription \<Rightarrow> (subscription \<Rightarrow> subscription) \<Rightarrow> subs option" where
  "upsert_row raises q tenant new upd =
     (let row = (case dget q tenant of None \<Rightarrow> new | Some r \<Rightarrow> upd r)
      in if raises \<or> \<not> unique_ok q tenant row then None else Some (dput tenant row q))"

text \<open>\<open>UPDATE ... WHERE stripe_customer_id = :cid\<close>\<close>

definition update_customer :: "string \<Rightarrow> (subscription \<Rightarrow> subscription) \<Rightarrow> subs \<Rightarrow> subs" where
  "update_customer cust f q = map (\<lambda>(t, r). (t, if su_customer r = Some cust then f r else r)) q"

section \<open>Stripe customers, checkout, cancellation, overage\<close>

definition create_stripe_customer ::
  "stmt set \<Rightarrow> stripe \<Rightarrow> bill \<Rightarrow> string \<Rightarrow> string option \<Rightarrow> string option res \<times> bill" where
  "create_stripe_customer fails st b tenant email =
     (case st_customer st tenant email of
        Inl (RuntimeError m) \<Rightarrow> (Inr None, b)
      | Inl e \<Rightarrow> (Inl e, b)
      | Inr cust \<Rightarrow>
          if \<not> bi_engine b then (Inr (Some cust), b)
          else (case upsert_row (QNewCustomer \<in> fails) (bi_subs b) tenant
                  ((plan_subscription tenant ''sandbox'' developer_limits)\<lparr>su_customer := Some cust\<rparr>)
                  (\<lambda>r. r\<lparr>su_customer := Some cust\<rparr>) of
              None \<Rightarrow> (Inr (Some cust), b)
            | Some q \<Rightarrow> (Inr (Some cust), b\<lparr>bi_subs := q\<rparr>)))"

definition create_checkout_url ::
  "stmt set \<Rightarrow> stripe \<Rightarrow> bill \<Rightarrow> string \<Rightarrow> string \<Rightarrow> string \<Rightarrow> string \<Rightarrow> string \<Rightarrow> string option \<Rightarrow> string res" where
  "create_checkout_url fails st b tenant plan interval success cancel email =
     bind_res (resolve_price_id (bi_env b) plan interval) (\<lambda>price.
       st_checkout st (su_customer (get_subscription fails b tenant)) price success cancel tenant plan email)"

definition cancel_subscription_for_tenant :: "stmt set \<Rightarrow> stripe \<Rightarrow> bill \<Rightarrow> string \<Rightarrow> bool res" where
  "cancel_subscription_for_tenant fails st b tenant =
     (if \<not> bi_engine b then Inr False
      else (case su_subscription (get_subscription fails b tenant) of
          None \<Rightarrow> Inr False
        | Some i \<Rightarrow>
            if i = [] then Inr False
            else (case st_cancel st i of
                Inr _ \<Rightarrow> Inr True
              | Inl (RuntimeError m) \<Rightarrow> Inr False
              | Inl e \<Rightarrow> if is_stripe_error e then Inr False else Inl e)))"

definition primary_email :: "stmt set \<Rightarrow> bill \<Rightarrow> string \<Rightarrow> string option" where
  "primary_email fails b tenant =
     (if \<not> bi_engine b \<or> QEmail \<in> fails then None
      else (case sort_key cu_created (filter (\<lambda>u. cu_tenant u = tenant \<and> \<not> cu_deleted u) (bi_users b)) of
          [] \<Rightarrow> None | u # _ \<Rightarrow> Some (cu_email u)))"

definition create_portal_url :: "stmt set \<Rightarrow> stripe \<Rightarrow> bill \<Rightarrow> string \<Rightarrow> string \<Rightarrow> string res \<times> bill" where
  "create_portal_url fails st b tenant url =
     (case su_customer (get_subscription fails b tenant) of
        Some (x # xs) \<Rightarrow> (st_portal st (x # xs) url, b)
      | _ \<Rightarrow>
          (case create_stripe_customer fails st b tenant (primary_email fails b tenant) of
              (Inl e, b') \<Rightarrow> (Inl e, b')
            | (Inr (Some (x # xs)), b') \<Rightarrow> (st_portal st (x # xs) url, b')
            | (Inr _, b') \<Rightarrow> (Inl (RuntimeError ''Stripe not configured''), b')))"

definition set_overage :: "stmt set \<Rightarrow> bill \<Rightarrow> string \<Rightarrow> bool \<Rightarrow> int option \<Rightarrow> bill res" where
  "set_overage fails b tenant enabled cap =
     (if \<not> bi_engine b then Inr b
      else (case dget OVERAGE_CONFIG (su_tier (get_subscription fails b tenant)) of
          None \<Rightarrow> Inl (ValueError ''Overage is not available for plan tier'')
        | Some (price, unit) \<Rightarrow>
            if QSetOverage \<in> fails then Inl (OtherError ''SQLAlchemyError'')
            else (let k = (tenant, METRIC_EVAL_RUNS);
                      row = (case dget (bi_overage b) k of
                          None \<Rightarrow> \<lparr>ov_enabled = enabled, ov_price = price, ov_unit = unit, ov_cap = cap\<rparr>
                        | Some r \<Rightarrow> r\<lparr>ov_enabled := enabled, ov_cap := cap\<rparr>)
                  in Inr (b\<lparr>bi_overage := dput k row (bi_overage b)\<rparr>))))"

end
