(* ===== verification/Webhooks.thy ===== *)
theory Webhooks
  imports Billing
begin

text \<open>
  Stripe's events: the handlers of \<open>engramia/billing/service.py\<close> and the endpoints of
  \<open>engramia/billing/webhooks.py\<close>. A handler returns its result with the state it leaves,
  also when it raises.
\<close>

section \<open>Handlers\<close>

definition need :: "string \<Rightarrow> 'a option \<Rightarrow> 'a res" where
  "need k v = (case v of None \<Rightarrow> Inl (KeyError k) | Some x \<Rightarrow> Inr x)"

text \<open>The plan: the metadata, else the price of the first item, else pro.\<close>

definition plan_of :: "(string, string) dict \<Rightarrow> stripe_object \<Rightarrow> stripe_item \<Rightarrow> string" where
  "plan_of env ob it =
     (if ob_meta_tier ob \<noteq> [] then ob_meta_tier ob
      else (case plan_tier_from_price_id env (it_price it) of
          Some t \<Rightarrow> if t = [] then ''pro'' else t
        | None \<Rightarrow> ''pro''))"

definition plan_limits :: "string \<Rightarrow> limits" where
  "plan_limits tier = (case dget PLAN_LIMITS tier of Some l \<Rightarrow> l | None \<Rightarrow> developer_limits)"

definition period_end_of :: "stripe_object \<Rightarrow> stripe_item \<Rightarrow> nat option" where
  "period_end_of ob it =
     (case it_period_end it of
        None \<Rightarrow> ob_period_end ob | Some n \<Rightarrow> if n = 0 then ob_period_end ob else Some n)"

text \<open>What the upsert writes on a row.\<close>

definition set_subscription :: "(string, string) dict \<Rightarrow> stripe_object \<Rightarrow> stripe_item \<Rightarrow> string \<Rightarrow> string \<Rightarrow> nat \<Rightarrow>
  subscription \<Rightarrow> subscription" where
  "set_subscription env ob it sid status period r =
     (let tier = plan_of env ob it; l = plan_limits tier
      in r\<lparr>su_subscription := Some sid, su_tier := tier, su_interval := it_interval it, su_status := status,
           su_eval_limit := lm_eval_runs l, su_patterns_limit := lm_patterns l, su_projects_limit := lm_projects l,
           su_period_end := Some (now_iso period), su_cancel_eop := ob_cancel_eop ob\<rparr>)"

definition tenant_for :: "stmt set \<Rightarrow> bill \<Rightarrow> string \<Rightarrow> stripe_object \<Rightarrow> string option" where
  "tenant_for fails b cust ob =
     (let t = tenant_id_by_customer fails b cust in if truthy t then t else ob_meta_tenant ob)"

definition upsert_subscription :: "stmt set \<Rightarrow> bill \<Rightarrow> stripe_object \<Rightarrow> unit res \<times> bill" where
  "upsert_subscription fails b ob =
     (if \<not> bi_engine b then (Inr (), b)
      else (case ob_customer ob of None \<Rightarrow> (Inl (KeyError ''customer''), b) | Some cust \<Rightarrow>
      (case ob_id ob of None \<Rightarrow> (Inl (KeyError ''id''), b) | Some sid \<Rightarrow>
      (case ob_status ob of None \<Rightarrow> (Inl (KeyError ''status''), b) | Some status \<Rightarrow>
      (case ob_items ob of [] \<Rightarrow> (Inl (ValueError ''Subscription has no items''), b) | it # _ \<Rightarrow>
      (case period_end_of ob it of None \<Rightarrow> (Inl (ValueError ''Subscription has no current_period_end''), b) | Some period \<Rightarrow>
      (case tenant_for fails b cust ob of None \<Rightarrow> (Inr (), b) | Some tenant \<Rightarrow>
        if tenant = [] then (Inr (), b)
        else (let f = set_subscription (bi_env b) ob it sid status period
              in case upsert_row (QUpsert \<in> fails) (bi_subs b) tenant
                   (f ((developer_default tenant)\<lparr>su_customer := Some cust\<rparr>)) f of
                   None \<Rightarrow> (Inr (), b)
                 | Some q \<Rightarrow> (Inr (), b\<lparr>bi_subs := q\<rparr>)))))))))"

text \<open>
  The row a checkout writes when the tenant has none: the column defaults of the migrations
  (008 with 024's plan name).
\<close>

definition stub_row :: "string \<Rightarrow> string \<Rightarrow> subscription" where
  "stub_row tenant cust =
     (plan_subscription tenant ''developer'' (limits_of (Some 500) (Some 5000) (Some 1)))
       \<lparr>su_customer := Some cust, su_status := ''incomplete''\<rparr>"

definition link_checkout_session :: "stmt set \<Rightarrow> stripe \<Rightarrow> bill \<Rightarrow> stripe_object \<Rightarrow> unit res \<times> bill" where
  "link_checkout_session fails st b ob =
     (if \<not> bi_engine b then (Inr (), b)
      else if ob_mode ob \<noteq> Some ''subscription'' then (Inr (), b)
      else (case (ob_client_ref ob, ob_customer ob) of
          (Some (t # tenant), Some (c # cust)) \<Rightarrow>
            (case upsert_row (QLink \<in> fails) (bi_subs b) (t # tenant) (stub_row (t # tenant) (c # cust))
                (\<lambda>r. r\<lparr>su_customer := Some (c # cust)\<rparr>) of
               None \<Rightarrow> (Inr (), b)
             | Some q \<Rightarrow>
                 (let b1 = b\<lparr>bi_subs := q\<rparr>
                  in case ob_subscription ob of
                       Some (i # sid) \<Rightarrow>
                         (case st_retrieve st (i # sid) of
                            Inl e \<Rightarrow> (Inr (), b1)
                          | Inr sub \<Rightarrow> upsert_subscription fails b1 sub)
                     | _ \<Rightarrow> (Inr (), b1)))
        | _ \<Rightarrow> (Inr (), b)))"

definition downgrade_to_sandbox :: "stmt set \<Rightarrow> bill \<Rightarrow> string \<Rightarrow> bill" where
  "downgrade_to_sandbox fails b cust =
     (if \<not> bi_engine b \<or> QDowngrade \<in> fails then b
      else b\<lparr>bi_subs := update_customer cust (\<lambda>r. r\<lparr>su_tier := ''sandbox'', su_status := ''canceled'',
         su_eval_limit := lm_eval_runs developer_limits, su_patterns_limit := lm_patterns developer_limits,
         su_projects_limit := lm_projects developer_limits, su_cancel_eop := False\<rparr>) (bi_subs b)\<rparr>)"

definition set_status_by_customer :: "stmt set \<Rightarrow> bill \<Rightarrow> string \<Rightarrow> string \<Rightarrow> nat \<Rightarrow> bill" where
  "set_status_by_customer fails b cust status now =
     (if \<not> bi_engine b \<or> QStatus \<in> fails then b
      else b\<lparr>bi_subs := update_customer cust (\<lambda>r.
         if status = ''past_due''
         then r\<lparr>su_status := status,
                su_past_due := (case su_past_due r of None \<Rightarrow> Some (now_iso now) | Some w \<Rightarrow> Some w)\<rparr>
         else if status = ''active'' then r\<lparr>su_status := status, su_past_due := None\<rparr>
         else r\<lparr>su_status := status\<rparr>) (bi_subs b)\<rparr>)"

definition overage_description :: "nat \<Rightarrow> nat \<Rightarrow> nat \<Rightarrow> string" where
  "overage_description excess units per =
     ''Engramia overage: '' @ dec excess @ '' eval runs ('' @ dec units @ '' x '' @ dec per @ '' run blocks)''"

text \<open>The invoice item of the closing period, if there is one.\<close>

definition overage_item :: "stmt set \<Rightarrow> bill \<Rightarrow> string \<Rightarrow> nat \<Rightarrow> invoice_item option" where
  "overage_item fails b cust now =
     (case tenant_id_by_customer fails b cust of None \<Rightarrow> None | Some tenant \<Rightarrow>
      if tenant = [] then None
      else (let sub = get_subscription fails b tenant in
      case su_eval_limit sub of None \<Rightarrow> None | Some limit \<Rightarrow>
      (case get_overage_settings fails b tenant METRIC_EVAL_RUNS of None \<Rightarrow> None | Some ov \<Rightarrow>
      if \<not> ov_enabled ov then None
      else (let excess = get_overage_units (QUsage \<in> fails) (usage_db b) tenant METRIC_EVAL_RUNS limit now;
                units = excess div ov_unit ov;
                amount = int (units * ov_price ov)
            in if excess = 0 then None
               else if units = 0 then None
               else Some \<lparr>ii_customer = cust,
                 ii_amount = (case ov_cap ov of None \<Rightarrow> amount | Some cap \<Rightarrow> min amount cap),
                 ii_description = overage_description excess units (ov_unit ov),
                 ii_subscription = su_subscription sub\<rparr>))))"

definition report_overage :: "stmt set \<Rightarrow> stripe \<Rightarrow> bill \<Rightarrow> string \<Rightarrow> nat \<Rightarrow> unit res \<times> bill" where
  "report_overage fails st b cust now =
     (if \<not> bi_engine b then (Inr (), b)
      else (case overage_item fails b cust now of
          None \<Rightarrow> (Inr (), b)
        | Some item \<Rightarrow>
            (case st_invoice st item of
               Inr _ \<Rightarrow> (Inr (), b\<lparr>bi_invoiced := bi_invoiced b @ [item]\<rparr>)
             | Inl e \<Rightarrow> if is_stripe_error e then (Inr (), b) else (Inl e, b))))"

section \<open>Dispatch\<close>

definition is_event_processed :: "stmt set \<Rightarrow> bill \<Rightarrow> string \<Rightarrow> bool" where
  "is_event_processed fails b eid \<longleftrightarrow> bi_engine b \<and> QIsProcessed \<notin> fails \<and> eid \<in> fst ` set (bi_events b)"

definition mark_event_processed :: "stmt set \<Rightarrow> bill \<Rightarrow> string \<Rightarrow> string \<Rightarrow> bill" where
  "mark_event_processed fails b eid ty =
     (if \<not> bi_engine b \<or> QMark \<in> fails then b
      else if eid \<in> fst ` set (bi_events b) then b
      else b\<lparr>bi_events := bi_events b @ [(eid, ty)]\<rparr>)"

definition apply_event :: "stmt set \<Rightarrow> stripe \<Rightarrow> bill \<Rightarrow> string \<Rightarrow> stripe_object \<Rightarrow> nat \<Rightarrow> unit res \<times> bill" where
  "apply_event fails st b ty ob now =
     (if ty = ''checkout.session.completed'' then link_checkout_session fails st b ob
      else if ty = ''customer.subscription.created'' \<or> ty = ''customer.subscription.updated''
      then upsert_subscription fails b ob
      else if ty = ''customer.subscription.deleted'' then
        (case need ''customer'' (ob_customer ob) of
           Inl e \<Rightarrow> (Inl e, b) | Inr c \<Rightarrow> (Inr (), downgrade_to_sandbox fails b c))
      else if ty = ''invoice.payment_failed'' then
        (case need ''customer'' (ob_customer ob) of
           Inl e \<Rightarrow> (Inl e, b) | Inr c \<Rightarrow> (Inr (), set_status_by_customer fails b c ''past_due'' now))
      else if ty = ''invoice.paid'' then
        (case need ''customer'' (ob_customer ob) of
           Inl e \<Rightarrow> (Inl e, b) | Inr c \<Rightarrow> (Inr (), set_status_by_customer fails b c ''active'' now))
      else if ty = ''invoice.created'' then
        (case ob_customer ob of
           Some (c # cust) \<Rightarrow> report_overage fails st b (c # cust) now
         | _ \<Rightarrow> (Inr (), b))
      else (Inr (), b))"

definition handle_webhook_event ::
  "stmt set \<Rightarrow> stripe \<Rightarrow> bill \<Rightarrow> string \<Rightarrow> string \<Rightarrow> nat \<Rightarrow> string res \<times> bill" where
  "handle_webhook_event fails st b payload sig now =
     (case st_event st payload sig of
        Inl e \<Rightarrow> (Inl e, b)
      | Inr ev \<Rightarrow>
          if is_event_processed fails b (se_id ev) then (Inr (se_type ev), b)
          else (case apply_event fails st b (se_type ev) (se_object ev) now of
              (Inl e, b') \<Rightarrow> (Inl e, b')
            | (Inr _, b') \<Rightarrow> (Inr (se_type ev), mark_event_processed fails b' (se_id ev) (se_type ev))))"

section \<open>Endpoints\<close>

text \<open>\<open>None\<close> for the answer \<open>ignored\<close> of an app without a billing service.\<close>

definition stripe_webhook ::
  "stmt set \<Rightarrow> stripe \<Rightarrow> bill option \<Rightarrow> string \<Rightarrow> string option \<Rightarrow> nat \<Rightarrow> string option res \<times> bill option" where
  "stripe_webhook fails st svc payload sig now =
     (case svc of
        None \<Rightarrow> (Inr None, None)
      | Some b \<Rightarrow>
          (case sig of
             Some (x # xs) \<Rightarrow>
               (case handle_webhook_event fails st b payload (x # xs) now of
                  (Inr ty, b') \<Rightarrow> (Inr (Some ty), Some b')
                | (Inl (ValueError m), b') \<Rightarrow> (Inl (HttpError 400 ''Invalid webhook signature.''), Some b')
                | (Inl e, b') \<Rightarrow> (Inl (HttpError 500 ''Internal error processing webhook.''), Some b'))
           | _ \<Rightarrow> (Inl (HttpError 400 ''Missing Stripe-Signature header.''), Some b)))"

text \<open>The tenant endpoints; the first argument is the tenant of the authenticated request, if any.\<close>

definition status_endpoint :: "string option \<Rightarrow> stmt set \<Rightarrow> bill option \<Rightarrow> nat res \<Rightarrow> nat \<Rightarrow> billing_status res" where
  "status_endpoint auth fails svc patterns now =
     (case auth of
        None \<Rightarrow> Inl (HttpError 401 ''Authentication required for billing operations'')
      | Some tenant \<Rightarrow>
          (case svc of
             None \<Rightarrow> Inr \<lparr>bs_tier = ''developer'', bs_status = ''active'', bs_interval = ''month'', bs_eval_used = 0,
               bs_eval_limit = None, bs_patterns_used = 0, bs_patterns_limit = None, bs_projects_used = 0,
               bs_projects_limit = None, bs_period_end = None, bs_overage = False, bs_cap = None, bs_cancel_eop = False\<rparr>
           | Some b \<Rightarrow> bind_res patterns (\<lambda>n. Inr (get_status fails b tenant n now))))"

text \<open>The body of a checkout request after JSON parsing (None: it does not parse).\<close>

record checkout_body =
  cb_plan :: "string option"
  cb_interval :: "string option"
  cb_success :: string
  cb_cancel :: string
  cb_email :: "string option"

definition clean :: "string option \<Rightarrow> string" where
  "clean s = py_lower (py_strip (case s of None \<Rightarrow> [] | Some w \<Rightarrow> w))"

definition checkout_endpoint ::
  "string option \<Rightarrow> stmt set \<Rightarrow> stripe \<Rightarrow> bill option \<Rightarrow> checkout_body option \<Rightarrow> string res" where
  "checkout_endpoint auth fails st svc body =
     (case auth of
        None \<Rightarrow> Inl (HttpError 401 ''Authentication required for billing operations'')
      | Some tenant \<Rightarrow>
          (case svc of None \<Rightarrow> Inl (HttpError 503 ''Billing not configured.'') | Some b \<Rightarrow>
          (case body of None \<Rightarrow> Inl (HttpError 400 ''Invalid JSON body.'') | Some c \<Rightarrow>
            if clean (cb_plan c) \<notin> {''pro'', ''team''} then Inl (HttpError 400 ''plan must be one of'')
            else if clean (cb_interval c) \<notin> {''monthly'', ''yearly''} then Inl (HttpError 400 ''interval must be one of'')
            else if cb_success c = [] \<or> cb_cancel c = [] then Inl (HttpError 400 ''success_url and cancel_url are required.'')
            else (case create_checkout_url fails st b tenant (clean (cb_plan c)) (clean (cb_interval c))
                    (cb_success c) (cb_cancel c) (if truthy (cb_email c) then cb_email c else None) of
                Inr url \<Rightarrow> Inr url
              | Inl (ValueError m) \<Rightarrow> Inl (HttpError 400 m)
              | Inl (RuntimeError m) \<Rightarrow> Inl (HttpError 503 ''Checkout session creation failed.'')
              | Inl (StripeError m) \<Rightarrow> Inl (HttpError 502 ''Stripe rejected the checkout request.'')
              | Inl e \<Rightarrow> Inl e))))"

definition overage_endpoint ::
  "string option \<Rightarrow> stmt set \<Rightarrow> bill option \<Rightarrow> (bool \<times> int option) option \<Rightarrow> bill res" where
  "overage_endpoint auth fails svc body =
     (case auth of
        None \<Rightarrow> Inl (HttpError 401 ''Authentication required for billing operations'')
      | Some tenant \<Rightarrow>
          (case svc of None \<Rightarrow> Inl (HttpError 503 ''Billing not configured.'') | Some b \<Rightarrow>
          (case body of None \<Rightarrow> Inl (HttpError 400 ''Invalid JSON body.'') | Some (enabled, cap) \<Rightarrow>
            (case set_overage fails b tenant enabled cap of
               Inl (ValueError m) \<Rightarrow> Inl (HttpError 400 ''Invalid overage configuration.'')
             | r \<Rightarrow> r))))"

end
