(* ===== verification/WebhookProps.thy ===== *)
theory WebhookProps
  imports Webhooks
begin

text \<open>Properties of the Stripe webhooks: redelivery, lost events, the order of events, dunning.\<close>

section \<open>Deliveries\<close>

text \<open>A delivery of a verified event: what fails in it, what Stripe answers, when.\<close>

record delivery =
  dl_event :: stripe_event
  dl_fails :: "stmt set"
  dl_stripe :: stripe
  dl_now :: nat

definition deliver :: "delivery \<Rightarrow> bill \<Rightarrow> string res \<times> bill" where
  "deliver d b =
     handle_webhook_event (dl_fails d) ((dl_stripe d)\<lparr>st_event := \<lambda>_ _. Inr (dl_event d)\<rparr>) b [] [] (dl_now d)"

definition deliveries :: "delivery list \<Rightarrow> bill \<Rightarrow> bill" where
  "deliveries ds b = fold (\<lambda>d b. snd (deliver d b)) ds b"

definition tracked :: "delivery \<Rightarrow> bool" where
  "tracked d \<longleftrightarrow> QIsProcessed \<notin> dl_fails d \<and> QMark \<notin> dl_fails d"

abbreviation event_id :: "delivery \<Rightarrow> string" where
  "event_id d \<equiv> se_id (dl_event d)"

abbreviation processed :: "bill \<Rightarrow> string set" where
  "processed b \<equiv> fst ` set (bi_events b)"

lemma engine_frame [simp]:
  "bi_engine (snd (upsert_subscription fails b ob)) = bi_engine b"
  "bi_events (snd (upsert_subscription fails b ob)) = bi_events b"
  "bi_invoiced (snd (upsert_subscription fails b ob)) = bi_invoiced b"
  by (auto simp: upsert_subscription_def Let_def split: option.splits list.splits)

lemma link_frame [simp]:
  "bi_engine (snd (link_checkout_session fails st b ob)) = bi_engine b"
  "bi_events (snd (link_checkout_session fails st b ob)) = bi_events b"
  "bi_invoiced (snd (link_checkout_session fails st b ob)) = bi_invoiced b"
  by (auto simp: link_checkout_session_def Let_def split: option.splits list.splits sum.splits)

lemma downgrade_frame [simp]:
  "bi_engine (downgrade_to_sandbox fails b c) = bi_engine b"
  "bi_events (downgrade_to_sandbox fails b c) = bi_events b"
  "bi_invoiced (downgrade_to_sandbox fails b c) = bi_invoiced b"
  by (simp_all add: downgrade_to_sandbox_def)

lemma status_frame [simp]:
  "bi_engine (set_status_by_customer fails b c s t) = bi_engine b"
  "bi_events (set_status_by_customer fails b c s t) = bi_events b"
  "bi_invoiced (set_status_by_customer fails b c s t) = bi_invoiced b"
  by (simp_all add: set_status_by_customer_def)

lemma report_frame [simp]:
  "bi_engine (snd (report_overage fails st b c t)) = bi_engine b"
  "bi_events (snd (report_overage fails st b c t)) = bi_events b"
  by (simp_all add: report_overage_def split: option.splits sum.splits)

lemma report_charges:
  "report_overage fails st b c t = (r, b') \<Longrightarrow>
     bi_invoiced b' = bi_invoiced b \<or> r = Inr () \<and> (\<exists>i. bi_invoiced b' = bi_invoiced b @ [i])"
  by (auto simp: report_overage_def split: option.splits sum.splits if_splits)

lemma if_branch: "(if P then x else y) = z \<Longrightarrow> (x = z \<Longrightarrow> Q) \<Longrightarrow> (y = z \<Longrightarrow> Q) \<Longrightarrow> Q"
  by (cases P) auto

lemma apply_frame [simp]:
  "bi_engine (snd (apply_event fails st b ty ob t)) = bi_engine b"
  "bi_events (snd (apply_event fails st b ty ob t)) = bi_events b"
  by (simp_all add: apply_event_def need_def split: option.splits list.splits)

lemma apply_charges:
  "apply_event fails st b ty ob t = (r, b') \<Longrightarrow>
     bi_invoiced b' = bi_invoiced b \<or> r = Inr () \<and> (\<exists>i. bi_invoiced b' = bi_invoiced b @ [i])"
  unfolding apply_event_def using link_frame(3) [of fails st b ob] engine_frame(3) [of fails b ob]
  by (elim if_branch) (auto simp: need_def dest: report_charges split: option.splits list.splits)

text \<open>What a tracked delivery does to the processed events and to the invoice.\<close>

lemma deliver_processed: "bi_engine b \<Longrightarrow> tracked d \<Longrightarrow> event_id d \<in> processed b \<Longrightarrow>
    deliver d b = (Inr (se_type (dl_event d)), b)"
  by (simp add: deliver_def handle_webhook_event_def is_event_processed_def tracked_def)

lemma deliver_new:
  assumes "bi_engine b" and "tracked d" and "event_id d \<notin> processed b" and "deliver d b = (r, b')"
  shows "bi_engine b' \<and>
    (if isl r then bi_events b' = bi_events b \<and> bi_invoiced b' = bi_invoiced b
     else r = Inr (se_type (dl_event d)) \<and> processed b' = insert (event_id d) (processed b) \<and>
       (bi_invoiced b' = bi_invoiced b \<or> (\<exists>i. bi_invoiced b' = bi_invoiced b @ [i])))"
proof -
  let ?st = "(dl_stripe d)\<lparr>st_event := \<lambda>_ _. Inr (dl_event d)\<rparr>"
  obtain x b1 where a: "apply_event (dl_fails d) ?st b (se_type (dl_event d)) (se_object (dl_event d)) (dl_now d) = (x, b1)"
    by fastforce
  have f: "bi_engine b1" "bi_events b1 = bi_events b"
    using apply_frame [of "dl_fails d" ?st b "se_type (dl_event d)" "se_object (dl_event d)" "dl_now d"] assms(1)
    by (simp_all add: a)
  have np: "\<not> is_event_processed (dl_fails d) b (event_id d)" using assms(3) by (simp add: is_event_processed_def)
  have m: "mark_event_processed (dl_fails d) b1 (event_id d) (se_type (dl_event d)) =
      b1\<lparr>bi_events := bi_events b1 @ [(event_id d, se_type (dl_event d))]\<rparr>"
    using f assms(2,3) by (simp add: mark_event_processed_def tracked_def)
  show ?thesis using assms(4) f np apply_charges [OF a]
    by (cases x) (auto simp: deliver_def handle_webhook_event_def a m)
qed

lemma deliver_keeps:
  "bi_engine b \<Longrightarrow> tracked d \<Longrightarrow> bi_engine (snd (deliver d b)) \<and> processed b \<subseteq> processed (snd (deliver d b))"
proof (cases "event_id d \<in> processed b")
  case False
  assume a: "bi_engine b" "tracked d"
  obtain r b' where "deliver d b = (r, b')" by fastforce
  from deliver_new [OF a False this] this show ?thesis by (auto split: if_splits)
qed (simp add: deliver_processed)

lemma deliveries_keep:
  "bi_engine b \<Longrightarrow> \<forall>d \<in> set ds. tracked d \<Longrightarrow> bi_engine (deliveries ds b) \<and> processed b \<subseteq> processed (deliveries ds b)"
proof (induction ds arbitrary: b)
  case (Cons d ds)
  have k: "bi_engine (snd (deliver d b))" "processed b \<subseteq> processed (snd (deliver d b))"
    using deliver_keeps [of b d] Cons.prems by simp_all
  have "deliveries (d # ds) b = deliveries ds (snd (deliver d b))" by (simp add: deliveries_def)
  then show ?case using Cons.IH [OF k(1)] Cons.prems(2) k(2) by force
qed (simp add: deliveries_def)

lemma deliveries_append: "deliveries (ds @ es) b = deliveries es (deliveries ds b)"
  by (simp add: deliveries_def)

lemma deliveries_charges:
  assumes "bi_engine b" and "\<forall>d \<in> set ds. tracked d"
  shows "length (bi_invoiced (deliveries ds b)) \<le> length (bi_invoiced b) + card (event_id ` set ds - processed b)"
  using assms
proof (induction ds arbitrary: b)
  case (Cons d ds)
  obtain r b' where d: "deliver d b = (r, b')" by fastforce
  have t: "tracked d" "\<forall>d \<in> set ds. tracked d" using Cons.prems(2) by simp_all
  have k: "bi_engine b'" "processed b \<subseteq> processed b'" using deliver_keeps [OF Cons.prems(1) t(1)] by (simp_all add: d)
  have ih: "length (bi_invoiced (deliveries ds b')) \<le> length (bi_invoiced b') + card (event_id ` set ds - processed b')"
    by (rule Cons.IH [OF k(1) t(2)])
  let ?A = "event_id ` set ds - processed b'" and ?B = "event_id ` set (d # ds) - processed b"
  have fin: "finite ?B" by simp
  have sub: "?A \<subseteq> ?B" using k(2) by auto
  have "length (bi_invoiced b') + card ?A \<le> length (bi_invoiced b) + card ?B"
  proof (cases "bi_invoiced b' = bi_invoiced b")
    case True
    then show ?thesis using card_mono [OF fin sub] by simp
  next
    case False
    then have new: "event_id d \<notin> processed b" using deliver_processed [OF Cons.prems(1) t(1)] d by auto
    from deliver_new [OF Cons.prems(1) t(1) new d] False
    have e: "processed b' = insert (event_id d) (processed b)" "length (bi_invoiced b') = Suc (length (bi_invoiced b))"
      by (auto split: if_splits)
    have "insert (event_id d) ?A \<subseteq> ?B" using sub new by auto
    then have "card (insert (event_id d) ?A) \<le> card ?B" by (rule card_mono [OF fin])
    moreover have "card (insert (event_id d) ?A) = Suc (card ?A)" using e(1) by simp
    ultimately show ?thesis using e(2) by simp
  qed
  then show ?case using ih by (simp add: deliveries_def d)
qed (simp add: deliveries_def)

text \<open>
  C14. Stripe delivers events at least once, in any order and with anything else failing: as
  long as the two statements on the processed events work, a redelivery of an event that was
  answered with success changes nothing, however many deliveries lie between, and the invoice
  items created are at most as many as the distinct events not processed before.
\<close>

theorem redelivered_events_change_nothing:
  assumes "bi_engine b" and "\<forall>d \<in> set (ds @ d # es @ d' # fs). tracked d"
    and "event_id d' = event_id d" and "\<not> isl (fst (deliver d (deliveries ds b)))"
  shows "deliveries (ds @ d # es @ d' # fs) b = deliveries (ds @ d # es @ fs) b \<and>
    length (bi_invoiced (deliveries (ds @ d # es @ d' # fs) b)) \<le>
      length (bi_invoiced b) + card (event_id ` set (ds @ d # es @ fs) - processed b)"
proof -
  let ?b = "deliveries ds b"
  have b: "bi_engine ?b" using deliveries_keep [OF assms(1), of ds] assms(2) by simp
  have d: "tracked d" "tracked d'" "\<forall>d \<in> set es. tracked d" using assms(2) by simp_all
  obtain r b1 where d1: "deliver d ?b = (r, b1)" by fastforce
  have k: "bi_engine b1" using deliver_keeps [OF b d(1)] by (simp add: d1)
  have p: "event_id d \<in> processed b1"
  proof (cases "event_id d \<in> processed ?b")
    case True
    then show ?thesis using deliver_processed [OF b d(1)] d1 by simp
  next
    case False
    then show ?thesis using deliver_new [OF b d(1) False d1] assms(4) d1 by simp
  qed
  have e: "bi_engine (deliveries es b1)" "event_id d' \<in> processed (deliveries es b1)"
    using deliveries_keep [OF k d(3)] p assms(3) by auto
  have "snd (deliver d' (deliveries es b1)) = deliveries es b1" using deliver_processed [OF e(1) d(2) e(2)] by simp
  then have same: "deliveries (ds @ d # es @ d' # fs) b = deliveries (ds @ d # es @ fs) b"
    using d1 by (simp add: deliveries_def)
  have "\<forall>d \<in> set (ds @ d # es @ fs). tracked d" using assms(2) by simp
  from deliveries_charges [OF assms(1) this] same show ?thesis by simp
qed


text \<open>A pro tenant with overage, 10000 runs over its limit in January 1970, and its objects.\<close>

definition pro_row :: subscription where
  "pro_row = (plan_subscription ''t'' ''pro'' (limits_of (Some 50000) (Some 100000) (Some 10)))
     \<lparr>su_customer := Some ''cus'', su_subscription := Some ''sub''\<rparr>"

definition pro_bill :: bill where
  "pro_bill = \<lparr>bi_engine = True, bi_subs = [(''t'', pro_row)], bi_tenants = [],
     bi_overage = [((''t'', ''eval_runs''), \<lparr>ov_enabled = True, ov_price = 500, ov_unit = 5000, ov_cap = None\<rparr>)],
     bi_usage = [((''t'', ''eval_runs'', 1970, 1), 60000)], bi_projects = [], bi_users = [], bi_events = [],
     bi_invoiced = [], bi_env = []\<rparr>"

definition plain_object :: stripe_object where
  "plain_object = \<lparr>ob_id = Some ''sub'', ob_customer = Some ''cus'', ob_status = Some ''active'',
     ob_items = [\<lparr>it_interval = ''month'', it_period_end = Some 86400, it_price = None\<rparr>], ob_period_end = None,
     ob_meta_tier = ''team'', ob_meta_tenant = None, ob_cancel_eop = False, ob_mode = Some ''subscription'',
     ob_client_ref = Some ''t'', ob_subscription = Some ''sub''\<rparr>"

definition plain_stripe :: stripe where
  "plain_stripe = \<lparr>st_checkout = \<lambda>_ _ _ _ _ _ _. Inr ''url'', st_portal = \<lambda>_ _. Inr ''url'', st_customer = \<lambda>_ _. Inr ''cus'',
     st_cancel = \<lambda>_. Inr (), st_retrieve = \<lambda>_. Inr plain_object, st_invoice = \<lambda>_. Inr (),
     st_event = \<lambda>_ _. Inl (ValueError [])\<rparr>"

definition delivery_of :: "string \<Rightarrow> string \<Rightarrow> stmt set \<Rightarrow> nat \<Rightarrow> delivery" where
  "delivery_of eid ty fails now = \<lparr>dl_event = \<lparr>se_id = eid, se_type = ty, se_object = plain_object\<rparr>,
     dl_fails = fails, dl_stripe = plain_stripe, dl_now = now\<rparr>"

lemma sample_simps [simp]:
  "event_id (delivery_of e ty f t) = e" "se_type (dl_event (delivery_of e ty f t)) = ty"
  "se_object (dl_event (delivery_of e ty f t)) = plain_object" "dl_fails (delivery_of e ty f t) = f"
  "dl_now (delivery_of e ty f t) = t" "dl_stripe (delivery_of e ty f t) = plain_stripe"
  "tracked (delivery_of e ty f t) \<longleftrightarrow> QIsProcessed \<notin> f \<and> QMark \<notin> f"
  "bi_engine pro_bill" "bi_events pro_bill = []" "bi_invoiced pro_bill = []" "bi_subs pro_bill = [(''t'', pro_row)]"
  by (simp_all add: delivery_of_def tracked_def pro_bill_def)

lemma redelivered_events_change_nothing_witness:
  "deliveries [delivery_of ''e'' ''invoice.created'' {} 0, delivery_of ''e'' ''invoice.created'' {} 5] pro_bill =
     deliveries [delivery_of ''e'' ''invoice.created'' {} 0] pro_bill \<and>
   length (bi_invoiced (deliveries [delivery_of ''e'' ''invoice.created'' {} 0, delivery_of ''e'' ''invoice.created'' {} 5] pro_bill)) \<le> 1"
proof -
  let ?d = "delivery_of ''e'' ''invoice.created'' {} 0" and ?d' = "delivery_of ''e'' ''invoice.created'' {} 5"
  have "\<not> isl (fst (deliver ?d (deliveries [] pro_bill)))"
    by (simp add: deliver_def handle_webhook_event_def is_event_processed_def plain_object_def
        deliveries_def apply_event_def report_overage_def plain_stripe_def split: option.splits)
  then have "deliveries [?d, ?d'] pro_bill = deliveries [?d] pro_bill \<and>
      length (bi_invoiced (deliveries [?d, ?d'] pro_bill)) \<le> Suc 0"
    using redelivered_events_change_nothing [of pro_bill "[]" ?d "[]" ?d' "[]"] by auto
  then show ?thesis unfolding One_nat_def .
qed

text \<open>
  C15. A database error in the write of a subscription event loses the event: the handler
  answers with success, the event is marked processed, the subscription is not written, and
  every later delivery of the event, healthy or not, leaves the subscriptions as they are.
\<close>

theorem failed_write_loses_the_event:
  assumes "bi_engine b" and "tracked d" and "QUpsert \<in> dl_fails d" and "event_id d \<notin> processed b"
    and "se_type (dl_event d) = ''customer.subscription.updated''"
    and "ob_customer (se_object (dl_event d)) = Some cust" and "ob_id (se_object (dl_event d)) = Some sid"
    and "ob_status (se_object (dl_event d)) = Some status" and "ob_items (se_object (dl_event d)) = it # its"
    and "period_end_of (se_object (dl_event d)) it = Some p"
    and "tracked d'" and "event_id d' = event_id d"
  shows "fst (deliver d b) = Inr ''customer.subscription.updated'' \<and> bi_subs (snd (deliver d b)) = bi_subs b \<and>
    bi_subs (snd (deliver d' (snd (deliver d b)))) = bi_subs b"
proof -
  obtain r b1 where d: "deliver d b = (r, b1)" by fastforce
  have "upsert_subscription (dl_fails d) b (se_object (dl_event d)) = (Inr (), b)"
    using assms(3,6-10) by (auto simp: upsert_subscription_def upsert_row_def Let_def split: option.split)
  then have a: "apply_event (dl_fails d) st b ''customer.subscription.updated'' (se_object (dl_event d)) t = (Inr (), b)" for st t
    by (simp add: apply_event_def)
  have r: "r = Inr ''customer.subscription.updated''" "bi_subs b1 = bi_subs b"
    using d assms(1,2,4,5) by (auto simp: deliver_def handle_webhook_event_def is_event_processed_def a
        mark_event_processed_def tracked_def)
  have k: "bi_engine b1" "event_id d' \<in> processed b1"
    using deliver_new [OF assms(1,2,4) d] assms(12) by (simp_all add: r(1))
  show ?thesis using deliver_processed [OF k(1) assms(11) k(2)] r by (simp add: d)
qed

lemma failed_write_loses_the_event_witness:
  "bi_subs (deliveries [delivery_of ''e'' ''customer.subscription.updated'' {QUpsert} 0,
     delivery_of ''e'' ''customer.subscription.updated'' {} 9] pro_bill) = [(''t'', pro_row)]"
  using failed_write_loses_the_event [of pro_bill "delivery_of ''e'' ''customer.subscription.updated'' {QUpsert} 0"
      "''cus''" "''sub''" "''active''" "\<lparr>it_interval = ''month'', it_period_end = Some 86400, it_price = None\<rparr>" "[]" 86400
      "delivery_of ''e'' ''customer.subscription.updated'' {} 9"]
  by (simp add: deliveries_def plain_object_def period_end_of_def)


section \<open>The order of the first events\<close>

lemma deliver_subs:
  "event_id d \<notin> processed b \<Longrightarrow> bi_subs (snd (deliver d b)) =
     bi_subs (snd (apply_event (dl_fails d) ((dl_stripe d)\<lparr>st_event := \<lambda>_ _. Inr (dl_event d)\<rparr>) b
       (se_type (dl_event d)) (se_object (dl_event d)) (dl_now d)))"
  by (auto simp: deliver_def handle_webhook_event_def is_event_processed_def mark_event_processed_def
      split: sum.splits prod.splits)

text \<open>What a complete subscription object writes on a row.\<close>

definition writes :: "(string, string) dict \<Rightarrow> stripe_object \<Rightarrow> (subscription \<Rightarrow> subscription) option" where
  "writes env ob =
     (case (ob_id ob, ob_status ob, ob_items ob) of
        (Some sid, Some status, it # its) \<Rightarrow>
          map_option (set_subscription env ob it sid status) (period_end_of ob it)
      | _ \<Rightarrow> None)"

lemma upsert_subs:
  assumes "bi_engine b" and "ob_customer ob = Some cust"
  shows "bi_subs (snd (upsert_subscription fails b ob)) =
    (case writes (bi_env b) ob of None \<Rightarrow> bi_subs b
     | Some f \<Rightarrow>
         (case tenant_for fails b cust ob of None \<Rightarrow> bi_subs b
          | Some t \<Rightarrow>
              if t = [] then bi_subs b
              else (case upsert_row (QUpsert \<in> fails) (bi_subs b) t
                      (f ((developer_default t)\<lparr>su_customer := Some cust\<rparr>)) f of
                  None \<Rightarrow> bi_subs b | Some q \<Rightarrow> q)))"
  using assms by (auto simp: upsert_subscription_def writes_def Let_def split: option.splits list.splits)

lemma upsert_env [simp]: "bi_env (snd (upsert_subscription fails b ob)) = bi_env b"
  by (auto simp: upsert_subscription_def Let_def split: option.splits list.splits)

lemma link_env [simp]: "bi_env (snd (link_checkout_session fails st b ob)) = bi_env b"
  by (auto simp: link_checkout_session_def Let_def split: option.splits list.splits sum.splits)

lemma deliver_env [simp]: "bi_env (snd (deliver d b)) = bi_env b"
proof -
  have "bi_env (snd (report_overage f st x c t)) = bi_env x" for f st x c t
    by (simp add: report_overage_def split: option.splits sum.splits)
  then have "bi_env (snd (apply_event f st b ty ob t)) = bi_env b" for f st ty ob t
    by (simp add: apply_event_def need_def downgrade_to_sandbox_def set_status_by_customer_def
        split: option.splits list.splits)
  then show ?thesis
    by (auto simp: deliver_def handle_webhook_event_def mark_event_processed_def split: sum.splits prod.splits)
      (metis snd_conv)+
qed

lemma writes_customer:
  "writes env ob = Some f \<Longrightarrow> ob_id ob = Some s \<Longrightarrow> su_customer (f r) = su_customer r \<and> su_subscription (f r) = Some s"
  by (auto simp: writes_def set_subscription_def Let_def split: option.splits list.splits)

text \<open>Rows that agree in what the write keeps are equal after it.\<close>

lemma writes_same:
  "writes env ob = Some f \<Longrightarrow> su_tenant r = su_tenant r' \<Longrightarrow> su_customer r = su_customer r' \<Longrightarrow>
     su_past_due r = su_past_due r' \<Longrightarrow> f r = f r'"
  by (cases r; cases r') (auto simp: writes_def set_subscription_def Let_def split: option.splits list.splits)

lemma writes_keeps:
  "writes env ob = Some f \<Longrightarrow> su_tenant (f r) = su_tenant r \<and> su_past_due (f r) = su_past_due r"
  by (auto simp: writes_def set_subscription_def Let_def split: option.splits list.splits)

definition fresh_for :: "subs \<Rightarrow> string \<Rightarrow> string \<Rightarrow> string \<Rightarrow> bool" where
  "fresh_for q tenant cust sid \<longleftrightarrow> tenant \<notin> fst ` set q \<and>
     (\<forall>(t, r) \<in> set q. su_customer r \<noteq> Some cust \<and> su_subscription r \<noteq> Some sid)"

lemma fresh_unique:
  "fresh_for q t c s \<Longrightarrow> su_customer row = Some c \<Longrightarrow> su_subscription row = None \<or> su_subscription row = Some s \<Longrightarrow>
     unique_ok (q @ map (\<lambda>r. (t, r)) rs) t row"
  by (auto simp: fresh_for_def unique_ok_def list_all_iff)

lemma fresh_upsert_new:
  "fresh_for q t c s \<Longrightarrow> su_customer new = Some c \<Longrightarrow> su_subscription new = None \<or> su_subscription new = Some s \<Longrightarrow>
     upsert_row False q t new f = Some (q @ [(t, new)])"
  using fresh_unique [of q t c s new "[]"] dget_None_iff [of q t]
  by (simp add: upsert_row_def fresh_for_def dkeys_dput_new)

lemma dput_snoc: "t \<notin> fst ` set q \<Longrightarrow> dput t x (q @ [(t, r)]) = q @ [(t, x)]"
  by (induction q) auto

lemma fresh_upsert_old:
  "fresh_for q t c s \<Longrightarrow> su_customer (f r) = Some c \<Longrightarrow> su_subscription (f r) = None \<or> su_subscription (f r) = Some s \<Longrightarrow>
     upsert_row False (q @ [(t, r)]) t new f = Some (q @ [(t, f r)])"
proof -
  assume a: "fresh_for q t c s" "su_customer (f r) = Some c" "su_subscription (f r) = None \<or> su_subscription (f r) = Some s"
  have "dget q t = None" using a(1) by (simp add: fresh_for_def dget_None_iff)
  then have "dget (q @ [(t, r)]) t = Some r" by (simp add: map_add_def)
  then show ?thesis using fresh_unique [OF a, of "[r]"] a(1) by (simp add: upsert_row_def fresh_for_def dput_snoc)
qed

lemma fresh_find: "fresh_for q t c s \<Longrightarrow> find (\<lambda>(t, r). su_customer r = Some c) q = None"
  by (auto simp: find_None_iff fresh_for_def)

lemma fresh_tenant: "fresh_for (bi_subs b) t c s \<Longrightarrow> tenant_for {} b c ob = ob_meta_tenant ob"
  by (simp add: tenant_for_def tenant_id_by_customer_def truthy_def Let_def fresh_find)

lemma find_snoc: "find P xs = None \<Longrightarrow> P y \<Longrightarrow> find P (xs @ [y]) = Some y"
  by (induction xs) (auto split: if_splits)

lemma linked_tenant:
  assumes "bi_engine b" and "bi_subs b = q @ [(t, r)]" and "fresh_for q t c s" and "su_customer r = Some c" and "t \<noteq> []"
  shows "tenant_for {} b c ob = Some t"
proof -
  have "find (\<lambda>(t, r). su_customer r = Some c) (q @ [(t, r)]) = Some (t, r)"
    using fresh_find [OF assms(3)] assms(4) by (intro find_snoc) simp_all
  then show ?thesis using assms(1,2,5) by (simp add: tenant_for_def tenant_id_by_customer_def truthy_def Let_def)
qed

lemma upsert_linked:
  assumes "bi_engine b" and "bi_subs b = q @ [(t, r)]" and "fresh_for q t c s" and "su_customer r = Some c" and "t \<noteq> []"
    and "ob_customer ob = Some c" and "ob_id ob = Some s"
  shows "bi_subs (snd (upsert_subscription {} b ob)) =
    q @ [(t, case writes (bi_env b) ob of None \<Rightarrow> r | Some f \<Rightarrow> f r)]"
proof (cases "writes (bi_env b) ob")
  case None
  then show ?thesis using assms(2) by (simp add: upsert_subs [OF assms(1,6)])
next
  case (Some f)
  show ?thesis
    using fresh_upsert_old [OF assms(3), of f r "f ((developer_default t)\<lparr>su_customer := Some c\<rparr>)"]
      writes_customer [OF Some assms(7)] assms(4,5)
    by (simp add: upsert_subs [OF assms(1,6)] Some linked_tenant [OF assms(1-5)] assms(2))
qed

lemma upsert_fresh:
  assumes "bi_engine b" and "fresh_for (bi_subs b) t c s" and "t \<noteq> []" and "ob_customer ob = Some c" and "ob_id ob = Some s"
    and "ob_meta_tenant ob = None \<or> ob_meta_tenant ob = Some t"
  shows "bi_subs (snd (upsert_subscription {} b ob)) =
    (case (writes (bi_env b) ob, ob_meta_tenant ob) of
       (Some f, Some _) \<Rightarrow> bi_subs b @ [(t, f ((developer_default t)\<lparr>su_customer := Some c\<rparr>))]
     | _ \<Rightarrow> bi_subs b)"
proof (cases "writes (bi_env b) ob")
  case None
  then show ?thesis by (simp add: upsert_subs [OF assms(1,4)])
next
  case (Some f)
  let ?new = "f ((developer_default t)\<lparr>su_customer := Some c\<rparr>)"
  have "upsert_row False (bi_subs b) t ?new f = Some (bi_subs b @ [(t, ?new)])"
    using fresh_upsert_new [OF assms(2), of ?new f] writes_customer [OF Some assms(5)] by simp
  then show ?thesis using assms(3,6) fresh_tenant [OF assms(2), of ob]
    by (auto simp: upsert_subs [OF assms(1,4)] Some)
qed

text \<open>A checkout of the subscription, with the answer of the retrieval.\<close>

definition checkout_of :: "stripe \<Rightarrow> stripe_object \<Rightarrow> string \<Rightarrow> string \<Rightarrow> string \<Rightarrow> stripe_object \<Rightarrow> bool" where
  "checkout_of st session t c s ob \<longleftrightarrow> ob_mode session = Some ''subscription'' \<and> ob_client_ref session = Some t \<and>
     ob_customer session = Some c \<and> ob_subscription session = Some s \<and> t \<noteq> [] \<and> c \<noteq> [] \<and> s \<noteq> [] \<and>
     st_retrieve st s = Inr ob"

lemma link_step:
  assumes "checkout_of st session t c s ob" and "bi_engine b"
    and "upsert_row False (bi_subs b) t (stub_row t c) (\<lambda>r. r\<lparr>su_customer := Some c\<rparr>) = Some q"
  shows "snd (link_checkout_session {} st b session) = snd (upsert_subscription {} (b\<lparr>bi_subs := q\<rparr>) ob)"
proof -
  obtain x xs y ys z zs where "t = x # xs" "c = y # ys" "s = z # zs" using assms(1)
    by (auto simp: checkout_of_def neq_Nil_conv)
  then show ?thesis using assms by (simp add: link_checkout_session_def checkout_of_def Let_def)
qed

lemma link_fresh:
  assumes "checkout_of st session t c s ob" and "bi_engine b" and "fresh_for (bi_subs b) t c s"
    and "ob_customer ob = Some c" and "ob_id ob = Some s"
  shows "bi_subs (snd (link_checkout_session {} st b session)) =
    bi_subs b @ [(t, case writes (bi_env b) ob of None \<Rightarrow> stub_row t c | Some f \<Rightarrow> f (stub_row t c))]"
proof -
  have stub: "su_customer (stub_row t c) = Some c" "su_subscription (stub_row t c) = None"
    by (simp_all add: stub_row_def plan_subscription_def)
  have "upsert_row False (bi_subs b) t (stub_row t c) (\<lambda>r. r\<lparr>su_customer := Some c\<rparr>) = Some (bi_subs b @ [(t, stub_row t c)])"
    using fresh_upsert_new [OF assms(3)] stub by simp
  from link_step [OF assms(1,2) this] show ?thesis
    using upsert_linked [of "b\<lparr>bi_subs := bi_subs b @ [(t, stub_row t c)]\<rparr>" "bi_subs b" t "stub_row t c" c s ob]
      assms stub(1) by (simp add: checkout_of_def)
qed

lemma link_linked:
  assumes "checkout_of st session t c s ob" and "bi_engine b" and "bi_subs b = q @ [(t, r)]" and "fresh_for q t c s"
    and "su_customer r = Some c" and "su_subscription r = Some s" and "ob_customer ob = Some c" and "ob_id ob = Some s"
  shows "bi_subs (snd (link_checkout_session {} st b session)) =
    q @ [(t, case writes (bi_env b) ob of None \<Rightarrow> r | Some f \<Rightarrow> f r)]"
proof -
  have r: "r\<lparr>su_customer := Some c\<rparr> = r" using assms(5) by (cases r) simp
  have "upsert_row False (bi_subs b) t (stub_row t c) (\<lambda>r. r\<lparr>su_customer := Some c\<rparr>) = Some (q @ [(t, r)])"
    using fresh_upsert_old [OF assms(4), of "\<lambda>r. r\<lparr>su_customer := Some c\<rparr>" r] assms(3,5,6) by (simp add: r)
  from link_step [OF assms(1,2) this] show ?thesis
    using upsert_linked [of "b\<lparr>bi_subs := q @ [(t, r)]\<rparr>" q t r c s ob] assms by (simp add: checkout_of_def)
qed

text \<open>
  The first events of a subscription: a checkout of the tenant t with the customer c and the
  subscription s, and the subscription's own event, both new, nothing else known of t, c or s.
\<close>

definition first_events :: "delivery \<Rightarrow> delivery \<Rightarrow> bill \<Rightarrow> string \<Rightarrow> string \<Rightarrow> string \<Rightarrow> bool" where
  "first_events d1 d2 b t c s \<longleftrightarrow> bi_engine b \<and> dl_fails d1 = {} \<and> dl_fails d2 = {} \<and>
     event_id d1 \<noteq> event_id d2 \<and> event_id d1 \<notin> processed b \<and> event_id d2 \<notin> processed b \<and>
     se_type (dl_event d1) = ''checkout.session.completed'' \<and>
     se_type (dl_event d2) = ''customer.subscription.created'' \<and>
     checkout_of (dl_stripe d1) (se_object (dl_event d1)) t c s (se_object (dl_event d2)) \<and>
     ob_customer (se_object (dl_event d2)) = Some c \<and> ob_id (se_object (dl_event d2)) = Some s \<and>
     (ob_meta_tenant (se_object (dl_event d2)) = None \<or> ob_meta_tenant (se_object (dl_event d2)) = Some t) \<and>
     fresh_for (bi_subs b) t c s"

text \<open>The row both orders end with.\<close>

definition final_row :: "bill \<Rightarrow> stripe_object \<Rightarrow> string \<Rightarrow> string \<Rightarrow> subscription" where
  "final_row b ob t c = (case writes (bi_env b) ob of None \<Rightarrow> stub_row t c | Some f \<Rightarrow> f (stub_row t c))"

lemma first_facts:
  assumes "first_events d1 d2 b t c s"
  shows "checkout_of ((dl_stripe d1)\<lparr>st_event := \<lambda>_ _. Inr (dl_event d1)\<rparr>) (se_object (dl_event d1)) t c s (se_object (dl_event d2))"
    and "t \<noteq> []" and "event_id d2 \<notin> processed (snd (deliver d1 b))" and "event_id d1 \<notin> processed (snd (deliver d2 b))"
    and "bi_engine (snd (deliver d1 b))" and "bi_engine (snd (deliver d2 b))"
proof -
  have tr: "tracked d1" "tracked d2" using assms by (simp_all add: first_events_def tracked_def)
  have b: "bi_engine b" "event_id d1 \<noteq> event_id d2" "event_id d1 \<notin> processed b" "event_id d2 \<notin> processed b"
    using assms by (simp_all add: first_events_def)
  show "event_id d2 \<notin> processed (snd (deliver d1 b))" "event_id d1 \<notin> processed (snd (deliver d2 b))"
    using deliver_new [OF b(1) tr(1) b(3), of "fst (deliver d1 b)" "snd (deliver d1 b)"]
      deliver_new [OF b(1) tr(2) b(4), of "fst (deliver d2 b)" "snd (deliver d2 b)"] b(2-4)
    by (auto split: if_splits)
  show "bi_engine (snd (deliver d1 b))" "bi_engine (snd (deliver d2 b))" using deliver_keeps [OF b(1)] tr by simp_all
qed (use assms in \<open>simp_all add: first_events_def checkout_of_def\<close>)

lemma checkout_subs:
  "first_events d1 d2 b t c s \<Longrightarrow> event_id d1 \<notin> processed x \<Longrightarrow> bi_subs (snd (deliver d1 x)) =
     bi_subs (snd (link_checkout_session {} ((dl_stripe d1)\<lparr>st_event := \<lambda>_ _. Inr (dl_event d1)\<rparr>) x (se_object (dl_event d1))))"
  by (simp add: deliver_subs first_events_def apply_event_def)

lemma subscription_subs:
  "first_events d1 d2 b t c s \<Longrightarrow> event_id d2 \<notin> processed x \<Longrightarrow>
     bi_subs (snd (deliver d2 x)) = bi_subs (snd (upsert_subscription {} x (se_object (dl_event d2))))"
  by (simp add: deliver_subs first_events_def apply_event_def)

lemma checkout_first:
  assumes "first_events d1 d2 b t c s"
  shows "bi_subs (deliveries [d1, d2] b) = bi_subs b @ [(t, final_row b (se_object (dl_event d2)) t c)]"
proof -
  let ?ob = "se_object (dl_event d2)" and ?b1 = "snd (deliver d1 b)" and ?stub = "stub_row t c"
  note F = first_facts [OF assms]
  have ob: "ob_customer ?ob = Some c" "ob_id ?ob = Some s" "bi_engine b" "fresh_for (bi_subs b) t c s" "event_id d1 \<notin> processed b"
    using assms by (simp_all add: first_events_def)
  have first: "bi_subs ?b1 = bi_subs b @ [(t, final_row b ?ob t c)]"
    using link_fresh [OF F(1) ob(3,4,1,2)] by (simp add: checkout_subs [OF assms ob(5)] final_row_def)
  have stub: "su_customer ?stub = Some c" by (simp add: stub_row_def)
  show ?thesis
  proof (cases "writes (bi_env b) ?ob")
    case None
    then show ?thesis using first stub upsert_linked [OF F(5) _ ob(4) _ F(2) ob(1,2), of ?stub]
      by (simp add: deliveries_def subscription_subs [OF assms F(3)] final_row_def)
  next
    case (Some f)
    have "su_customer (f ?stub) = Some c" using writes_customer [OF Some ob(2)] stub by simp
    moreover have "f (f ?stub) = f ?stub" using writes_customer [OF Some ob(2)] writes_keeps [OF Some]
      by (intro writes_same [OF Some]) simp_all
    ultimately show ?thesis using first Some upsert_linked [OF F(5) _ ob(4) _ F(2) ob(1,2), of "f ?stub"]
      by (simp add: deliveries_def subscription_subs [OF assms F(3)] final_row_def)
  qed
qed

lemma subscription_first:
  assumes "first_events d1 d2 b t c s"
  shows "bi_subs (deliveries [d2, d1] b) = bi_subs b @ [(t, final_row b (se_object (dl_event d2)) t c)]"
proof -
  let ?ob = "se_object (dl_event d2)" and ?b2 = "snd (deliver d2 b)"
  let ?dev = "(developer_default t)\<lparr>su_customer := Some c\<rparr>" and ?stub = "stub_row t c"
  note F = first_facts [OF assms]
  have ob: "ob_customer ?ob = Some c" "ob_id ?ob = Some s" "bi_engine b" "fresh_for (bi_subs b) t c s" "event_id d2 \<notin> processed b"
    "ob_meta_tenant ?ob = None \<or> ob_meta_tenant ?ob = Some t"
    using assms by (simp_all add: first_events_def)
  have second: "bi_subs ?b2 = (case (writes (bi_env b) ?ob, ob_meta_tenant ?ob) of
       (Some f, Some _) \<Rightarrow> bi_subs b @ [(t, f ?dev)] | _ \<Rightarrow> bi_subs b)"
    using upsert_fresh [OF ob(3,4) F(2) ob(1,2,6)] by (simp add: subscription_subs [OF assms ob(5)])
  show ?thesis
  proof (cases "writes (bi_env b) ?ob = None \<or> ob_meta_tenant ?ob = None")
    case True
    then have "bi_subs ?b2 = bi_subs b" using second by (auto split: option.splits)
    then show ?thesis using link_fresh [OF F(1,6) _ ob(1,2)] ob(4)
      by (simp add: deliveries_def checkout_subs [OF assms F(4)] final_row_def)
  next
    case False
    then obtain f where f: "writes (bi_env b) ?ob = Some f" "bi_subs ?b2 = bi_subs b @ [(t, f ?dev)]"
      using second by auto
    have "su_customer (f ?dev) = Some c" "su_subscription (f ?dev) = Some s"
      using writes_customer [OF f(1) ob(2)] by simp_all
    moreover have "f (f ?dev) = f ?stub" using writes_customer [OF f(1) ob(2)] writes_keeps [OF f(1)]
      by (intro writes_same [OF f(1)]) (simp_all add: stub_row_def developer_default_def plan_subscription_def)
    ultimately show ?thesis using f link_linked [OF F(1,6) f(2) ob(4) _ _ ob(1,2)]
      by (simp add: deliveries_def checkout_subs [OF assms F(4)] final_row_def)
  qed
qed

text \<open>
  Stripe does not order its events: for a first subscription, the completed checkout and
  the subscription's own event leave the same table of subscriptions in either order, with or
  without the tenant in the subscription's metadata, and the one new row holds the plan the
  subscription names (or the checkout's stub, when the subscription object is incomplete).
\<close>

theorem first_events_commute:
  assumes "first_events d1 d2 b t c s"
  shows "bi_subs (deliveries [d1, d2] b) = bi_subs (deliveries [d2, d1] b) \<and>
    bi_subs (deliveries [d1, d2] b) = bi_subs b @ [(t, final_row b (se_object (dl_event d2)) t c)]"
  by (simp only: checkout_first [OF assms] subscription_first [OF assms] simp_thms)

lemma first_events_commute_witness:
  "bi_subs (deliveries [delivery_of ''e'' ''checkout.session.completed'' {} 0,
       delivery_of ''f'' ''customer.subscription.created'' {} 0] (pro_bill\<lparr>bi_subs := []\<rparr>)) =
     bi_subs (deliveries [delivery_of ''f'' ''customer.subscription.created'' {} 0,
       delivery_of ''e'' ''checkout.session.completed'' {} 0] (pro_bill\<lparr>bi_subs := []\<rparr>))"
  using first_events_commute [of "delivery_of ''e'' ''checkout.session.completed'' {} 0"
      "delivery_of ''f'' ''customer.subscription.created'' {} 0" "pro_bill\<lparr>bi_subs := []\<rparr>" "''t''" "''cus''" "''sub''"]
  by (simp add: first_events_def checkout_of_def plain_object_def plain_stripe_def fresh_for_def)

section \<open>Dunning\<close>

lemma dget_update_customer:
  "dget (update_customer c f q) t = map_option (\<lambda>r. if su_customer r = Some c then f r else r) (dget q t)"
  by (induction q) (auto simp: update_customer_def)

text \<open>The row of tenant t, of customer c, and what the checks read of it.\<close>

definition billed :: "bill \<Rightarrow> string \<Rightarrow> string \<Rightarrow> string \<Rightarrow> string option \<Rightarrow> bool" where
  "billed b t c status clock \<longleftrightarrow> bi_engine b \<and>
     (\<exists>r. dget (bi_subs b) t = Some r \<and> su_customer r = Some c \<and> su_status r = status \<and> su_past_due r = clock)"

lemma billed_failed:
  "billed b t c st clock \<Longrightarrow> billed (set_status_by_customer {} b c ''past_due'' now) t c ''past_due''
     (case clock of None \<Rightarrow> Some (now_iso now) | Some w \<Rightarrow> Some w)"
  by (auto simp: billed_def set_status_by_customer_def dget_update_customer)

lemma billed_paid: "billed b t c st clock \<Longrightarrow> billed (set_status_by_customer {} b c ''active'' now) t c ''active'' None"
  by (auto simp: billed_def set_status_by_customer_def dget_update_customer)

lemma billed_failures:
  "billed b t c st (Some w) \<Longrightarrow>
     billed (fold (\<lambda>x b. set_status_by_customer {} b c ''past_due'' x) ts b) t c (if ts = [] then st else ''past_due'') (Some w)"
proof (induction ts arbitrary: b st)
  case (Cons x ts)
  from billed_failed [OF Cons.prems, of x] have "billed (set_status_by_customer {} b c ''past_due'' x) t c ''past_due'' (Some w)"
    by simp
  from Cons.IH [OF this] show ?case by (simp split: if_splits)
qed simp

text \<open>What enforcement makes of the row.\<close>

lemma billed_check:
  assumes "billed b t c status clock" and "status \<noteq> []"
  shows "check_subscription_active (get_subscription {} b t) now =
    (if status = ''past_due'' \<and> (clock = None \<or> (\<exists>w. clock = Some w \<and>
        (\<forall>since. from_iso w = Some since \<longrightarrow> 604800 \<le> int now - since)))
     then Inl (HttpError 402 ''payment_required'')
     else if status = ''canceled'' then Inl (HttpError 403 ''subscription_canceled'') else Inr ())"
proof -
  have sub: "su_status (get_subscription {} b t) = status" "su_past_due (get_subscription {} b t) = clock"
    using assms by (auto simp: billed_def get_subscription_def or_default_def)
  have d: "x div 86400 < 7 \<longleftrightarrow> x < 604800" for x :: int by linarith
  show ?thesis
  proof (cases "status = ''past_due''")
    case True
    show ?thesis unfolding check_subscription_active_def GRACE_PERIOD_DAYS_def sub True d
      by (auto split: option.splits)
  next
    case False
    then show ?thesis unfolding check_subscription_active_def sub by (simp only: if_False HOL.simp_thms)
  qed
qed

lemma past_due_check:
  assumes "billed b t c ''past_due'' (Some (now_iso t0))" and "time_ok t0"
  shows "check_subscription_active (get_subscription {} b t) now =
    (if now < t0 + 604800 then Inr () else Inl (HttpError 402 ''payment_required''))"
  using billed_check [OF assms(1)] from_iso_now_iso [OF assms(2)] by auto

lemma blocked_checks:
  assumes "bi_engine b" and "check_subscription_active (get_subscription {} b t) now = Inl e"
  shows "check_eval_runs {} b t now = Inl e" and "check_patterns {} b t n now = Inl e"
  using assms by (simp_all add: check_eval_runs_def check_patterns_def enforce_eval_runs_def enforce_patterns_def)

text \<open>
  C16. The grace period runs from the first failed payment: however many retries of the charge
  fail after it, the tenant is let through for exactly seven days from that first failure and
  then gets 402 from both limit checks; a payment ends the dunning at any time.
\<close>

theorem dunning_grace_from_first_failure:
  assumes "billed b t c status None" and "time_ok t0"
    and "b' = fold (\<lambda>x b. set_status_by_customer {} b c ''past_due'' x) (t0 # ts) b"
  shows "(now < t0 + 604800 \<longrightarrow> check_subscription_active (get_subscription {} b' t) now = Inr ()) \<and>
    (t0 + 604800 \<le> now \<longrightarrow> check_eval_runs {} b' t now = Inl (HttpError 402 ''payment_required'') \<and>
       check_patterns {} b' t n now = Inl (HttpError 402 ''payment_required'')) \<and>
    check_subscription_active (get_subscription {} (set_status_by_customer {} b' c ''active'' u) t) now = Inr ()"
proof -
  have "billed (set_status_by_customer {} b c ''past_due'' t0) t c ''past_due'' (Some (now_iso t0))"
    using billed_failed [OF assms(1)] by simp
  from billed_failures [OF this, of ts] have b': "billed b' t c ''past_due'' (Some (now_iso t0))"
    by (simp add: assms(3) split: if_splits)
  have e: "bi_engine b'" using b' by (simp add: billed_def)
  show ?thesis using past_due_check [OF b' assms(2)] blocked_checks [OF e] billed_check [OF billed_paid [OF b']]
    by auto
qed

lemma pro_billed: "billed pro_bill ''t'' ''cus'' ''active'' None"
  by (simp add: billed_def pro_row_def plan_subscription_def)

lemma dunning_grace_from_first_failure_witness:
  "check_patterns {} (set_status_by_customer {} (set_status_by_customer {} pro_bill ''cus'' ''past_due'' 100) ''cus'' ''past_due'' 500000)
     ''t'' 7 604900 = Inl (HttpError 402 ''payment_required'')"
proof -
  have "time_ok 100" by (simp add: time_ok_def)
  from dunning_grace_from_first_failure [OF pro_billed this refl, of 604900 "[500000]"] show ?thesis by simp
qed

text \<open>What the constraints of the table of subscriptions guarantee.\<close>

definition subs_ok :: "subs \<Rightarrow> bool" where
  "subs_ok q \<longleftrightarrow> wf_dict q \<and> [] \<notin> fst ` set q \<and> (\<forall>(t, r) \<in> set q. unique_ok q t r)"

lemma unique_ok_rows: "unique_ok q t row \<longleftrightarrow> (\<forall>x r. (x, r) \<in> set q \<longrightarrow> x = t \<or>
     (su_customer row = None \<or> su_customer r \<noteq> su_customer row) \<and>
     (su_subscription row = None \<or> su_subscription r \<noteq> su_subscription row))"
  unfolding unique_ok_def list_all_iff by blast

lemma subs_ok_upsert:
  assumes "subs_ok q" and "upsert_row raises q t new f = Some q'" and "t \<noteq> []"
  shows "subs_ok q'"
proof -
  obtain row where row: "q' = dput t row q" "unique_ok q t row" using assms(2)
    by (auto simp: upsert_row_def Let_def split: if_splits)
  have wf: "wf_dict q" "wf_dict q'" using assms(1) row(1) by (simp_all add: subs_ok_def)
  have mem: "(x, r) \<in> set q' \<longleftrightarrow> (x = t \<and> r = row) \<or> (x \<noteq> t \<and> (x, r) \<in> set q)" for x r
    using wf_dict_in_set [OF wf(1)] wf_dict_in_set [OF wf(2)] by (auto simp: row(1) dict_simps)
  have "unique_ok q' x r" if x: "(x, r) \<in> set q'" for x r
  proof (cases "x = t")
    case True
    then show ?thesis using row(2) x by (auto simp: unique_ok_def list_all_iff mem)
  next
    case False
    then have "(x, r) \<in> set q" using x mem by blast
    then have u: "unique_ok q x r" "su_customer r = None \<or> su_customer row \<noteq> su_customer r"
      "su_subscription r = None \<or> su_subscription row \<noteq> su_subscription r"
      using assms(1) row(2) False by (fastforce simp: subs_ok_def unique_ok_def list_all_iff)+
    have "y = x \<or> (su_customer r = None \<or> su_customer r' \<noteq> su_customer r) \<and>
        (su_subscription r = None \<or> su_subscription r' \<noteq> su_subscription r)" if y: "(y, r') \<in> set q'" for y r'
    proof (cases "y = t")
      case True
      then show ?thesis using y u(2,3) by (auto simp: mem)
    next
      case False
      then have "(y, r') \<in> set q" using y by (auto simp: mem)
      then show ?thesis using u(1) by (fastforce simp: unique_ok_def list_all_iff)
    qed
    then show ?thesis unfolding unique_ok_rows by blast
  qed
  moreover have "[] \<notin> fst ` set q'" using assms(1,3) by (simp add: row(1) subs_ok_def)
  ultimately show ?thesis using wf(2) by (auto simp: subs_ok_def)
qed

lemma subs_ok_update:
  assumes "subs_ok q" and "\<forall>r. su_customer (f r) = su_customer r \<and> su_subscription (f r) = su_subscription r"
  shows "subs_ok (update_customer c f q)"
proof -
  have m: "map fst (update_customer c f q) = map fst q" by (simp add: update_customer_def split_def)
  have "su_customer (if P then f x else x) = su_customer x" "su_subscription (if P then f x else x) = su_subscription x" for P x
    using assms(2) by simp_all
  then have u: "unique_ok (update_customer c f q) t r = unique_ok q t r" for t r
    by (simp add: unique_ok_def update_customer_def list_all_iff split_def)
  have v: "unique_ok q t (f r) = unique_ok q t r" for t r using assms(2) by (simp add: unique_ok_def)
  have n: "fst ` set (update_customer c f q) = fst ` set q" using arg_cong [OF m, of set] by simp
  have "unique_ok q t r" if "(t, r) \<in> set (update_customer c f q)" for t r
    using that assms(1) v by (auto simp: update_customer_def subs_ok_def split: if_splits)
  then show ?thesis using assms(1) by (auto simp: subs_ok_def wf_dict_def m n u)
qed

lemma subs_ok_find:
  assumes "subs_ok q" and "dget q t = Some r" and "su_customer r = Some c"
  shows "find (\<lambda>(t, r). su_customer r = Some c) q = Some (t, r)"
proof -
  have m: "(t, r) \<in> set q" using assms(2) by (rule map_of_SomeD)
  then obtain x where x: "find (\<lambda>(t, r). su_customer r = Some c) q = Some x" using assms(3)
    by (cases "find (\<lambda>(t, r). su_customer r = Some c) q") (auto simp: find_None_iff)
  obtain t' r' where tr: "x = (t', r')" by (cases x)
  have f: "(t', r') \<in> set q" "su_customer r' = Some c" using find_in_set [OF x] by (auto simp: tr)
  have "unique_ok q t r" using assms(1) m by (auto simp: subs_ok_def)
  then have "t' = t" using f assms(3) by (auto simp: unique_ok_def list_all_iff)
  then have "r' = r" using f(1) assms(1,2) by (simp add: subs_ok_def wf_dict_in_set)
  then show ?thesis using x tr \<open>t' = t\<close> by simp
qed

text \<open>A complete object of the row's own subscription is written on the row.\<close>

lemma upsert_own:
  assumes "bi_engine b" and "subs_ok (bi_subs b)" and "dget (bi_subs b) t = Some r" and "su_customer r = Some c"
    and "su_subscription r = Some s" and "ob_customer ob = Some c" and "ob_id ob = Some s"
    and "writes (bi_env b) ob = Some f"
  shows "bi_subs (snd (upsert_subscription {} b ob)) = dput t (f r) (bi_subs b)"
proof -
  have t: "t \<noteq> []" using dget_in_dkeys [OF assms(3)] assms(2) by (metis subs_ok_def)
  have ten: "tenant_for {} b c ob = Some t"
    using subs_ok_find [OF assms(2-4)] assms(1) t by (simp add: tenant_for_def tenant_id_by_customer_def truthy_def Let_def)
  have "unique_ok (bi_subs b) t r" using assms(2) map_of_SomeD [OF assms(3)] by (auto simp: subs_ok_def)
  then have "unique_ok (bi_subs b) t (f r)" using writes_customer [OF assms(8,7)] assms(5) by (simp add: unique_ok_def)
  then show ?thesis using t by (simp add: upsert_subs [OF assms(1,6)] assms(3,8) ten upsert_row_def)
qed

text \<open>
  The dunning clock outlives the dunning it belongs to: when the subscription's own event,
  not a paid invoice, brings the tenant back to active, the time of the first failure stays, and
  the next failed payment, seven days or more after it, blocks the tenant at once.
\<close>

theorem stale_dunning_clock_blocks_at_once:
  assumes "bi_engine b" and "subs_ok (bi_subs b)" and "dget (bi_subs b) t = Some r" and "su_customer r = Some c"
    and "su_subscription r = Some s" and "su_past_due r = None"
    and "ob_customer ob = Some c" and "ob_id ob = Some s" and "ob_status ob = Some ''active''"
    and "ob_items ob = it # its" and "period_end_of ob it = Some p"
    and "time_ok t0" and "t0 + 604800 \<le> t1"
    and "b1 = set_status_by_customer {} b c ''past_due'' t0" and "b2 = snd (upsert_subscription {} b1 ob)"
    and "b3 = set_status_by_customer {} b2 c ''past_due'' t1"
  shows "check_subscription_active (get_subscription {} b2 t) t1 = Inr () \<and>
    check_eval_runs {} b3 t t1 = Inl (HttpError 402 ''payment_required'')"
proof -
  let ?r1 = "r\<lparr>su_status := ''past_due'', su_past_due := Some (now_iso t0)\<rparr>"
  let ?f = "set_subscription (bi_env b1) ob it s ''active'' p"
  have b1: "bi_engine b1" "subs_ok (bi_subs b1)" "dget (bi_subs b1) t = Some ?r1"
    using assms(1-4,6) subs_ok_update [OF assms(2)]
    by (simp_all add: assms(14) set_status_by_customer_def dget_update_customer)
  have f: "writes (bi_env b1) ob = Some ?f" by (simp add: writes_def assms(8-11))
  have "bi_subs b2 = dput t (?f ?r1) (bi_subs b1)"
    unfolding assms(15) by (rule upsert_own [OF b1 _ _ assms(7,8) f]) (simp_all add: assms(4,5))
  then have b2: "billed b2 t c ''active'' (Some (now_iso t0))"
    using b1(1) assms(4) by (simp add: billed_def dict_simps set_subscription_def Let_def assms(15))
  have b3: "billed b3 t c ''past_due'' (Some (now_iso t0))" using billed_failed [OF b2] by (simp add: assms(16))
  have "bi_engine b3" using b3 by (simp add: billed_def)
  then show ?thesis using past_due_check [OF b3 assms(12)] blocked_checks(1) billed_check [OF b2] assms(13) by auto
qed

lemma stale_dunning_clock_blocks_at_once_witness:
  "check_eval_runs {} (set_status_by_customer {} (snd (upsert_subscription {}
     (set_status_by_customer {} pro_bill ''cus'' ''past_due'' 0) plain_object)) ''cus'' ''past_due'' 604800) ''t'' 604800 =
   Inl (HttpError 402 ''payment_required'')"
proof -
  have ok: "subs_ok (bi_subs pro_bill)" "time_ok 0" by (simp_all add: subs_ok_def wf_dict_def unique_ok_def time_ok_def)
  show ?thesis
    using stale_dunning_clock_blocks_at_once [OF _ ok(1) _ _ _ _ _ _ _ _ _ ok(2) _ refl refl refl, of "''t''" pro_row "''cus''"
        "''sub''" plain_object "\<lparr>it_interval = ''month'', it_period_end = Some 86400, it_price = None\<rparr>" "[]" 86400 604800]
    by (simp add: pro_row_def plan_subscription_def plain_object_def period_end_of_def)
qed

end
