(* ===== verification/QuotaProps.thy ===== *)
theory QuotaProps
  imports WebhookProps
begin

text \<open>Properties of quotas, overage and metered cost.\<close>

section \<open>Quotas\<close>

text \<open>
  The specification of a month's allowance: the plan's limit, with overage also the whole
  blocks the budget cap pays for (rounded up), without a cap no bound.
\<close>

definition allowance :: "nat \<Rightarrow> overage option \<Rightarrow> nat option" where
  "allowance limit ov =
     (case ov of
        None \<Rightarrow> Some limit
      | Some w \<Rightarrow>
          if \<not> ov_enabled w then Some limit
          else (case ov_cap w of
              None \<Rightarrow> None
            | Some cap \<Rightarrow> Some (limit + ov_unit w * ((nat cap + ov_price w - 1) div ov_price w))))"

definition priced :: "overage option \<Rightarrow> bool" where
  "priced ov \<longleftrightarrow> (case ov of None \<Rightarrow> True | Some w \<Rightarrow> 0 < ov_price w \<and> 0 < ov_unit w)"

lemma ceil_less: "0 < (p::nat) \<Longrightarrow> x * p < c \<longleftrightarrow> x < (c + p - 1) div p"
proof -
  assume p: "0 < p"
  have "x < (c + p - 1) div p \<longleftrightarrow> Suc x \<le> (c + p - 1) div p" by (simp only: Suc_le_eq)
  also have "\<dots> \<longleftrightarrow> Suc x * p \<le> c + p - 1" using p by (simp only: less_eq_div_iff_mult_less_eq)
  also have "\<dots> \<longleftrightarrow> x * p < c" using p by auto
  finally show ?thesis by simp
qed

lemma spend_below_cap:
  assumes "0 < ov_price w" and "0 < ov_unit w" and "limit \<le> used"
  shows "int (overage_spend used limit w) < cap \<longleftrightarrow> used < limit + ov_unit w * ((nat cap + ov_price w - 1) div ov_price w)"
proof -
  let ?k = "(nat cap + ov_price w - 1) div ov_price w"
  have "int (overage_spend used limit w) < cap \<longleftrightarrow> overage_spend used limit w < nat cap" by linarith
  also have "\<dots> \<longleftrightarrow> (used - limit) div ov_unit w < ?k"
    unfolding overage_spend_def by (rule ceil_less [OF assms(1)])
  also have "\<dots> \<longleftrightarrow> used - limit < ?k * ov_unit w" by (rule div_less_iff_less_mult [OF assms(2)])
  also have "\<dots> \<longleftrightarrow> used < limit + ov_unit w * ?k" using assms(3) by (auto simp: mult.commute)
  finally show ?thesis .
qed

lemma enforce_iff_allowance:
  assumes "su_status sub \<notin> {''past_due'', ''canceled''}" and "su_eval_limit sub = Some limit" and "priced ov"
  shows "(enforce_eval_runs used sub ov now = Inr ()) =
    (case allowance limit ov of None \<Rightarrow> True | Some a \<Rightarrow> used < a)"
proof -
  have "check_subscription_active sub now = Inr ()"
    using assms(1) unfolding check_subscription_active_def by (simp only: insert_iff empty_iff de_Morgan_disj if_False simp_thms)
  then have e: "enforce_eval_runs used sub ov now = (if used < limit then Inr () else
      (case ov of
          Some w \<Rightarrow> if ov_enabled w then (case ov_cap w of None \<Rightarrow> Inr ()
            | Some cap \<Rightarrow> if int (overage_spend used limit w) < cap then Inr () else Inl (HttpError 429 ''overage_budget_cap_reached''))
            else Inl (HttpError 429 ''quota_exceeded'')
        | None \<Rightarrow> Inl (HttpError 429 ''quota_exceeded'')))"
    unfolding enforce_eval_runs_def assms(2) by simp
  show ?thesis
  proof (cases "used < limit")
    case True
    then show ?thesis unfolding e by (auto simp: allowance_def split: option.split)
  next
    case False
    then show ?thesis using assms(3) spend_below_cap [of _ limit used] unfolding e
      by (auto simp: allowance_def priced_def split: option.split)
  qed
qed

definition eval_count :: "bill \<Rightarrow> string \<Rightarrow> nat \<times> nat \<Rightarrow> nat" where
  "eval_count b t period = usage_get False (usage_db b) t METRIC_EVAL_RUNS (Some period) 0"

text \<open>Tenant t stands at this limit and overage, with an active subscription.\<close>

definition quota :: "bill \<Rightarrow> string \<Rightarrow> nat \<Rightarrow> overage option \<Rightarrow> bool" where
  "quota b t limit ov \<longleftrightarrow> bi_engine b \<and> su_status (get_subscription {} b t) \<notin> {''past_due'', ''canceled''} \<and>
     su_eval_limit (get_subscription {} b t) = Some limit \<and> get_overage_settings {} b t METRIC_EVAL_RUNS = ov \<and> priced ov"

lemma usage_frame:
  "get_subscription f (b\<lparr>bi_usage := u\<rparr>) t = get_subscription f b t"
  "get_overage_settings f (b\<lparr>bi_usage := u\<rparr>) t m = get_overage_settings f b t m"
proof -
  have a: "admin_assigned_plan f (b\<lparr>bi_usage := u\<rparr>) t = admin_assigned_plan f b t"
    by (simp add: admin_assigned_plan_def)
  show "get_subscription f (b\<lparr>bi_usage := u\<rparr>) t = get_subscription f b t"
    unfolding get_subscription_def a by simp
qed (simp add: get_overage_settings_def)

lemma quota_frame: "quota b t limit ov \<Longrightarrow> quota (b\<lparr>bi_usage := u\<rparr>) t limit ov"
  unfolding quota_def usage_frame by simp

lemma quota_check:
  assumes "quota b t limit ov"
  shows "(check_eval_runs {} b t now = Inr ()) =
    (case allowance limit ov of None \<Rightarrow> True | Some a \<Rightarrow> eval_count b t (current_period now) < a)"
proof -
  have q: "bi_engine b" "su_status (get_subscription {} b t) \<notin> {''past_due'', ''canceled''}"
    "su_eval_limit (get_subscription {} b t) = Some limit" "priced ov" "get_overage_settings {} b t METRIC_EVAL_RUNS = ov"
    using assms unfolding quota_def by blast+
  have "usage_get (QUsage \<in> {}) (usage_db b) t METRIC_EVAL_RUNS None now = eval_count b t (current_period now)"
    by (simp add: eval_count_def usage_get_def split: option.split)
  then show ?thesis unfolding check_eval_runs_def using q(1,5) enforce_iff_allowance [OF q(2,3,4)] by simp
qed

lemma guarded_run_quota:
  assumes "quota b t limit ov"
  shows "quota (guarded_run t now b) t limit ov"
    and "eval_count (guarded_run t now b) t (current_period now) =
      (case allowance limit ov of
         None \<Rightarrow> eval_count b t (current_period now) + 1
       | Some a \<Rightarrow> if eval_count b t (current_period now) < a then eval_count b t (current_period now) + 1
           else eval_count b t (current_period now))"
proof -
  have e: "bi_engine b" using assms by (simp add: quota_def)
  obtain u where u: "snd (usage_increment False (usage_db b) t METRIC_EVAL_RUNS now) = Some u"
    "increment_eval_runs {} b t now = b\<lparr>bi_usage := u\<rparr>"
    using e by (auto simp: increment_eval_runs_def usage_db_def usage_increment_def Let_def split: prod.splits)
  have c: "eval_count (b\<lparr>bi_usage := u\<rparr>) t (current_period now) = eval_count b t (current_period now) + 1"
    using usage_get_increment [of "bi_usage b" t METRIC_EVAL_RUNS now t METRIC_EVAL_RUNS "Some (current_period now)" 0] u(1) e
    by (simp add: eval_count_def usage_db_def usage_get_def)
  have g: "guarded_run t now b = (if check_eval_runs {} b t now = Inr () then b\<lparr>bi_usage := u\<rparr> else b)"
    unfolding guarded_run_def u(2) by (auto split: sum.splits)
  show "quota (guarded_run t now b) t limit ov" using assms quota_frame [OF assms] by (simp add: g)
  show "eval_count (guarded_run t now b) t (current_period now) =
      (case allowance limit ov of
         None \<Rightarrow> eval_count b t (current_period now) + 1
       | Some a \<Rightarrow> if eval_count b t (current_period now) < a then eval_count b t (current_period now) + 1
           else eval_count b t (current_period now))"
    using quota_check [OF assms, of now] c unfolding g by (simp split: option.splits)
qed

text \<open>
  C17. The quota is exact: a tenant with an active subscription that attempts any number of
  evaluation runs, one after the other, within a month ends the month with precisely as many
  counted runs as its allowance admits; every run up to the allowance is let through, none
  beyond it, and a count already beyond it does not grow.
\<close>

theorem guarded_runs_meet_the_allowance:
  assumes "quota b t limit ov" and "\<forall>now \<in> set nows. current_period now = period"
  shows "eval_count (fold (guarded_run t) nows b) t period =
    (case allowance limit ov of
       None \<Rightarrow> eval_count b t period + length nows
     | Some a \<Rightarrow> max (eval_count b t period) (min (eval_count b t period + length nows) a))"
  using assms
proof (induction nows arbitrary: b)
  case (Cons now nows)
  have p: "current_period now = period" using Cons.prems(2) by simp
  have ih: "eval_count (fold (guarded_run t) nows (guarded_run t now b)) t period =
    (case allowance limit ov of
       None \<Rightarrow> eval_count (guarded_run t now b) t period + length nows
     | Some a \<Rightarrow> max (eval_count (guarded_run t now b) t period)
         (min (eval_count (guarded_run t now b) t period + length nows) a))"
    using Cons.IH [OF guarded_run_quota(1) [OF Cons.prems(1)]] Cons.prems(2) by simp
  show ?case using ih guarded_run_quota(2) [OF Cons.prems(1), of now] by (simp add: p split: option.split)
qed (simp split: option.split)

definition capped_bill :: bill where
  "capped_bill = pro_bill\<lparr>bi_overage :=
     [((''t'', ''eval_runs''), \<lparr>ov_enabled = True, ov_price = 500, ov_unit = 5000, ov_cap = Some 1000\<rparr>)]\<rparr>"

lemma capped_quota:
  "quota capped_bill ''t'' 50000 (Some \<lparr>ov_enabled = True, ov_price = 500, ov_unit = 5000, ov_cap = Some 1000\<rparr>)"
proof -
  have s: "get_subscription {} capped_bill ''t'' = pro_row"
    by (simp add: get_subscription_def capped_bill_def pro_row_def plan_subscription_def or_default_def)
  show ?thesis unfolding quota_def s
    by (simp add: capped_bill_def get_overage_settings_def priced_def METRIC_EVAL_RUNS_def pro_row_def
        plan_subscription_def limits_of_def)
qed

lemma guarded_runs_meet_the_allowance_witness:
  "eval_count (fold (guarded_run ''t'') [0, 60, 3600] capped_bill) ''t'' (1970, 1) = 60000"
proof -
  have "\<forall>now \<in> set [0, 60, 3600]. current_period now = (1970, 1)" by (simp add: current_period_def)
  moreover have "eval_count capped_bill ''t'' (1970, 1) = 60000"
    by (simp add: eval_count_def usage_get_def usage_db_def capped_bill_def pro_bill_def METRIC_EVAL_RUNS_def)
  ultimately show ?thesis using guarded_runs_meet_the_allowance [OF capped_quota, of "[0, 60, 3600]" "(1970, 1)"]
    by (simp add: allowance_def)
qed

section \<open>Overage invoices\<close>

lemma set_overage_frame:
  "set_overage {} b t e cap = Inr b' \<Longrightarrow> bi_engine b' = bi_engine b \<and> bi_subs b' = bi_subs b \<and> bi_usage b' = bi_usage b \<and>
     bi_invoiced b' = bi_invoiced b \<and> bi_tenants b' = bi_tenants b"
  by (auto simp: set_overage_def Let_def split: if_splits option.splits)

lemma set_overage_row:
  "bi_engine b \<Longrightarrow> set_overage {} b t e cap = Inr b' \<Longrightarrow>
     \<exists>w. dget (bi_overage b') (t, METRIC_EVAL_RUNS) = Some w \<and> ov_enabled w = e \<and> ov_cap w = cap"
  by (auto simp: set_overage_def Let_def dict_simps split: if_splits option.splits)

text \<open>
  Overage that is set again under another plan keeps the price and the block of the plan it
  was first set under.
\<close>

lemma set_overage_keeps_first_price:
  "bi_engine b \<Longrightarrow> dget (bi_overage b) (t, METRIC_EVAL_RUNS) = Some w \<Longrightarrow> set_overage {} b t e cap = Inr b' \<Longrightarrow>
     dget (bi_overage b') (t, METRIC_EVAL_RUNS) = Some (w\<lparr>ov_enabled := e, ov_cap := cap\<rparr>)"
  by (auto simp: set_overage_def Let_def dict_simps split: if_splits option.splits)

text \<open>
  The budget cap is read when the invoice is made, not when the runs were let through: a
  tenant that has used whole blocks of overage and then sets any cap is invoiced at most that
  cap for all of them, nothing for a cap of zero, and a negative cap becomes an invoice item
  that credits the tenant with its amount.
\<close>

theorem late_cap_bounds_the_invoice:
  assumes "bi_engine b" and "subs_ok (bi_subs b)" and "dget (bi_subs b) t = Some r" and "su_customer r = Some c"
    and "su_eval_limit r = Some limit" and "set_overage {} b t True (Some cap) = Inr b'"
    and "dget (bi_overage b') (t, METRIC_EVAL_RUNS) = Some w" and "0 < ov_unit w"
    and "limit + ov_unit w \<le> eval_count b t (current_period now)" and "\<forall>i. st_invoice st i = Inr ()"
  shows "\<exists>item. bi_invoiced (snd (report_overage {} st b' c now)) = bi_invoiced b @ [item] \<and> ii_customer item = c \<and>
    ii_amount item = min (int (overage_spend (eval_count b t (current_period now)) limit w)) cap \<and>
    (cap < 0 \<longrightarrow> ii_amount item = cap)"
proof -
  let ?n = "eval_count b t (current_period now)"
  have fr: "bi_engine b'" "bi_subs b' = bi_subs b" "bi_usage b' = bi_usage b" "bi_invoiced b' = bi_invoiced b"
    using set_overage_frame [OF assms(6)] assms(1) by simp_all
  have w: "ov_enabled w" "ov_cap w = Some cap" using set_overage_row [OF assms(1,6)] assms(7) by auto
  have t: "t \<noteq> []" using dget_in_dkeys [OF assms(3)] assms(2) by (metis subs_ok_def)
  have ten: "tenant_id_by_customer {} b' c = Some t"
    using subs_ok_find [OF assms(2-4)] fr by (simp add: tenant_id_by_customer_def)
  have lim: "su_eval_limit (get_subscription {} b' t) = Some limit"
    using fr assms(3,5) by (simp add: get_subscription_def)
  have u: "get_overage_units (QUsage \<in> {}) (usage_db b') t METRIC_EVAL_RUNS limit now = ?n - limit"
    using fr assms(1) by (simp add: get_overage_units_def eval_count_def usage_get_def usage_db_def)
  have pos: "?n - limit \<noteq> 0" "(?n - limit) div ov_unit w \<noteq> 0"
    using assms(8,9) by (auto simp: div_eq_0_iff)
  have "get_overage_settings {} b' t METRIC_EVAL_RUNS = Some w" using fr(1) assms(7) by (simp add: get_overage_settings_def)
  then obtain item where item: "overage_item {} b' c now = Some item" "ii_customer item = c"
      "ii_amount item = min (int (overage_spend ?n limit w)) cap"
    using ten t lim u pos w by (simp add: overage_item_def Let_def overage_spend_def)
  then show ?thesis using fr assms(10) by (simp add: report_overage_def)
qed

lemma late_cap_bounds_the_invoice_witness:
  "\<exists>b' item. set_overage {} pro_bill ''t'' True (Some (- 250000)) = Inr b' \<and>
     bi_invoiced (snd (report_overage {} plain_stripe b' ''cus'' 0)) = [item] \<and> ii_amount item = - 250000"
proof -
  let ?w = "\<lparr>ov_enabled = True, ov_price = 500, ov_unit = 5000, ov_cap = Some (- 250000)\<rparr>"
  let ?b = "pro_bill\<lparr>bi_overage := [((''t'', ''eval_runs''), ?w)]\<rparr>"
  have ok: "subs_ok (bi_subs pro_bill)" by (simp add: subs_ok_def wf_dict_def unique_ok_def)
  have s: "set_overage {} pro_bill ''t'' True (Some (- 250000)) = Inr ?b"
    by (simp add: set_overage_def get_subscription_def pro_bill_def pro_row_def plan_subscription_def or_default_def
        OVERAGE_CONFIG_def METRIC_EVAL_RUNS_def)
  have n: "eval_count pro_bill ''t'' (current_period 0) = 60000"
    by (simp add: eval_count_def usage_get_def usage_db_def pro_bill_def METRIC_EVAL_RUNS_def current_period_def)
  show ?thesis
    using late_cap_bounds_the_invoice [OF _ ok _ _ _ s, of pro_row "''cus''" 50000 ?w 0 plain_stripe] n s
    by (auto simp: pro_row_def plan_subscription_def METRIC_EVAL_RUNS_def plain_stripe_def limits_of_def)
qed

section \<open>Metered cost\<close>

lemma two_floors: "(a div 1000000 + b div 1000000) * 1000000 \<le> a + b \<and>
    a + b \<le> (a div 1000000 + b div 1000000) * 1000000 + 1999998" for a b :: nat
proof -
  define p q r s where "p = a div 1000000" and "q = b div 1000000" and "r = a mod 1000000" and "s = b mod 1000000"
  have "a = p * 1000000 + r" "b = q * 1000000 + s" by (simp_all add: p_def q_def r_def s_def)
  moreover have "r < 1000000" "s < 1000000" by (simp_all add: r_def s_def)
  ultimately show ?thesis unfolding p_def [symmetric] q_def [symmetric] by simp
qed

text \<open>
  Metering only ever rounds down: over any run of calls of one role on one card, the
  metered cents are at most the true cost and fall short of it by less than two cents per
  call; calls whose two parts each cost less than a cent are never metered, however many.
\<close>

theorem metered_cost_bounds:
  assumes "dget RATE_CARD (provider, model) = Some (pin, pout)"
    and "spent = get_spend False (fold (meter_call t c r provider model now) calls (Some s)) t c r None now -
       get_spend False (Some s) t c r None now"
    and "true_cost = (\<Sum>(i, j)\<leftarrow>calls. pin * i + pout * j)"
  shows "spent * 1000000 \<le> true_cost \<and> true_cost \<le> spent * 1000000 + 1999998 * length calls \<and>
    ((\<forall>(i, j) \<in> set calls. pin * i < 1000000 \<and> pout * j < 1000000) \<longrightarrow> spent = 0)"
proof -
  let ?cost = "\<lambda>(i, j). pin * i div 1000000 + pout * j div 1000000" and ?true = "\<lambda>(i, j). pin * i + pout * j"
  have spent: "spent = (\<Sum>x\<leftarrow>calls. ?cost x)" using meter_calls [OF assms(1), of t c r now calls s] assms(2) by auto
  have one: "?cost x * 1000000 \<le> ?true x \<and> ?true x \<le> ?cost x * 1000000 + 1999998" for x
  proof -
    obtain i j where x: "x = (i, j)" by (cases x)
    show ?thesis unfolding x prod.case by (rule two_floors)
  qed
  have "(\<Sum>x\<leftarrow>calls. ?cost x) * 1000000 \<le> (\<Sum>x\<leftarrow>calls. ?true x) \<and>
      (\<Sum>x\<leftarrow>calls. ?true x) \<le> (\<Sum>x\<leftarrow>calls. ?cost x) * 1000000 + 1999998 * length calls"
  proof (induction calls)
    case (Cons x calls)
    then show ?case using one [of x] by (simp add: distrib_right)
  qed simp
  moreover have "(\<Sum>x\<leftarrow>calls. ?cost x) = 0" if "\<forall>(i, j) \<in> set calls. pin * i < 1000000 \<and> pout * j < 1000000"
    using that by (induction calls) auto
  ultimately show ?thesis using spent assms(3) by blast
qed

lemma metered_cost_bounds_witness:
  "get_spend False (fold (meter_call ''t'' ''c'' ''coder'' ''openai'' ''gpt-4o'' 0) (replicate 5 (3999, 999)) (Some [])) ''t'' ''c'' ''coder'' None 0 = 0"
proof -
  have c: "dget RATE_CARD (''openai'', ''gpt-4o'') = Some (250, 1000)" by (simp add: RATE_CARD_def)
  have "get_spend False (Some []) ''t'' ''c'' ''coder'' None 0 = 0" by (simp add: get_spend_def)
  then show ?thesis
    using metered_cost_bounds [OF c refl refl, of "''t''" "''c''" "''coder''" 0 "replicate 5 (3999, 999)" "[]"] by simp
qed

end
