(* ===== verification/Credentials.thy ===== *)
theory Credentials
  imports Storage
begin

text \<open>
  Tenant credentials: the schemas of \<open>engramia/credentials/models.py\<close> with their validators
  and the table operations of \<open>engramia/credentials/store.py\<close>. Ciphertexts are opaque; the
  database clock is in microseconds. A statement named in \<open>fails\<close> raises.
\<close>

section \<open>Vocabulary\<close>

datatype provider_type = OpenAI | Anthropic | Gemini | Ollama | OpenAICompat

datatype purpose_type = ForLlm | ForEmbedding | ForBoth

datatype cred_status = Active | Revoked | Invalid

fun provider_text :: "provider_type \<Rightarrow> string" where
  "provider_text OpenAI = ''openai''"
| "provider_text Anthropic = ''anthropic''"
| "provider_text Gemini = ''gemini''"
| "provider_text Ollama = ''ollama''"
| "provider_text OpenAICompat = ''openai_compat''"

fun purpose_text :: "purpose_type \<Rightarrow> string" where
  "purpose_text ForLlm = ''llm''"
| "purpose_text ForEmbedding = ''embedding''"
| "purpose_text ForBoth = ''both''"

fun default_model_for :: "provider_type \<Rightarrow> string" where
  "default_model_for OpenAI = ''gpt-4.1''"
| "default_model_for Anthropic = ''claude-sonnet-4-6''"
| "default_model_for Gemini = ''gemini-2.5-flash''"
| "default_model_for Ollama = ''llama3.3''"
| "default_model_for OpenAICompat = ''gpt-4.1''"

section \<open>Credentials in memory\<close>

text \<open>An override, or the default.\<close>

definition given_or :: "string option \<Rightarrow> string \<Rightarrow> string" where
  "given_or v d = (case given v of None \<Rightarrow> d | Some s \<Rightarrow> s)"

record cred =
  tc_id :: string
  tc_tenant :: string
  tc_provider :: provider_type
  tc_purpose :: purpose_type
  tc_key :: string
  tc_fingerprint :: string
  tc_base_url :: "string option"
  tc_model :: "string option"
  tc_embed_model :: "string option"
  tc_roles :: "(string, string) dict"
  tc_chain :: "string list"
  tc_limits :: "(string, int) dict"
  tc_status :: cred_status

definition model_for_role :: "cred \<Rightarrow> string \<Rightarrow> string" where
  "model_for_role c role =
     (case dget (tc_roles c) role of
        Some m \<Rightarrow> m
      | None \<Rightarrow>
          (case tc_model c of
             Some (x # xs) \<Rightarrow> x # xs
           | _ \<Rightarrow> default_model_for (tc_provider c)))"

definition cost_ceiling_for_role :: "cred \<Rightarrow> string \<Rightarrow> int option" where
  "cost_ceiling_for_role c role = (if dget (tc_roles c) role = None then None else dget (tc_limits c) role)"

definition aad :: "string \<Rightarrow> provider_type \<Rightarrow> purpose_type \<Rightarrow> string" where
  "aad tenant p u = tenant @ '':'' @ provider_text p @ '':'' @ purpose_text u"

definition fingerprint_for :: "string \<Rightarrow> string res" where
  "fingerprint_for key =
     (if length key < 8 then Inl (ValueError ''api_key too short to fingerprint (need >= 8 chars)'')
      else Inr (take 3 key @ ''...'' @ drop (length key - 4) key))"

text \<open>
  The triple the ciphertext is bound to is read back from the bytes: provider and purpose
  have no colon, so no two triples share them.
\<close>

lemma aad_inj: "aad t p u = aad t' p' u' \<longleftrightarrow> t = t' \<and> p = p' \<and> u = u'"
proof -
  have split: "a = b \<and> x = y" if e: "a @ CHR '':'' # x = b @ CHR '':'' # y" and n: "CHR '':'' \<notin> set x" "CHR '':'' \<notin> set y"
    for a b x y :: string
  proof -
    have r: "rev x @ CHR '':'' # rev a = rev y @ CHR '':'' # rev b" using arg_cong [OF e, of rev] by simp
    have t: "takeWhile (\<lambda>c. c \<noteq> CHR '':'') (rev w @ CHR '':'' # z) = rev w" if "CHR '':'' \<notin> set w" for w z
      using that by (induction w arbitrary: z rule: rev_induct) auto
    have "takeWhile (\<lambda>c. c \<noteq> CHR '':'') (rev x @ CHR '':'' # rev a) = rev x"
      "takeWhile (\<lambda>c. c \<noteq> CHR '':'') (rev y @ CHR '':'' # rev b) = rev y"
      by (rule t, rule n)+
    then have "rev x = rev y" using r by simp
    then show ?thesis using r by simp
  qed
  have p: "CHR '':'' \<notin> set (provider_text p)" for p by (cases p) simp_all
  have u: "CHR '':'' \<notin> set (purpose_text u)" for u by (cases u) simp_all
  have pi: "provider_text p = provider_text p' \<Longrightarrow> p = p'" by (cases p; cases p') simp_all
  have ui: "purpose_text u = purpose_text u' \<Longrightarrow> u = u'" by (cases u; cases u') simp_all
  show ?thesis
  proof
    assume "aad t p u = aad t' p' u'"
    then have "(t @ CHR '':'' # provider_text p) @ CHR '':'' # purpose_text u =
        (t' @ CHR '':'' # provider_text p') @ CHR '':'' # purpose_text u'" by (simp add: aad_def)
    from split [OF this u u] have "t @ CHR '':'' # provider_text p = t' @ CHR '':'' # provider_text p'" "u = u'"
      using ui by auto
    with split [OF this(1) p p] show "t = t' \<and> p = p' \<and> u = u'" using pi by auto
  qed simp
qed

section \<open>Request bodies\<close>

definition newline :: char where "newline = char_of (10 :: nat)"

text \<open>A pattern anchored with \<open>$\<close> also matches before a final newline.\<close>

definition chomp :: "string \<Rightarrow> string" where
  "chomp s = (if s \<noteq> [] \<and> last s = newline then butlast s else s)"

definition is_lower :: "char \<Rightarrow> bool" where
  "is_lower c \<longleftrightarrow> 97 \<le> code c \<and> code c \<le> 122"

definition is_upper :: "char \<Rightarrow> bool" where
  "is_upper c \<longleftrightarrow> 65 \<le> code c \<and> code c \<le> 90"

definition is_dig :: "char \<Rightarrow> bool" where
  "is_dig c \<longleftrightarrow> 48 \<le> code c \<and> code c \<le> 57"

definition role_name_ok :: "string \<Rightarrow> bool" where
  "role_name_ok s = (let w = chomp s in w \<noteq> [] \<and> length w \<le> 32 \<and> is_lower (hd w) \<and>
     list_all (\<lambda>c. is_lower c \<or> is_dig c \<or> c = CHR ''_'') (tl w))"

definition model_name_ok :: "string \<Rightarrow> bool" where
  "model_name_ok s = (let w = chomp s in w \<noteq> [] \<and> length w \<le> 128 \<and>
     list_all (\<lambda>c. is_lower c \<or> is_upper c \<or> is_dig c \<or> c \<in> set ''._:/-'') w)"

definition cred_id_ok :: "string \<Rightarrow> bool" where
  "cred_id_ok s = (let w = chomp s in w \<noteq> [] \<and> length w \<le> 64 \<and>
     list_all (\<lambda>c. is_lower c \<or> is_upper c \<or> is_dig c \<or> c = CHR ''-'') w)"

definition ROLE_MODELS_MAX_ENTRIES :: nat where "ROLE_MODELS_MAX_ENTRIES = 16"
definition FAILOVER_CHAIN_MAX_LEN :: nat where "FAILOVER_CHAIN_MAX_LEN = 2"
definition ROLE_COST_LIMIT_MAX_CENTS :: int where "ROLE_COST_LIMIT_MAX_CENTS = 10000000"

fun role_models_loop :: "(string \<times> json) list \<Rightarrow> (string, string) dict \<Rightarrow> (string, string) dict res" where
  "role_models_loop [] out = Inr out"
| "role_models_loop ((raw, v) # kvs) out =
     (case v of
        JStr m \<Rightarrow>
          if \<not> role_name_ok (py_lower raw) then Inl (ValueError ''invalid role name'')
          else if \<not> model_name_ok m then Inl (ValueError ''invalid model name'')
          else role_models_loop kvs (dput (py_lower raw) m out)
      | _ \<Rightarrow> Inl (ValueError ''role_models keys and values must be strings''))"

definition role_models_update :: "json \<Rightarrow> (string, string) dict res" where
  "role_models_update v =
     (case v of
        JNull \<Rightarrow> Inr []
      | JObj kvs \<Rightarrow>
          if ROLE_MODELS_MAX_ENTRIES < length kvs then Inl (ValueError ''role_models supports max 16 entries'')
          else role_models_loop kvs []
      | _ \<Rightarrow> Inl (ValueError ''role_models must be a JSON object''))"

fun cost_limits_loop :: "(string \<times> json) list \<Rightarrow> (string, int) dict \<Rightarrow> (string, int) dict res" where
  "cost_limits_loop [] out = Inr out"
| "cost_limits_loop ((raw, v) # kvs) out =
     (if \<not> role_name_ok (py_lower raw) then Inl (ValueError ''invalid role name'')
      else (case v of
          JInt cents \<Rightarrow>
            if cents \<le> 0 then Inl (ValueError ''must be positive'')
            else if ROLE_COST_LIMIT_MAX_CENTS < cents then Inl (ValueError ''exceeds the safety ceiling'')
            else cost_limits_loop kvs (dput (py_lower raw) cents out)
        | _ \<Rightarrow> Inl (ValueError ''must be an integer (cents)'')))"

definition role_cost_limits_update :: "json \<Rightarrow> (string, int) dict res" where
  "role_cost_limits_update v =
     (case v of
        JNull \<Rightarrow> Inr []
      | JObj kvs \<Rightarrow>
          if ROLE_MODELS_MAX_ENTRIES < length kvs then Inl (ValueError ''role_cost_limits supports max 16 entries'')
          else cost_limits_loop kvs []
      | _ \<Rightarrow> Inl (ValueError ''role_cost_limits must be a JSON object''))"

fun chain_loop :: "json list \<Rightarrow> string list \<Rightarrow> string list res" where
  "chain_loop [] out = Inr out"
| "chain_loop (v # vs) out =
     (case v of
        JStr s \<Rightarrow>
          if \<not> cred_id_ok s then Inl (ValueError ''invalid credential id format'')
          else if s \<in> set out then Inl (ValueError ''duplicate credential id in chain'')
          else chain_loop vs (out @ [s])
      | _ \<Rightarrow> Inl (ValueError ''failover_chain entries must be strings''))"

definition failover_chain_update :: "json \<Rightarrow> string list res" where
  "failover_chain_update v =
     (case v of
        JNull \<Rightarrow> Inr []
      | JList vs \<Rightarrow>
          if FAILOVER_CHAIN_MAX_LEN < length vs then Inl (ValueError ''failover_chain supports max 2 fallback entries'')
          else chain_loop vs []
      | _ \<Rightarrow> Inl (ValueError ''failover_chain must be a JSON array''))"

definition base_url_must_be_https :: "string option \<Rightarrow> string option res" where
  "base_url_must_be_https v =
     (case v of
        None \<Rightarrow> Inr None
      | Some u \<Rightarrow>
          if prefix ''https://'' u then Inr v
          else if prefix ''http://localhost'' u \<or> prefix ''http://127.0.0.1'' u then Inr v
          else Inl (ValueError ''base_url must use https://''))"

text \<open>The length limits of the fields and the validators of a new credential.\<close>

definition credential_create :: "string \<Rightarrow> string option \<Rightarrow> string option \<Rightarrow> string option \<Rightarrow> unit res" where
  "credential_create key base model emodel =
     (if length key < 8 \<or> 512 < length key \<or> py_strip key = [] then Inl (ValueError ''api_key'')
      else if (case base of None \<Rightarrow> False | Some u \<Rightarrow> 512 < length u) then Inl (ValueError ''base_url'')
      else bind_res (base_url_must_be_https base) (\<lambda>_.
        if (case model of None \<Rightarrow> False | Some m \<Rightarrow> 128 < length m) then Inl (ValueError ''default_model'')
        else if (case emodel of None \<Rightarrow> False | Some m \<Rightarrow> 128 < length m) then Inl (ValueError ''default_embed_model'')
        else Inr ()))"

text \<open>The localhost exception is a prefix test: a host that only starts like localhost passes.\<close>

lemma base_url_accepts_foreign_http_host:
  "base_url_must_be_https (Some ''http://localhost.example.com/v1'') = Inr (Some ''http://localhost.example.com/v1'')"
  by (simp add: base_url_must_be_https_def)

section \<open>The table\<close>

record blob =
  bl_ciphertext :: string
  bl_nonce :: string
  bl_tag :: string
  bl_version :: nat

record cred_row =
  cr_id :: string
  cr_tenant :: string
  cr_provider :: provider_type
  cr_purpose :: purpose_type
  cr_blob :: blob
  cr_fingerprint :: string
  cr_base_url :: "string option"
  cr_model :: "string option"
  cr_embed_model :: "string option"
  cr_roles :: "(string, string) dict"
  cr_chain :: "string list"
  cr_limits :: "(string, int) dict"
  cr_status :: cred_status
  cr_used :: "nat option"
  cr_validated :: "nat option"
  cr_error :: "string option"
  cr_created :: nat
  cr_created_by :: string
  cr_updated :: nat
  cr_backend :: string

record cstore =
  cs_engine :: bool
  cs_rows :: "cred_row list"

datatype cstmt = CGet | CActive | CById | CList | CUpsert | CPatch | CRevoke | CInvalid | CTouch | CValidated

definition sql_error :: exn where "sql_error = OtherError ''SQLAlchemyError''"

definition first_row :: "cred_row list \<Rightarrow> cred_row option" where
  "first_row rs = (case rs of [] \<Rightarrow> None | r # _ \<Rightarrow> Some r)"

definition store_get :: "cstmt set \<Rightarrow> cstore \<Rightarrow> string \<Rightarrow> provider_type \<Rightarrow> purpose_type \<Rightarrow> cred_row option" where
  "store_get fails s tenant p u =
     (if \<not> cs_engine s \<or> CGet \<in> fails then None
      else first_row (filter (\<lambda>r. cr_tenant r = tenant \<and> cr_provider r = p \<and> cr_purpose r = u \<and> cr_status r = Active)
        (cs_rows s)))"

text \<open>An exact purpose before both, then the newest.\<close>

definition get_active_for_purpose :: "cstmt set \<Rightarrow> cstore \<Rightarrow> string \<Rightarrow> purpose_type \<Rightarrow> cred_row option" where
  "get_active_for_purpose fails s tenant u =
     (if \<not> cs_engine s \<or> CActive \<in> fails then None
      else first_row (sort_desc (\<lambda>r. if cr_purpose r = u then 1 else 0 :: nat) (sort_desc cr_created
        (filter (\<lambda>r. cr_tenant r = tenant \<and> cr_status r = Active \<and> (cr_purpose r = u \<or> cr_purpose r = ForBoth))
          (cs_rows s)))))"

definition get_by_id :: "cstmt set \<Rightarrow> cstore \<Rightarrow> string \<Rightarrow> string \<Rightarrow> cred_row option" where
  "get_by_id fails s tenant cid =
     (if \<not> cs_engine s \<or> CById \<in> fails then None
      else first_row (filter (\<lambda>r. cr_id r = cid \<and> cr_tenant r = tenant) (cs_rows s)))"

definition list_for_tenant :: "cstmt set \<Rightarrow> cstore \<Rightarrow> string \<Rightarrow> cred_row list" where
  "list_for_tenant fails s tenant =
     (if \<not> cs_engine s \<or> CList \<in> fails then []
      else sort_key (\<lambda>r. provider_text (cr_provider r)) (sort_key (\<lambda>r. purpose_text (cr_purpose r))
        (sort_desc cr_created (filter (\<lambda>r. cr_tenant r = tenant) (cs_rows s)))))"

text \<open>UPDATE of the rows that satisfy P: the number of rows and the table.\<close>

definition update_rows :: "(cred_row \<Rightarrow> bool) \<Rightarrow> (cred_row \<Rightarrow> cred_row) \<Rightarrow> cstore \<Rightarrow> nat \<times> cstore" where
  "update_rows P f s = (length (filter P (cs_rows s)), s\<lparr>cs_rows := map (\<lambda>r. if P r then f r else r) (cs_rows s)\<rparr>)"

record new_cred =
  nc_tenant :: string
  nc_provider :: provider_type
  nc_purpose :: purpose_type
  nc_blob :: blob
  nc_fingerprint :: string
  nc_base_url :: "string option"
  nc_model :: "string option"
  nc_embed_model :: "string option"
  nc_created_by :: string
  nc_backend :: string

definition same_slot :: "new_cred \<Rightarrow> cred_row \<Rightarrow> bool" where
  "same_slot n r \<longleftrightarrow> cr_tenant r = nc_tenant n \<and> cr_provider r = nc_provider n \<and> cr_purpose r = nc_purpose n"

definition overwrite_row :: "new_cred \<Rightarrow> nat \<Rightarrow> cred_row \<Rightarrow> cred_row" where
  "overwrite_row n now r = r\<lparr>cr_blob := nc_blob n, cr_fingerprint := nc_fingerprint n, cr_base_url := nc_base_url n,
     cr_model := nc_model n, cr_embed_model := nc_embed_model n, cr_backend := nc_backend n, cr_status := Active,
     cr_error := None, cr_updated := now\<rparr>"

definition inserted_cred :: "string \<Rightarrow> new_cred \<Rightarrow> nat \<Rightarrow> cred_row" where
  "inserted_cred cid n now = \<lparr>cr_id = cid, cr_tenant = nc_tenant n, cr_provider = nc_provider n, cr_purpose = nc_purpose n,
     cr_blob = nc_blob n, cr_fingerprint = nc_fingerprint n, cr_base_url = nc_base_url n, cr_model = nc_model n,
     cr_embed_model = nc_embed_model n, cr_roles = [], cr_chain = [], cr_limits = [], cr_status = Active,
     cr_used = None, cr_validated = None, cr_error = None, cr_created = now, cr_created_by = nc_created_by n,
     cr_updated = now, cr_backend = nc_backend n\<rparr>"

text \<open>\<open>cid\<close> is the uuid a new row gets.\<close>

definition store_upsert :: "cstmt set \<Rightarrow> cstore \<Rightarrow> string \<Rightarrow> new_cred \<Rightarrow> nat \<Rightarrow> (string option \<times> cstore) res" where
  "store_upsert fails s cid n now =
     (if \<not> cs_engine s then Inr (None, s)
      else if CUpsert \<in> fails then Inl sql_error
      else (case filter (same_slot n) (cs_rows s) of
          [] \<Rightarrow> Inr (Some cid, s\<lparr>cs_rows := cs_rows s @ [inserted_cred cid n now]\<rparr>)
        | r # _ \<Rightarrow> Inr (Some (cr_id r), snd (update_rows (same_slot n) (overwrite_row n now) s))))"

datatype patch_outcome = Updated | NotFound | EmptyBody | PreconditionFailed | NoDb

record patch_body =
  pb_base_url :: "string option"
  pb_model :: "string option"
  pb_embed_model :: "string option"
  pb_roles :: "(string, string) dict option"
  pb_chain :: "string list option"
  pb_limits :: "(string, int) dict option"

definition no_patch :: patch_body where
  "no_patch = \<lparr>pb_base_url = None, pb_model = None, pb_embed_model = None, pb_roles = None, pb_chain = None, pb_limits = None\<rparr>"

definition patch_row :: "patch_body \<Rightarrow> nat \<Rightarrow> cred_row \<Rightarrow> cred_row" where
  "patch_row pb now r = r\<lparr>
     cr_base_url := (case pb_base_url pb of None \<Rightarrow> cr_base_url r | Some v \<Rightarrow> Some v),
     cr_model := (case pb_model pb of None \<Rightarrow> cr_model r | Some v \<Rightarrow> Some v),
     cr_embed_model := (case pb_embed_model pb of None \<Rightarrow> cr_embed_model r | Some v \<Rightarrow> Some v),
     cr_roles := (case pb_roles pb of None \<Rightarrow> cr_roles r | Some v \<Rightarrow> v),
     cr_chain := (case pb_chain pb of None \<Rightarrow> cr_chain r | Some v \<Rightarrow> v),
     cr_limits := (case pb_limits pb of None \<Rightarrow> cr_limits r | Some v \<Rightarrow> v),
     cr_updated := now\<rparr>"

definition store_patch ::
  "cstmt set \<Rightarrow> cstore \<Rightarrow> string \<Rightarrow> string \<Rightarrow> patch_body \<Rightarrow> nat option \<Rightarrow> nat \<Rightarrow> (patch_outcome \<times> cstore) res" where
  "store_patch fails s tenant cid pb etag now =
     (if \<not> cs_engine s then Inr (NoDb, s)
      else if pb = no_patch then Inr (EmptyBody, s)
      else if CPatch \<in> fails then Inl sql_error
      else (let (n, s') = update_rows (\<lambda>r. cr_id r = cid \<and> cr_tenant r = tenant \<and>
                  (case etag of None \<Rightarrow> True | Some e \<Rightarrow> cr_updated r = e)) (patch_row pb now) s
            in if 0 < n then Inr (Updated, s')
               else if etag = None then Inr (NotFound, s')
               else Inr (if get_by_id fails s' tenant cid = None then NotFound else PreconditionFailed, s')))"

definition store_revoke :: "cstmt set \<Rightarrow> cstore \<Rightarrow> string \<Rightarrow> string \<Rightarrow> nat \<Rightarrow> (bool \<times> cstore) res" where
  "store_revoke fails s tenant cid now =
     (if \<not> cs_engine s then Inr (False, s)
      else if CRevoke \<in> fails then Inl sql_error
      else (let (n, s') = update_rows (\<lambda>r. cr_id r = cid \<and> cr_tenant r = tenant \<and> cr_status r \<noteq> Revoked)
                  (\<lambda>r. r\<lparr>cr_status := Revoked, cr_updated := now\<rparr>) s
            in Inr (0 < n, s')))"

definition mark_invalid :: "cstmt set \<Rightarrow> cstore \<Rightarrow> string \<Rightarrow> string \<Rightarrow> nat \<Rightarrow> cstore res" where
  "mark_invalid fails s cid err now =
     (if \<not> cs_engine s then Inr s
      else if CInvalid \<in> fails then Inl sql_error
      else Inr (snd (update_rows (\<lambda>r. cr_id r = cid) (\<lambda>r. r\<lparr>cr_status := Invalid, cr_error := Some (take 512 err),
        cr_validated := Some now, cr_updated := now\<rparr>) s)))"

definition touch_last_used :: "cstmt set \<Rightarrow> cstore \<Rightarrow> string \<Rightarrow> nat \<Rightarrow> cstore" where
  "touch_last_used fails s cid now =
     (if \<not> cs_engine s \<or> CTouch \<in> fails then s
      else snd (update_rows (\<lambda>r. cr_id r = cid) (\<lambda>r. r\<lparr>cr_used := Some now\<rparr>) s))"

definition mark_validated :: "cstmt set \<Rightarrow> cstore \<Rightarrow> string \<Rightarrow> string option \<Rightarrow> nat \<Rightarrow> cstore res" where
  "mark_validated fails s cid err now =
     (if \<not> cs_engine s then Inr s
      else if CValidated \<in> fails then Inl sql_error
      else Inr (snd (update_rows (\<lambda>r. cr_id r = cid) (\<lambda>r. r\<lparr>cr_validated := Some now,
        cr_error := (case err of None \<Rightarrow> None | Some e \<Rightarrow> if e = [] then None else Some (take 512 e)), cr_updated := now\<rparr>) s)))"

end
