(* ===== verification/Resolver.thy ===== *)
theory Resolver
  imports Credentials
begin

text \<open>
  \<open>engramia/credentials/resolver.py\<close>: from a row of the store to a decrypted credential,
  through a cache with a one-hour lifetime and at most 512 entries. The cache is the ordered
  dictionary, least recently used first; times are microseconds. The encryption backends are
  parameters: what decrypting a blob for a triple answers.
\<close>

section \<open>Decryption\<close>

datatype dec_out = Plain string | DecryptionError | VaultError string | DecRaises exn

type_synonym backend_fn = "string \<Rightarrow> provider_type \<Rightarrow> purpose_type \<Rightarrow> blob \<Rightarrow> dec_out"

type_synonym backends = "(string, backend_fn) dict"

definition decrypt_row :: "backends \<Rightarrow> cred_row \<Rightarrow> dec_out" where
  "decrypt_row bs r =
     (case dget bs (cr_backend r) of
        None \<Rightarrow> DecryptionError
      | Some f \<Rightarrow> f (cr_tenant r) (cr_provider r) (cr_purpose r) (cr_blob r))"

section \<open>Rows to credentials\<close>

text \<open>
  The schema strips white space of every string on construction (pydantic's stripping, which
  does not count the control characters 28 to 31 that Python's does).
\<close>

definition trim_space :: "char \<Rightarrow> bool" where
  "trim_space c \<longleftrightarrow> code c = 32 \<or> (9 \<le> code c \<and> code c \<le> 13) \<or> code c = 133 \<or> code c = 160"

definition trim :: "string \<Rightarrow> string" where
  "trim s = rev (dropWhile trim_space (rev (dropWhile trim_space s)))"

definition trim_dict :: "('v \<Rightarrow> 'w) \<Rightarrow> (string, 'v) dict \<Rightarrow> (string, 'w) dict" where
  "trim_dict f d = fold (\<lambda>(k, v) out. dput (trim k) (f v) out) d []"

definition row_to_cred :: "cred_row \<Rightarrow> string \<Rightarrow> cred" where
  "row_to_cred r plaintext =
     \<lparr>tc_id = trim (cr_id r), tc_tenant = trim (cr_tenant r), tc_provider = cr_provider r, tc_purpose = cr_purpose r,
      tc_key = trim plaintext, tc_fingerprint = trim (cr_fingerprint r), tc_base_url = map_option trim (cr_base_url r),
      tc_model = map_option trim (cr_model r), tc_embed_model = map_option trim (cr_embed_model r),
      tc_roles = trim_dict trim (cr_roles r), tc_chain = map trim (cr_chain r), tc_limits = trim_dict (\<lambda>v. v) (cr_limits r),
      tc_status = cr_status r\<rparr>"

section \<open>The cache\<close>

definition CACHE_TTL :: nat where "CACHE_TTL = 3600 * 1000000"
definition CACHE_MAX_ENTRIES :: nat where "CACHE_MAX_ENTRIES = 512"

type_synonym cred_cache = "(string \<times> purpose_type, nat \<times> cred) dict"

text \<open>Moving an entry to the end, and dropping the first entries beyond a capacity.\<close>

definition touch_key :: "'k \<Rightarrow> ('k, 'v) dict \<Rightarrow> ('k, 'v) dict" where
  "touch_key k d = (case dget d k of None \<Rightarrow> d | Some v \<Rightarrow> ddel k d @ [(k, v)])"

definition evict :: "nat \<Rightarrow> ('k, 'v) dict \<Rightarrow> ('k, 'v) dict" where
  "evict n d = drop (length d - n) d"

definition cache_get :: "cred_cache \<Rightarrow> string \<Rightarrow> purpose_type \<Rightarrow> nat \<Rightarrow> cred option \<times> cred_cache" where
  "cache_get c tenant u now =
     (case dget c (tenant, u) of
        None \<Rightarrow> (None, c)
      | Some (expires, x) \<Rightarrow>
          if expires \<le> now then (None, ddel (tenant, u) c) else (Some x, touch_key (tenant, u) c))"

definition cache_put :: "cred_cache \<Rightarrow> string \<Rightarrow> purpose_type \<Rightarrow> cred \<Rightarrow> nat \<Rightarrow> cred_cache" where
  "cache_put c tenant u x now = evict CACHE_MAX_ENTRIES (touch_key (tenant, u) (dput (tenant, u) (now + CACHE_TTL, x) c))"

definition resolver_invalidate :: "cred_cache \<Rightarrow> string \<Rightarrow> cred_cache" where
  "resolver_invalidate c tenant = filter (\<lambda>((t, u), e). t \<noteq> tenant) c"

text \<open>
  Facts about ordered-dictionary caches: what holds of every entry keeps holding, and
  dropping the entries of one tenant drops exactly those.
\<close>

definition entries :: "('k \<Rightarrow> 'v \<Rightarrow> bool) \<Rightarrow> ('k, 'v) dict \<Rightarrow> bool" where
  "entries P d \<longleftrightarrow> (\<forall>(k, v) \<in> set d. P k v)"

lemma entries_Nil [simp]: "entries P []"
  by (simp add: entries_def)

lemma entriesD: "entries P d \<Longrightarrow> dget d k = Some v \<Longrightarrow> P k v"
  by (auto simp: entries_def dest!: map_of_SomeD)

lemma entries_mono: "entries P d \<Longrightarrow> (\<And>k v. P k v \<Longrightarrow> Q k v) \<Longrightarrow> entries Q d"
  by (auto simp: entries_def)

lemma entries_dput: "entries P d \<Longrightarrow> P k v \<Longrightarrow> entries P (dput k v d)"
  by (induction d) (auto simp: entries_def split: if_splits)

lemma entries_subset: "entries P d \<Longrightarrow> set d' \<subseteq> set d \<Longrightarrow> entries P d'"
  by (auto simp: entries_def)

lemma entries_ddel [simp]: "entries P d \<Longrightarrow> entries P (ddel k d)"
  by (rule entries_subset) (auto simp: AList.delete_eq)

lemma entries_touch [simp]: "entries P d \<Longrightarrow> entries P (touch_key k d)"
  by (rule entries_subset) (auto simp: touch_key_def AList.delete_eq dest: map_of_SomeD split: option.splits)

lemma entries_evict [simp]: "entries P d \<Longrightarrow> entries P (evict n d)"
  by (rule entries_subset) (auto simp: evict_def dest: in_set_dropD)

lemma length_evict: "length (evict n d) \<le> n"
  by (simp add: evict_def)

locale owned_cache =
  fixes owner :: "'k \<Rightarrow> string" and drop_owner :: "('k, 'v) dict \<Rightarrow> string \<Rightarrow> ('k, 'v) dict"
  assumes drop_owner: "drop_owner c t = filter (\<lambda>kv. owner (fst kv) \<noteq> t) c"
begin

lemma entries_drop: "entries P c \<Longrightarrow> entries P (drop_owner c t)"
  by (rule entries_subset) (auto simp: drop_owner)

lemma dget_drop: "dget (drop_owner c t) k = (if owner k = t then None else dget c k)"
  by (induction c) (auto simp: drop_owner)

end

interpretation rcache: owned_cache fst resolver_invalidate
  by unfold_locales (auto simp: resolver_invalidate_def intro!: filter_cong)

lemma entries_cache_get:
  "entries P c \<Longrightarrow> cache_get c t u now = (r, c') \<Longrightarrow> entries P c'"
  by (auto simp: cache_get_def split: option.splits prod.splits if_splits)

lemma entries_cache_put:
  "entries P c \<Longrightarrow> P (t, u) (now + CACHE_TTL, x) \<Longrightarrow> entries P (cache_put c t u x now)"
  by (simp add: cache_put_def entries_dput)

lemma cache_get_SomeD: "cache_get c t u now = (Some x, c') \<Longrightarrow> \<exists>exp. dget c (t, u) = Some (exp, x) \<and> now < exp"
  by (auto simp: cache_get_def split: option.splits prod.splits if_splits)

section \<open>Resolving\<close>

text \<open>The result with the store and the cache as they are left, also when the call raises.\<close>

definition resolve ::
  "cstmt set \<Rightarrow> backends \<Rightarrow> cstore \<Rightarrow> cred_cache \<Rightarrow> string \<Rightarrow> purpose_type \<Rightarrow> nat \<Rightarrow> cred option res \<times> cstore \<times> cred_cache" where
  "resolve fails bs s c tenant u now =
     (if bs = [] then (Inr None, s, c)
      else (case cache_get c tenant u now of
          (Some x, c') \<Rightarrow> (Inr (Some x), s, c')
        | (None, c') \<Rightarrow>
            (case get_active_for_purpose fails s tenant u of
               None \<Rightarrow> (Inr None, s, c')
             | Some r \<Rightarrow>
                 (case decrypt_row bs r of
                    DecryptionError \<Rightarrow>
                      (case mark_invalid fails s (cr_id r) ''Decryption failed'' now of
                         Inl e \<Rightarrow> (Inl e, s, c') | Inr s' \<Rightarrow> (Inr None, s', c'))
                  | VaultError m \<Rightarrow> (Inr None, s, c')
                  | DecRaises e \<Rightarrow> (Inl e, s, c')
                  | Plain key \<Rightarrow>
                      (let x = row_to_cred r key
                       in (Inr (Some x), touch_last_used fails s (tc_id x) now, cache_put c' tenant u x now))))))"

definition resolve_by_id ::
  "cstmt set \<Rightarrow> backends \<Rightarrow> cstore \<Rightarrow> string \<Rightarrow> string \<Rightarrow> nat \<Rightarrow> cred option res \<times> cstore" where
  "resolve_by_id fails bs s tenant cid now =
     (if bs = [] then (Inr None, s)
      else (case get_by_id fails s tenant cid of
          None \<Rightarrow> (Inr None, s)
        | Some r \<Rightarrow>
            if cr_status r \<noteq> Active then (Inr None, s)
            else (case decrypt_row bs r of
                DecryptionError \<Rightarrow>
                  (case mark_invalid fails s (cr_id r) ''Decryption failed'' now of
                     Inl e \<Rightarrow> (Inl e, s) | Inr s' \<Rightarrow> (Inr None, s'))
              | VaultError m \<Rightarrow> (Inr None, s)
              | DecRaises e \<Rightarrow> (Inl e, s)
              | Plain key \<Rightarrow> (Inr (Some (row_to_cred r key)), s))))"

end
