(* ===== verification/Validator.thy ===== *)
theory Validator
  imports Credentials
begin

text \<open>
  Checking a key against its provider: the native Ollama helpers with their model-list cache
  (\<open>engramia/providers/_ollama_native.py\<close>) and \<open>engramia/credentials/validator.py\<close>. The HTTP
  client is a parameter: what a GET of a URL with headers answers. Times are microseconds.
\<close>

section \<open>HTTP\<close>

record tag =
  tg_name :: "string option"
  tg_size :: "int option"
  tg_details :: "(string option \<times> string option) option"

text \<open>
  A response has a status and a body: the \<open>models\<close> member of a tags document, or something
  that is not JSON. The failures are those of httpx: a timeout, another HTTPError with its
  class name, and an exception outside that family. Messages are short tags of the source's.
\<close>

datatype body = NotJson | Tags "tag list option"

datatype http_out = HResponse nat body | HTimeout string | HError string | HRaises exn

type_synonym http = "string \<Rightarrow> (string \<times> string) list \<Rightarrow> http_out"

section \<open>The native Ollama API\<close>

record ollama_model =
  om_name :: string
  om_size :: "int option"
  om_params :: "string option"
  om_quant :: "string option"

definition rstrip_slash :: "string \<Rightarrow> string" where
  "rstrip_slash s = rev (dropWhile (\<lambda>c. c = CHR ''/'') (rev s))"

definition native_base_url :: "string \<Rightarrow> string" where
  "native_base_url base = (let u = rstrip_slash base in
     if suffix ''/v1'' u then take (length u - length ''/v1'') u else u)"

definition model_of_tag :: "tag \<Rightarrow> ollama_model" where
  "model_of_tag t = \<lparr>om_name = (case tg_name t of None \<Rightarrow> [] | Some s \<Rightarrow> s), om_size = tg_size t,
     om_params = (case tg_details t of None \<Rightarrow> None | Some (p, q) \<Rightarrow> p),
     om_quant = (case tg_details t of None \<Rightarrow> None | Some (p, q) \<Rightarrow> q)\<rparr>"

datatype list_exn = ListTimeout | ListError string | ListRaises exn

text \<open>\<open>raise_for_status\<close> is an HTTPError of class HTTPStatusError unless the status is 2xx.\<close>

definition list_models :: "http \<Rightarrow> string \<Rightarrow> list_exn + ollama_model list" where
  "list_models h base =
     (case h (native_base_url base @ ''/api/tags'') [] of
        HTimeout c \<Rightarrow> Inl ListTimeout
      | HError c \<Rightarrow> Inl (ListError c)
      | HRaises e \<Rightarrow> Inl (ListRaises e)
      | HResponse st b \<Rightarrow>
          if st < 200 \<or> 300 \<le> st then Inl (ListError ''HTTPStatusError'')
          else (case b of
              NotJson \<Rightarrow> Inl (ListRaises (ValueError ''JSONDecodeError''))
            | Tags None \<Rightarrow> Inr []
            | Tags (Some ts) \<Rightarrow> Inr (map model_of_tag ts)))"

definition model_is_pulled :: "ollama_model list \<Rightarrow> string \<Rightarrow> bool" where
  "model_is_pulled ms wanted \<longleftrightarrow> wanted = [] \<or> wanted \<in> om_name ` set ms \<or>
     CHR '':'' \<notin> set wanted \<and> wanted @ '':latest'' \<in> om_name ` set ms"

type_synonym model_cache = "(string, ollama_model list \<times> nat) dict"

definition MODEL_LIST_TTL :: nat where "MODEL_LIST_TTL = 3600 * 1000000"

definition models_get :: "model_cache \<Rightarrow> string \<Rightarrow> nat \<Rightarrow> ollama_model list option \<times> model_cache" where
  "models_get c base now =
     (case dget c (native_base_url base) of
        None \<Rightarrow> (None, c)
      | Some (ms, fetched) \<Rightarrow>
          if fetched + MODEL_LIST_TTL < now then (None, ddel (native_base_url base) c) else (Some ms, c))"

definition models_put :: "model_cache \<Rightarrow> string \<Rightarrow> ollama_model list \<Rightarrow> nat \<Rightarrow> model_cache" where
  "models_put c base ms now = dput (native_base_url base) (ms, now) c"

definition models_invalidate :: "model_cache \<Rightarrow> string \<Rightarrow> model_cache" where
  "models_invalidate c base = ddel (native_base_url base) c"

definition TIMEOUT_BY_PARAM_SIZE :: "(string, nat) dict" where
  "TIMEOUT_BY_PARAM_SIZE = [(''0.5B'', 60), (''1B'', 60), (''1.5B'', 60), (''2B'', 90), (''3B'', 90), (''7B'', 120),
     (''8B'', 120), (''13B'', 180), (''14B'', 180), (''32B'', 300), (''34B'', 300), (''70B'', 600), (''72B'', 600),
     (''405B'', 1800)]"

definition recommended_timeout :: "string option \<Rightarrow> nat" where
  "recommended_timeout psize =
     (case psize of None \<Rightarrow> 300 | Some s \<Rightarrow> (case dget TIMEOUT_BY_PARAM_SIZE s of None \<Rightarrow> 300 | Some t \<Rightarrow> t))"

section \<open>Validation\<close>

datatype category = Ok | AuthFailed | Unreachable | Config | ModelMissing

record validation =
  va_success :: bool
  va_error :: "string option"
  va_category :: category
  va_models :: "string list option"

definition verdict :: "bool \<Rightarrow> string option \<Rightarrow> category \<Rightarrow> string list option \<Rightarrow> validation" where
  "verdict ok err cat ms = \<lparr>va_success = ok, va_error = err, va_category = cat, va_models = ms\<rparr>"

text \<open>The answer of a listing endpoint, with the statuses that mean the key was rejected.\<close>

definition judge :: "string \<Rightarrow> nat set \<Rightarrow> string \<Rightarrow> http_out \<Rightarrow> validation res" where
  "judge who rejects reject_text out =
     (case out of
        HTimeout c \<Rightarrow> Inr (verdict False (Some (who @ '' /models endpoint timed out'')) Unreachable None)
      | HError c \<Rightarrow> Inr (verdict False (Some (who @ '' unreachable: '' @ c)) Unreachable None)
      | HRaises e \<Rightarrow> Inl e
      | HResponse st b \<Rightarrow>
          if st = 200 then Inr (verdict True None Ok None)
          else if st \<in> rejects then Inr (verdict False (Some reject_text) AuthFailed None)
          else Inr (verdict False (Some (''Unexpected '' @ who @ '' response: HTTP '' @ dec st)) Unreachable None))"

definition validate_openai_compat :: "http \<Rightarrow> string \<Rightarrow> string \<Rightarrow> validation res" where
  "validate_openai_compat h key base =
     judge ''Provider'' {401, 403} ''Provider rejected the API key (401/403)''
       (h (rstrip_slash base @ ''/v1/models'') [(''Authorization'', ''Bearer '' @ key)])"

definition validate_anthropic :: "http \<Rightarrow> string \<Rightarrow> validation res" where
  "validate_anthropic h key =
     judge ''Anthropic'' {401, 403} ''Anthropic rejected the API key (401/403)''
       (h ''https://api.anthropic.com/v1/models'' [(''x-api-key'', key), (''anthropic-version'', ''2023-06-01'')])"

definition validate_gemini :: "http \<Rightarrow> string \<Rightarrow> validation res" where
  "validate_gemini h key =
     judge ''Gemini'' {400, 401, 403} ''Gemini rejected the API key''
       (h (''https://generativelanguage.googleapis.com/v1beta/models?key='' @ key) [])"

text \<open>
  Scheme and network location of \<open>urllib.parse.urlparse\<close>; hosts in brackets (IPv6
  literals) are not covered.
\<close>

definition scheme_char :: "char \<Rightarrow> bool" where
  "scheme_char c \<longleftrightarrow> is_lower c \<or> is_upper c \<or> is_dig c \<or> c \<in> set ''+-.''"

definition url_parts :: "string \<Rightarrow> string \<times> string" where
  "url_parts u =
     (let u1 = filter (\<lambda>c. code c \<notin> {9, 10, 13}) (dropWhile (\<lambda>c. code c \<le> 32) u);
          s = takeWhile (\<lambda>c. c \<noteq> CHR '':'') u1;
          has = (length s < length u1 \<and> s \<noteq> [] \<and> (is_lower (hd s) \<or> is_upper (hd s)) \<and> list_all scheme_char s);
          rest = (if has then drop (length s + 1) u1 else u1)
      in (if has then py_lower s else [],
          if prefix ''//'' rest then takeWhile (\<lambda>c. c \<notin> set ''/?#'') (drop 2 rest) else []))"

definition validate_ollama ::
  "http \<Rightarrow> string \<Rightarrow> string option \<Rightarrow> nat \<Rightarrow> model_cache \<Rightarrow> validation res \<times> model_cache" where
  "validate_ollama h base model now c =
     (case url_parts base of
        (scheme, netloc) \<Rightarrow>
          if scheme = [] \<or> netloc = [] then (Inr (verdict False (Some ''base_url must be a full URL'') Config None), c)
          else (case list_models h base of
              Inl ListTimeout \<Rightarrow> (Inr (verdict False (Some (''Ollama at '' @ netloc @ '' timed out'')) Unreachable None), c)
            | Inl (ListError e) \<Rightarrow>
                (Inr (verdict False (Some (''Ollama unreachable at '' @ netloc @ '': '' @ e)) Unreachable None), c)
            | Inl (ListRaises e) \<Rightarrow> (Inl e, c)
            | Inr ms \<Rightarrow>
                (let c' = models_put c base ms now; names = map om_name ms in
                 if ms = [] then (Inr (verdict False (Some (''Ollama at '' @ netloc @ '' has no models pulled'')) Config (Some names)), c')
                 else if (case model of None \<Rightarrow> False | Some m \<Rightarrow> \<not> model_is_pulled ms m)
                 then (Inr (verdict False (Some ''Default model is not pulled on the Ollama server'') ModelMissing (Some names)), c')
                 else (Inr (verdict True None Ok (Some names)), c'))))"

definition validate ::
  "http \<Rightarrow> provider_type \<Rightarrow> string \<Rightarrow> string option \<Rightarrow> string option \<Rightarrow> nat \<Rightarrow> model_cache \<Rightarrow> validation res \<times> model_cache" where
  "validate h p key base model now c =
     (case p of
        OpenAI \<Rightarrow> (validate_openai_compat h key (given_or base ''https://api.openai.com''), c)
      | OpenAICompat \<Rightarrow>
          (case given base of
             None \<Rightarrow> (Inr (verdict False (Some ''base_url is required for openai_compat provider'') Config None), c)
           | Some b \<Rightarrow> (validate_openai_compat h key b, c))
      | Anthropic \<Rightarrow> (validate_anthropic h key, c)
      | Gemini \<Rightarrow> (validate_gemini h key, c)
      | Ollama \<Rightarrow> validate_ollama h (given_or base ''http://localhost:11434'') model now c)"

section \<open>Facts\<close>

text \<open>Both forms of an Ollama base URL name the same server.\<close>

lemma native_base_url_v1: "\<not> suffix ''/'' base \<Longrightarrow> \<not> suffix ''/v1'' base \<Longrightarrow> native_base_url (base @ ''/v1'') = native_base_url base"
  by (cases base rule: rev_cases)
    (auto simp: native_base_url_def rstrip_slash_def Let_def suffix_def)

text \<open>
  The ping appends the version segment to the base URL, which the client that uses the
  credential expects to be there already: with the URL the client needs, the ping asks a path
  with the segment twice.
\<close>

lemma ping_doubles_the_version:
  "validate_openai_compat h key (base @ ''/v1'') =
     judge ''Provider'' {401, 403} ''Provider rejected the API key (401/403)''
       (h (base @ ''/v1/v1/models'') [(''Authorization'', ''Bearer '' @ key)])"
  by (simp add: validate_openai_compat_def rstrip_slash_def)

lemma models_get_put: "models_get (models_put c base ms t) base now =
    (if t + MODEL_LIST_TTL < now then (None, ddel (native_base_url base) (models_put c base ms t))
     else (Some ms, models_put c base ms t))"
  by (simp add: models_get_def models_put_def dict_simps)

text \<open>A success means the provider answered 200, or listed the wanted model.\<close>

lemma validate_success:
  assumes "fst (validate h p key base model now c) = Inr v" and "va_success v"
  shows "va_error v = None \<and> va_category v = Ok"
  using assms
  by (auto simp: validate_def validate_openai_compat_def validate_anthropic_def validate_gemini_def
      validate_ollama_def judge_def verdict_def Let_def
      split: provider_type.splits http_out.splits if_splits option.splits prod.splits sum.splits list_exn.splits)

end
