(* ===== verification/TenantProvider.thy ===== *)
theory TenantProvider
  imports Resolver Metering Validator
begin

text \<open>
  \<open>engramia/providers/tenant_scoped.py\<close>: the LLM provider of a request. It resolves the
  tenant's credential, builds (or takes from its cache) the failover chain of that credential
  for the role, calls the entries in order and meters the call that succeeded. The concrete
  providers and their SDKs are parameters: whether one can be constructed, what a call
  answers with its token usage, and which exceptions are of the authentication class.
\<close>

definition PROVIDER_CACHE_MAX :: nat where "PROVIDER_CACHE_MAX = 4096"
definition FAILOVER_CHAIN_MAX :: nat where "FAILOVER_CHAIN_MAX = 3"

text \<open>What a constructed provider holds, with the metadata of its chain entry.\<close>

record entry =
  en_key :: string
  en_base_url :: "string option"
  en_credential :: string
  en_provider :: provider_type
  en_model :: string

record embed_entry =
  ee_key :: string
  ee_base_url :: "string option"
  ee_provider :: provider_type
  ee_model :: string

record sdk =
  sdk_build :: "entry \<Rightarrow> unit res"
  sdk_call :: "entry \<Rightarrow> string \<Rightarrow> (string \<times> (nat \<times> nat) option) res"
  sdk_fallback :: "string \<Rightarrow> string res"
  sdk_auth_error :: "exn \<Rightarrow> bool"
  sdk_build_embed :: "embed_entry \<Rightarrow> unit res"
  sdk_local_embed :: "unit res"

section \<open>Building a chain\<close>

definition entry_for :: "cred \<Rightarrow> string \<Rightarrow> entry" where
  "entry_for c role =
     \<lparr>en_key = tc_key c,
      en_base_url = (case tc_provider c of
          OpenAI \<Rightarrow> tc_base_url c
        | OpenAICompat \<Rightarrow> tc_base_url c
        | Ollama \<Rightarrow> (case tc_base_url c of Some (x # xs) \<Rightarrow> Some (x # xs) | _ \<Rightarrow> Some ''http://localhost:11434/v1'')
        | _ \<Rightarrow> None),
      en_credential = tc_id c, en_provider = tc_provider c, en_model = model_for_role c role\<rparr>"

definition build_one :: "sdk \<Rightarrow> cred \<Rightarrow> string \<Rightarrow> entry res" where
  "build_one k c role = (let e = entry_for c role in bind_res (sdk_build k e) (\<lambda>_. Inr e))"

text \<open>ValueError, and ImportError of a missing SDK extra.\<close>

definition skips_fallback :: "exn \<Rightarrow> bool" where
  "skips_fallback e \<longleftrightarrow> (case e of ValueError m \<Rightarrow> True | OtherError m \<Rightarrow> prefix ''ImportError'' m | _ \<Rightarrow> False)"

text \<open>The loop over the fallbacks, with the ids seen and the entries so far.\<close>

fun build_fallbacks ::
  "cstmt set \<Rightarrow> backends \<Rightarrow> sdk \<Rightarrow> nat \<Rightarrow> string \<Rightarrow> string \<Rightarrow> string list \<Rightarrow> string list \<Rightarrow> entry list \<Rightarrow> cstore
   \<Rightarrow> entry list res \<times> cstore" where
  "build_fallbacks fails bs k now tenant role [] seen chain s = (Inr chain, s)"
| "build_fallbacks fails bs k now tenant role (i # ids) seen chain s =
     (if i \<in> set seen then build_fallbacks fails bs k now tenant role ids seen chain s
      else (case resolve_by_id fails bs s tenant i now of
          (Inl e, s') \<Rightarrow> build_fallbacks fails bs k now tenant role ids (i # seen) chain s'
        | (Inr None, s') \<Rightarrow> build_fallbacks fails bs k now tenant role ids (i # seen) chain s'
        | (Inr (Some c), s') \<Rightarrow>
            if tc_status c \<noteq> Active then build_fallbacks fails bs k now tenant role ids (i # seen) chain s'
            else (case build_one k c role of
                Inr e \<Rightarrow> build_fallbacks fails bs k now tenant role ids (i # seen) (chain @ [e]) s'
              | Inl x \<Rightarrow>
                  if skips_fallback x then build_fallbacks fails bs k now tenant role ids (i # seen) chain s'
                  else (Inl x, s'))))"

text \<open>\<open>store\<close> tells whether the provider was given a store.\<close>

definition build_chain ::
  "cstmt set \<Rightarrow> backends \<Rightarrow> sdk \<Rightarrow> bool \<Rightarrow> nat \<Rightarrow> cred \<Rightarrow> string \<Rightarrow> cstore \<Rightarrow> entry list res \<times> cstore" where
  "build_chain fails bs k store now c role s =
     (case build_one k c role of
        Inl e \<Rightarrow> (Inl e, s)
      | Inr e \<Rightarrow>
          if tc_chain c = [] \<or> \<not> store then (Inr [e], s)
          else build_fallbacks fails bs k now (tc_tenant c) role (take (FAILOVER_CHAIN_MAX - 1) (tc_chain c)) [tc_id c] [e] s)"

section \<open>State\<close>

type_synonym chain_cache = "(string \<times> provider_type \<times> string, entry list) dict"

type_synonym embed_cache = "(string \<times> provider_type, embed_entry) dict"

text \<open>
  The store, the resolver's cache, the chain cache, the spend table (None: no meter), the
  cache of the embedding provider and whether its local fallback has been constructed.
\<close>

record byok =
  by_store :: cstore
  by_cache :: cred_cache
  by_chains :: chain_cache
  by_spend :: "spends option"
  by_embeds :: embed_cache
  by_local :: bool

definition chains_invalidate :: "chain_cache \<Rightarrow> string \<Rightarrow> chain_cache" where
  "chains_invalidate cc tenant = filter (\<lambda>((t, p, r), e). t \<noteq> tenant) cc"

interpretation ccache: owned_cache fst chains_invalidate
  by unfold_locales (auto simp: chains_invalidate_def intro!: filter_cong)

definition get_or_build_chain ::
  "cstmt set \<Rightarrow> backends \<Rightarrow> sdk \<Rightarrow> bool \<Rightarrow> nat \<Rightarrow> cred \<Rightarrow> string \<Rightarrow> byok \<Rightarrow> entry list res \<times> byok" where
  "get_or_build_chain fails bs k store now c role b =
     (let key = (tc_tenant c, tc_provider c, role) in
      case dget (by_chains b) key of
        Some ch \<Rightarrow> (Inr ch, b\<lparr>by_chains := touch_key key (by_chains b)\<rparr>)
      | None \<Rightarrow>
          (case build_chain fails bs k store now c role (by_store b) of
             (Inl e, s) \<Rightarrow> (Inl e, b\<lparr>by_store := s\<rparr>)
           | (Inr ch, s) \<Rightarrow>
               (Inr ch, b\<lparr>by_store := s,
                  by_chains := evict PROVIDER_CACHE_MAX (touch_key key (dput key ch (by_chains b)))\<rparr>)))"

section \<open>Calling\<close>

text \<open>The failover loop: the answer with the entry that gave it and its usage, and the entries called.\<close>

fun try_chain ::
  "sdk \<Rightarrow> string \<Rightarrow> entry list \<Rightarrow> exn option \<Rightarrow> (string \<times> entry \<times> (nat \<times> nat) option) res \<times> entry list" where
  "try_chain k role [] last_transient =
     (case last_transient of
        Some e \<Rightarrow> (Inl e, []) | None \<Rightarrow> (Inl (RuntimeError ''Empty LLM failover chain''), []))"
| "try_chain k role (e # es) last_transient =
     (case sdk_call k e role of
        Inr (out, usage) \<Rightarrow> (Inr (out, e, usage), [e])
      | Inl x \<Rightarrow>
          if sdk_auth_error k x then (Inl x, [e])
          else (let (r, called) = try_chain k role es (Some x) in (r, e # called)))"

text \<open>The monthly ceiling of a role's override: at the cap the call is routed to the role default.\<close>

definition apply_cost_ceiling :: "bool \<Rightarrow> byok \<Rightarrow> cred \<Rightarrow> string \<Rightarrow> string \<Rightarrow> nat \<Rightarrow> string" where
  "apply_cost_ceiling fails b c role tenant now =
     (case by_spend b of
        None \<Rightarrow> role
      | Some sp \<Rightarrow>
          (case cost_ceiling_for_role c role of
             None \<Rightarrow> role
           | Some cap \<Rightarrow>
               if int (get_spend fails (by_spend b) tenant (tc_id c) role None (now div 1000000)) < cap then role
               else ''default''))"

definition meter_after_call ::
  "bool \<Rightarrow> spends option \<Rightarrow> entry \<Rightarrow> (nat \<times> nat) option \<Rightarrow> string \<Rightarrow> string \<Rightarrow> nat \<Rightarrow> spends option" where
  "meter_after_call fails sp e usage role tenant now =
     (case usage of
        None \<Rightarrow> sp
      | Some (tin, tout) \<Rightarrow>
          (case cost_for (provider_text (en_provider e)) (en_model e) tin tout of
             None \<Rightarrow> sp
           | Some c \<Rightarrow> snd (increment_spend fails sp tenant (en_credential e) role (int c) tin tout (now div 1000000))))"

text \<open>\<open>TenantScopedLLMProvider.call\<close>; the last component is the entries called.\<close>

definition llm_call ::
  "cstmt set \<Rightarrow> bool \<Rightarrow> backends \<Rightarrow> sdk \<Rightarrow> bool \<Rightarrow> nat \<Rightarrow> string \<Rightarrow> string \<Rightarrow> byok \<Rightarrow> string res \<times> byok \<times> entry list" where
  "llm_call fails mfails bs k store now tenant role b =
     (case resolve fails bs (by_store b) (by_cache b) tenant ForLlm now of
        (Inl e, s, c) \<Rightarrow> (Inl e, b\<lparr>by_store := s, by_cache := c\<rparr>, [])
      | (Inr None, s, c) \<Rightarrow> (sdk_fallback k role, b\<lparr>by_store := s, by_cache := c\<rparr>, [])
      | (Inr (Some x), s, c) \<Rightarrow>
          (let b1 = b\<lparr>by_store := s, by_cache := c\<rparr>;
               role' = apply_cost_ceiling mfails b1 x role tenant now
           in case get_or_build_chain fails bs k store now x role' b1 of
                (Inl e, b2) \<Rightarrow> (Inl e, b2, [])
              | (Inr chain, b2) \<Rightarrow>
                  (case try_chain k role' chain None of
                     (Inl e, called) \<Rightarrow> (Inl e, b2, called)
                   | (Inr (out, en, usage), called) \<Rightarrow>
                       (Inr out, b2\<lparr>by_spend := meter_after_call mfails (by_spend b2) en usage role' tenant now\<rparr>, called))))"

section \<open>Embeddings\<close>

definition embed_entry_for :: "cred \<Rightarrow> embed_entry res" where
  "embed_entry_for c =
     (let e = (\<lambda>base d. \<lparr>ee_key = tc_key c, ee_base_url = base, ee_provider = tc_provider c,
                ee_model = given_or (tc_embed_model c) d\<rparr>)
      in case tc_provider c of
           OpenAI \<Rightarrow> Inr (e (tc_base_url c) ''text-embedding-3-small'')
         | OpenAICompat \<Rightarrow> Inr (e (tc_base_url c) ''text-embedding-3-small'')
         | Gemini \<Rightarrow> Inr (e None ''gemini-embedding-001'')
         | Ollama \<Rightarrow> Inr (e (Some (given_or (tc_base_url c) ''http://localhost:11434/v1'')) ''nomic-embed-text'')
         | Anthropic \<Rightarrow> Inl (ValueError ''does not offer embeddings''))"

definition build_embeddings :: "sdk \<Rightarrow> cred \<Rightarrow> embed_entry res" where
  "build_embeddings k c = bind_res (embed_entry_for c) (\<lambda>e. bind_res (sdk_build_embed k e) (\<lambda>_. Inr e))"

definition embeds_invalidate :: "embed_cache \<Rightarrow> string \<Rightarrow> embed_cache" where
  "embeds_invalidate ec tenant = filter (\<lambda>((t, p), e). t \<noteq> tenant) ec"

interpretation ecache: owned_cache fst embeds_invalidate
  by unfold_locales (auto simp: embeds_invalidate_def intro!: filter_cong)

definition get_or_build_embeddings :: "sdk \<Rightarrow> cred \<Rightarrow> byok \<Rightarrow> embed_entry res \<times> byok" where
  "get_or_build_embeddings k c b =
     (let key = (tc_tenant c, tc_provider c) in
      case dget (by_embeds b) key of
        Some e \<Rightarrow> (Inr e, b\<lparr>by_embeds := touch_key key (by_embeds b)\<rparr>)
      | None \<Rightarrow>
          (case build_embeddings k c of
             Inl x \<Rightarrow> (Inl x, b)
           | Inr e \<Rightarrow> (Inr e, b\<lparr>by_embeds := evict PROVIDER_CACHE_MAX (touch_key key (dput key e (by_embeds b)))\<rparr>)))"

text \<open>\<open>None\<close> is the local fallback, constructed at its first use.\<close>

definition get_fallback :: "sdk \<Rightarrow> byok \<Rightarrow> embed_entry option res \<times> byok" where
  "get_fallback k b =
     (if by_local b then (Inr None, b)
      else (case sdk_local_embed k of
          Inr u \<Rightarrow> (Inr None, b\<lparr>by_local := True\<rparr>)
        | Inl (OtherError m) \<Rightarrow>
            if prefix ''ImportError'' m then (Inl (RuntimeError ''No embedding provider configured''), b)
            else (Inl (OtherError m), b)
        | Inl e \<Rightarrow> (Inl e, b)))"

definition use_embeddings :: "sdk \<Rightarrow> cred \<Rightarrow> byok \<Rightarrow> embed_entry option res \<times> byok" where
  "use_embeddings k c b =
     (case get_or_build_embeddings k c b of
        (Inr e, b') \<Rightarrow> (Inr (Some e), b')
      | (Inl x, b') \<Rightarrow> if skips_fallback x then get_fallback k b' else (Inl x, b'))"

definition resolve_provider ::
  "cstmt set \<Rightarrow> backends \<Rightarrow> sdk \<Rightarrow> nat \<Rightarrow> string \<Rightarrow> byok \<Rightarrow> embed_entry option res \<times> byok" where
  "resolve_provider fails bs k now tenant b =
     (case resolve fails bs (by_store b) (by_cache b) tenant ForEmbedding now of
        (Inl e, s, c) \<Rightarrow> (Inl e, b\<lparr>by_store := s, by_cache := c\<rparr>)
      | (Inr (Some x), s, c) \<Rightarrow> use_embeddings k x (b\<lparr>by_store := s, by_cache := c\<rparr>)
      | (Inr None, s, c) \<Rightarrow>
          (case resolve fails bs s c tenant ForLlm now of
             (Inl e, s, c) \<Rightarrow> (Inl e, b\<lparr>by_store := s, by_cache := c\<rparr>)
           | (Inr None, s, c) \<Rightarrow> get_fallback k (b\<lparr>by_store := s, by_cache := c\<rparr>)
           | (Inr (Some x), s, c) \<Rightarrow>
               if tc_provider x = Anthropic then get_fallback k (b\<lparr>by_store := s, by_cache := c\<rparr>)
               else use_embeddings k x (b\<lparr>by_store := s, by_cache := c\<rparr>)))"

end
