(* ===== verification/CredentialApi.thy ===== *)
theory CredentialApi
  imports TenantProvider Billing
begin

text \<open>
  The handlers of \<open>engramia/api/credentials.py\<close>. A handler answers with the response or an
  error and with the state as it is left. The permission a route requires is checked before
  its handler (\<open>Permissions\<close>); the audit log and the server log are left out.
\<close>

section \<open>State and configuration\<close>

record api =
  as_byok :: byok
  as_models :: model_cache

text \<open>
  What is wired onto the application: whether store and resolver are, the backend that
  encrypts (its id and function), the backends that decrypt, the billing service, whether the
  memory holds the tenant-scoped providers, and HTTP.
\<close>

record wiring =
  wi_byok :: bool
  wi_backend :: "(string \<times> (string \<Rightarrow> provider_type \<Rightarrow> purpose_type \<Rightarrow> string \<Rightarrow> blob res)) option"
  wi_backends :: backends
  wi_bill :: "bill option"
  wi_scoped :: bool
  wi_http :: http

definition BYOK_NOT_ENABLED :: exn where "BYOK_NOT_ENABLED = HttpError 503 ''BYOK_NOT_ENABLED''"
definition CREDENTIAL_NOT_FOUND :: exn where "CREDENTIAL_NOT_FOUND = HttpError 404 ''CREDENTIAL_NOT_FOUND''"

definition with_store :: "cstore \<Rightarrow> api \<Rightarrow> api" where
  "with_store s a = a\<lparr>as_byok := (as_byok a)\<lparr>by_store := s\<rparr>\<rparr>"

definition api_store :: "api \<Rightarrow> cstore" where "api_store a = by_store (as_byok a)"

text \<open>\<open>resolver.invalidate\<close> and \<open>_invalidate_provider_cache\<close>.\<close>

definition drop_resolved :: "string \<Rightarrow> api \<Rightarrow> api" where
  "drop_resolved tenant a = a\<lparr>as_byok := (as_byok a)\<lparr>by_cache := resolver_invalidate (by_cache (as_byok a)) tenant\<rparr>\<rparr>"

definition invalidate_provider_cache :: "wiring \<Rightarrow> string \<Rightarrow> api \<Rightarrow> api" where
  "invalidate_provider_cache w tenant a =
     (if wi_scoped w then a\<lparr>as_byok := (as_byok a)\<lparr>by_chains := chains_invalidate (by_chains (as_byok a)) tenant,
        by_embeds := embeds_invalidate (by_embeds (as_byok a)) tenant\<rparr>\<rparr> else a)"

section \<open>Views\<close>

record public_view =
  pv_id :: string
  pv_provider :: provider_type
  pv_purpose :: purpose_type
  pv_fingerprint :: string
  pv_base_url :: "string option"
  pv_model :: "string option"
  pv_embed_model :: "string option"
  pv_roles :: "(string, string) dict"
  pv_chain :: "string list"
  pv_limits :: "(string, int) dict"
  pv_status :: cred_status
  pv_used :: "nat option"
  pv_validated :: "nat option"
  pv_error :: "string option"
  pv_created :: "nat option"
  pv_updated :: "nat option"

definition to_public_view :: "cred_row \<Rightarrow> public_view" where
  "to_public_view r = \<lparr>pv_id = cr_id r, pv_provider = cr_provider r, pv_purpose = cr_purpose r,
     pv_fingerprint = cr_fingerprint r, pv_base_url = cr_base_url r, pv_model = cr_model r,
     pv_embed_model = cr_embed_model r, pv_roles = cr_roles r, pv_chain = cr_chain r, pv_limits = cr_limits r,
     pv_status = cr_status r, pv_used = cr_used r, pv_validated = cr_validated r, pv_error = cr_error r,
     pv_created = Some (cr_created r), pv_updated = Some (cr_updated r)\<rparr>"

section \<open>Entity tags\<close>

text \<open>\<open>isoformat\<close> of a UTC time in microseconds: the fraction is left out when it is zero.\<close>

definition iso_micro :: "nat \<Rightarrow> string" where
  "iso_micro t = iso (t div 1000000) @ (if t mod 1000000 = 0 then [] else ''.'' @ pad 6 (t mod 1000000)) @ ''+00:00''"

definition etag_from :: "cred_row \<Rightarrow> string" where
  "etag_from r = CHR 0x22 # iso_micro (cr_updated r) @ [CHR 0x22]"

text \<open>
  \<open>datetime.fromisoformat\<close> on such texts. A time without a zone equals no time of the table;
  like a text that does not parse it is read as the epoch.
\<close>

definition parse_micro :: "string \<Rightarrow> int option" where
  "parse_micro s =
     (let b = take (length s - 6) s; z = drop (length s - 6) s in
      if z \<noteq> ''+00:00'' then None
      else if length b = 19 then map_option (\<lambda>t. t * 1000000) (parse_iso b)
      else if length b = 26 \<and> b ! 19 = CHR ''.'' \<and> list_all is_digit (drop 20 b)
      then map_option (\<lambda>t. t * 1000000 + int (num (drop 20 b))) (parse_iso (take 19 b))
      else None)"

definition strip_quotes :: "string \<Rightarrow> string" where
  "strip_quotes s = rev (dropWhile (\<lambda>c. c = CHR 0x22) (rev (dropWhile (\<lambda>c. c = CHR 0x22) s)))"

definition parse_if_match :: "string option \<Rightarrow> int option" where
  "parse_if_match header =
     (case given header of
        None \<Rightarrow> None
      | Some v \<Rightarrow> Some (case parse_micro (strip_quotes (py_strip v)) of None \<Rightarrow> 0 | Some t \<Rightarrow> t))"

definition require_if_match :: "string option \<Rightarrow> cred_row \<Rightarrow> nat res" where
  "require_if_match header row =
     (case parse_if_match header of
        None \<Rightarrow> Inl (HttpError 428 ''PRECONDITION_REQUIRED'')
      | Some t \<Rightarrow> if t \<noteq> int (cr_updated row) then Inl (HttpError 412 ''PRECONDITION_FAILED'') else Inr (nat t))"

section \<open>Creating and replacing\<close>

record create_body =
  cb_provider :: provider_type
  cb_purpose :: purpose_type
  cb_key :: string
  cb_base_url :: "string option"
  cb_model :: "string option"
  cb_embed_model :: "string option"

definition new_cred_of :: "string \<Rightarrow> string \<Rightarrow> string \<Rightarrow> blob \<Rightarrow> string \<Rightarrow> create_body \<Rightarrow> new_cred" where
  "new_cred_of tenant creator backend bl fp body = \<lparr>nc_tenant = tenant, nc_provider = cb_provider body,
     nc_purpose = cb_purpose body, nc_blob = bl, nc_fingerprint = fp, nc_base_url = cb_base_url body,
     nc_model = cb_model body, nc_embed_model = cb_embed_model body, nc_created_by = creator, nc_backend = backend\<rparr>"

definition synthetic_view :: "string \<Rightarrow> string \<Rightarrow> create_body \<Rightarrow> public_view" where
  "synthetic_view cid fp body = \<lparr>pv_id = cid, pv_provider = cb_provider body, pv_purpose = cb_purpose body,
     pv_fingerprint = fp, pv_base_url = cb_base_url body, pv_model = cb_model body, pv_embed_model = cb_embed_model body,
     pv_roles = [], pv_chain = [], pv_limits = [], pv_status = Active, pv_used = None, pv_validated = None,
     pv_error = None, pv_created = None, pv_updated = None\<rparr>"

text \<open>Encrypting and writing the row, after the ping; \<open>cid\<close> is the uuid of a new row.\<close>

definition persist_credential ::
  "cstmt set \<Rightarrow> wiring \<Rightarrow> string \<Rightarrow> string \<Rightarrow> string \<Rightarrow> create_body \<Rightarrow> string \<Rightarrow> nat \<Rightarrow> api \<Rightarrow> public_view res \<times> api" where
  "persist_credential fails w tenant creator cid body fp now a =
     (case wi_backend w of
        None \<Rightarrow> (Inl BYOK_NOT_ENABLED, a)
      | Some (bid, encrypt) \<Rightarrow>
          (case encrypt tenant (cb_provider body) (cb_purpose body) (cb_key body) of
             Inl e \<Rightarrow> (Inl e, a)
           | Inr bl \<Rightarrow>
               (case store_upsert fails (api_store a) cid (new_cred_of tenant creator bid bl fp body) now of
                  Inl e \<Rightarrow> (Inl e, a)
                | Inr (None, s) \<Rightarrow> (Inl (HttpError 503 ''STORAGE_ERROR''), with_store s a)
                | Inr (Some rid, s) \<Rightarrow>
                    (case mark_validated fails s rid None now of
                       Inl e \<Rightarrow> (Inl e, with_store s a)
                     | Inr s' \<Rightarrow>
                         (let a' = drop_resolved tenant (with_store s' a)
                          in (Inr (case get_by_id fails s' tenant rid of
                                None \<Rightarrow> synthetic_view rid fp body | Some r \<Rightarrow> to_public_view r), a'))))))"

definition create_credential ::
  "cstmt set \<Rightarrow> wiring \<Rightarrow> string \<Rightarrow> string \<Rightarrow> string \<Rightarrow> create_body \<Rightarrow> nat \<Rightarrow> api \<Rightarrow> public_view res \<times> api" where
  "create_credential fails w tenant creator cid body now a =
     (if \<not> wi_byok w then (Inl BYOK_NOT_ENABLED, a)
      else (case fingerprint_for (cb_key body) of
          Inl e \<Rightarrow> (Inl e, a)
        | Inr fp \<Rightarrow>
            (case validate (wi_http w) (cb_provider body) (cb_key body) (cb_base_url body) (cb_model body) now (as_models a) of
               (Inl e, c) \<Rightarrow> (Inl e, a\<lparr>as_models := c\<rparr>)
             | (Inr v, c) \<Rightarrow>
                 if \<not> va_success v then (Inl (HttpError 400 ''CREDENTIAL_VALIDATION_FAILED''), a\<lparr>as_models := c\<rparr>)
                 else persist_credential fails w tenant creator cid body fp now (a\<lparr>as_models := c\<rparr>))))"

section \<open>Reading\<close>

definition list_credentials :: "cstmt set \<Rightarrow> wiring \<Rightarrow> string \<Rightarrow> api \<Rightarrow> public_view list res" where
  "list_credentials fails w tenant a =
     (if \<not> wi_byok w then Inl BYOK_NOT_ENABLED else Inr (map to_public_view (list_for_tenant fails (api_store a) tenant)))"

definition get_credential :: "cstmt set \<Rightarrow> wiring \<Rightarrow> string \<Rightarrow> string \<Rightarrow> api \<Rightarrow> public_view res" where
  "get_credential fails w tenant cid a =
     (if \<not> wi_byok w then Inl BYOK_NOT_ENABLED
      else (case get_by_id fails (api_store a) tenant cid of
          None \<Rightarrow> Inl CREDENTIAL_NOT_FOUND | Some r \<Rightarrow> Inr (to_public_view r)))"

section \<open>Updating\<close>

text \<open>The view and the ETag header of the row after an update.\<close>

definition reread :: "cstmt set \<Rightarrow> string \<Rightarrow> string \<Rightarrow> exn \<Rightarrow> api \<Rightarrow> (public_view \<times> string) res" where
  "reread fails tenant cid missing a =
     (case get_by_id fails (api_store a) tenant cid of
        None \<Rightarrow> Inl missing | Some r \<Rightarrow> Inr (to_public_view r, etag_from r))"

definition assertion_error :: exn where "assertion_error = OtherError ''AssertionError''"

definition update_credential ::
  "cstmt set \<Rightarrow> wiring \<Rightarrow> string \<Rightarrow> string \<Rightarrow> string option \<Rightarrow> string option \<Rightarrow> string option \<Rightarrow> nat \<Rightarrow> api
   \<Rightarrow> (public_view \<times> string) res \<times> api" where
  "update_credential fails w tenant cid base model emodel now a =
     (if \<not> wi_byok w then (Inl BYOK_NOT_ENABLED, a)
      else (case store_patch fails (api_store a) tenant cid
              (no_patch\<lparr>pb_base_url := base, pb_model := model, pb_embed_model := emodel\<rparr>) None now of
          Inl e \<Rightarrow> (Inl e, a)
        | Inr (outcome, s) \<Rightarrow>
            (let a1 = with_store s a in
             if outcome \<in> {NotFound, NoDb, EmptyBody} then (reread fails tenant cid CREDENTIAL_NOT_FOUND a1, a1)
             else (let a2 = invalidate_provider_cache w tenant (drop_resolved tenant a1)
                   in (reread fails tenant cid assertion_error a2, a2)))))"

text \<open>The common end of the three conditional updates, from the row as it was read.\<close>

definition conditional_patch ::
  "cstmt set \<Rightarrow> wiring \<Rightarrow> string \<Rightarrow> string \<Rightarrow> string option \<Rightarrow> cred_row \<Rightarrow> patch_body \<Rightarrow> nat \<Rightarrow> api
   \<Rightarrow> (public_view \<times> string) res \<times> api" where
  "conditional_patch fails w tenant cid header existing pb now a =
     (case require_if_match header existing of
        Inl e \<Rightarrow> (Inl e, a)
      | Inr etag \<Rightarrow>
          (case store_patch fails (api_store a) tenant cid pb (Some etag) now of
             Inl e \<Rightarrow> (Inl e, a)
           | Inr (outcome, s) \<Rightarrow>
               (let a1 = with_store s a in
                if outcome = PreconditionFailed then (Inl (HttpError 412 ''PRECONDITION_FAILED''), a1)
                else if outcome = NotFound then (Inl CREDENTIAL_NOT_FOUND, a1)
                else (let a2 = invalidate_provider_cache w tenant (drop_resolved tenant a1)
                      in (reread fails tenant cid assertion_error a2, a2)))))"

text \<open>The subscription the entitlement is read from.\<close>

definition api_subscription :: "wiring \<Rightarrow> stmt set \<Rightarrow> string \<Rightarrow> subscription" where
  "api_subscription w bfails tenant =
     (case wi_bill w of None \<Rightarrow> developer_default tenant | Some b \<Rightarrow> get_subscription bfails b tenant)"

definition entitled :: "wiring \<Rightarrow> stmt set \<Rightarrow> string \<Rightarrow> string \<Rightarrow> bool \<Rightarrow> unit res" where
  "entitled w bfails tenant feature needed =
     (if needed then require_feature (api_subscription w bfails tenant) feature else Inr ())"

definition update_role_models ::
  "cstmt set \<Rightarrow> stmt set \<Rightarrow> wiring \<Rightarrow> string \<Rightarrow> string \<Rightarrow> string option \<Rightarrow> (string, string) dict \<Rightarrow> nat \<Rightarrow> api
   \<Rightarrow> (public_view \<times> string) res \<times> api" where
  "update_role_models fails bfails w tenant cid header roles now a =
     (if \<not> wi_byok w then (Inl BYOK_NOT_ENABLED, a)
      else (case get_by_id fails (api_store a) tenant cid of
          None \<Rightarrow> (Inl CREDENTIAL_NOT_FOUND, a)
        | Some existing \<Rightarrow>
            (case entitled w bfails tenant ''byok.role_models'' (roles \<noteq> []) of
               Inl e \<Rightarrow> (Inl e, a)
             | Inr u \<Rightarrow> conditional_patch fails w tenant cid header existing (no_patch\<lparr>pb_roles := Some roles\<rparr>) now a)))"

definition update_role_cost_limits ::
  "cstmt set \<Rightarrow> stmt set \<Rightarrow> wiring \<Rightarrow> string \<Rightarrow> string \<Rightarrow> string option \<Rightarrow> (string, int) dict \<Rightarrow> nat \<Rightarrow> api
   \<Rightarrow> (public_view \<times> string) res \<times> api" where
  "update_role_cost_limits fails bfails w tenant cid header caps now a =
     (if \<not> wi_byok w then (Inl BYOK_NOT_ENABLED, a)
      else (case get_by_id fails (api_store a) tenant cid of
          None \<Rightarrow> (Inl CREDENTIAL_NOT_FOUND, a)
        | Some existing \<Rightarrow>
            (case entitled w bfails tenant ''byok.role_cost_ceiling'' (caps \<noteq> []) of
               Inl e \<Rightarrow> (Inl e, a)
             | Inr u \<Rightarrow> conditional_patch fails w tenant cid header existing (no_patch\<lparr>pb_limits := Some caps\<rparr>) now a)))"

text \<open>The first problem of a chain's entries, in the order of the chain.\<close>

fun check_chain_entries :: "cstmt set \<Rightarrow> cstore \<Rightarrow> string \<Rightarrow> string list \<Rightarrow> unit res" where
  "check_chain_entries fails s tenant [] = Inr ()"
| "check_chain_entries fails s tenant (i # ids) =
     (case get_by_id fails s tenant i of
        None \<Rightarrow> Inl (HttpError 422 ''FAILOVER_CHAIN_INVALID'')
      | Some r \<Rightarrow>
          if cr_status r \<noteq> Active then Inl (HttpError 422 ''FAILOVER_CHAIN_INVALID'')
          else check_chain_entries fails s tenant ids)"

definition update_failover_chain ::
  "cstmt set \<Rightarrow> stmt set \<Rightarrow> wiring \<Rightarrow> string \<Rightarrow> string \<Rightarrow> string option \<Rightarrow> string list \<Rightarrow> nat \<Rightarrow> api
   \<Rightarrow> (public_view \<times> string) res \<times> api" where
  "update_failover_chain fails bfails w tenant cid header ids now a =
     (if \<not> wi_byok w then (Inl BYOK_NOT_ENABLED, a)
      else (case get_by_id fails (api_store a) tenant cid of
          None \<Rightarrow> (Inl CREDENTIAL_NOT_FOUND, a)
        | Some existing \<Rightarrow>
            if cid \<in> set ids then (Inl (HttpError 422 ''FAILOVER_CHAIN_INVALID''), a)
            else (case check_chain_entries fails (api_store a) tenant ids of
                Inl e \<Rightarrow> (Inl e, a)
              | Inr u \<Rightarrow>
                  (case entitled w bfails tenant ''byok.failover_chain'' (ids \<noteq> []) of
                     Inl e \<Rightarrow> (Inl e, a)
                   | Inr u \<Rightarrow> conditional_patch fails w tenant cid header existing (no_patch\<lparr>pb_chain := Some ids\<rparr>) now a))))"

section \<open>Revoking and revalidating\<close>

definition revoke_credential :: "cstmt set \<Rightarrow> wiring \<Rightarrow> string \<Rightarrow> string \<Rightarrow> nat \<Rightarrow> api \<Rightarrow> unit res \<times> api" where
  "revoke_credential fails w tenant cid now a =
     (if \<not> wi_byok w then (Inl BYOK_NOT_ENABLED, a)
      else (case store_revoke fails (api_store a) tenant cid now of
          Inl e \<Rightarrow> (Inl e, a)
        | Inr (done, s) \<Rightarrow>
            if \<not> done then (Inl CREDENTIAL_NOT_FOUND, with_store s a)
            else (Inr (), drop_resolved tenant (with_store s a))))"

definition refreshed_view :: "cstmt set \<Rightarrow> string \<Rightarrow> string \<Rightarrow> api \<Rightarrow> public_view res" where
  "refreshed_view fails tenant cid a =
     (case get_by_id fails (api_store a) tenant cid of None \<Rightarrow> Inl assertion_error | Some r \<Rightarrow> Inr (to_public_view r))"

text \<open>Marking the row invalid and answering with an error.\<close>

definition invalid_answer :: "cstmt set \<Rightarrow> string \<Rightarrow> string \<Rightarrow> nat \<Rightarrow> exn \<Rightarrow> api \<Rightarrow> 'v res \<times> api" where
  "invalid_answer fails cid err now e a =
     (case mark_invalid fails (api_store a) cid err now of Inl x \<Rightarrow> (Inl x, a) | Inr s \<Rightarrow> (Inl e, with_store s a))"

definition reactivation :: "cred_row \<Rightarrow> new_cred" where
  "reactivation r = \<lparr>nc_tenant = cr_tenant r, nc_provider = cr_provider r, nc_purpose = cr_purpose r, nc_blob = cr_blob r,
     nc_fingerprint = cr_fingerprint r, nc_base_url = cr_base_url r, nc_model = cr_model r,
     nc_embed_model = cr_embed_model r, nc_created_by = ''system_revalidate'', nc_backend = cr_backend r\<rparr>"

text \<open>What a ping's verdict does to the row.\<close>

definition record_verdict ::
  "cstmt set \<Rightarrow> string \<Rightarrow> string \<Rightarrow> string \<Rightarrow> cred_row \<Rightarrow> validation \<Rightarrow> nat \<Rightarrow> api \<Rightarrow> unit res \<times> api" where
  "record_verdict fails tenant cid uuid row v now a =
     (if va_success v then
        (case mark_validated fails (api_store a) cid None now of
           Inl e \<Rightarrow> (Inl e, a)
         | Inr s \<Rightarrow>
             if cr_status row = Active then (Inr (), with_store s a)
             else (case store_upsert fails s uuid (reactivation row) now of
                 Inl e \<Rightarrow> (Inl e, with_store s a)
               | Inr (r, s') \<Rightarrow> (Inr (), drop_resolved tenant (with_store s' a))))
      else
        (case mark_invalid fails (api_store a) cid (given_or (va_error v) ''Validation failed'') now of
           Inl e \<Rightarrow> (Inl e, a) | Inr s \<Rightarrow> (Inr (), with_store s a)))"

definition validate_existing_credential ::
  "cstmt set \<Rightarrow> wiring \<Rightarrow> string \<Rightarrow> string \<Rightarrow> string \<Rightarrow> nat \<Rightarrow> api \<Rightarrow> public_view res \<times> api" where
  "validate_existing_credential fails w tenant cid uuid now a =
     (if \<not> wi_byok w \<or> wi_backend w = None then (Inl BYOK_NOT_ENABLED, a)
      else (case get_by_id fails (api_store a) tenant cid of
          None \<Rightarrow> (Inl CREDENTIAL_NOT_FOUND, a)
        | Some row \<Rightarrow>
            (case dget (wi_backends w) (cr_backend row) of
               None \<Rightarrow> invalid_answer fails cid ''Backend not configured'' now (HttpError 500 ''INTERNAL_ERROR'') a
             | Some f \<Rightarrow>
                 (case f (cr_tenant row) (cr_provider row) (cr_purpose row) (cr_blob row) of
                    Plain key \<Rightarrow>
                      (case validate (wi_http w) (cr_provider row) key (cr_base_url row) (cr_model row) now (as_models a) of
                         (Inl e, c) \<Rightarrow> (Inl e, a\<lparr>as_models := c\<rparr>)
                       | (Inr v, c) \<Rightarrow>
                           (case record_verdict fails tenant cid uuid row v now (a\<lparr>as_models := c\<rparr>) of
                              (Inl e, a') \<Rightarrow> (Inl e, a')
                            | (Inr u, a') \<Rightarrow> (refreshed_view fails tenant cid a', a')))
                  | _ \<Rightarrow> invalid_answer fails cid ''Decryption failed'' now (HttpError 500 ''INTERNAL_ERROR'') a))))"

section \<open>Ollama models\<close>

definition fetch_models :: "wiring \<Rightarrow> string \<Rightarrow> nat \<Rightarrow> model_cache \<Rightarrow> (ollama_model list \<times> bool) res \<times> model_cache" where
  "fetch_models w base now c =
     (case list_models (wi_http w) base of
        Inl (ListRaises e) \<Rightarrow> (Inl e, c)
      | Inl e \<Rightarrow> (Inl (HttpError 502 ''PROVIDER_NOT_CONFIGURED''), c)
      | Inr ms \<Rightarrow> (Inr (ms, False), models_put c base ms now))"

text \<open>The models and whether they come from the cache.\<close>

definition list_credential_models ::
  "cstmt set \<Rightarrow> wiring \<Rightarrow> string \<Rightarrow> string \<Rightarrow> bool \<Rightarrow> nat \<Rightarrow> api \<Rightarrow> (ollama_model list \<times> bool) res \<times> api" where
  "list_credential_models fails w tenant cid force now a =
     (if \<not> wi_byok w then (Inl BYOK_NOT_ENABLED, a)
      else (case get_by_id fails (api_store a) tenant cid of
          None \<Rightarrow> (Inl CREDENTIAL_NOT_FOUND, a)
        | Some row \<Rightarrow>
            if cr_provider row \<noteq> Ollama then (Inl (HttpError 400 ''VALIDATION_ERROR''), a)
            else (case given (cr_base_url row) of
                None \<Rightarrow> (Inl (HttpError 400 ''VALIDATION_ERROR''), a)
              | Some base \<Rightarrow>
                  (let (hit, c) = (if force then (None, as_models a) else models_get (as_models a) base now)
                   in case hit of
                        Some ms \<Rightarrow> (Inr (ms, True), a\<lparr>as_models := c\<rparr>)
                      | None \<Rightarrow> (let (r, c') = fetch_models w base now c in (r, a\<lparr>as_models := c'\<rparr>))))))"

end
