(* ===== verification/CredentialTable.thy ===== *)
theory CredentialTable
  imports CredentialApi
begin

text \<open>
  The well-formedness of the credential table: what the validators of the request bodies
  establish and every table operation keeps.
\<close>

section \<open>Validated bodies\<close>

definition roles_ok :: "(string, string) dict \<Rightarrow> bool" where
  "roles_ok d \<longleftrightarrow> wf_dict d \<and> length d \<le> ROLE_MODELS_MAX_ENTRIES \<and>
     (\<forall>(role, model) \<in> set d. role_name_ok role \<and> model_name_ok model)"

definition limits_ok :: "(string, int) dict \<Rightarrow> bool" where
  "limits_ok d \<longleftrightarrow> wf_dict d \<and> length d \<le> ROLE_MODELS_MAX_ENTRIES \<and>
     (\<forall>(role, cents) \<in> set d. role_name_ok role \<and> 0 < cents \<and> cents \<le> ROLE_COST_LIMIT_MAX_CENTS)"

definition chain_ok :: "string list \<Rightarrow> bool" where
  "chain_ok ids \<longleftrightarrow> length ids \<le> FAILOVER_CHAIN_MAX_LEN \<and> distinct ids \<and> (\<forall>i \<in> set ids. cred_id_ok i)"

lemma length_dput: "length (dput k v d) \<le> Suc (length d)"
  by (induction d) auto

lemma role_models_loop_ok:
  assumes "role_models_loop kvs out = Inr d" and "wf_dict out" and "entries (\<lambda>r m. role_name_ok r \<and> model_name_ok m) out"
  shows "wf_dict d \<and> length d \<le> length kvs + length out \<and> entries (\<lambda>r m. role_name_ok r \<and> model_name_ok m) d"
  using assms
proof (induction kvs out rule: role_models_loop.induct)
  case (2 raw v kvs out)
  then obtain m where v: "v = JStr m" "role_name_ok (py_lower raw)" "model_name_ok m"
    "role_models_loop kvs (dput (py_lower raw) m out) = Inr d"
    by (auto split: json.splits if_splits)
  from "2.IH" [OF v(1) _ _ v(4)] v(2,3) "2.prems" length_dput [of "py_lower raw" m out]
  show ?case by (auto simp: entries_dput)
qed auto

lemma role_models_update_ok: "role_models_update j = Inr d \<Longrightarrow> roles_ok d"
  by (auto simp: role_models_update_def roles_ok_def entries_def not_less split: json.splits if_splits
      dest!: role_models_loop_ok intro: le_trans)

lemma cost_limits_loop_ok:
  assumes "cost_limits_loop kvs out = Inr d" and "wf_dict out"
    and "entries (\<lambda>r c. role_name_ok r \<and> 0 < c \<and> c \<le> ROLE_COST_LIMIT_MAX_CENTS) out"
  shows "wf_dict d \<and> length d \<le> length kvs + length out \<and>
    entries (\<lambda>r c. role_name_ok r \<and> 0 < c \<and> c \<le> ROLE_COST_LIMIT_MAX_CENTS) d"
  using assms
proof (induction kvs out rule: cost_limits_loop.induct)
  case (2 raw v kvs out)
  then obtain c where v: "role_name_ok (py_lower raw)" "v = JInt c" "0 < c" "c \<le> ROLE_COST_LIMIT_MAX_CENTS"
    "cost_limits_loop kvs (dput (py_lower raw) c out) = Inr d"
    by (auto split: json.splits if_splits)
  from "2.IH" [OF _ v(2) _ _ v(5)] v(1-4) "2.prems" length_dput [of "py_lower raw" c out]
  show ?case by (auto simp: entries_dput)
qed auto

lemma role_cost_limits_update_ok: "role_cost_limits_update j = Inr d \<Longrightarrow> limits_ok d"
  by (auto simp: role_cost_limits_update_def limits_ok_def entries_def not_less split: json.splits if_splits
      dest!: cost_limits_loop_ok intro: le_trans)

lemma chain_loop_ok:
  assumes "chain_loop vs out = Inr ids" and "distinct out" and "\<forall>i \<in> set out. cred_id_ok i"
  shows "distinct ids \<and> length ids = length vs + length out \<and> (\<forall>i \<in> set ids. cred_id_ok i)"
  using assms
proof (induction vs out rule: chain_loop.induct)
  case (2 v vs out)
  then obtain s where v: "v = JStr s" "cred_id_ok s" "s \<notin> set out" "chain_loop vs (out @ [s]) = Inr ids"
    by (auto split: json.splits if_splits)
  from "2.IH" [OF v(1) _ v(3) v(4)] v(2,3) "2.prems" show ?case by auto
qed auto

lemma failover_chain_update_ok: "failover_chain_update j = Inr ids \<Longrightarrow> chain_ok ids"
  using chain_loop_ok [of _ "[]" ids]
  by (auto simp: failover_chain_update_def chain_ok_def split: json.splits if_splits)

section \<open>The table\<close>

definition slot :: "cred_row \<Rightarrow> string \<times> provider_type \<times> purpose_type" where
  "slot r = (cr_tenant r, cr_provider r, cr_purpose r)"

definition row_ok :: "cred_row list \<Rightarrow> cred_row \<Rightarrow> bool" where
  "row_ok rows r \<longleftrightarrow> trim (cr_tenant r) = cr_tenant r \<and> roles_ok (cr_roles r) \<and> limits_ok (cr_limits r) \<and>
     chain_ok (cr_chain r) \<and> cr_id r \<notin> set (cr_chain r) \<and>
     (\<forall>i \<in> set (cr_chain r). \<exists>f \<in> set rows. cr_id f = i \<and> cr_tenant f = cr_tenant r)"

definition table_ok :: "cred_row list \<Rightarrow> bool" where
  "table_ok rows \<longleftrightarrow> distinct (map cr_id rows) \<and> distinct (map slot rows) \<and> (\<forall>r \<in> set rows. row_ok rows r)"

text \<open>The columns the invariant reads.\<close>

definition frame :: "cred_row \<Rightarrow> string \<times> (string \<times> provider_type \<times> purpose_type) \<times> (string, string) dict \<times>
    (string, int) dict \<times> string list" where
  "frame r = (cr_id r, slot r, cr_roles r, cr_limits r, cr_chain r)"

lemma table_ok_frame:
  assumes e: "map frame rows' = map frame rows" and ok: "table_ok rows"
  shows "table_ok rows'"
proof -
  have "map cr_id rows' = map cr_id rows" using arg_cong [OF e, of "map fst"] by (simp add: frame_def comp_def)
  moreover have "map slot rows' = map slot rows"
    using arg_cong [OF e, of "map (fst \<circ> snd)"] by (simp add: frame_def comp_def)
  moreover have "row_ok rows' r'" if r': "r' \<in> set rows'" for r'
  proof -
    have sets: "frame ` set rows' = frame ` set rows" using arg_cong [OF e, of set] by simp
    have "frame r' \<in> frame ` set rows" using r' by (simp add: sets [symmetric])
    then obtain r where r: "r \<in> set rows" "frame r = frame r'" by auto
    have same: "\<exists>g \<in> set rows'. cr_id g = cr_id f \<and> cr_tenant g = cr_tenant f" if "f \<in> set rows" for f
    proof -
      have "frame f \<in> frame ` set rows'" using that by (simp add: sets)
      then obtain g where "g \<in> set rows'" "frame g = frame f" by auto
      then show ?thesis by (auto simp: frame_def slot_def)
    qed
    have "row_ok rows r" using ok r(1) by (simp add: table_ok_def)
    moreover have "\<exists>g \<in> set rows'. cr_id g = i \<and> cr_tenant g = t" if "\<exists>f \<in> set rows. cr_id f = i \<and> cr_tenant f = t" for i t
      using that same by blast
    moreover have "cr_id r' = cr_id r" "cr_tenant r' = cr_tenant r" "cr_roles r' = cr_roles r"
      "cr_limits r' = cr_limits r" "cr_chain r' = cr_chain r" using r(2) by (auto simp: frame_def slot_def)
    ultimately show ?thesis by (auto simp: row_ok_def)
  qed
  ultimately show ?thesis using ok by (simp add: table_ok_def)
qed

lemma row_ok_mono: "row_ok rows r \<Longrightarrow> set rows \<subseteq> set rows' \<Longrightarrow> row_ok rows' r"
  by (fastforce simp: row_ok_def)

lemma table_ok_insert:
  assumes ok: "table_ok (cs_rows s)" and fresh: "cid \<notin> cr_id ` set (cs_rows s)" and new: "filter (same_slot n) (cs_rows s) = []"
    and t: "trim (nc_tenant n) = nc_tenant n"
  shows "table_ok (cs_rows s @ [inserted_cred cid n now])"
proof -
  have "slot (inserted_cred cid n now) \<notin> slot ` set (cs_rows s)"
    using new by (auto simp: filter_empty_conv same_slot_def slot_def inserted_cred_def)
  moreover have "row_ok rows (inserted_cred cid n now)" for rows
    using t by (simp add: row_ok_def inserted_cred_def roles_ok_def limits_ok_def chain_ok_def)
  moreover have "cr_id (inserted_cred cid n now) = cid" by (simp add: inserted_cred_def)
  moreover have "row_ok (cs_rows s @ [inserted_cred cid n now]) r" if "r \<in> set (cs_rows s)" for r
    by (rule row_ok_mono [of "cs_rows s"]) (use ok that in \<open>auto simp: table_ok_def\<close>)
  ultimately show ?thesis using ok fresh by (auto simp: table_ok_def)
qed

lemma table_ok_upsert:
  assumes "store_upsert fails s cid n now = Inr (r, s')" and "table_ok (cs_rows s)"
    and "cid \<notin> cr_id ` set (cs_rows s) \<or> filter (same_slot n) (cs_rows s) \<noteq> []" and "trim (nc_tenant n) = nc_tenant n"
  shows "table_ok (cs_rows s')"
proof -
  have "map frame (map (\<lambda>r. if same_slot n r then overwrite_row n now r else r) (cs_rows s)) = map frame (cs_rows s)"
    by (simp add: frame_def slot_def overwrite_row_def)
  from table_ok_frame [OF this assms(2)] show ?thesis
    using assms(1,2,3) table_ok_insert [OF assms(2) _ _ assms(4), of cid now]
    by (auto simp: store_upsert_def update_rows_def split: if_splits list.splits)
qed

definition patch_ok :: "cred_row list \<Rightarrow> string \<Rightarrow> string \<Rightarrow> patch_body \<Rightarrow> bool" where
  "patch_ok rows tenant cid pb \<longleftrightarrow>
     (\<forall>d. pb_roles pb = Some d \<longrightarrow> roles_ok d) \<and> (\<forall>d. pb_limits pb = Some d \<longrightarrow> limits_ok d) \<and>
     (\<forall>ids. pb_chain pb = Some ids \<longrightarrow> chain_ok ids \<and> cid \<notin> set ids \<and>
        (\<forall>i \<in> set ids. \<exists>f \<in> set rows. cr_id f = i \<and> cr_tenant f = tenant))"

lemma table_ok_patch:
  assumes "store_patch fails s tenant cid pb etag now = Inr (out, s')" and ok: "table_ok (cs_rows s)"
    and pb: "patch_ok (cs_rows s) tenant cid pb"
  shows "table_ok (cs_rows s')"
proof -
  define P where "P r \<longleftrightarrow> cr_id r = cid \<and> cr_tenant r = tenant \<and> (case etag of None \<Rightarrow> True | Some e \<Rightarrow> cr_updated r = e)" for r :: cred_row
  let ?f = "\<lambda>r::cred_row. if P r then patch_row pb now r else r"
  have "s' = s \<or> cs_rows s' = map ?f (cs_rows s)"
    using assms(1) by (auto simp: store_patch_def Let_def update_rows_def P_def split: if_splits prod.splits)
  moreover have "table_ok (map ?f (cs_rows s))"
  proof -
    have i: "cr_id (?f r) = cr_id r" "slot (?f r) = slot r" "cr_tenant (?f r) = cr_tenant r" for r :: cred_row
      by (simp_all add: patch_row_def slot_def)
    have "row_ok (map ?f (cs_rows s)) (?f r)" if r: "r \<in> set (cs_rows s)" for r
    proof -
      have "row_ok (cs_rows s) r" using ok r by (simp add: table_ok_def)
      then have "row_ok (cs_rows s) (?f r)"
        using pb by (auto simp: row_ok_def patch_ok_def patch_row_def P_def split: option.splits)
      moreover have "(\<exists>f \<in> set (map ?f (cs_rows s)). cr_id f = j \<and> cr_tenant f = t) =
          (\<exists>f \<in> set (cs_rows s). cr_id f = j \<and> cr_tenant f = t)" for j t
        by (simp only: set_map bex_simps i)
      ultimately show ?thesis unfolding row_ok_def by blast
    qed
    then have "\<forall>r \<in> set (map ?f (cs_rows s)). row_ok (map ?f (cs_rows s)) r" by (simp only: set_map ball_simps) simp
    moreover have "distinct (map cr_id (map ?f (cs_rows s)))" "distinct (map slot (map ?f (cs_rows s)))"
      using ok i by (simp_all add: table_ok_def comp_def)
    ultimately show ?thesis unfolding table_ok_def by blast
  qed
  ultimately show ?thesis using ok by auto
qed

end
