(* ===== verification/CredentialSafety.thy ===== *)
theory CredentialSafety
  imports CredentialTable
begin

text \<open>
  The credential system as a step relation: any interleaving of the handlers and of the
  providers' calls, for any tenants, with any statement failing. Two invariants: whose keys
  the caches hold, and the well-formedness of the table.
\<close>

section \<open>What bookkeeping leaves alone\<close>

text \<open>A row without the columns that statuses, timestamps and plain patches change.\<close>

definition skeleton :: "cred_row \<Rightarrow> cred_row" where
  "skeleton r = r\<lparr>cr_fingerprint := [], cr_base_url := None, cr_model := None, cr_embed_model := None, cr_status := Active,
     cr_used := None, cr_validated := None, cr_error := None, cr_created_by := [], cr_updated := 0\<rparr>"

definition skeletons :: "cstore \<Rightarrow> cred_row list" where
  "skeletons s = map skeleton (cs_rows s)"

lemma skeletons_update_rows: "update_rows P f s = (n, s') \<Longrightarrow> (\<And>r. skeleton (f r) = skeleton r) \<Longrightarrow> skeletons s' = skeletons s"
  by (auto simp: skeletons_def update_rows_def)

lemma skeletons_update_rows_snd: "(\<And>r. skeleton (f r) = skeleton r) \<Longrightarrow> skeletons (snd (update_rows P f s)) = skeletons s"
  by (rule skeletons_update_rows [OF prod.collapse [symmetric]])

lemma skeletons_mark_invalid: "mark_invalid fails s i e now = Inr s' \<Longrightarrow> skeletons s' = skeletons s"
  by (auto simp: mark_invalid_def skeleton_def skeletons_update_rows_snd split: if_splits)

lemma skeletons_touch [simp]: "skeletons (touch_last_used fails s i now) = skeletons s"
  by (simp add: touch_last_used_def skeleton_def skeletons_update_rows_snd)

lemma skeletons_mark_validated: "mark_validated fails s i e now = Inr s' \<Longrightarrow> skeletons s' = skeletons s"
  by (auto simp: mark_validated_def skeleton_def skeletons_update_rows_snd split: if_splits)

lemma skeletons_revoke: "store_revoke fails s t i now = Inr (b, s') \<Longrightarrow> skeletons s' = skeletons s"
  by (auto simp: store_revoke_def skeleton_def split: if_splits prod.splits elim!: skeletons_update_rows)

section \<open>Ownership\<close>

text \<open>What a ciphertext is bound to, and the keys the ciphertexts of a tenant hold.\<close>

type_synonym origin = "string \<times> provider_type \<times> purpose_type \<times> blob \<times> string"

definition origin :: "cred_row \<Rightarrow> origin" where
  "origin r = (cr_tenant r, cr_provider r, cr_purpose r, cr_blob r, cr_backend r)"

definition origins :: "cstore \<Rightarrow> origin set" where
  "origins s = origin ` set (cs_rows s)"

lemma origin_skeleton [simp]: "origin (skeleton r) = origin r"
  by (simp add: origin_def skeleton_def)

lemma origins_skeletons: "origins s = origin ` set (skeletons s)"
  by (simp add: origins_def skeletons_def image_image)

definition decrypt_origin :: "backends \<Rightarrow> origin \<Rightarrow> dec_out" where
  "decrypt_origin bs = (\<lambda>(t, p, u, bl, be). case dget bs be of None \<Rightarrow> DecryptionError | Some f \<Rightarrow> f t p u bl)"

lemma decrypt_row_origin: "decrypt_row bs r = decrypt_origin bs (origin r)"
  by (simp add: decrypt_row_def decrypt_origin_def origin_def)

definition secrets :: "backends \<Rightarrow> origin set \<Rightarrow> string \<Rightarrow> string set" where
  "secrets bs H t = {trim key | key or. or \<in> H \<and> fst or = t \<and> decrypt_origin bs or = Plain key}"

lemma secrets_mono: "H \<subseteq> H' \<Longrightarrow> secrets bs H t \<subseteq> secrets bs H' t"
  unfolding secrets_def by blast

definition owned_cred :: "backends \<Rightarrow> origin set \<Rightarrow> string \<Rightarrow> cred \<Rightarrow> bool" where
  "owned_cred bs H t c \<longleftrightarrow> tc_tenant c = t \<and> tc_key c \<in> secrets bs H t"

lemma owned_row:
  assumes "r \<in> set (cs_rows s)" and "origins s \<subseteq> H" and "\<forall>or \<in> H. trim (fst or) = fst or"
    and "decrypt_row bs r = Plain key"
  shows "owned_cred bs H (cr_tenant r) (row_to_cred r key)"
proof -
  have o: "origin r \<in> H" using assms(1,2) by (auto simp: origins_def)
  then have "trim (cr_tenant r) = cr_tenant r" using assms(3) by (force simp: origin_def)
  moreover have "trim key \<in> secrets bs H (cr_tenant r)"
    using o assms(4) unfolding secrets_def decrypt_row_origin by (force simp: origin_def)
  ultimately show ?thesis by (simp add: owned_cred_def row_to_cred_def)
qed

text \<open>The store and the three caches hold nothing but what H says belongs to the tenant of the entry.\<close>

definition trimmed_tenants :: "origin set \<Rightarrow> bool" where
  "trimmed_tenants H \<longleftrightarrow> (\<forall>or \<in> H. trim (fst or) = fst or)"

definition owned :: "backends \<Rightarrow> origin set \<Rightarrow> byok \<Rightarrow> bool" where
  "owned bs H b \<longleftrightarrow> origins (by_store b) \<subseteq> H \<and> trimmed_tenants H \<and>
     entries (\<lambda>(t, u) (exp, c). owned_cred bs H t c) (by_cache b) \<and>
     entries (\<lambda>(t, p, role) ch. \<forall>e \<in> set ch. en_key e \<in> secrets bs H t) (by_chains b) \<and>
     entries (\<lambda>(t, p) e. ee_key e \<in> secrets bs H t) (by_embeds b)"

lemma owned_cred_mono: "owned_cred bs H t c \<Longrightarrow> H \<subseteq> H' \<Longrightarrow> owned_cred bs H' t c"
  using secrets_mono [of H H' bs t] by (auto simp: owned_cred_def)

lemma owned_mono:
  assumes "owned bs H b" and "H \<subseteq> H'" and "trimmed_tenants H'"
  shows "owned bs H' b"
proof -
  have m: "k \<in> secrets bs H' t" if "k \<in> secrets bs H t" for k t using secrets_mono [OF assms(2)] that by blast
  have "entries (\<lambda>(t, u) (exp, c). owned_cred bs H' t c) (by_cache b)"
    by (rule entries_mono [of "\<lambda>(t, u) (exp, c). owned_cred bs H t c"])
      (use assms in \<open>auto simp: owned_def dest: owned_cred_mono\<close>)
  moreover have "entries (\<lambda>(t, p, role) ch. \<forall>e \<in> set ch. en_key e \<in> secrets bs H' t) (by_chains b)"
    by (rule entries_mono [of "\<lambda>(t, p, role) ch. \<forall>e \<in> set ch. en_key e \<in> secrets bs H t"])
      (use assms m in \<open>auto simp: owned_def\<close>)
  moreover have "entries (\<lambda>(t, p) e. ee_key e \<in> secrets bs H' t) (by_embeds b)"
    by (rule entries_mono [of "\<lambda>(t, p) e. ee_key e \<in> secrets bs H t"]) (use assms m in \<open>auto simp: owned_def\<close>)
  ultimately show ?thesis using assms by (auto simp: owned_def)
qed

lemma resolve_owned:
  assumes "resolve fails bs s c t u now = (r, s', c')" and "origins s \<subseteq> H" and "trimmed_tenants H"
    and "entries (\<lambda>(t, u) (exp, c). owned_cred bs H t c) c"
  shows "skeletons s' = skeletons s" and "entries (\<lambda>(t, u) (exp, c). owned_cred bs H t c) c'"
    and "r = Inr (Some x) \<Longrightarrow> owned_cred bs H t x"
proof -
  have hit: "owned_cred bs H t x" if "cache_get c t u now = (Some x, c1)" for x c1
    using cache_get_SomeD [OF that] entriesD [OF assms(4)] by fastforce
  have row: "r0 \<in> set (cs_rows s) \<and> cr_tenant r0 = t" if "get_active_for_purpose fails s t u = Some r0" for r0
    using that by (auto simp: get_active_for_purpose_def first_row_def sort_desc_def split: if_splits list.splits
        dest!: arg_cong [where f = set])
  have fresh: "owned_cred bs H t (row_to_cred r0 key)"
    if "get_active_for_purpose fails s t u = Some r0" "decrypt_row bs r0 = Plain key" for r0 key
    using owned_row [OF _ assms(2) _ that(2)] row [OF that(1)] assms(3) by (auto simp: trimmed_tenants_def)
  show "skeletons s' = skeletons s"
    using assms(1) by (auto simp: resolve_def Let_def split: if_splits prod.splits option.splits dec_out.splits sum.splits
        dest: skeletons_mark_invalid)
  show "entries (\<lambda>(t, u) (exp, c). owned_cred bs H t c) c'"
    using assms(1,4) fresh by (auto simp: resolve_def Let_def split: if_splits prod.splits option.splits dec_out.splits sum.splits
        dest: entries_cache_get intro!: entries_cache_put)
  show "owned_cred bs H t x" if "r = Inr (Some x)"
    using assms(1) that hit fresh by (auto simp: resolve_def Let_def split: if_splits prod.splits option.splits dec_out.splits sum.splits)
qed

lemma resolve_by_id_owned:
  assumes "resolve_by_id fails bs s t i now = (r, s')" and "origins s \<subseteq> H" and "trimmed_tenants H"
  shows "skeletons s' = skeletons s" and "r = Inr (Some x) \<Longrightarrow> owned_cred bs H t x"
proof -
  have row: "r0 \<in> set (cs_rows s) \<and> cr_tenant r0 = t" if "get_by_id fails s t i = Some r0" for r0
    using that by (auto simp: get_by_id_def first_row_def split: if_splits list.splits dest!: arg_cong [where f = set])
  show "skeletons s' = skeletons s"
    using assms(1) by (auto simp: resolve_by_id_def split: if_splits option.splits dec_out.splits sum.splits
        dest: skeletons_mark_invalid)
  show "owned_cred bs H t x" if x: "r = Inr (Some x)"
  proof -
    obtain r0 key where r0: "get_by_id fails s t i = Some r0" "decrypt_row bs r0 = Plain key" "x = row_to_cred r0 key"
      using assms(1) x by (auto simp: resolve_by_id_def split: if_splits option.splits dec_out.splits sum.splits)
    show ?thesis using owned_row [OF _ assms(2) _ r0(2)] row [OF r0(1)] assms(3) r0(3) by (auto simp: trimmed_tenants_def)
  qed
qed

lemma build_one_key: "build_one k c role = Inr e \<Longrightarrow> en_key e = tc_key c"
  by (auto simp: build_one_def Let_def entry_for_def res_simps)

lemma build_fallbacks_owned:
  assumes "build_fallbacks fails bs k now t role ids seen chain s = (r, s')" and "origins s \<subseteq> H" and "trimmed_tenants H"
    and "\<forall>e \<in> set chain. en_key e \<in> secrets bs H t"
  shows "skeletons s' = skeletons s \<and> (\<forall>ch. r = Inr ch \<longrightarrow> (\<forall>e \<in> set ch. en_key e \<in> secrets bs H t))"
  using assms
proof (induction ids arbitrary: seen chain s)
  case (Cons i ids)
  show ?case
  proof (cases "i \<in> set seen")
    case True
    then show ?thesis using Cons.IH [of seen chain s] Cons.prems by simp
  next
    case False
    obtain q s1 where q: "resolve_by_id fails bs s t i now = (q, s1)" by (cases "resolve_by_id fails bs s t i now")
    note ow = resolve_by_id_owned [OF q Cons.prems(2,3)]
    have o1: "origins s1 \<subseteq> H" using ow(1) Cons.prems(2) by (simp add: origins_skeletons)
    note IH = Cons.IH [OF _ o1 Cons.prems(3)]
    show ?thesis
    proof (cases "\<exists>c e. q = Inr (Some c) \<and> tc_status c = Active \<and> build_one k c role = Inr e")
      case True
      then obtain c e where c: "q = Inr (Some c)" "tc_status c = Active" "build_one k c role = Inr e" by blast
      have "build_fallbacks fails bs k now t role ids (i # seen) (chain @ [e]) s1 = (r, s')"
        using Cons.prems(1) False q c by simp
      moreover have "\<forall>e' \<in> set (chain @ [e]). en_key e' \<in> secrets bs H t"
        using Cons.prems(4) ow(2) c build_one_key [OF c(3)] by (auto simp: owned_cred_def)
      ultimately show ?thesis using IH ow(1) by metis
    next
      case no: False
      have "build_fallbacks fails bs k now t role ids (i # seen) chain s1 = (r, s') \<or> (s' = s1 \<and> (\<exists>x. r = Inl x))"
        using Cons.prems(1) False q no by (auto split: sum.splits option.splits if_splits)
      then show ?thesis using IH [of "i # seen" chain] Cons.prems(4) ow(1) by auto
    qed
  qed
qed auto

lemma build_chain_owned:
  assumes "build_chain fails bs k store now c role s = (r, s')" and "origins s \<subseteq> H" and "trimmed_tenants H"
    and "owned_cred bs H t c"
  shows "skeletons s' = skeletons s \<and> (\<forall>ch. r = Inr ch \<longrightarrow> (\<forall>e \<in> set ch. en_key e \<in> secrets bs H t))"
proof (cases "build_one k c role")
  case (Inl x)
  then show ?thesis using assms(1) by (auto simp: build_chain_def)
next
  case (Inr e)
  have e: "\<forall>e' \<in> set [e]. en_key e' \<in> secrets bs H t" and t: "tc_tenant c = t"
    using assms(4) build_one_key [OF Inr] by (auto simp: owned_cred_def)
  show ?thesis
  proof (cases "tc_chain c = [] \<or> \<not> store")
    case True
    then show ?thesis using assms(1) Inr e by (auto simp: build_chain_def)
  next
    case False
    then show ?thesis using build_fallbacks_owned [OF _ assms(2,3) e, of fails k now role] assms(1) Inr t
      by (auto simp: build_chain_def)
  qed
qed

lemma owned_caches:
  assumes "owned bs H b" and "origins s \<subseteq> H" and "entries (\<lambda>(t, u) (exp, c). owned_cred bs H t c) c"
  shows "owned bs H (b\<lparr>by_store := s, by_cache := c\<rparr>)"
  using assms by (simp add: owned_def)

lemma get_or_build_chain_owned:
  assumes "get_or_build_chain fails bs k store now c role b = (r, b')" and "owned bs H b" and "owned_cred bs H t c"
  shows "skeletons (by_store b') = skeletons (by_store b) \<and> owned bs H b' \<and> by_spend b' = by_spend b \<and>
    (\<forall>ch. r = Inr ch \<longrightarrow> (\<forall>e \<in> set ch. en_key e \<in> secrets bs H t))"
proof -
  have o: "origins (by_store b) \<subseteq> H" "trimmed_tenants H" using assms(2) by (simp_all add: owned_def)
  have t: "tc_tenant c = t" using assms(3) by (simp add: owned_cred_def)
  show ?thesis
  proof (cases "dget (by_chains b) (tc_tenant c, tc_provider c, role)")
    case (Some ch)
    then have "\<forall>e \<in> set ch. en_key e \<in> secrets bs H t"
      using entriesD [of _ "by_chains b"] assms(2) t by (fastforce simp: owned_def)
    then show ?thesis using assms Some by (auto simp: get_or_build_chain_def owned_def)
  next
    case None
    obtain q s1 where q: "build_chain fails bs k store now c role (by_store b) = (q, s1)"
      by (cases "build_chain fails bs k store now c role (by_store b)")
    note bc = build_chain_owned [OF q o assms(3)]
    then have o1: "origins s1 \<subseteq> H" using o(1) by (simp add: origins_skeletons)
    show ?thesis
    proof (cases q)
      case (Inl x)
      then show ?thesis using assms None q bc o1 by (auto simp: get_or_build_chain_def owned_def Let_def)
    next
      case (Inr ch)
      have "entries (\<lambda>(t, p, role) ch. \<forall>e \<in> set ch. en_key e \<in> secrets bs H t)
          (dput (tc_tenant c, tc_provider c, role) ch (by_chains b))"
        using assms(2) bc Inr t by (intro entries_dput) (auto simp: owned_def)
      then show ?thesis using assms None q bc o1 Inr by (auto simp: get_or_build_chain_def owned_def Let_def)
    qed
  qed
qed

lemma try_chain_called: "set (snd (try_chain k role ch lt)) \<subseteq> set ch"
  by (induction k role ch lt rule: try_chain.induct) (auto split: sum.splits prod.splits option.splits)

lemma llm_call_owned:
  assumes "llm_call fails mfails bs k store now t role b = (r, b', called)" and "owned bs H b"
  shows "skeletons (by_store b') = skeletons (by_store b) \<and> owned bs H b' \<and> (\<forall>e \<in> set called. en_key e \<in> secrets bs H t)"
proof -
  have o: "origins (by_store b) \<subseteq> H" "trimmed_tenants H" "entries (\<lambda>(t, u) (exp, c). owned_cred bs H t c) (by_cache b)"
    using assms(2) by (simp_all add: owned_def)
  obtain q s c where q: "resolve fails bs (by_store b) (by_cache b) t ForLlm now = (q, s, c)"
    by (cases "resolve fails bs (by_store b) (by_cache b) t ForLlm now") auto
  note rs = resolve_owned [OF q o]
  have o1: "owned bs H (b\<lparr>by_store := s, by_cache := c\<rparr>)"
    using owned_caches [OF assms(2) _ rs(2)] rs(1) o(1) by (simp add: origins_skeletons)
  show ?thesis
  proof (cases "\<exists>x. q = Inr (Some x)")
    case False
    then have "b' = b\<lparr>by_store := s, by_cache := c\<rparr> \<and> called = []"
      using assms(1) q by (auto simp: llm_call_def split: sum.splits option.splits)
    then show ?thesis using o1 rs(1) by simp
  next
    case True
    then obtain x where x: "q = Inr (Some x)" by blast
    define b1 where "b1 = b\<lparr>by_store := s, by_cache := c\<rparr>"
    define role' where "role' = apply_cost_ceiling mfails b1 x role t now"
    obtain g b2 where g: "get_or_build_chain fails bs k store now x role' b1 = (g, b2)"
      by (cases "get_or_build_chain fails bs k store now x role' b1")
    have "owned bs H b1" using o1 by (simp add: b1_def)
    from get_or_build_chain_owned [OF g this rs(3) [OF x]]
    have gb: "skeletons (by_store b2) = skeletons (by_store b)" "owned bs H b2"
      "\<And>ch. g = Inr ch \<Longrightarrow> \<forall>e \<in> set ch. en_key e \<in> secrets bs H t"
      using rs(1) by (auto simp: b1_def)
    have sp: "owned bs H (b2\<lparr>by_spend := sp\<rparr>)" for sp using gb(2) by (simp add: owned_def)
    show ?thesis
    proof (cases g)
      case (Inl e)
      then show ?thesis using assms(1) q x g gb unfolding b1_def [symmetric] role'_def [symmetric]
        by (auto simp: llm_call_def Let_def b1_def [symmetric] role'_def [symmetric])
    next
      case (Inr ch)
      obtain tr cl where tr: "try_chain k role' ch None = (tr, cl)" by (cases "try_chain k role' ch None")
      have cl: "\<forall>e \<in> set cl. en_key e \<in> secrets bs H t" using try_chain_called [of k role' ch None] gb(3) [OF Inr] tr by auto
      have "called = cl \<and> (b' = b2 \<or> (\<exists>sp. b' = b2\<lparr>by_spend := sp\<rparr>))"
        using assms(1) q x g Inr tr
        by (auto simp: llm_call_def Let_def b1_def [symmetric] role'_def [symmetric] split: sum.splits)
      then show ?thesis using cl gb sp by auto
    qed
  qed
qed

section \<open>Ownership in the embedding provider\<close>

lemma get_fallback_owned: "get_fallback k b = (r, b') \<Longrightarrow> owned bs H b \<Longrightarrow>
    owned bs H b' \<and> skeletons (by_store b') = skeletons (by_store b) \<and> (\<forall>e. r \<noteq> Inr (Some e))"
  by (auto simp: get_fallback_def owned_def split: if_splits sum.splits exn.splits)

lemma build_embeddings_key: "build_embeddings k c = Inr e \<Longrightarrow> ee_key e = tc_key c"
  by (auto simp: build_embeddings_def embed_entry_for_def Let_def res_simps split: provider_type.splits)

lemma use_embeddings_owned:
  assumes "use_embeddings k c b = (r, b')" and "owned bs H b" and "owned_cred bs H t c"
  shows "owned bs H b' \<and> skeletons (by_store b') = skeletons (by_store b) \<and> (\<forall>e. r = Inr (Some e) \<longrightarrow> ee_key e \<in> secrets bs H t)"
proof -
  have t: "tc_tenant c = t" "tc_key c \<in> secrets bs H t" using assms(3) by (simp_all add: owned_cred_def)
  obtain g b1 where g: "get_or_build_embeddings k c b = (g, b1)" by (cases "get_or_build_embeddings k c b")
  have hit: "ee_key e \<in> secrets bs H t" if "dget (by_embeds b) (t, tc_provider c) = Some e" for e
    using entriesD [OF _ that] assms(2) by (fastforce simp: owned_def)
  have new: "entries (\<lambda>(t, p) e. ee_key e \<in> secrets bs H t) (dput (t, tc_provider c) e (by_embeds b))"
    if "build_embeddings k c = Inr e" for e
    using assms(2) t build_embeddings_key [OF that] by (intro entries_dput) (auto simp: owned_def)
  have gb: "owned bs H b1 \<and> skeletons (by_store b1) = skeletons (by_store b) \<and> (\<forall>e. g = Inr e \<longrightarrow> ee_key e \<in> secrets bs H t)"
  proof (cases "dget (by_embeds b) (t, tc_provider c)")
    case (Some e)
    then show ?thesis using g hit assms(2) t(1) by (auto simp: get_or_build_embeddings_def owned_def)
  next
    case None
    show ?thesis
    proof (cases "build_embeddings k c")
      case (Inl x)
      then show ?thesis using g assms(2) None t(1) by (auto simp: get_or_build_embeddings_def)
    next
      case (Inr e)
      then show ?thesis using g assms(2) None t new [OF Inr] build_embeddings_key [OF Inr]
        by (auto simp: get_or_build_embeddings_def owned_def Let_def)
    qed
  qed
  show ?thesis
  proof (cases g)
    case (Inr e)
    then show ?thesis using assms(1) g gb by (auto simp: use_embeddings_def)
  next
    case (Inl x)
    then have "b' = b1 \<and> r = Inl x \<or> get_fallback k b1 = (r, b')"
      using assms(1) g by (auto simp: use_embeddings_def split: if_splits)
    then show ?thesis using gb get_fallback_owned [of k b1 r b' bs H] by auto
  qed
qed

lemma resolve_provider_owned:
  assumes "resolve_provider fails bs k now t b = (r, b')" and "owned bs H b"
  shows "skeletons (by_store b') = skeletons (by_store b) \<and> owned bs H b' \<and>
    (\<forall>e. r = Inr (Some e) \<longrightarrow> ee_key e \<in> secrets bs H t)"
proof -
  have o: "origins (by_store b) \<subseteq> H" "trimmed_tenants H" "entries (\<lambda>(t, u) (exp, c). owned_cred bs H t c) (by_cache b)"
    using assms(2) by (simp_all add: owned_def)
  obtain q s c where q: "resolve fails bs (by_store b) (by_cache b) t ForEmbedding now = (q, s, c)"
    by (cases "resolve fails bs (by_store b) (by_cache b) t ForEmbedding now") auto
  obtain q2 s2 c2 where q2: "resolve fails bs s c t ForLlm now = (q2, s2, c2)"
    by (cases "resolve fails bs s c t ForLlm now") auto
  note rs = resolve_owned [OF q o]
  have os: "origins s \<subseteq> H" using rs(1) o(1) by (simp add: origins_skeletons)
  note rs2 = resolve_owned [OF q2 os o(2) rs(2)]
  have os2: "origins s2 \<subseteq> H" using rs2(1) os by (simp add: origins_skeletons)
  let ?b1 = "b\<lparr>by_store := s, by_cache := c\<rparr>" and ?b2 = "b\<lparr>by_store := s2, by_cache := c2\<rparr>"
  have o1: "owned bs H ?b1" by (rule owned_caches [OF assms(2) os rs(2)])
  have o2: "owned bs H ?b2" by (rule owned_caches [OF assms(2) os2 rs2(2)])
  consider e where "q = Inl e" | x where "q = Inr (Some x)" | "q = Inr None" by (cases q) auto
  then show ?thesis
  proof cases
    case 1
    then show ?thesis using assms(1) q o1 rs(1) by (auto simp: resolve_provider_def)
  next
    case 2
    then have "use_embeddings k x ?b1 = (r, b')" using assms(1) q by (simp add: resolve_provider_def)
    from use_embeddings_owned [OF this o1 rs(3) [OF 2]] show ?thesis using rs(1) by simp
  next
    case 3
    have "(\<exists>e. b' = ?b2 \<and> r = Inl e) \<or> get_fallback k ?b2 = (r, b') \<or> (\<exists>x. q2 = Inr (Some x) \<and> use_embeddings k x ?b2 = (r, b'))"
      using assms(1) q q2 3 by (auto simp: resolve_provider_def split: sum.splits option.splits if_splits)
    then show ?thesis
      using o2 rs(1) rs2(1) get_fallback_owned [of k ?b2 r b' bs H] use_embeddings_owned [of k _ ?b2 r b' bs H t] rs2(3)
      by auto
  qed
qed

section \<open>The handlers\<close>

lemma table_ok_skeletons: "skeletons s' = skeletons s \<Longrightarrow> table_ok (cs_rows s) \<Longrightarrow> table_ok (cs_rows s')"
proof -
  have f: "map frame (cs_rows x) = map frame (skeletons x)" for x
    by (simp add: skeletons_def frame_def slot_def skeleton_def)
  show "skeletons s' = skeletons s \<Longrightarrow> table_ok (cs_rows s) \<Longrightarrow> table_ok (cs_rows s')"
    by (rule table_ok_frame [of "cs_rows s'" "cs_rows s"]) (simp_all only: f)
qed

text \<open>A change that adds nothing to a cache and keeps the table well-formed.\<close>

definition tame :: "api \<Rightarrow> api \<Rightarrow> bool" where
  "tame a a' \<longleftrightarrow> set (by_cache (as_byok a')) \<subseteq> set (by_cache (as_byok a)) \<and>
     set (by_chains (as_byok a')) \<subseteq> set (by_chains (as_byok a)) \<and> set (by_embeds (as_byok a')) \<subseteq> set (by_embeds (as_byok a)) \<and>
     (table_ok (cs_rows (api_store a)) \<longrightarrow> table_ok (cs_rows (api_store a')))"

lemma tame_refl [simp]: "tame a a"
  by (simp add: tame_def)

lemma tame_trans: "tame a b \<Longrightarrow> tame b c \<Longrightarrow> tame a c"
  unfolding tame_def by blast

lemma tame_models [simp]: "tame a (b\<lparr>as_models := m\<rparr>) = tame a b" "tame (a\<lparr>as_models := m\<rparr>) b = tame a b"
  by (simp_all add: tame_def api_store_def)

lemma tame_with_store: "(table_ok (cs_rows (api_store a)) \<Longrightarrow> table_ok (cs_rows s)) \<Longrightarrow> tame a (with_store s a)"
  by (auto simp: tame_def with_store_def api_store_def)

lemma tame_drops [simp]: "tame a (drop_resolved t a)" "tame a (invalidate_provider_cache w t a)"
  by (auto simp: tame_def drop_resolved_def invalidate_provider_cache_def api_store_def rcache.drop_owner
      ccache.drop_owner ecache.drop_owner)

lemma tame_dropped: "tame a b \<Longrightarrow> tame a (drop_resolved t b)" "tame a b \<Longrightarrow> tame a (invalidate_provider_cache w t b)"
  by (rule tame_trans, assumption, simp)+

lemma api_store_simps [simp]:
  "api_store (with_store s a) = s" "api_store (drop_resolved t a) = api_store a"
  "api_store (invalidate_provider_cache w t a) = api_store a" "api_store (a\<lparr>as_models := m\<rparr>) = api_store a"
  by (simp_all add: api_store_def with_store_def drop_resolved_def invalidate_provider_cache_def)

lemma get_by_id_SomeD: "get_by_id fails s t i = Some r \<Longrightarrow> r \<in> set (cs_rows s) \<and> cr_id r = i \<and> cr_tenant r = t"
  by (auto simp: get_by_id_def first_row_def split: if_splits list.splits dest!: arg_cong [where f = set])

lemma tame_patched:
  assumes "store_patch fails (api_store a) t cid pb etag now = Inr (out, s)" and "patch_ok (cs_rows (api_store a)) t cid pb"
  shows "tame a (with_store s a)"
  by (rule tame_with_store, rule table_ok_patch [OF assms(1) _ assms(2)])

lemma tame_conditional_patch:
  assumes "conditional_patch fails w t cid header existing pb now a = (r, a')" and "patch_ok (cs_rows (api_store a)) t cid pb"
  shows "tame a a'"
  using assms by (auto simp: conditional_patch_def Let_def split: sum.splits prod.splits if_splits
      intro!: tame_dropped tame_patched)

lemma check_chain_entries_ok: "check_chain_entries fails s t ids = Inr () \<Longrightarrow> \<forall>i \<in> set ids. \<exists>f \<in> set (cs_rows s). cr_id f = i \<and> cr_tenant f = t"
  by (induction ids) (auto split: option.splits if_splits dest!: get_by_id_SomeD)

lemma tame_update_credential: "update_credential fails w t cid base model emodel now a = (r, a') \<Longrightarrow> tame a a'"
  by (auto simp: update_credential_def Let_def patch_ok_def no_patch_def split: if_splits sum.splits prod.splits
      intro!: tame_dropped tame_patched)

lemma tame_update_role_models: "update_role_models fails bf w t cid header d now a = (r, a') \<Longrightarrow> roles_ok d \<Longrightarrow> tame a a'"
  by (auto simp: update_role_models_def patch_ok_def no_patch_def split: if_splits sum.splits option.splits
      elim!: tame_conditional_patch)

lemma tame_update_role_cost_limits:
  "update_role_cost_limits fails bf w t cid header d now a = (r, a') \<Longrightarrow> limits_ok d \<Longrightarrow> tame a a'"
  by (auto simp: update_role_cost_limits_def patch_ok_def no_patch_def split: if_splits sum.splits option.splits
      elim!: tame_conditional_patch)

lemma tame_update_failover_chain:
  "update_failover_chain fails bf w t cid header ids now a = (r, a') \<Longrightarrow> chain_ok ids \<Longrightarrow> tame a a'"
  by (auto simp: update_failover_chain_def patch_ok_def no_patch_def split: if_splits sum.splits option.splits
      elim!: tame_conditional_patch dest!: check_chain_entries_ok)

lemma tame_revoke_credential: "revoke_credential fails w t cid now a = (r, a') \<Longrightarrow> tame a a'"
  by (auto simp: revoke_credential_def split: if_splits sum.splits prod.splits
      intro!: tame_dropped tame_with_store dest!: skeletons_revoke elim: table_ok_skeletons)

lemma tame_persist_credential:
  assumes "persist_credential fails w t creator cid body fp now a = (r, a')" and "trim t = t"
    and "cid \<notin> cr_id ` set (cs_rows (api_store a))"
  shows "tame a a'"
proof -
  have u: "table_ok (cs_rows s)" if "store_upsert fails (api_store a) cid (new_cred_of t creator b bl fp body) now = Inr (q, s)"
    "table_ok (cs_rows (api_store a))" for b bl q s
    by (rule table_ok_upsert [OF that]) (use assms in \<open>auto simp: new_cred_of_def\<close>)
  show ?thesis
    using assms(1) by (auto simp: persist_credential_def Let_def split: option.splits prod.splits sum.splits
        intro!: tame_dropped tame_with_store u dest!: skeletons_mark_validated elim!: table_ok_skeletons)
qed

lemma tame_create_credential:
  "create_credential fails w t creator cid body now a = (r, a') \<Longrightarrow> trim t = t \<Longrightarrow>
    cid \<notin> cr_id ` set (cs_rows (api_store a)) \<Longrightarrow> tame a a'"
  by (auto simp: create_credential_def split: if_splits sum.splits prod.splits dest!: tame_persist_credential)

lemma tame_record_verdict:
  assumes "record_verdict fails t cid uuid row v now a = (r, a')" and row: "row \<in> set (cs_rows (api_store a))"
  shows "tame a a'"
proof -
  have u: "table_ok (cs_rows s')"
    if "skeletons s = skeletons (api_store a)" "store_upsert fails s uuid (reactivation row) now = Inr (q, s')"
      "table_ok (cs_rows (api_store a))" for s s' q
  proof -
    have ok: "table_ok (cs_rows s)" by (rule table_ok_skeletons [OF that(1,3)])
    have "skeleton row \<in> set (skeletons s)" unfolding that(1) using row by (simp add: skeletons_def)
    then obtain r0 where "r0 \<in> set (cs_rows s)" "skeleton r0 = skeleton row" by (auto simp: skeletons_def)
    then have "r0 \<in> set (cs_rows s)" "origin r0 = origin row" by (metis origin_skeleton)+
    then have "filter (same_slot (reactivation row)) (cs_rows s) \<noteq> []"
      by (auto simp: filter_empty_conv same_slot_def reactivation_def origin_def)
    moreover have "trim (cr_tenant row) = cr_tenant row" using that(3) row by (simp add: table_ok_def row_ok_def)
    ultimately show ?thesis using table_ok_upsert [OF that(2) ok] by (simp add: reactivation_def)
  qed
  have v: "skeletons s = skeletons (api_store a)" if "mark_validated fails (api_store a) i e now = Inr s" for i e s
    by (rule skeletons_mark_validated [OF that])
  show ?thesis
    using assms(1) by (auto simp: record_verdict_def split: if_splits sum.splits prod.splits
        intro!: tame_dropped tame_with_store dest!: v skeletons_mark_invalid elim!: table_ok_skeletons intro: u)
qed

lemma tame_invalid_answer: "invalid_answer fails i err now e a = (r, a') \<Longrightarrow> tame a a'"
  by (auto simp: invalid_answer_def split: sum.splits intro!: tame_with_store
      dest!: skeletons_mark_invalid elim!: table_ok_skeletons)

lemma tame_validate_existing: "validate_existing_credential fails w t cid uuid now a = (r, a') \<Longrightarrow> tame a a'"
  by (auto simp: validate_existing_credential_def split: if_splits sum.splits prod.splits option.splits dec_out.splits
      dest!: get_by_id_SomeD tame_invalid_answer tame_record_verdict)

section \<open>The system\<close>

text \<open>
  One handler or provider call, by a tenant whose name has no surrounding white space, with
  a body that passed its validators and an unused uuid for a new row.
\<close>

inductive api_step :: "wiring \<Rightarrow> sdk \<Rightarrow> bool \<Rightarrow> api \<Rightarrow> api \<Rightarrow> bool" for w :: wiring and k :: sdk and store :: bool where
  create: "trim t = t \<Longrightarrow> cid \<notin> cr_id ` set (cs_rows (api_store a)) \<Longrightarrow>
     credential_create (cb_key body) (cb_base_url body) (cb_model body) (cb_embed_model body) = Inr () \<Longrightarrow>
     create_credential fails w t creator cid body now a = (r, a') \<Longrightarrow> api_step w k store a a'"
| patch: "trim t = t \<Longrightarrow> update_credential fails w t cid base model emodel now a = (r', a') \<Longrightarrow> api_step w k store a a'"
| roles: "trim t = t \<Longrightarrow> role_models_update j = Inr d \<Longrightarrow> update_role_models fails bf w t cid header d now a = (r', a') \<Longrightarrow>
     api_step w k store a a'"
| caps: "trim t = t \<Longrightarrow> role_cost_limits_update j = Inr caps \<Longrightarrow>
     update_role_cost_limits fails bf w t cid header caps now a = (r', a') \<Longrightarrow> api_step w k store a a'"
| chain: "trim t = t \<Longrightarrow> failover_chain_update j = Inr ids \<Longrightarrow>
     update_failover_chain fails bf w t cid header ids now a = (r', a') \<Longrightarrow> api_step w k store a a'"
| revoke: "trim t = t \<Longrightarrow> revoke_credential fails w t cid now a = (ru, a') \<Longrightarrow> api_step w k store a a'"
| revalidate: "trim t = t \<Longrightarrow> validate_existing_credential fails w t cid uuid now a = (r, a') \<Longrightarrow> api_step w k store a a'"
| models: "list_credential_models fails w t cid force now a = (rm, a') \<Longrightarrow> api_step w k store a a'"
| call: "trim t = t \<Longrightarrow> llm_call fails mfails (wi_backends w) k store now t role (as_byok a) = (rc, b, called) \<Longrightarrow>
     api_step w k store a (a\<lparr>as_byok := b\<rparr>)"
| embedding: "trim t = t \<Longrightarrow> resolve_provider fails (wi_backends w) k now t (as_byok a) = (re, b) \<Longrightarrow>
     api_step w k store a (a\<lparr>as_byok := b\<rparr>)"

definition api_init :: "cstore \<Rightarrow> api" where
  "api_init s = \<lparr>as_byok = \<lparr>by_store = s, by_cache = [], by_chains = [], by_spend = Some [], by_embeds = [], by_local = False\<rparr>,
     as_models = []\<rparr>"

text \<open>Reachable states with every ciphertext that was ever in the table.\<close>

inductive api_reach :: "wiring \<Rightarrow> sdk \<Rightarrow> bool \<Rightarrow> api \<Rightarrow> origin set \<Rightarrow> bool" for w :: wiring and k :: sdk and store :: bool where
  start: "api_reach w k store (api_init \<lparr>cs_engine = e, cs_rows = []\<rparr>) {}"
| step: "api_reach w k store a H \<Longrightarrow> api_step w k store a a' \<Longrightarrow> api_reach w k store a' (H \<union> origins (api_store a'))"

lemma owned_tame:
  assumes "tame a a'" and "owned bs H (as_byok a)" and "trimmed_tenants (H \<union> origins (api_store a'))"
  shows "owned bs (H \<union> origins (api_store a')) (as_byok a')"
proof -
  let ?H = "H \<union> origins (api_store a')"
  have "owned bs ?H (as_byok a)" by (rule owned_mono [OF assms(2) _ assms(3)]) simp
  then show ?thesis using assms(1,3) unfolding owned_def tame_def
    by (auto simp: api_store_def elim!: entries_subset)
qed

lemma tame_list_models: "list_credential_models fails w t cid force now a = (rm, a') \<Longrightarrow> tame a a'"
  by (auto simp: list_credential_models_def Let_def split: if_splits option.splits prod.splits)

text \<open>A step is tame, or keeps the columns of the table and the ownership of the caches.\<close>

lemma api_step_safe:
  assumes "api_step w k store a a'" and "owned (wi_backends w) H (as_byok a)"
  shows "tame a a' \<or> (skeletons (api_store a') = skeletons (api_store a) \<and> owned (wi_backends w) H (as_byok a'))"
  using assms(1)
proof cases
  case call
  then show ?thesis using llm_call_owned [OF call(3) assms(2)] by (simp add: api_store_def)
next
  case embedding
  then show ?thesis using resolve_provider_owned [OF embedding(3) assms(2)] by (simp add: api_store_def)
qed (auto dest!: tame_create_credential tame_update_credential tame_revoke_credential tame_validate_existing tame_list_models
    tame_update_role_models [OF _ role_models_update_ok] tame_update_role_cost_limits [OF _ role_cost_limits_update_ok]
    tame_update_failover_chain [OF _ failover_chain_update_ok])

lemma trimmed_origins: "table_ok (cs_rows s) \<Longrightarrow> trimmed_tenants H \<Longrightarrow> trimmed_tenants (H \<union> origins s)"
  by (auto simp: trimmed_tenants_def origins_def origin_def table_ok_def row_ok_def)

text \<open>In every reachable state the table is well-formed and nothing is held for the wrong tenant.\<close>

lemma api_reach_safe:
  "api_reach w k store a H \<Longrightarrow> table_ok (cs_rows (api_store a)) \<and> owned (wi_backends w) H (as_byok a)"
proof (induction rule: api_reach.induct)
  case (start e)
  show ?case by (simp add: table_ok_def api_init_def api_store_def owned_def origins_def trimmed_tenants_def)
next
  case (step a H a')
  then have ok: "table_ok (cs_rows (api_store a))" and ow: "owned (wi_backends w) H (as_byok a)" by simp_all
  have th: "trimmed_tenants H" using ow by (simp add: owned_def)
  from api_step_safe [OF step.hyps(2) ow] show ?case
  proof
    assume t: "tame a a'"
    then have ok': "table_ok (cs_rows (api_store a'))" using ok by (simp add: tame_def)
    then show ?thesis using owned_tame [OF t ow trimmed_origins [OF ok' th]] by simp
  next
    assume s: "skeletons (api_store a') = skeletons (api_store a) \<and> owned (wi_backends w) H (as_byok a')"
    then have ok': "table_ok (cs_rows (api_store a'))" using table_ok_skeletons ok by blast
    have "owned (wi_backends w) (H \<union> origins (api_store a')) (as_byok a')"
      by (rule owned_mono [OF conjunct2 [OF s] _ trimmed_origins [OF ok' th]]) simp
    then show ?thesis using ok' by simp
  qed
qed

end
