(* ===== verification/CredentialProps.thy ===== *)
theory CredentialProps
  imports CredentialSafety
begin

text \<open>
  Properties of the credential component: entity tags and lost updates, key ownership,
  failover, and what a rotation leaves behind.
\<close>

section \<open>Entity tags\<close>

lemma strip_fix: "s \<noteq> [] \<Longrightarrow> \<not> P (hd s) \<Longrightarrow> \<not> P (last s) \<Longrightarrow> rev (dropWhile P (rev (dropWhile P s))) = s"
  by (metis dropWhile_eq_self_iff hd_rev rev_rev_ident)

lemma iso_micro_ends: "iso_micro t \<noteq> [] \<and> hd (iso_micro t) \<noteq> CHR 0x22 \<and> last (iso_micro t) = CHR ''0''"
proof -
  obtain y m d where c: "civil (t div 1000000 div 86400) = (y, m, d)" by (cases "civil (t div 1000000 div 86400)")
  have p: "length (pad 4 y) = 4" by simp
  then have n: "pad 4 y \<noteq> []" by force
  then have "is_digit (hd (pad 4 y))" by (meson hd_in_set pad_digits)
  moreover have "\<not> is_digit CHR 0x22" by (simp add: is_digit_def code_def)
  ultimately show ?thesis using n by (auto simp: iso_micro_def iso_def stamp_def c hd_append)
qed

lemma etag_round_trip:
  assumes "time_ok (cr_updated r div 1000000)"
  shows "parse_if_match (Some (etag_from r)) = Some (int (cr_updated r))"
proof -
  let ?t = "cr_updated r"
  have "py_strip (etag_from r) = etag_from r"
    unfolding py_strip_def by (rule strip_fix) (simp_all add: etag_from_def py_space_def code_def)
  moreover have "strip_quotes (etag_from r) = iso_micro ?t"
  proof -
    have "dropWhile (\<lambda>c. c = CHR 0x22) (iso_micro ?t @ [CHR 0x22]) = iso_micro ?t @ [CHR 0x22]"
      "dropWhile (\<lambda>c. c = CHR 0x22) (rev (iso_micro ?t)) = rev (iso_micro ?t)"
      using iso_micro_ends [of ?t] by (simp_all add: dropWhile_eq_self_iff hd_rev)
    then show ?thesis by (simp add: strip_quotes_def etag_from_def)
  qed
  moreover have "parse_micro (iso_micro ?t) = Some (int ?t)"
  proof (cases "?t mod 1000000 = 0")
    case True
    then have "int (?t div 1000000) * 1000000 = int ?t"
      by (metis add.right_neutral div_mult_mod_eq of_nat_mult of_nat_numeral)
    then show ?thesis using True parse_iso_iso [OF assms] by (simp add: parse_micro_def iso_micro_def iso_def)
  next
    case False
    have "?t mod 1000000 < 10 ^ 6" by simp
    then have "num (pad 6 (?t mod 1000000)) = ?t mod 1000000" by (rule num_pad)
    moreover have "list_all is_digit (pad 6 (?t mod 1000000))" using pad_digits by (auto simp: list_all_iff)
    moreover have "int (?t div 1000000) * 1000000 + int (?t mod 1000000) = int ?t"
      by (metis div_mult_mod_eq of_nat_add of_nat_mult of_nat_numeral)
    ultimately show ?thesis using False parse_iso_iso [OF assms]
      by (simp add: parse_micro_def iso_micro_def iso_def nth_append)
  qed
  ultimately show ?thesis by (simp add: parse_if_match_def given_def etag_from_def)
qed

section \<open>Conditional updates\<close>

lemma require_if_match_etag:
  assumes "time_ok (cr_updated r0 div 1000000)"
  shows "require_if_match (Some (etag_from r0)) r =
    (if cr_updated r0 = cr_updated r then Inr (cr_updated r) else Inl (HttpError 412 ''PRECONDITION_FAILED''))"
  by (simp add: require_if_match_def etag_round_trip [OF assms])

lemma conditional_patch_stale:
  assumes "cr_updated r0 \<noteq> cr_updated r" and "time_ok (cr_updated r0 div 1000000)"
  shows "conditional_patch fails w t cid (Some (etag_from r0)) r pb now a = (Inl (HttpError 412 ''PRECONDITION_FAILED''), a)"
  by (simp add: conditional_patch_def require_if_match_etag [OF assms(2)] assms(1))

lemma table_row_unique: "table_ok rows \<Longrightarrow> r \<in> set rows \<Longrightarrow> r' \<in> set rows \<Longrightarrow> cr_id r = cr_id r' \<Longrightarrow> r = r'"
  by (auto simp: table_ok_def distinct_map inj_on_def)

lemma update_rows_none: "\<forall>r \<in> set (cs_rows s). \<not> P r \<Longrightarrow> update_rows P f s = (0, s)"
  by (cases s) (auto simp: update_rows_def filter_empty_conv intro: map_idI)

lemma conditional_patch_raced:
  assumes ok: "table_ok (cs_rows (api_store a))" and r: "get_by_id fails (api_store a) t cid = Some r"
    and stale: "cr_updated r0 \<noteq> cr_updated r"
    and run: "conditional_patch fails w t cid header r0 pb now a = (res, a')" and pb: "pb \<noteq> no_patch"
  shows "(\<exists>e. res = Inl e) \<and> a' = a"
proof (cases "require_if_match header r0")
  case (Inl e)
  then show ?thesis using run by (auto simp: conditional_patch_def)
next
  case (Inr u)
  then have u: "u = cr_updated r0" by (auto simp: require_if_match_def split: option.splits if_splits)
  have "\<not> (cr_id x = cid \<and> cr_tenant x = t \<and> cr_updated x = u)" if "x \<in> set (cs_rows (api_store a))" for x
    using table_row_unique [OF ok that, of r] get_by_id_SomeD [OF r] stale u by auto
  then have "update_rows (\<lambda>r. cr_id r = cid \<and> cr_tenant r = t \<and> cr_updated r = u) (patch_row pb now) (api_store a) = (0, api_store a)"
    by (intro update_rows_none) auto
  then have "store_patch fails (api_store a) t cid pb (Some u) now = Inr (PreconditionFailed, api_store a) \<or>
      (\<exists>e. store_patch fails (api_store a) t cid pb (Some u) now = Inl e)"
    using pb r by (auto simp: store_patch_def get_by_id_def split: if_splits)
  moreover have "with_store (api_store a) a = a" by (simp add: with_store_def api_store_def)
  ultimately show ?thesis using run Inr by (auto simp: conditional_patch_def)
qed

lemma get_by_id_map:
  assumes "\<And>x. cr_id (g x) = cr_id x" and "\<And>x. cr_tenant (g x) = cr_tenant x"
  shows "get_by_id fails (s\<lparr>cs_rows := map g (cs_rows s)\<rparr>) t i = map_option g (get_by_id fails s t i)"
  by (simp add: get_by_id_def first_row_def filter_map comp_def assms split: list.split)

lemma stale_tag_refused:
  assumes ok: "table_ok (cs_rows (api_store a))" and r: "get_by_id {} (api_store a) t cid = Some r"
    and time: "time_ok (cr_updated r0 div 1000000)" and w: "wi_byok w"
  shows "cr_updated r0 \<noteq> cr_updated r \<longrightarrow>
      (\<exists>e. update_role_models {} bf w t cid (Some (etag_from r0)) d now a = (Inl e, a)) \<and>
      (\<exists>e. update_role_cost_limits {} bf w t cid (Some (etag_from r0)) caps now a = (Inl e, a)) \<and>
      (\<exists>e. update_failover_chain {} bf w t cid (Some (etag_from r0)) ids now a = (Inl e, a)) \<and>
      (\<forall>header pb. pb \<noteq> no_patch \<longrightarrow> (\<exists>e. conditional_patch {} w t cid header r0 pb now a = (Inl e, a)))"
proof -
  have raced: "\<exists>e. conditional_patch {} w t cid header r0 pb now a = (Inl e, a)"
    if "cr_updated r0 \<noteq> cr_updated r" "pb \<noteq> no_patch" for header pb
    using conditional_patch_raced [OF ok r that(1) _ that(2), of w header now]
    by (cases "conditional_patch {} w t cid header r0 pb now a") auto
  show ?thesis
    using raced conditional_patch_stale [OF _ time, of r] w r
    by (auto simp: update_role_models_def update_role_cost_limits_def update_failover_chain_def split: sum.splits)
qed

lemma current_tag_accepted:
  assumes ok: "table_ok (cs_rows (api_store a))" and r: "get_by_id {} (api_store a) t cid = Some r"
    and time: "time_ok (cr_updated r div 1000000)" and w: "wi_byok w"
  shows "entitled w bf t ''byok.role_models'' (d \<noteq> []) = Inr () \<longrightarrow>
      (\<exists>v tag. update_role_models {} bf w t cid (Some (etag_from r)) d now a =
        (Inr (v, tag), invalidate_provider_cache w t (drop_resolved t (with_store
          (api_store a\<lparr>cs_rows := map (\<lambda>x. if cr_id x = cid then x\<lparr>cr_roles := d, cr_updated := now\<rparr> else x)
             (cs_rows (api_store a))\<rparr>) a))) \<and> pv_roles v = d \<and> tag = etag_from (r\<lparr>cr_updated := now\<rparr>))"
proof -
  have eng: "cs_engine (api_store a)" using r by (simp add: get_by_id_def split: if_splits)
  let ?P = "\<lambda>x. cr_id x = cid \<and> cr_tenant x = t \<and> cr_updated x = cr_updated r"
  let ?pb = "no_patch\<lparr>pb_roles := Some d\<rparr>"
  have row: "r \<in> set (cs_rows (api_store a))" "cr_id r = cid" "cr_tenant r = t" using get_by_id_SomeD [OF r] by simp_all
  have P: "?P x = (cr_id x = cid)" if "x \<in> set (cs_rows (api_store a))" for x
    using table_row_unique [OF ok that row(1)] row by auto
  define s' where "s' = api_store a\<lparr>cs_rows := map (\<lambda>x. if cr_id x = cid then x\<lparr>cr_roles := d, cr_updated := now\<rparr> else x)
      (cs_rows (api_store a))\<rparr>"
  have u: "snd (update_rows ?P (patch_row ?pb now) (api_store a)) = s'"
    using P by (simp add: update_rows_def s'_def patch_row_def no_patch_def cong: map_cong)
  have "0 < fst (update_rows ?P (patch_row ?pb now) (api_store a))"
    using row by (simp add: update_rows_def filter_empty_conv) blast
  then have sp: "store_patch {} (api_store a) t cid ?pb (Some (cr_updated r)) now = Inr (Updated, s')"
    using u eng by (cases "update_rows ?P (patch_row ?pb now) (api_store a)") (simp add: store_patch_def no_patch_def)
  have "get_by_id {} s' t cid = Some (r\<lparr>cr_roles := d, cr_updated := now\<rparr>)"
    unfolding s'_def by (subst get_by_id_map) (use r row eng in auto)
  then show ?thesis
    using w r sp require_if_match_etag [OF time, of r]
    by (simp add: update_role_models_def conditional_patch_def reread_def s'_def [symmetric] to_public_view_def etag_from_def)
qed

text \<open>C20. Lost updates are refused. Two administrators read a credential and one of them changes
  it; the other one sends the entity tag of the version read. All three conditional updates
  answer an error and change nothing, also when the change happens between the handler's read
  and its write; and the tag of the current version is accepted: the role map of an entitled
  tenant is replaced, nothing else of the row is, and the caches of the tenant are dropped.\<close>

theorem stale_tags_are_refused:
  assumes "table_ok (cs_rows (api_store a))" and "get_by_id {} (api_store a) t cid = Some r"
    and "time_ok (cr_updated r div 1000000)" and "time_ok (cr_updated r0 div 1000000)" and "wi_byok w"
  shows "(cr_updated r0 \<noteq> cr_updated r \<longrightarrow>
      (\<exists>e. update_role_models {} bf w t cid (Some (etag_from r0)) d now a = (Inl e, a)) \<and>
      (\<exists>e. update_role_cost_limits {} bf w t cid (Some (etag_from r0)) caps now a = (Inl e, a)) \<and>
      (\<exists>e. update_failover_chain {} bf w t cid (Some (etag_from r0)) ids now a = (Inl e, a)) \<and>
      (\<forall>header pb. pb \<noteq> no_patch \<longrightarrow> (\<exists>e. conditional_patch {} w t cid header r0 pb now a = (Inl e, a)))) \<and>
    (entitled w bf t ''byok.role_models'' (d \<noteq> []) = Inr () \<longrightarrow>
      (\<exists>v tag. update_role_models {} bf w t cid (Some (etag_from r)) d now a =
        (Inr (v, tag), invalidate_provider_cache w t (drop_resolved t (with_store
          (api_store a\<lparr>cs_rows := map (\<lambda>x. if cr_id x = cid then x\<lparr>cr_roles := d, cr_updated := now\<rparr> else x)
             (cs_rows (api_store a))\<rparr>) a))) \<and> pv_roles v = d \<and> tag = etag_from (r\<lparr>cr_updated := now\<rparr>)))"
  by (rule conjI, rule stale_tag_refused [OF assms(1,2,4,5)], rule current_tag_accepted [OF assms(1,2,3,5)])

section \<open>Failover\<close>

lemma build_fallbacks_prefix:
  "build_fallbacks fails bs k now t role ids seen chain s = (Inr ch, s') \<Longrightarrow>
    prefix chain ch \<and> length ch \<le> length chain + length ids"
proof (induction ids arbitrary: seen chain s)
  case (Cons i ids)
  show ?case
  proof (cases "i \<in> set seen")
    case True
    then show ?thesis using Cons.IH [of seen chain s] Cons.prems by auto
  next
    case False
    obtain q s1 where q: "resolve_by_id fails bs s t i now = (q, s1)" by (cases "resolve_by_id fails bs s t i now")
    have "(\<exists>e. build_fallbacks fails bs k now t role ids (i # seen) (chain @ [e]) s1 = (Inr ch, s')) \<or>
        build_fallbacks fails bs k now t role ids (i # seen) chain s1 = (Inr ch, s')"
      using Cons.prems False q by (auto split: sum.splits option.splits if_splits)
    then show ?thesis using Cons.IH [of "i # seen" chain s1] Cons.IH [of "i # seen" "chain @ [_]" s1]
      by (auto dest: append_prefixD)
  qed
qed auto

lemma build_chain_shape:
  assumes "build_chain fails bs k store now c role s = (Inr ch, s')"
  shows "ch \<noteq> [] \<and> hd ch = entry_for c role \<and> length ch \<le> FAILOVER_CHAIN_MAX"
proof -
  obtain e where e: "build_one k c role = Inr e" using assms by (cases "build_one k c role") (auto simp: build_chain_def)
  then have ee: "e = entry_for c role" by (auto simp: build_one_def Let_def res_simps)
  show ?thesis
  proof (cases "tc_chain c = [] \<or> \<not> store")
    case True
    then show ?thesis using assms e ee by (auto simp: build_chain_def FAILOVER_CHAIN_MAX_def)
  next
    case False
    then have "build_fallbacks fails bs k now (tc_tenant c) role (take (FAILOVER_CHAIN_MAX - 1) (tc_chain c)) [tc_id c] [e] s = (Inr ch, s')"
      using assms e by (simp add: build_chain_def)
    from build_fallbacks_prefix [OF this] show ?thesis using ee
      by (auto simp: prefix_def FAILOVER_CHAIN_MAX_def)
  qed
qed

lemma try_chain_order:
  assumes "try_chain k role ch lt = (r, called)" and "ch \<noteq> [] \<or> lt \<noteq> None"
  shows "prefix called ch \<and> (ch \<noteq> [] \<longrightarrow> called \<noteq> []) \<and>
    (\<forall>e \<in> set (butlast called). \<exists>x. sdk_call k e role = Inl x \<and> \<not> sdk_auth_error k x) \<and>
    (case r of
       Inr (out, e, usage) \<Rightarrow> called \<noteq> [] \<and> e = last called \<and> sdk_call k e role = Inr (out, usage)
     | Inl x \<Rightarrow> if called = [] then lt = Some x
         else sdk_call k (last called) role = Inl x \<and> (sdk_auth_error k x \<or> called = ch))"
  using assms
proof (induction ch arbitrary: lt called)
  case Nil
  then show ?case by auto
next
  case (Cons e es)
  show ?case
  proof (cases "sdk_call k e role")
    case (Inr ou)
    then show ?thesis using Cons.prems by (cases ou) auto
  next
    case (Inl x)
    show ?thesis
    proof (cases "sdk_auth_error k x")
      case True
      then show ?thesis using Cons.prems Inl by auto
    next
      case False
      obtain cl where t: "try_chain k role es (Some x) = (r, cl)" and cl: "called = e # cl"
        using Cons.prems Inl False by (auto split: prod.splits)
      then show ?thesis using Cons.IH [OF t] Inl False
        by (auto split: sum.splits if_splits)
    qed
  qed
qed

text \<open>C21. Failover. The chain of a credential starts with the credential's own provider and has
  at most three entries. A call tries the entries in order and stops at the first one that
  answers or is refused for its key: every entry before the last one called failed with another
  error, the answer or the error of the call is that of the last entry called, and an error that
  is not a refusal means that all entries were called.\<close>

theorem failover_order:
  assumes "build_chain fails bs k store now c role s = (Inr ch, s')" and "try_chain k role ch None = (r, called)"
  shows "hd ch = entry_for c role \<and> length ch \<le> 3 \<and> called \<noteq> [] \<and> prefix called ch \<and>
    (\<forall>e \<in> set (butlast called). \<exists>x. sdk_call k e role = Inl x \<and> \<not> sdk_auth_error k x) \<and>
    (case r of
       Inr (out, e, usage) \<Rightarrow> e = last called \<and> sdk_call k e role = Inr (out, usage)
     | Inl x \<Rightarrow> sdk_call k (last called) role = Inl x \<and> (sdk_auth_error k x \<or> called = ch))"
proof -
  have c: "ch \<noteq> [] \<and> hd ch = entry_for c role \<and> length ch \<le> 3"
    using build_chain_shape [OF assms(1)] by (simp add: FAILOVER_CHAIN_MAX_def)
  then show ?thesis using try_chain_order [OF assms(2)] by (auto split: sum.splits)
qed

section \<open>Rotation\<close>

lemma persist_keeps_chains: "persist_credential fails w t creator cid body fp now a = (r, a') \<Longrightarrow>
    by_chains (as_byok a') = by_chains (as_byok a) \<and> by_embeds (as_byok a') = by_embeds (as_byok a)"
  by (auto simp: persist_credential_def Let_def drop_resolved_def with_store_def split: option.splits prod.splits sum.splits)

lemma create_keeps_chains: "create_credential fails w t creator cid body now a = (r, a') \<Longrightarrow>
    by_chains (as_byok a') = by_chains (as_byok a) \<and> by_embeds (as_byok a') = by_embeds (as_byok a)"
  by (auto simp: create_credential_def split: if_splits sum.splits prod.splits dest!: persist_keeps_chains)

lemma llm_call_cached:
  assumes "resolve fails bs (by_store b) (by_cache b) t ForLlm now = (Inr (Some c), s, cc)"
    and "cost_ceiling_for_role c role = None" and "dget (by_chains b) (tc_tenant c, tc_provider c, role) = Some ch"
  shows "snd (snd (llm_call fails mfails bs k store now t role b)) = snd (try_chain k role ch None) \<and>
    fst (llm_call fails mfails bs k store now t role b) = (case fst (try_chain k role ch None) of Inl e \<Rightarrow> Inl e | Inr (out, e, u) \<Rightarrow> Inr out)"
proof -
  have "apply_cost_ceiling mfails b' c role t now = role" for b'
    using assms(2) by (simp add: apply_cost_ceiling_def split: option.split)
  then show ?thesis
    using assms(1,3) by (simp add: llm_call_def Let_def get_or_build_chain_def split: sum.split prod.split)
qed

text \<open>C22. A rotation leaves the old key in use. Replacing a credential drops the tenant's resolved
  credentials but not its cached provider chains: the next call of a role that had been called
  before resolves the new key and then calls the entries built from the old one, and answers
  what they answer. Only the update handlers drop the chains.\<close>

theorem rotation_keeps_the_old_key:
  assumes "create_credential fails w t creator cid body now a = (Inr v, a1)"
    and "dget (by_chains (as_byok a)) (t, cb_provider body, role) = Some ch"
    and "resolve fails' (wi_backends w) (api_store a1) (by_cache (as_byok a1)) t ForLlm later = (Inr (Some c), s, cc)"
    and "tc_tenant c = t" and "tc_provider c = cb_provider body" and "tc_key c = trim (cb_key body)"
    and "cost_ceiling_for_role c role = None"
  shows "snd (snd (llm_call fails' mfails (wi_backends w) k store later t role (as_byok a1))) = snd (try_chain k role ch None) \<and>
    fst (llm_call fails' mfails (wi_backends w) k store later t role (as_byok a1)) =
      (case fst (try_chain k role ch None) of Inl e \<Rightarrow> Inl e | Inr (out, e, u) \<Rightarrow> Inr out) \<and>
    (\<forall>p role'. dget (by_chains (as_byok (invalidate_provider_cache (w\<lparr>wi_scoped := True\<rparr>) t a1))) (t, p, role') = None)"
proof -
  have "dget (by_chains (as_byok a1)) (tc_tenant c, tc_provider c, role) = Some ch"
    using create_keeps_chains [OF assms(1)] assms(2,4,5) by simp
  from llm_call_cached [OF assms(3) [unfolded api_store_def] assms(7) this] show ?thesis
    by (simp add: invalidate_provider_cache_def ccache.dget_drop)
qed

section \<open>Revalidation\<close>

text \<open>
  Any failure to decrypt marks the row invalid, an outage of the vault included, which the
  resolver only answers with no credential.
\<close>

lemma outage_invalidates:
  assumes "wi_byok w" and "wi_backend w \<noteq> None" and "get_by_id {} (api_store a) t cid = Some row"
    and "dget (wi_backends w) (cr_backend row) = Some f"
    and "f (cr_tenant row) (cr_provider row) (cr_purpose row) (cr_blob row) = VaultError m"
  shows "\<exists>a'. validate_existing_credential {} w t cid uuid now a = (Inl (HttpError 500 ''INTERNAL_ERROR''), a') \<and>
    (\<exists>r \<in> set (cs_rows (api_store a')). cr_id r = cid \<and> cr_status r = Invalid)"
proof -
  have row: "row \<in> set (cs_rows (api_store a))" "cr_id row = cid" and eng: "cs_engine (api_store a)"
    using get_by_id_SomeD [OF assms(3)] assms(3) by (auto simp: get_by_id_def split: if_splits)
  show ?thesis using assms row eng
    by (auto simp: validate_existing_credential_def invalid_answer_def mark_invalid_def update_rows_def
        intro!: exI [of _ "with_store _ a"] bexI [OF _ UnI1 [OF imageI [of row]]])
qed

text \<open>A successful ping activates the slot again, also of a credential that was revoked.\<close>

lemma revalidation_revives_revoked:
  assumes "va_success v" and "cr_status row = Revoked" and "row \<in> set (cs_rows (api_store a))" and "cs_engine (api_store a)"
  shows "\<exists>a'. record_verdict {} t cid uuid row v now a = (Inr (), a') \<and>
    (\<exists>r \<in> set (cs_rows (api_store a')). slot r = slot row \<and> cr_status r = Active)"
proof -
  obtain s where s: "mark_validated {} (api_store a) cid None now = Inr s" "cs_engine s"
    using assms(4) by (simp add: mark_validated_def update_rows_def)
  have "skeleton row \<in> set (skeletons s)"
    unfolding skeletons_mark_validated [OF s(1)] using assms(3) by (simp add: skeletons_def)
  then obtain r0 where "r0 \<in> set (cs_rows s)" "origin r0 = origin row"
    unfolding skeletons_def by (metis (no_types, lifting) imageE list.set_map origin_skeleton)
  then have m: "r0 \<in> set (filter (same_slot (reactivation row)) (cs_rows s))"
    by (simp add: same_slot_def reactivation_def origin_def)
  then obtain x xs where xs: "filter (same_slot (reactivation row)) (cs_rows s) = x # xs"
    by (cases "filter (same_slot (reactivation row)) (cs_rows s)") auto
  let ?s' = "snd (update_rows (same_slot (reactivation row)) (overwrite_row (reactivation row) now) s)"
  have "overwrite_row (reactivation row) now r0 \<in> set (cs_rows ?s')"
    using m by (auto simp: update_rows_def)
  moreover have "slot (overwrite_row (reactivation row) now r0) = slot row \<and> cr_status (overwrite_row (reactivation row) now r0) = Active"
    using m by (simp add: overwrite_row_def slot_def same_slot_def reactivation_def)
  ultimately show ?thesis
    using assms(1,2) s xs by (auto simp: record_verdict_def store_upsert_def)
qed

section \<open>Isolation and types\<close>

text \<open>C18. Keys stay with their tenant. After any interleaving of credential requests and calls of
  all tenants, with any statements failing, every provider a call of a tenant reaches, for a
  completion or an embedding, holds a key that decrypts from a ciphertext which the table once
  held for that tenant.\<close>

theorem keys_stay_with_their_tenant:
  assumes "api_reach w k store a H"
    and "llm_call fails mfails (wi_backends w) k store now t role (as_byok a) = (r, b, called)"
    and "resolve_provider fails' (wi_backends w) k now' t (as_byok a) = (q, b')"
  shows "(\<forall>e \<in> set called. \<exists>or \<in> H. fst or = t \<and> (\<exists>key. decrypt_origin (wi_backends w) or = Plain key \<and> en_key e = trim key)) \<and>
    (\<forall>e. q = Inr (Some e) \<longrightarrow>
      (\<exists>or \<in> H. fst or = t \<and> (\<exists>key. decrypt_origin (wi_backends w) or = Plain key \<and> ee_key e = trim key)))"
  using llm_call_owned [OF assms(2)] resolve_provider_owned [OF assms(3)] api_reach_safe [OF assms(1)]
  unfolding secrets_def by blast

text \<open>C19. The types of the stored configuration. In every reachable table ids and (tenant,
  provider, purpose) slots are unique, and every row has at most 16 roles with valid names and
  models, cost limits between one cent and the safety ceiling, and a failover chain of at most
  two distinct other credentials of the same tenant.\<close>

theorem stored_configuration_is_well_typed:
  assumes "api_reach w k store a H"
  shows "distinct (map cr_id (cs_rows (api_store a))) \<and> distinct (map slot (cs_rows (api_store a))) \<and>
    (\<forall>r \<in> set (cs_rows (api_store a)). roles_ok (cr_roles r) \<and> limits_ok (cr_limits r) \<and>
       distinct (cr_chain r) \<and> length (cr_chain r) \<le> 2 \<and>
       (\<forall>i \<in> set (cr_chain r). \<exists>f \<in> set (cs_rows (api_store a)). cr_id f = i \<and> f \<noteq> r \<and> cr_tenant f = cr_tenant r))"
proof -
  have ok: "table_ok (cs_rows (api_store a))" using api_reach_safe [OF assms] by simp
  have "\<exists>f \<in> set (cs_rows (api_store a)). cr_id f = i \<and> f \<noteq> r \<and> cr_tenant f = cr_tenant r"
    if r: "r \<in> set (cs_rows (api_store a))" and i: "i \<in> set (cr_chain r)" for r i
  proof -
    have "row_ok (cs_rows (api_store a)) r" using ok r by (simp add: table_ok_def)
    then obtain f where "f \<in> set (cs_rows (api_store a))" "cr_id f = i" "cr_tenant f = cr_tenant r" "cr_id r \<notin> set (cr_chain r)"
      using i unfolding row_ok_def by blast
    then show ?thesis using i by auto
  qed
  then show ?thesis using ok by (simp add: table_ok_def row_ok_def chain_ok_def FAILOVER_CHAIN_MAX_LEN_def)
qed

section \<open>A run\<close>

text \<open>A backend that keeps keys in the clear, providers that answer with the key they hold.\<close>

definition demo_wiring :: wiring where
  "demo_wiring = \<lparr>wi_byok = True,
     wi_backend = Some (''local'', \<lambda>t p u key. Inr \<lparr>bl_ciphertext = key, bl_nonce = [], bl_tag = [], bl_version = 1\<rparr>),
     wi_backends = [(''local'', \<lambda>t p u bl. Plain (bl_ciphertext bl))], wi_bill = None, wi_scoped = True,
     wi_http = \<lambda>url hs. HResponse 200 NotJson\<rparr>"

definition demo_sdk :: sdk where
  "demo_sdk = \<lparr>sdk_build = \<lambda>e. Inr (), sdk_call = \<lambda>e role. Inr (en_key e, None), sdk_fallback = \<lambda>role. Inr ''demo'',
     sdk_auth_error = \<lambda>e. False, sdk_build_embed = \<lambda>e. Inr (), sdk_local_embed = Inr ()\<rparr>"

definition demo_body :: "string \<Rightarrow> create_body" where
  "demo_body key = \<lparr>cb_provider = OpenAI, cb_purpose = ForLlm, cb_key = key, cb_base_url = None, cb_model = None,
     cb_embed_model = None\<rparr>"

definition demo_row :: "string \<Rightarrow> nat \<Rightarrow> nat \<Rightarrow> nat option \<Rightarrow> cred_row" where
  "demo_row key created updated used = \<lparr>cr_id = ''c1'', cr_tenant = ''acme'', cr_provider = OpenAI, cr_purpose = ForLlm,
     cr_blob = \<lparr>bl_ciphertext = key, bl_nonce = [], bl_tag = [], bl_version = 1\<rparr>,
     cr_fingerprint = take 3 key @ ''...'' @ drop (length key - 4) key, cr_base_url = None, cr_model = None,
     cr_embed_model = None, cr_roles = [], cr_chain = [], cr_limits = [], cr_status = Active, cr_used = used,
     cr_validated = Some updated, cr_error = None, cr_created = created, cr_created_by = ''admin'', cr_updated = updated,
     cr_backend = ''local''\<rparr>"

definition demo_state :: "cred_row list \<Rightarrow> cred_cache \<Rightarrow> chain_cache \<Rightarrow> api" where
  "demo_state rows cache cc = \<lparr>as_byok = \<lparr>by_store = \<lparr>cs_engine = True, cs_rows = rows\<rparr>, by_cache = cache,
     by_chains = cc, by_spend = Some [], by_embeds = [], by_local = False\<rparr>, as_models = []\<rparr>"

lemma demo_created:
  "create_credential {} demo_wiring ''acme'' ''admin'' ''c1'' (demo_body ''sk-first'') 1 (demo_state [] [] []) =
    (Inr (to_public_view (demo_row ''sk-first'' 1 1 None)), demo_state [demo_row ''sk-first'' 1 1 None] [] [])"
  by (simp add: create_credential_def demo_wiring_def demo_body_def demo_state_def fingerprint_for_def validate_def
      validate_openai_compat_def judge_def verdict_def given_or_def given_def persist_credential_def store_upsert_def
      api_store_def new_cred_of_def inserted_cred_def mark_validated_def update_rows_def with_store_def drop_resolved_def
      resolver_invalidate_def get_by_id_def first_row_def demo_row_def)

lemma demo_rotated:
  "create_credential {} demo_wiring ''acme'' ''admin'' ''c2'' (demo_body ''sk-other'') 3
      (demo_state [demo_row ''sk-first'' 1 1 (Some 2)] [((''acme'', ForLlm), 9, c)] ch) =
    (Inr (to_public_view (demo_row ''sk-other'' 1 3 (Some 2))), demo_state [demo_row ''sk-other'' 1 3 (Some 2)] [] ch)"
  by (simp add: create_credential_def demo_wiring_def demo_body_def demo_state_def fingerprint_for_def validate_def
      validate_openai_compat_def judge_def verdict_def given_or_def given_def persist_credential_def store_upsert_def
      api_store_def new_cred_of_def inserted_cred_def mark_validated_def update_rows_def with_store_def drop_resolved_def
      resolver_invalidate_def get_by_id_def first_row_def demo_row_def same_slot_def overwrite_row_def)

definition demo_cred :: "string \<Rightarrow> cred" where
  "demo_cred key = \<lparr>tc_id = ''c1'', tc_tenant = ''acme'', tc_provider = OpenAI, tc_purpose = ForLlm, tc_key = key,
     tc_fingerprint = take 3 key @ ''...'' @ drop (length key - 4) key, tc_base_url = None, tc_model = None,
     tc_embed_model = None, tc_roles = [], tc_chain = [], tc_limits = [], tc_status = Active\<rparr>"

definition demo_entry :: "string \<Rightarrow> entry" where
  "demo_entry key = \<lparr>en_key = key, en_base_url = None, en_credential = ''c1'', en_provider = OpenAI, en_model = ''gpt-4.1''\<rparr>"

lemma demo_trims:
  "trim ''acme'' = ''acme''" "trim ''c1'' = ''c1''" "trim ''sk-first'' = ''sk-first''" "trim ''sk-other'' = ''sk-other''"
  "trim ''sk-...irst'' = ''sk-...irst''" "trim ''sk-...ther'' = ''sk-...ther''"
  by (simp_all add: trim_def trim_space_def code_def)

lemma demo_to_cred: "key \<in> {''sk-first'', ''sk-other''} \<Longrightarrow> row_to_cred (demo_row key c u v) key = demo_cred key"
  by (auto simp: row_to_cred_def demo_row_def demo_cred_def demo_trims trim_dict_def)

lemma demo_resolve:
  assumes "key \<in> {''sk-first'', ''sk-other''}"
  shows "resolve {} (wi_backends demo_wiring) \<lparr>cs_engine = True, cs_rows = [demo_row key c u v]\<rparr> [] ''acme'' ForLlm now =
    (Inr (Some (demo_cred key)), \<lparr>cs_engine = True, cs_rows = [demo_row key c u (Some now)]\<rparr>,
     [((''acme'', ForLlm), now + CACHE_TTL, demo_cred key)])"
proof -
  have d: "decrypt_row (wi_backends demo_wiring) (demo_row key c u v) = Plain key"
    by (simp add: decrypt_row_def demo_wiring_def demo_row_def)
  have g: "get_active_for_purpose {} \<lparr>cs_engine = True, cs_rows = [demo_row key c u v]\<rparr> ''acme'' ForLlm = Some (demo_row key c u v)"
    by (simp add: get_active_for_purpose_def first_row_def sort_desc_def demo_row_def)
  have t: "touch_last_used {} \<lparr>cs_engine = True, cs_rows = [demo_row key c u v]\<rparr> (tc_id (demo_cred key)) now =
      \<lparr>cs_engine = True, cs_rows = [demo_row key c u (Some now)]\<rparr>"
    by (simp add: touch_last_used_def update_rows_def demo_row_def demo_cred_def)
  show ?thesis
    using d g t demo_to_cred [OF assms]
    by (simp add: resolve_def demo_wiring_def cache_get_def cache_put_def touch_key_def evict_def CACHE_MAX_ENTRIES_def Let_def)
qed

lemma demo_build: "build_chain {} (wi_backends demo_wiring) demo_sdk True now (demo_cred key) role s = (Inr [demo_entry key], s)"
  by (simp add: build_chain_def build_one_def entry_for_def demo_cred_def demo_entry_def demo_sdk_def model_for_role_def)

lemma demo_ceiling: "apply_cost_ceiling False b (demo_cred key) role t now = role"
  by (simp add: apply_cost_ceiling_def cost_ceiling_for_role_def demo_cred_def split: option.split)

lemma demo_call:
  "llm_call {} False (wi_backends demo_wiring) demo_sdk True 2 ''acme'' ''coder''
      (as_byok (demo_state [demo_row ''sk-first'' 1 1 None] [] [])) =
    (Inr ''sk-first'', as_byok (demo_state [demo_row ''sk-first'' 1 1 (Some 2)]
        [((''acme'', ForLlm), 2 + CACHE_TTL, demo_cred ''sk-first'')]
        [((''acme'', OpenAI, ''coder''), [demo_entry ''sk-first''])]), [demo_entry ''sk-first''])"
proof -
  have c: "tc_tenant (demo_cred key) = ''acme''" "tc_provider (demo_cred key) = OpenAI" for key
    by (simp_all add: demo_cred_def)
  have s: "sdk_call demo_sdk (demo_entry key) role = Inr (key, None)" for key role
    by (simp add: demo_sdk_def demo_entry_def)
  show ?thesis
    using demo_resolve [of "''sk-first''" 1 1 None 2]
    by (simp add: llm_call_def demo_state_def demo_ceiling get_or_build_chain_def c s demo_build touch_key_def evict_def
        PROVIDER_CACHE_MAX_def meter_after_call_def)
qed

text \<open>The state after a create and a call, and the call after a rotation.\<close>

lemma demo_reach:
  "api_reach demo_wiring demo_sdk True (demo_state [demo_row ''sk-first'' 1 1 (Some 2)]
      [((''acme'', ForLlm), 2 + CACHE_TTL, demo_cred ''sk-first'')]
      [((''acme'', OpenAI, ''coder''), [demo_entry ''sk-first''])]) {origin (demo_row ''sk-first'' 1 1 None)}"
proof -
  let ?a1 = "demo_state [demo_row ''sk-first'' 1 1 None] [] []"
  have v: "credential_create (cb_key (demo_body ''sk-first'')) (cb_base_url (demo_body ''sk-first''))
      (cb_model (demo_body ''sk-first'')) (cb_embed_model (demo_body ''sk-first'')) = Inr ()"
    by (simp add: credential_create_def demo_body_def base_url_must_be_https_def py_strip_def py_space_def code_def)
  have i: "api_init \<lparr>cs_engine = True, cs_rows = []\<rparr> = demo_state [] [] []"
    by (simp add: api_init_def demo_state_def)
  have r1: "api_reach demo_wiring demo_sdk True ?a1 ({} \<union> origins (api_store ?a1))"
  proof (rule api_reach.step [OF api_reach.start [of _ _ _ True]])
    have "''c1'' \<notin> cr_id ` set (cs_rows (api_store (demo_state [] [] [])))" by (simp add: api_store_def demo_state_def)
    from api_step.create [OF demo_trims(1) this v demo_created] show
      "api_step demo_wiring demo_sdk True (api_init \<lparr>cs_engine = True, cs_rows = []\<rparr>) ?a1" by (simp only: i)
  qed
  have "api_step demo_wiring demo_sdk True ?a1 (?a1\<lparr>as_byok := as_byok (demo_state [demo_row ''sk-first'' 1 1 (Some 2)]
        [((''acme'', ForLlm), 2 + CACHE_TTL, demo_cred ''sk-first'')] [((''acme'', OpenAI, ''coder''), [demo_entry ''sk-first''])])\<rparr>)"
    by (rule api_step.call [OF demo_trims(1) demo_call])
  from api_reach.step [OF r1 this] show ?thesis
    by (simp add: demo_state_def origins_def api_store_def origin_def demo_row_def)
qed

lemma demo_embedding:
  "\<exists>b. resolve_provider {} (wi_backends demo_wiring) demo_sdk 4 ''acme''
      (as_byok (demo_state [demo_row ''sk-first'' 1 1 (Some 2)] [((''acme'', ForLlm), 2 + CACHE_TTL, demo_cred ''sk-first'')] cc)) =
    (Inr (Some \<lparr>ee_key = ''sk-first'', ee_base_url = None, ee_provider = OpenAI, ee_model = ''text-embedding-3-small''\<rparr>), b)"
proof -
  have "get_active_for_purpose {} \<lparr>cs_engine = True, cs_rows = [demo_row ''sk-first'' 1 1 (Some 2)]\<rparr> ''acme'' ForEmbedding = None"
    by (simp add: get_active_for_purpose_def first_row_def sort_desc_def demo_row_def)
  moreover have "\<not> 2 + CACHE_TTL \<le> 4" by (simp add: CACHE_TTL_def)
  ultimately show ?thesis
    by (simp add: resolve_provider_def resolve_def demo_wiring_def demo_state_def cache_get_def touch_key_def demo_cred_def
        use_embeddings_def get_or_build_embeddings_def build_embeddings_def embed_entry_for_def demo_sdk_def given_or_def given_def Let_def)
qed

section \<open>Witnesses\<close>

theorem keys_stay_with_their_tenant_witness:
  "\<exists>or \<in> {origin (demo_row ''sk-first'' 1 1 None)}. fst or = ''acme'' \<and>
    (\<exists>key. decrypt_origin (wi_backends demo_wiring) or = Plain key \<and> ''sk-first'' = trim key)"
proof -
  obtain b where q: "resolve_provider {} (wi_backends demo_wiring) demo_sdk 4 ''acme''
      (as_byok (demo_state [demo_row ''sk-first'' 1 1 (Some 2)] [((''acme'', ForLlm), 2 + CACHE_TTL, demo_cred ''sk-first'')]
        [((''acme'', OpenAI, ''coder''), [demo_entry ''sk-first''])])) =
    (Inr (Some \<lparr>ee_key = ''sk-first'', ee_base_url = None, ee_provider = OpenAI, ee_model = ''text-embedding-3-small''\<rparr>), b)"
    using demo_embedding by blast
  obtain r c called where l: "llm_call {} False (wi_backends demo_wiring) demo_sdk True 4 ''acme'' ''coder''
      (as_byok (demo_state [demo_row ''sk-first'' 1 1 (Some 2)] [((''acme'', ForLlm), 2 + CACHE_TTL, demo_cred ''sk-first'')]
        [((''acme'', OpenAI, ''coder''), [demo_entry ''sk-first''])])) = (r, c, called)"
    by (metis surj_pair)
  from keys_stay_with_their_tenant [OF demo_reach l q] show ?thesis by simp
qed

theorem stored_configuration_is_well_typed_witness:
  "distinct (map slot [demo_row ''sk-first'' 1 1 (Some 2)]) \<and> roles_ok (cr_roles (demo_row ''sk-first'' 1 1 (Some 2)))"
  using stored_configuration_is_well_typed [OF demo_reach] by (simp add: demo_state_def api_store_def)

text \<open>The second call is answered with the key that was replaced.\<close>

theorem rotation_keeps_the_old_key_witness:
  "fst (llm_call {} False (wi_backends demo_wiring) demo_sdk True 4 ''acme'' ''coder''
      (as_byok (demo_state [demo_row ''sk-other'' 1 3 (Some 2)] [] [((''acme'', OpenAI, ''coder''), [demo_entry ''sk-first''])]))) =
    Inr ''sk-first''"
proof -
  let ?ch = "[((''acme'', OpenAI, ''coder''), [demo_entry ''sk-first''])]"
  have c: "tc_tenant (demo_cred ''sk-other'') = ''acme''" "tc_provider (demo_cred ''sk-other'') = cb_provider (demo_body ''sk-other'')"
    "tc_key (demo_cred ''sk-other'') = trim (cb_key (demo_body ''sk-other''))"
    "cost_ceiling_for_role (demo_cred ''sk-other'') ''coder'' = None"
    by (simp_all add: demo_cred_def demo_body_def demo_trims cost_ceiling_for_role_def)
  have d: "dget (by_chains (as_byok (demo_state [demo_row ''sk-first'' 1 1 (Some 2)] [((''acme'', ForLlm), 9, demo_cred ''sk-first'')] ?ch)))
      (''acme'', cb_provider (demo_body ''sk-other''), ''coder'') = Some [demo_entry ''sk-first'']"
    by (simp add: demo_state_def demo_body_def)
  have "resolve {} (wi_backends demo_wiring) (api_store (demo_state [demo_row ''sk-other'' 1 3 (Some 2)] [] ?ch))
      (by_cache (as_byok (demo_state [demo_row ''sk-other'' 1 3 (Some 2)] [] ?ch))) ''acme'' ForLlm 4 =
    (Inr (Some (demo_cred ''sk-other'')), \<lparr>cs_engine = True, cs_rows = [demo_row ''sk-other'' 1 3 (Some 4)]\<rparr>,
     [((''acme'', ForLlm), 4 + CACHE_TTL, demo_cred ''sk-other'')])"
    using demo_resolve [of "''sk-other''" 1 3 "Some 2" 4] by (simp add: demo_state_def api_store_def)
  from rotation_keeps_the_old_key [OF demo_rotated d this c] show ?thesis
    by (simp add: demo_sdk_def demo_entry_def)
qed

theorem failover_order_witness:
  "snd (try_chain demo_sdk ''coder'' [demo_entry ''sk-first''] None) = [demo_entry ''sk-first''] \<and>
    hd [demo_entry ''sk-first''] = entry_for (demo_cred ''sk-first'') ''coder''"
proof -
  have "try_chain demo_sdk ''coder'' [demo_entry ''sk-first''] None =
      (Inr (''sk-first'', demo_entry ''sk-first'', None), [demo_entry ''sk-first''])"
    by (simp add: demo_sdk_def demo_entry_def)
  from failover_order [OF demo_build [of 4 "''sk-first''" "''coder''" "\<lparr>cs_engine = True, cs_rows = []\<rparr>"] this]
  show ?thesis by (simp add: demo_sdk_def)
qed

theorem stale_tags_are_refused_witness:
  "(\<exists>e. update_role_cost_limits {} {} demo_wiring ''acme'' ''c1'' (Some (etag_from (demo_row ''sk-first'' 1 1 None))) [] 9
      (demo_state [demo_row ''sk-first'' 1 3 None] [] []) = (Inl e, demo_state [demo_row ''sk-first'' 1 3 None] [] [])) \<and>
    (\<exists>v tag a. update_role_models {} {} demo_wiring ''acme'' ''c1'' (Some (etag_from (demo_row ''sk-first'' 1 3 None))) [] 9
      (demo_state [demo_row ''sk-first'' 1 3 None] [] []) = (Inr (v, tag), a) \<and> pv_roles v = [])"
proof -
  let ?a = "demo_state [demo_row ''sk-first'' 1 3 None] [] []" and ?r = "demo_row ''sk-first'' 1 3 None"
    and ?old = "demo_row ''sk-first'' 1 1 None"
  have ok: "table_ok (cs_rows (api_store ?a))"
    by (simp add: demo_state_def api_store_def table_ok_def row_ok_def demo_row_def demo_trims roles_ok_def limits_ok_def chain_ok_def)
  have "cr_id ?r = ''c1'' \<and> cr_tenant ?r = ''acme''" by (simp add: demo_row_def)
  then have g: "get_by_id {} (api_store ?a) ''acme'' ''c1'' = Some ?r"
    by (simp add: get_by_id_def first_row_def demo_state_def api_store_def)
  have t: "time_ok (cr_updated ?r div 1000000)" "time_ok (cr_updated ?old div 1000000)" and u: "cr_updated ?old \<noteq> cr_updated ?r"
    and w: "wi_byok demo_wiring"
    by (simp_all add: demo_row_def time_ok_def demo_wiring_def)
  have e: "entitled demo_wiring {} ''acme'' ''byok.role_models'' ([] \<noteq> []) = Inr ()" by (simp add: entitled_def)
  from stale_tags_are_refused [OF ok g t w, of "{}" "[]" 9 "[]" "[]"] show ?thesis using u e by blast
qed

end
