(* ===== verification/Permissions.thy ===== *)
theory Permissions
  imports Prelude
begin

text \<open>
  \<open>engramia/api/permissions.py\<close>: the permissions of the four roles and the check a route runs
  before its handler. Without an authentication context (None) nothing is checked.
\<close>

definition READER_PERMS :: "string list" where
  "READER_PERMS = [''health'', ''metrics'', ''recall'', ''feedback:read'', ''skills:search'', ''jobs:list'', ''jobs:read'',
     ''analytics:read'']"

definition EDITOR_PERMS :: "string list" where
  "EDITOR_PERMS = READER_PERMS @ [''learn'', ''evaluate'', ''compose'', ''evolve'', ''analyze_failures'',
     ''skills:register'', ''aging'', ''feedback:decay'', ''jobs:cancel'', ''patterns:delete_own'', ''analytics:rollup'']"

definition ADMIN_PERMS :: "string list" where
  "ADMIN_PERMS = EDITOR_PERMS @ [''patterns:delete'', ''import'', ''export'', ''keys:create'', ''keys:list'',
     ''keys:revoke'', ''keys:rotate'', ''governance:read'', ''governance:write'', ''governance:admin'',
     ''governance:delete'', ''audit:read'', ''billing:read'', ''billing:manage'', ''credentials:read'',
     ''credentials:write'', ''credentials:role_models:write'', ''credentials:failover_chain:write'',
     ''credentials:role_cost_limits:write'']"

definition OWNER_PERMS :: "string list" where "OWNER_PERMS = [''*'']"

definition PERMISSIONS :: "(string, string list) dict" where
  "PERMISSIONS = [(''reader'', READER_PERMS), (''editor'', EDITOR_PERMS), (''admin'', ADMIN_PERMS), (''owner'', OWNER_PERMS)]"

definition perms_of :: "string \<Rightarrow> string list" where
  "perms_of role = (case dget PERMISSIONS role of None \<Rightarrow> [] | Some ps \<Rightarrow> ps)"

definition require_permission :: "string option \<Rightarrow> string \<Rightarrow> unit res" where
  "require_permission ctx perm =
     (case ctx of
        None \<Rightarrow> Inr ()
      | Some role \<Rightarrow>
          if ''*'' \<notin> set (perms_of role) \<and> perm \<notin> set (perms_of role) then Inl (HttpError 403 ''permission'') else Inr ())"

definition allowed :: "string \<Rightarrow> string \<Rightarrow> bool" where
  "allowed role perm \<longleftrightarrow> require_permission (Some role) perm = Inr ()"

lemma allowed_iff: "allowed role perm \<longleftrightarrow> ''*'' \<in> set (perms_of role) \<or> perm \<in> set (perms_of role)"
  by (auto simp: allowed_def require_permission_def)

lemma perms_of_roles [simp]:
  "perms_of ''reader'' = READER_PERMS" "perms_of ''editor'' = EDITOR_PERMS" "perms_of ''admin'' = ADMIN_PERMS"
  "perms_of ''owner'' = OWNER_PERMS"
  by (simp_all add: perms_of_def PERMISSIONS_def)

lemma perms_of_unknown: "role \<notin> {''reader'', ''editor'', ''admin'', ''owner''} \<Longrightarrow> perms_of role = []"
  by (simp add: perms_of_def PERMISSIONS_def)

text \<open>The roles form a chain.\<close>

lemma role_chain:
  "allowed ''reader'' p \<Longrightarrow> allowed ''editor'' p" "allowed ''editor'' p \<Longrightarrow> allowed ''admin'' p" "allowed ''owner'' p"
  by (auto simp: allowed_iff EDITOR_PERMS_def ADMIN_PERMS_def OWNER_PERMS_def)

lemma unknown_role_denied: "role \<notin> {''reader'', ''editor'', ''admin'', ''owner''} \<Longrightarrow> \<not> allowed role p"
  by (simp add: allowed_iff perms_of_unknown)

end
