(* ===== verification/Identity.thy ===== *)
theory Identity
  imports Resolver Permissions
begin

text \<open>
  Who a request acts for: the tables of tenants, projects, users, API keys and one-time
  tokens, the authentication of \<open>engramia/api/auth.py\<close> and the key management of
  \<open>engramia/api/keys.py\<close>. Times are whole seconds. SHA-256 is a parameter \<open>sha\<close>, the random
  parts of keys and ids are arguments. A statement that the code does not guard is taken to
  succeed.
\<close>

section \<open>Tables\<close>

record tenant_row =
  te_id :: string
  te_name :: string
  te_deleted :: "nat option"

record project_row =
  pr_id :: string
  pr_tenant :: string
  pr_name :: string
  pr_deleted :: "nat option"

record user_row =
  us_id :: string
  us_email :: string
  us_hash :: "string option"
  us_tenant :: string
  us_name :: "string option"
  us_provider :: string
  us_provider_id :: "string option"
  us_verified :: bool
  us_must_change :: bool
  us_last_login :: "nat option"
  us_created :: nat
  us_deleted :: "nat option"

record key_row =
  ke_id :: string
  ke_tenant :: string
  ke_project :: string
  ke_name :: string
  ke_prefix :: string
  ke_hash :: string
  ke_role :: string
  ke_max :: "int option"
  ke_created :: nat
  ke_used :: "nat option"
  ke_revoked :: "nat option"
  ke_expires :: "nat option"

record token_row =
  to_hash :: string
  to_user :: string
  to_expires :: nat
  to_consumed :: "nat option"
  to_reason :: "string option"

record idb =
  d_tenants :: "tenant_row list"
  d_projects :: "project_row list"
  d_users :: "user_row list"
  d_keys :: "key_row list"
  d_verify :: "token_row list"
  d_delete :: "token_row list"
  d_jtis :: "(string, nat) dict"

text \<open>Who a request acts for.\<close>

record auth_ctx =
  cx_key :: string
  cx_tenant :: string
  cx_project :: string
  cx_role :: string
  cx_max :: "int option"

section \<open>Looking up a key\<close>

record key_info =
  ki_id :: string
  ki_tenant :: string
  ki_project :: string
  ki_role :: string
  ki_max :: "int option"

type_synonym key_cache = "(string, nat \<times> key_info option) dict"

definition KEY_CACHE_TTL :: nat where "KEY_CACHE_TTL = 60"
definition KEY_CACHE_MAX :: nat where "KEY_CACHE_MAX = 4096"

definition live_key :: "nat \<Rightarrow> key_row \<Rightarrow> bool" where
  "live_key now k \<longleftrightarrow> ke_revoked k = None \<and> (case ke_expires k of None \<Rightarrow> True | Some e \<Rightarrow> now < e)"

definition db_lookup :: "bool \<Rightarrow> idb \<Rightarrow> string \<Rightarrow> nat \<Rightarrow> key_info option" where
  "db_lookup fails d h now =
     (if fails then None
      else map_option (\<lambda>k. \<lparr>ki_id = ke_id k, ki_tenant = ke_tenant k, ki_project = ke_project k, ki_role = ke_role k,
             ki_max = ke_max k\<rparr>) (find (\<lambda>k. ke_hash k = h \<and> live_key now k) (d_keys d)))"

text \<open>
  The lookup through the cache in its three parts: the probe, the query and the store with
  the time of the probe. An unknown key, or a failed query, is cached as well.
\<close>

definition key_probe :: "key_cache \<Rightarrow> string \<Rightarrow> nat \<Rightarrow> key_info option option \<times> key_cache" where
  "key_probe c h now =
     (case dget c h of
        None \<Rightarrow> (None, c)
      | Some (expires, row) \<Rightarrow> if now < expires then (Some row, touch_key h c) else (None, ddel h c))"

definition key_store :: "key_cache \<Rightarrow> string \<Rightarrow> key_info option \<Rightarrow> nat \<Rightarrow> key_cache" where
  "key_store c h row t0 = evict KEY_CACHE_MAX (dput h (t0 + KEY_CACHE_TTL, row) c)"

definition lookup_key_cached :: "bool \<Rightarrow> idb \<Rightarrow> key_cache \<Rightarrow> string \<Rightarrow> nat \<Rightarrow> key_info option \<times> key_cache" where
  "lookup_key_cached fails d c h now =
     (case key_probe c h now of
        (Some row, c') \<Rightarrow> (row, c')
      | (None, c') \<Rightarrow> (let row = db_lookup fails d h now in (row, key_store c' h row now)))"

definition invalidate_key_cache :: "key_cache \<Rightarrow> string \<Rightarrow> key_cache" where
  "invalidate_key_cache c h = ddel h c"

definition ctx_of_key :: "key_info \<Rightarrow> auth_ctx" where
  "ctx_of_key i = \<lparr>cx_key = ki_id i, cx_tenant = ki_tenant i, cx_project = ki_project i, cx_role = ki_role i, cx_max = ki_max i\<rparr>"

definition db_auth :: "(string \<Rightarrow> string) \<Rightarrow> bool \<Rightarrow> idb \<Rightarrow> key_cache \<Rightarrow> string \<Rightarrow> nat \<Rightarrow> auth_ctx res \<times> key_cache" where
  "db_auth sha fails d c token now =
     (case lookup_key_cached fails d c (sha token) now of
        (None, c') \<Rightarrow> (Inl (HttpError 401 ''Invalid API key''), c')
      | (Some i, c') \<Rightarrow> (Inr (ctx_of_key i), c'))"

section \<open>Environment keys\<close>

record auth_env =
  ae_mode :: string
  ae_database_url :: string
  ae_api_keys :: string
  ae_allow_no_auth :: string
  ae_env :: string
  ae_role :: string

definition use_db_auth :: "auth_env \<Rightarrow> bool" where
  "use_db_auth e =
     (let mode = py_lower (ae_mode e) in
      if mode \<in> {''env'', ''dev'', ''oidc''} then False
      else if mode = ''db'' then True else py_strip (ae_database_url e) \<noteq> [])"

definition load_api_keys :: "auth_env \<Rightarrow> string list" where
  "load_api_keys e = filter (\<lambda>k. k \<noteq> []) (map py_strip (split_on CHR '','' (ae_api_keys e)))"

definition env_auth :: "auth_env \<Rightarrow> string \<Rightarrow> auth_ctx res" where
  "env_auth e token =
     (if token \<notin> set (load_api_keys e) then Inl (HttpError 401 ''Invalid API key'')
      else (let role = py_lower (ae_role e)
            in Inr \<lparr>cx_key = ''env-key'', cx_tenant = ''default'', cx_project = ''default'',
                 cx_role = (if role \<in> {''owner'', ''admin'', ''editor'', ''reader''} then role else ''owner''), cx_max = None\<rparr>))"

text \<open>What it takes to serve requests without authentication.\<close>

definition no_auth_allowed :: "auth_env \<Rightarrow> unit res" where
  "no_auth_allowed e =
     (if py_lower (ae_allow_no_auth e) \<notin> {''true'', ''1'', ''yes''} then Inl (HttpError 503 ''no authentication configured'')
      else if py_strip (py_lower (ae_env e)) \<in> {''production'', ''prod''}
      then Inl (HttpError 503 ''Authentication cannot be disabled in a production environment'') else Inr ())"

text \<open>
  \<open>require_auth\<close>: no context (None) in the unauthenticated modes. \<open>oidc\<close> and \<open>cloud\<close> answer
  for the tokens of those schemes.
\<close>

definition require_auth ::
  "auth_env \<Rightarrow> (string \<Rightarrow> string) \<Rightarrow> (string \<Rightarrow> auth_ctx res) \<Rightarrow> (string \<Rightarrow> auth_ctx res) \<Rightarrow> bool \<Rightarrow> idb option \<Rightarrow> key_cache
   \<Rightarrow> string option \<Rightarrow> nat \<Rightarrow> auth_ctx option res \<times> key_cache" where
  "require_auth e sha oidc cloud fails d c header now =
     (if py_lower (ae_mode e) = ''dev'' \<or> \<not> use_db_auth e \<and> load_api_keys e = []
      then (bind_res (no_auth_allowed e) (\<lambda>_. Inr None), c)
      else (let h = (case header of None \<Rightarrow> [] | Some v \<Rightarrow> v) in
        if \<not> prefix ''Bearer '' h then (Inl (HttpError 401 ''Missing or malformed Authorization header''), c)
        else (let token = drop 7 h in
          if py_lower (ae_mode e) = ''oidc'' then (map_sum id Some (oidc token), c)
          else if prefix ''eyJ'' token then (map_sum id Some (cloud token), c)
          else if use_db_auth e then
            (case d of
               None \<Rightarrow> (Inl (HttpError 503 ''Authentication service not available''), c)
             | Some db \<Rightarrow> (let (r, c') = db_auth sha fails db c token now in (map_sum id Some r, c')))
          else (map_sum id Some (env_auth e token), c))))"

section \<open>Managing keys\<close>

text \<open>A generated key with its display prefix and hash, from its random suffix.\<close>

definition generate_key :: "(string \<Rightarrow> string) \<Rightarrow> string \<Rightarrow> string \<times> string \<times> string" where
  "generate_key sha rnd =
     (''engramia_sk_'' @ rnd, ''engramia_sk_'' @ take 8 rnd @ ''...'', sha (''engramia_sk_'' @ rnd))"

definition integrity_error :: exn where "integrity_error = OtherError ''IntegrityError''"

text \<open>INSERT INTO api_keys, with the primary key and the unique hash.\<close>

definition insert_key :: "key_row \<Rightarrow> idb \<Rightarrow> idb res" where
  "insert_key k d =
     (if \<exists>x \<in> set (d_keys d). ke_id x = ke_id k \<or> ke_hash x = ke_hash k then Inl integrity_error
      else Inr (d\<lparr>d_keys := d_keys d @ [k]\<rparr>))"

definition new_key :: "(string \<Rightarrow> string) \<Rightarrow> string \<Rightarrow> string \<Rightarrow> string \<Rightarrow> string \<Rightarrow> string \<Rightarrow> string \<Rightarrow> int option \<Rightarrow> nat option \<Rightarrow> nat \<Rightarrow> key_row" where
  "new_key sha kid rnd tenant project name role mx expires now =
     (case generate_key sha rnd of
        (full, pre, h) \<Rightarrow> \<lparr>ke_id = kid, ke_tenant = tenant, ke_project = project, ke_name = name, ke_prefix = pre, ke_hash = h,
          ke_role = role, ke_max = mx, ke_created = now, ke_used = None, ke_revoked = None, ke_expires = expires\<rparr>)"

text \<open>The answer of a creation: the id and the full key.\<close>

definition create_key_in_db ::
  "(string \<Rightarrow> string) \<Rightarrow> string \<Rightarrow> string \<Rightarrow> string \<Rightarrow> string \<Rightarrow> string \<Rightarrow> string \<Rightarrow> int option \<Rightarrow> nat option \<Rightarrow> nat \<Rightarrow> idb
   \<Rightarrow> (string \<times> string) res \<times> idb" where
  "create_key_in_db sha kid rnd tenant project name role mx expires now d =
     (case insert_key (new_key sha kid rnd tenant project name role mx expires now) d of
        Inl e \<Rightarrow> (Inl e, d)
      | Inr d' \<Rightarrow> (Inr (kid, fst (generate_key sha rnd)), d'))"

definition bootstrap ::
  "(string \<Rightarrow> string) \<Rightarrow> string \<Rightarrow> string option \<Rightarrow> string \<Rightarrow> string \<Rightarrow> string \<Rightarrow> string \<Rightarrow> string \<Rightarrow> nat \<Rightarrow> idb \<Rightarrow> (string \<times> string) res \<times> idb" where
  "bootstrap sha env_token supplied tenant_name project_name key_name kid rnd now d =
     (let expected = py_strip env_token in
      if expected = [] then (Inl (HttpError 503 ''Bootstrap is disabled''), d)
      else if py_strip (case supplied of None \<Rightarrow> [] | Some s \<Rightarrow> s) \<noteq> expected
      then (Inl (HttpError 401 ''Invalid bootstrap token''), d)
      else if d_keys d \<noteq> [] then (Inl (HttpError 409 ''Bootstrap already completed''), d)
      else (let d1 = d\<lparr>d_tenants := (if \<exists>t \<in> set (d_tenants d). te_id t = ''default''
                  then map (\<lambda>t. if te_id t = ''default'' then t\<lparr>te_name := tenant_name\<rparr> else t) (d_tenants d)
                  else d_tenants d @ [\<lparr>te_id = ''default'', te_name = tenant_name, te_deleted = None\<rparr>]),
                d_projects := (if \<exists>p \<in> set (d_projects d). pr_id p = ''default'' then d_projects d
                  else d_projects d @ [\<lparr>pr_id = ''default'', pr_tenant = ''default'', pr_name = project_name, pr_deleted = None\<rparr>])\<rparr>
            in case create_key_in_db sha kid rnd ''default'' ''default'' key_name ''owner'' None None now d1 of
                 (Inl e, _) \<Rightarrow> (Inl e, d) | (Inr r, d2) \<Rightarrow> (Inr r, d2)))"

definition ROLE_RANK :: "(string, nat) dict" where
  "ROLE_RANK = [(''reader'', 0), (''editor'', 1), (''admin'', 2), (''owner'', 3)]"

definition MAX_ASSIGNABLE :: "(string, string) dict" where
  "MAX_ASSIGNABLE = [(''owner'', ''owner''), (''admin'', ''editor''), (''editor'', ''reader''), (''reader'', ''reader'')]"

definition role_rank :: "string \<Rightarrow> nat" where
  "role_rank r = (case dget ROLE_RANK r of None \<Rightarrow> 0 | Some n \<Rightarrow> n)"

definition max_assignable :: "string \<Rightarrow> string" where
  "max_assignable r = (case dget MAX_ASSIGNABLE r of None \<Rightarrow> ''reader'' | Some m \<Rightarrow> m)"

text \<open>The route: the permission, then the handler.\<close>

definition create_key ::
  "(string \<Rightarrow> string) \<Rightarrow> auth_ctx \<Rightarrow> string \<Rightarrow> string \<Rightarrow> int option \<Rightarrow> nat option \<Rightarrow> string \<Rightarrow> string \<Rightarrow> nat \<Rightarrow> idb
   \<Rightarrow> (string \<times> string) res \<times> idb" where
  "create_key sha ctx name role mx expires kid rnd now d =
     (case require_permission (Some (cx_role ctx)) ''keys:create'' of
        Inl e \<Rightarrow> (Inl e, d)
      | Inr u \<Rightarrow>
          if role_rank (max_assignable (cx_role ctx)) < role_rank role then (Inl (HttpError 403 ''role''), d)
          else create_key_in_db sha kid rnd (cx_tenant ctx) (cx_project ctx) name role mx expires now d)"

definition list_keys :: "auth_ctx \<Rightarrow> idb \<Rightarrow> key_row list res" where
  "list_keys ctx d =
     bind_res (require_permission (Some (cx_role ctx)) ''keys:list'') (\<lambda>_.
       Inr (sort_desc ke_created (filter (\<lambda>k. ke_tenant k = cx_tenant ctx \<and> ke_project k = cx_project ctx) (d_keys d))))"

definition own_key :: "auth_ctx \<Rightarrow> string \<Rightarrow> idb \<Rightarrow> key_row option" where
  "own_key ctx kid d = find (\<lambda>k. ke_id k = kid \<and> ke_tenant k = cx_tenant ctx \<and> ke_project k = cx_project ctx) (d_keys d)"

definition update_keys :: "(key_row \<Rightarrow> bool) \<Rightarrow> (key_row \<Rightarrow> key_row) \<Rightarrow> idb \<Rightarrow> idb" where
  "update_keys P f d = d\<lparr>d_keys := map (\<lambda>k. if P k then f k else k) (d_keys d)\<rparr>"

definition revoke_key :: "auth_ctx \<Rightarrow> string \<Rightarrow> nat \<Rightarrow> idb \<Rightarrow> key_cache \<Rightarrow> unit res \<times> idb \<times> key_cache" where
  "revoke_key ctx kid now d c =
     (case require_permission (Some (cx_role ctx)) ''keys:revoke'' of
        Inl e \<Rightarrow> (Inl e, d, c)
      | Inr u \<Rightarrow>
          (case own_key ctx kid d of
             None \<Rightarrow> (Inl (HttpError 404 ''Key not found''), d, c)
           | Some k \<Rightarrow>
               if ke_revoked k \<noteq> None then (Inl (HttpError 409 ''Key is already revoked''), d, c)
               else (Inr (), update_keys (\<lambda>x. ke_id x = kid) (\<lambda>x. x\<lparr>ke_revoked := Some now\<rparr>) d,
                     invalidate_key_cache c (ke_hash k))))"

text \<open>The new full key is the answer; a hash that is taken violates the unique constraint.\<close>

definition rotate_key ::
  "(string \<Rightarrow> string) \<Rightarrow> auth_ctx \<Rightarrow> string \<Rightarrow> string \<Rightarrow> idb \<Rightarrow> key_cache \<Rightarrow> (string \<times> string) res \<times> idb \<times> key_cache" where
  "rotate_key sha ctx kid rnd d c =
     (case require_permission (Some (cx_role ctx)) ''keys:rotate'' of
        Inl e \<Rightarrow> (Inl e, d, c)
      | Inr u \<Rightarrow>
          (case own_key ctx kid d of
             None \<Rightarrow> (Inl (HttpError 404 ''Key not found''), d, c)
           | Some k \<Rightarrow>
               if ke_revoked k \<noteq> None then (Inl (HttpError 409 ''Cannot rotate a revoked key''), d, c)
               else (case generate_key sha rnd of
                   (full, pre, h) \<Rightarrow>
                     if \<exists>x \<in> set (d_keys d). ke_id x \<noteq> kid \<and> ke_hash x = h then (Inl integrity_error, d, c)
                     else (Inr (kid, full),
                           update_keys (\<lambda>x. ke_id x = kid) (\<lambda>x. x\<lparr>ke_hash := h, ke_prefix := pre, ke_used := None\<rparr>) d,
                           invalidate_key_cache c (ke_hash k)))))"

end
