(* ===== verification/KeyProps.thy ===== *)
theory KeyProps
  imports Identity
begin

text \<open>
  API keys at work: any number of server processes with a cache each, their requests
  interleaved with key management, and what a role may obtain.
\<close>

section \<open>Requests and management as steps\<close>

text \<open>
  A request that missed its process's cache is in flight: process, hash, time of the probe and,
  once it has queried the table, the row found.
\<close>

type_synonym flight = "nat \<times> string \<times> nat \<times> key_info option option"

record auth_sys =
  ay_db :: idb
  ay_clock :: nat
  ay_caches :: "nat \<Rightarrow> key_cache"
  ay_flight :: "flight list"

inductive auth_step :: "(string \<Rightarrow> string) \<Rightarrow> auth_sys \<Rightarrow> auth_sys \<Rightarrow> bool" for sha :: "string \<Rightarrow> string" where
  tick: "auth_step sha s (s\<lparr>ay_clock := ay_clock s + n\<rparr>)"
| hit: "key_probe (ay_caches s w) h (ay_clock s) = (Some row, c) \<Longrightarrow> auth_step sha s (s\<lparr>ay_caches := (ay_caches s)(w := c)\<rparr>)"
| miss: "key_probe (ay_caches s w) h (ay_clock s) = (None, c) \<Longrightarrow>
     auth_step sha s (s\<lparr>ay_caches := (ay_caches s)(w := c), ay_flight := (w, h, ay_clock s, None) # ay_flight s\<rparr>)"
| query: "ay_flight s = xs @ (w, h, t0, None) # ys \<Longrightarrow>
     auth_step sha s (s\<lparr>ay_flight := xs @ (w, h, t0, Some (db_lookup fails (ay_db s) h (ay_clock s))) # ys\<rparr>)"
| answer: "ay_flight s = xs @ (w, h, t0, Some row) # ys \<Longrightarrow>
     auth_step sha s (s\<lparr>ay_flight := xs @ ys, ay_caches := (ay_caches s)(w := key_store (ay_caches s w) h row t0)\<rparr>)"
| create: "create_key sha ctx name role mx expires kid rnd (ay_clock s) (ay_db s) = (r, d) \<Longrightarrow> auth_step sha s (s\<lparr>ay_db := d\<rparr>)"
| revoke: "revoke_key ctx kid (ay_clock s) (ay_db s) c = (r', d, c') \<Longrightarrow> auth_step sha s (s\<lparr>ay_db := d\<rparr>)"
| rotate: "rotate_key sha ctx kid rnd (ay_db s) c = (r, d, c') \<Longrightarrow> auth_step sha s (s\<lparr>ay_db := d\<rparr>)"
| evicted: "auth_step sha s (s\<lparr>ay_caches := (ay_caches s)(w := invalidate_key_cache (ay_caches s w) h)\<rparr>)"

text \<open>
  The commit of a management request and its eviction from the process's own cache are two
  steps: other requests may run between them, and the other processes never evict.
\<close>

inductive auth_reach :: "(string \<Rightarrow> string) \<Rightarrow> auth_sys \<Rightarrow> bool" for sha :: "string \<Rightarrow> string" where
  start: "auth_reach sha \<lparr>ay_db = d, ay_clock = t, ay_caches = \<lambda>w. [], ay_flight = []\<rparr>"
| step: "auth_reach sha s \<Longrightarrow> auth_step sha s s' \<Longrightarrow> auth_reach sha s'"

definition dead_hash :: "string \<Rightarrow> auth_sys \<Rightarrow> bool" where
  "dead_hash h s \<longleftrightarrow> (\<forall>k \<in> set (d_keys (ay_db s)). ke_hash k = h \<longrightarrow> \<not> live_key (ay_clock s) k)"

text \<open>Steps after which the key is still dead.\<close>

definition dead_step :: "(string \<Rightarrow> string) \<Rightarrow> string \<Rightarrow> auth_sys \<Rightarrow> auth_sys \<Rightarrow> bool" where
  "dead_step sha h s s' \<longleftrightarrow> auth_step sha s s' \<and> dead_hash h s'"

lemma dead_lookup: "dead_hash h s \<Longrightarrow> db_lookup fails (ay_db s) h (ay_clock s) = None"
  by (auto simp: db_lookup_def dead_hash_def find_None_iff)

section \<open>The age of what is cached\<close>

text \<open>Entries end within a minute of now, and requests in flight started before now.\<close>

definition within_ttl :: "auth_sys \<Rightarrow> bool" where
  "within_ttl s \<longleftrightarrow> (\<forall>w. entries (\<lambda>h (e, row). e \<le> ay_clock s + KEY_CACHE_TTL) (ay_caches s w)) \<and>
     (\<forall>(w, h, t0, row) \<in> set (ay_flight s). t0 \<le> ay_clock s)"

lemma entries_probe: "entries P c \<Longrightarrow> key_probe c h now = (r, c') \<Longrightarrow> entries P c'"
  by (auto simp: key_probe_def split: option.splits prod.splits if_splits)

lemma entries_store: "entries P c \<Longrightarrow> P h (t0 + KEY_CACHE_TTL, row) \<Longrightarrow> entries P (key_store c h row t0)"
  by (simp add: key_store_def entries_dput)

lemma aged_step:
  assumes "auth_step sha s s'" and "within_ttl s"
  shows "within_ttl s'"
  using assms
proof cases
  case (tick n)
  have "entries (\<lambda>h (e, row). e \<le> ay_clock s + n + KEY_CACHE_TTL) (ay_caches s w)" for w
    by (rule entries_mono [of "\<lambda>h (e, row). e \<le> ay_clock s + KEY_CACHE_TTL"]) (use assms(2) in \<open>auto simp: within_ttl_def\<close>)
  then show ?thesis using tick assms(2) by (fastforce simp: within_ttl_def)
next
  case (answer xs w h t0 row ys)
  have "t0 \<le> ay_clock s" using answer assms(2) by (auto simp: within_ttl_def)
  then have "entries (\<lambda>h (e, row). e \<le> ay_clock s + KEY_CACHE_TTL) (key_store (ay_caches s w) h row t0)"
    using assms(2) by (intro entries_store) (auto simp: within_ttl_def)
  then show ?thesis using answer assms(2) by (auto simp: within_ttl_def)
qed (auto simp: within_ttl_def invalidate_key_cache_def dest: entries_probe)

lemma auth_reach_aged: "auth_reach sha s \<Longrightarrow> within_ttl s"
  by (induction rule: auth_reach.induct) (auto simp: within_ttl_def dest: aged_step [unfolded within_ttl_def])

text \<open>What is left of a key that died at time T.\<close>

definition fading :: "string \<Rightarrow> nat \<Rightarrow> auth_sys \<Rightarrow> bool" where
  "fading h T s \<longleftrightarrow> dead_hash h s \<and>
     (\<forall>w. entries (\<lambda>h' (e, row). h' = h \<and> row \<noteq> None \<longrightarrow> e \<le> T + KEY_CACHE_TTL) (ay_caches s w)) \<and>
     (\<forall>(w, h', t0, row) \<in> set (ay_flight s). h' = h \<longrightarrow> T < t0 \<longrightarrow> row \<in> {None, Some None})"

lemma aged_fading: "within_ttl s \<Longrightarrow> dead_hash h s \<Longrightarrow> fading h (ay_clock s) s"
  unfolding within_ttl_def fading_def by (fastforce elim!: entries_mono)

lemma fading_step:
  assumes "dead_step sha h s s'" and f: "fading h T s"
  shows "fading h T s'"
proof -
  have d: "dead_hash h s'" and st: "auth_step sha s s'" using assms(1) by (simp_all add: dead_step_def)
  let ?P = "\<lambda>h' (e, row). h' = h \<and> row \<noteq> (None :: key_info option) \<longrightarrow> e \<le> T + KEY_CACHE_TTL"
  from st show ?thesis
  proof cases
    case (query xs w g t0 ys fails)
    have "g = h \<Longrightarrow> db_lookup fails (ay_db s) g (ay_clock s) = None" using f dead_lookup [of h s fails] by (simp add: fading_def)
    then show ?thesis using query f d by (auto simp: fading_def)
  next
    case (answer xs w g t0 row ys)
    have "?P g (t0 + KEY_CACHE_TTL, row)" using answer f by (auto simp: fading_def not_less)
    then have "entries ?P (key_store (ay_caches s w) g row t0)" using f by (intro entries_store) (auto simp: fading_def)
    then show ?thesis using answer f d by (auto simp: fading_def)
  qed (use f d in \<open>auto simp: fading_def invalidate_key_cache_def dest: entries_probe\<close>)
qed

lemma fading_run: "(dead_step sha h)\<^sup>*\<^sup>* s s' \<Longrightarrow> fading h T s \<Longrightarrow> fading h T s'"
  by (induction rule: rtranclp_induct) (auto dest: fading_step)

text \<open>C23. A dead key dies within a minute. Whatever the processes do in whatever order, a key that
  has no live row (it was revoked, rotated away or has expired) is refused by every request that
  starts a minute or more later: no cache answers for it, the table does not, and a request still
  in flight with its row started before the key died.\<close>

theorem dead_keys_are_refused_within_a_minute:
  assumes "auth_reach sha s" and "dead_hash h s" and "(dead_step sha h)\<^sup>*\<^sup>* s s'" and "ay_clock s + 60 \<le> ay_clock s'"
  shows "(\<forall>w. fst (key_probe (ay_caches s' w) h (ay_clock s')) \<in> {None, Some None}) \<and>
    (\<forall>fails. db_lookup fails (ay_db s') h (ay_clock s') = None) \<and>
    (\<forall>(w, h', t0, row) \<in> set (ay_flight s'). h' = h \<longrightarrow> (\<exists>i. row = Some (Some i)) \<longrightarrow> t0 \<le> ay_clock s)"
proof -
  have f: "fading h (ay_clock s) s'"
    by (rule fading_run [OF assms(3) aged_fading [OF auth_reach_aged [OF assms(1)] assms(2)]])
  have "fst (key_probe (ay_caches s' w) h (ay_clock s')) \<in> {None, Some None}" for w
  proof (cases "dget (ay_caches s' w) h")
    case (Some er)
    then have "snd er = None \<or> fst er \<le> ay_clock s + 60"
      using f entriesD [of _ "ay_caches s' w" h er] unfolding fading_def by (fastforce simp: KEY_CACHE_TTL_def)
    then show ?thesis using Some assms(4) by (cases er) (auto simp: key_probe_def)
  qed (simp add: key_probe_def)
  then show ?thesis using f dead_lookup [of h s'] unfolding fading_def by (fastforce simp: not_less)
qed

section \<open>What an admin can obtain\<close>

lemma find_unique: "x \<in> set xs \<Longrightarrow> P x \<Longrightarrow> (\<And>y. y \<in> set xs \<Longrightarrow> P y \<Longrightarrow> y = x) \<Longrightarrow> find P xs = Some x"
  by (metis find_None_iff find_in_set option.exhaust)

lemma db_auth_uncached:
  assumes "dget c (sha token) = None" and "k \<in> set (d_keys d)" and "ke_hash k = sha token" and "live_key now k"
    and "\<And>x. x \<in> set (d_keys d) \<Longrightarrow> ke_hash x = sha token \<Longrightarrow> x = k"
  shows "fst (db_auth sha False d c token now) = Inr \<lparr>cx_key = ke_id k, cx_tenant = ke_tenant k, cx_project = ke_project k,
    cx_role = ke_role k, cx_max = ke_max k\<rparr>"
proof -
  have "find (\<lambda>k. ke_hash k = sha token \<and> live_key now k) (d_keys d) = Some k"
  proof (rule find_unique [OF assms(2)])
    show "ke_hash k = sha token \<and> live_key now k" by (simp add: assms(3,4))
    show "y = k" if "y \<in> set (d_keys d)" "ke_hash y = sha token \<and> live_key now y" for y
      by (rule assms(5)) (use that in blast)+
  qed
  then have "db_lookup False d (sha token) now = Some \<lparr>ki_id = ke_id k, ki_tenant = ke_tenant k, ki_project = ke_project k,
      ki_role = ke_role k, ki_max = ke_max k\<rparr>" by (simp add: db_lookup_def)
  moreover have "key_probe c (sha token) now = (None, c)" by (simp add: key_probe_def assms(1))
  ultimately show ?thesis by (simp add: db_auth_def lookup_key_cached_def ctx_of_key_def Let_def)
qed

text \<open>C24. An admin can take over the owner's key. An admin may create keys up to the editor role
  only: requests for an admin or owner key are refused. But rotating is not limited by the
  role of the rotated key: for any live key of the project, the owner's included, the admin is
  given a new secret, which authenticates with the role of that key, while the old secret
  stops working.\<close>

theorem admin_takes_over_owner_key:
  assumes "cx_role ctx = ''admin''" and "own_key ctx kid d = Some k" and "live_key now k"
    and "distinct (map ke_id (d_keys d))" and "distinct (map ke_hash (d_keys d))"
    and "\<forall>x \<in> set (d_keys d). ke_hash x \<noteq> sha (''engramia_sk_'' @ rnd)" and "dget c (sha (''engramia_sk_'' @ rnd)) = None"
  shows "\<exists>d' c'. rotate_key sha ctx kid rnd d c = (Inr (kid, ''engramia_sk_'' @ rnd), d', c') \<and>
    fst (db_auth sha False d' c' (''engramia_sk_'' @ rnd) now) = Inr \<lparr>cx_key = kid, cx_tenant = cx_tenant ctx,
      cx_project = cx_project ctx, cx_role = ke_role k, cx_max = ke_max k\<rparr> \<and>
    db_lookup False d' (ke_hash k) now = None \<and> dget c' (ke_hash k) = None \<and>
    (\<forall>role \<in> {''admin'', ''owner''}. \<forall>name mx e kid' rnd'. create_key sha ctx name role mx e kid' rnd' now d = (Inl (HttpError 403 ''role''), d))"
proof -
  let ?full = "''engramia_sk_'' @ rnd"
  let ?h = "sha ?full"
  let ?pre = "''engramia_sk_'' @ take 8 rnd @ ''...''"
  define f where "f x = x\<lparr>ke_hash := ?h, ke_prefix := ?pre, ke_used := None\<rparr>" for x :: key_row
  define d' where "d' = update_keys (\<lambda>x. ke_id x = kid) f d"
  have k: "k \<in> set (d_keys d)" "ke_id k = kid" "ke_tenant k = cx_tenant ctx" "ke_project k = cx_project ctx"
    using assms(2) by (auto simp: own_key_def find_Some_iff)
  have one: "x = k" if "x \<in> set (d_keys d)" "ke_id x = kid" for x
    using assms(4) that k by (auto simp: distinct_map inj_on_def)
  have one_hash: "x = k" if "x \<in> set (d_keys d)" "ke_hash x = ke_hash k" for x
    using assms(5) that k by (auto simp: distinct_map inj_on_def)
  have perms: "require_permission (Some ''admin'') ''keys:rotate'' = Inr ()" "require_permission (Some ''admin'') ''keys:create'' = Inr ()"
    by (simp_all add: require_permission_def ADMIN_PERMS_def)
  have rot: "rotate_key sha ctx kid rnd d c = (Inr (kid, ?full), d', invalidate_key_cache c (ke_hash k))"
    using assms(1,2,3,6) perms by (auto simp: rotate_key_def generate_key_def d'_def f_def [abs_def] live_key_def)
  have rows: "set (d_keys d') = insert (f k) (set (d_keys d) - {k})"
  proof -
    have "(ke_id x = kid) = (x = k)" if "x \<in> set (d_keys d)" for x using one that k(2) by auto
    then have "d_keys d' = map (\<lambda>x. if x = k then f k else x) (d_keys d)"
      by (simp add: d'_def update_keys_def cong: map_cong)
    then show ?thesis using k(1) by auto
  qed
  have "fst (db_auth sha False d' (invalidate_key_cache c (ke_hash k)) ?full now) = Inr \<lparr>cx_key = ke_id (f k), cx_tenant = ke_tenant (f k),
      cx_project = ke_project (f k), cx_role = ke_role (f k), cx_max = ke_max (f k)\<rparr>"
    by (rule db_auth_uncached) (use assms(3,6,7) rows in \<open>auto simp: f_def live_key_def invalidate_key_cache_def dict_simps\<close>)
  moreover have "db_lookup False d' (ke_hash k) now = None"
    using rows one_hash assms(6) k(1) by (auto simp: db_lookup_def find_None_iff f_def)
  moreover have "create_key sha ctx name role mx e kid' rnd' now d = (Inl (HttpError 403 ''role''), d)"
    if "role \<in> {''admin'', ''owner''}" for name role mx e kid' rnd'
    using that assms(1) perms by (auto simp: create_key_def max_assignable_def MAX_ASSIGNABLE_def role_rank_def ROLE_RANK_def)
  ultimately show ?thesis using rot k(2-4) by (simp add: f_def invalidate_key_cache_def dict_simps)
qed

section \<open>Witnesses\<close>

definition demo_key :: "string \<Rightarrow> string \<Rightarrow> string \<Rightarrow> nat option \<Rightarrow> key_row" where
  "demo_key kid h role revoked = \<lparr>ke_id = kid, ke_tenant = ''t'', ke_project = ''p'', ke_name = ''n'', ke_prefix = [], ke_hash = h,
     ke_role = role, ke_max = None, ke_created = 0, ke_used = None, ke_revoked = revoked, ke_expires = None\<rparr>"

definition demo_db :: "key_row list \<Rightarrow> idb" where
  "demo_db ks = \<lparr>d_tenants = [], d_projects = [], d_users = [], d_keys = ks, d_verify = [], d_delete = [], d_jtis = []\<rparr>"

text \<open>
  The race: a request queries the row, the key is revoked and evicted, the request stores
  what it found; the process that evicted the key accepts it again, until 60 seconds after
  the probe of that request.
\<close>

lemma revocation_race:
  "\<exists>s s'. auth_reach sha s \<and> dead_hash ''h'' s \<and> (dead_step sha ''h'')\<^sup>*\<^sup>* s s' \<and> ay_clock s' = 59 \<and>
    (\<exists>i. fst (key_probe (ay_caches s' 0) ''h'' (ay_clock s')) = Some (Some i))"
proof -
  let ?k = "demo_key ''k'' ''h'' ''owner'' None" and ?dead = "demo_key ''k'' ''h'' ''owner'' (Some 0)"
  define i where "i = \<lparr>ki_id = ''k'', ki_tenant = ''t'', ki_project = ''p'', ki_role = ''owner'', ki_max = None\<rparr>"
  define S where "S d t c fl = \<lparr>ay_db = d, ay_clock = t, ay_caches = c, ay_flight = fl\<rparr>" for d t c fl
  have r0: "auth_reach sha (S (demo_db [?k]) 0 (\<lambda>w. []) [])" unfolding S_def by (rule auth_reach.start)
  have "auth_step sha (S (demo_db [?k]) 0 (\<lambda>w. []) []) (S (demo_db [?k]) 0 (\<lambda>w. []) [(0, ''h'', 0, None)])"
    using auth_step.miss [of "S (demo_db [?k]) 0 (\<lambda>w. []) []" 0 "''h''" "[]" sha] by (simp add: S_def key_probe_def fun_upd_idem)
  then have r1: "auth_reach sha (S (demo_db [?k]) 0 (\<lambda>w. []) [(0, ''h'', 0, None)])" by (rule auth_reach.step [OF r0])
  have "db_lookup False (demo_db [?k]) ''h'' 0 = Some i"
    by (simp add: db_lookup_def demo_db_def demo_key_def live_key_def i_def)
  then have "auth_step sha (S (demo_db [?k]) 0 (\<lambda>w. []) [(0, ''h'', 0, None)]) (S (demo_db [?k]) 0 (\<lambda>w. []) [(0, ''h'', 0, Some (Some i))])"
    using auth_step.query [of "S (demo_db [?k]) 0 (\<lambda>w. []) [(0, ''h'', 0, None)]" "[]" 0 "''h''" 0 "[]" sha False] by (simp add: S_def)
  then have r2: "auth_reach sha (S (demo_db [?k]) 0 (\<lambda>w. []) [(0, ''h'', 0, Some (Some i))])" by (rule auth_reach.step [OF r1])
  let ?ctx = "\<lparr>cx_key = ''o'', cx_tenant = ''t'', cx_project = ''p'', cx_role = ''owner'', cx_max = None\<rparr>"
  have "revoke_key ?ctx ''k'' 0 (demo_db [?k]) [] = (Inr (), demo_db [?dead], [])"
    by (simp add: revoke_key_def require_permission_def OWNER_PERMS_def own_key_def demo_db_def demo_key_def update_keys_def
        invalidate_key_cache_def)
  then have "auth_step sha (S (demo_db [?k]) 0 (\<lambda>w. []) [(0, ''h'', 0, Some (Some i))]) (S (demo_db [?dead]) 0 (\<lambda>w. []) [(0, ''h'', 0, Some (Some i))])"
    using auth_step.revoke [of ?ctx "''k''" "S (demo_db [?k]) 0 (\<lambda>w. []) [(0, ''h'', 0, Some (Some i))]" "[]"] by (simp add: S_def)
  then have r3: "auth_reach sha (S (demo_db [?dead]) 0 (\<lambda>w. []) [(0, ''h'', 0, Some (Some i))])" by (rule auth_reach.step [OF r2])
  let ?c = "(\<lambda>w. [])(0 := key_store [] ''h'' (Some i) 0)"
  have dead: "dead_hash ''h'' (S (demo_db [?dead]) t c fl)" for t c fl
    by (simp add: dead_hash_def S_def demo_db_def demo_key_def live_key_def)
  have "auth_step sha (S (demo_db [?dead]) 0 (\<lambda>w. []) [(0, ''h'', 0, Some (Some i))]) (S (demo_db [?dead]) 0 ?c [])"
    using auth_step.answer [of "S (demo_db [?dead]) 0 (\<lambda>w. []) [(0, ''h'', 0, Some (Some i))]" "[]" 0 "''h''" 0 "Some i" "[]" sha]
    by (simp add: S_def)
  moreover have "auth_step sha (S (demo_db [?dead]) 0 ?c []) (S (demo_db [?dead]) 59 ?c [])"
    using auth_step.tick [of sha "S (demo_db [?dead]) 0 ?c []" 59] by (simp add: S_def)
  ultimately have "(dead_step sha ''h'')\<^sup>*\<^sup>* (S (demo_db [?dead]) 0 (\<lambda>w. []) [(0, ''h'', 0, Some (Some i))]) (S (demo_db [?dead]) 59 ?c [])"
    by (intro converse_rtranclp_into_rtranclp [OF _ r_into_rtranclp]) (use dead in \<open>simp_all add: dead_step_def\<close>)
  moreover have "fst (key_probe (ay_caches (S (demo_db [?dead]) 59 ?c []) 0) ''h'' 59) = Some (Some i)"
    by (simp add: S_def key_probe_def key_store_def evict_def KEY_CACHE_MAX_def KEY_CACHE_TTL_def)
  ultimately show ?thesis using r3 dead by (intro exI conjI) (auto simp: S_def)
qed

theorem dead_keys_are_refused_within_a_minute_witness:
  "fst (key_probe [] ''h'' 60) \<in> {None, Some None}"
proof -
  let ?s = "\<lambda>t. \<lparr>ay_db = demo_db [demo_key ''k'' ''h'' ''owner'' (Some 0)], ay_clock = t, ay_caches = \<lambda>w. [], ay_flight = []\<rparr>"
  have d: "dead_hash ''h'' (?s t)" for t by (simp add: dead_hash_def demo_db_def demo_key_def live_key_def)
  have "(dead_step id ''h'')\<^sup>*\<^sup>* (?s 0) (?s 60)"
    using auth_step.tick [of id "?s 0" 60] d by (auto simp: dead_step_def)
  from dead_keys_are_refused_within_a_minute [OF auth_reach.start d this] show ?thesis by simp
qed

theorem admin_takes_over_owner_key_witness:
  "\<exists>d' c'. rotate_key id \<lparr>cx_key = ''a'', cx_tenant = ''t'', cx_project = ''p'', cx_role = ''admin'', cx_max = None\<rparr> ''k'' ''new''
      (demo_db [demo_key ''k'' ''h'' ''owner'' None]) [] = (Inr (''k'', ''engramia_sk_new''), d', c') \<and>
    (\<exists>ctx. fst (db_auth id False d' c' ''engramia_sk_new'' 5) = Inr ctx \<and> cx_role ctx = ''owner'')"
proof -
  let ?ctx = "\<lparr>cx_key = ''a'', cx_tenant = ''t'', cx_project = ''p'', cx_role = ''admin'', cx_max = None\<rparr>"
    and ?k = "demo_key ''k'' ''h'' ''owner'' None"
  have "own_key ?ctx ''k'' (demo_db [?k]) = Some ?k" "live_key 5 ?k" "distinct (map ke_id (d_keys (demo_db [?k])))"
    "distinct (map ke_hash (d_keys (demo_db [?k])))"
    "\<forall>x \<in> set (d_keys (demo_db [?k])). ke_hash x \<noteq> id (''engramia_sk_'' @ ''new'')"
    by (simp_all add: own_key_def demo_db_def demo_key_def live_key_def)
  with admin_takes_over_owner_key [of ?ctx "''k''" "demo_db [?k]" ?k 5 id "''new''" "[]"]
  show ?thesis by (fastforce simp: demo_key_def)
qed

end
