(* ===== verification/Sessions.thy ===== *)
theory Sessions
  imports Identity
begin

text \<open>
  The sessions of \<open>engramia/api/cloud_auth.py\<close>: tokens, their revocation list with its table,
  rate limits, and the authentication of a request that carries a session token. SHA-256,
  bcrypt and PyJWT are parameters: a token is the encoding of its claims, and decoding answers
  the claims of a token that the server signed.
\<close>

section \<open>Tokens\<close>

record claims =
  cl_sub :: string
  cl_tenant :: string
  cl_email :: string
  cl_role :: string
  cl_refresh :: bool
  cl_jti :: string
  cl_exp :: nat

record crypto =
  cy_sha :: "string \<Rightarrow> string"
  cy_hash :: "string \<Rightarrow> string"
  cy_check :: "string \<Rightarrow> string \<Rightarrow> bool"
  cy_enc :: "claims \<Rightarrow> string"
  cy_dec :: "string \<Rightarrow> claims option"

definition ACCESS_TOKEN_EXPIRE_SECONDS :: nat where "ACCESS_TOKEN_EXPIRE_SECONDS = 3600"
definition REFRESH_TOKEN_EXPIRE_SECONDS :: nat where "REFRESH_TOKEN_EXPIRE_SECONDS = 30 * 86400"

definition claims_for :: "string \<Rightarrow> string \<Rightarrow> string \<Rightarrow> string \<Rightarrow> bool \<Rightarrow> string \<Rightarrow> nat \<Rightarrow> claims" where
  "claims_for user tenant email role rf jti now = \<lparr>cl_sub = user, cl_tenant = tenant, cl_email = email, cl_role = role,
     cl_refresh = rf, cl_jti = jti,
     cl_exp = now + (if rf then REFRESH_TOKEN_EXPIRE_SECONDS else ACCESS_TOKEN_EXPIRE_SECONDS)\<rparr>"

definition make_token :: "crypto \<Rightarrow> string \<Rightarrow> string \<Rightarrow> string \<Rightarrow> string \<Rightarrow> bool \<Rightarrow> string \<Rightarrow> nat \<Rightarrow> string" where
  "make_token cy user tenant email role rf jti now = cy_enc cy (claims_for user tenant email role rf jti now)"

type_synonym blocklist = "(string, nat) dict"

definition is_jti_blocked :: "blocklist \<Rightarrow> string \<Rightarrow> nat \<Rightarrow> bool \<times> blocklist" where
  "is_jti_blocked b jti now =
     (case dget b jti of
        None \<Rightarrow> (False, b)
      | Some ends \<Rightarrow> if ends < now then (False, ddel jti b) else (True, b))"

text \<open>PyJWT refuses a token from its expiry on.\<close>

definition decode_token :: "crypto \<Rightarrow> blocklist \<Rightarrow> string \<Rightarrow> bool \<Rightarrow> nat \<Rightarrow> claims res \<times> blocklist" where
  "decode_token cy b token rf now =
     (case cy_dec cy token of
        None \<Rightarrow> (Inl (HttpError 401 ''Invalid token''), b)
      | Some cl \<Rightarrow>
          if cl_exp cl \<le> now then (Inl (HttpError 401 ''Token has expired''), b)
          else (let (blocked, b') = (if cl_jti cl = [] then (False, b) else is_jti_blocked b (cl_jti cl) now) in
            if blocked then (Inl (HttpError 401 ''Token has been revoked''), b')
            else if rf \<and> \<not> cl_refresh cl then (Inl (HttpError 401 ''Refresh token required''), b')
            else if \<not> rf \<and> cl_refresh cl then (Inl (HttpError 401 ''Access token required''), b')
            else (Inr cl, b')))"

text \<open>The blocklist in memory and, unless the statement fails, in its table.\<close>

definition blocklist_token ::
  "crypto \<Rightarrow> bool \<Rightarrow> string \<Rightarrow> nat \<Rightarrow> blocklist \<times> blocklist \<Rightarrow> blocklist \<times> blocklist" where
  "blocklist_token cy fails token now = (\<lambda>(b, table).
     (case cy_dec cy token of
        None \<Rightarrow> (b, table)
      | Some cl \<Rightarrow>
          if cl_jti cl = [] then (b, table)
          else (filter (\<lambda>(j, e). now \<le> e) (dput (cl_jti cl) (cl_exp cl) b),
                if fails then table
                else filter (\<lambda>(j, e). now \<le> e)
                  (if dget table (cl_jti cl) = None then dput (cl_jti cl) (cl_exp cl) table else table))))"

text \<open>A start of the server: the unexpired rows are loaded into an empty list.\<close>

definition set_blocklist_engine :: "bool \<Rightarrow> blocklist \<Rightarrow> nat \<Rightarrow> blocklist \<Rightarrow> blocklist" where
  "set_blocklist_engine fails table now b =
     (if fails then b else fold (\<lambda>(j, e) b. dput j e b) (filter (\<lambda>(j, e). now < e) table) b)"

section \<open>Rate limits\<close>

text \<open>One counter per client and minute; counters older than the previous minute are dropped.\<close>

definition check_rate :: "nat \<Rightarrow> 'k \<Rightarrow> nat \<Rightarrow> ('k \<times> nat, nat) dict \<Rightarrow> unit res \<times> ('k \<times> nat, nat) dict" where
  "check_rate limit k now rates =
     (let window = now div 60;
          n = (case dget rates (k, window) of None \<Rightarrow> 0 | Some m \<Rightarrow> m) + 1;
          rates' = filter (\<lambda>((i, w), m). \<not> w + 1 < window) (dput (k, window) n rates)
      in (if limit < n then Inl (HttpError 429 ''Too many attempts'') else Inr (), rates'))"

definition check_register_rate :: "string \<Rightarrow> nat \<Rightarrow> (string \<times> nat, nat) dict \<Rightarrow> unit res \<times> (string \<times> nat, nat) dict" where
  "check_register_rate ip = check_rate 5 ip"

definition check_login_rate :: "string \<Rightarrow> nat \<Rightarrow> (string \<times> nat, nat) dict \<Rightarrow> unit res \<times> (string \<times> nat, nat) dict" where
  "check_login_rate ip = check_rate 10 ip"

definition check_resend_rate ::
  "string \<Rightarrow> string \<Rightarrow> nat \<Rightarrow> ((string \<times> string) \<times> nat, nat) dict \<Rightarrow> unit res \<times> ((string \<times> string) \<times> nat, nat) dict" where
  "check_resend_rate ip email = check_rate 3 (ip, email)"

definition check_deletion_request_rate ::
  "string \<Rightarrow> nat \<Rightarrow> (string \<times> nat, nat) dict \<Rightarrow> unit res \<times> (string \<times> nat, nat) dict" where
  "check_deletion_request_rate ip = check_rate 3 ip"

section \<open>Requests with a session token\<close>

definition bearer_token :: "string option \<Rightarrow> string res" where
  "bearer_token header =
     (let h = (case header of None \<Rightarrow> [] | Some v \<Rightarrow> v) in
      if prefix ''Bearer '' h then Inr (drop 7 h) else Inl (HttpError 401 ''Missing or malformed Authorization header''))"

definition cloud_jwt_auth ::
  "crypto \<Rightarrow> bool \<Rightarrow> idb option \<Rightarrow> blocklist \<Rightarrow> string \<Rightarrow> nat \<Rightarrow> auth_ctx res \<times> blocklist" where
  "cloud_jwt_auth cy fails db b token now =
     (case decode_token cy b token False now of
        (Inl e, b') \<Rightarrow> (Inl e, b')
      | (Inr cl, b') \<Rightarrow>
          ((case db of
              None \<Rightarrow> Inl (HttpError 500 ''database engine not configured'')
            | Some d \<Rightarrow>
                if fails then Inl (HttpError 500 ''project lookup error'')
                else (case find (\<lambda>p. pr_tenant p = cl_tenant cl \<and> pr_name p = ''default'') (d_projects d) of
                    None \<Rightarrow> Inl (HttpError 500 ''default project missing for tenant'')
                  | Some p \<Rightarrow> Inr \<lparr>cx_key = ''cloud:'' @ cl_sub cl, cx_tenant = cl_tenant cl, cx_project = pr_id p,
                      cx_role = cl_role cl, cx_max = None\<rparr>)), b'))"

end
