(* ===== verification/Deletion.thy ===== *)
theory Deletion
  imports Identity Jobs JsonStorage PgStorage
begin

text \<open>
  \<open>engramia/governance/deletion.py\<close>: erasing a project or a tenant over the storage backend,
  the jobs, the identity tables and the authentication cache. A statement named in \<open>fails\<close>
  raises, and its transaction is rolled back. Audit rows, which are only scrubbed, are left out.
\<close>

record deletion_result =
  dr_tenant :: string
  dr_project :: string
  dr_patterns :: nat
  dr_embeddings :: nat
  dr_jobs :: nat
  dr_keys :: nat
  dr_projects :: nat
  dr_users :: nat

text \<open>
  The \<open>delete_scope\<close> method of the storage: \<open>delete_scope (json_backend ...)\<close>,
  \<open>pg_delete_scope\<close>, or that of \<open>_NullStorage\<close> when there is no memory facade.
\<close>

type_synonym 's eraser = "'s \<Rightarrow> string \<Rightarrow> string \<Rightarrow> (nat \<times> 's) res"

definition null_delete_scope :: "'s eraser" where
  "null_delete_scope s t p = Inr (0, s)"

text \<open>
  The contract of an eraser: the keys held in the erased scope are gone, and no scope holds
  more than before. Both storages keep it.
\<close>

locale scope_eraser =
  fixes er :: "'s eraser"
    and held :: "'s \<Rightarrow> scope \<Rightarrow> string set"
    and inv :: "'s \<Rightarrow> bool"
    and okscope :: "scope \<Rightarrow> bool"
  assumes erased: "inv s \<Longrightarrow> okscope \<lparr>sc_tenant = t, sc_project = p\<rparr> \<Longrightarrow> er s t p = Inr (n, s') \<Longrightarrow>
      inv s' \<and> held s' \<lparr>sc_tenant = t, sc_project = p\<rparr> = {}"
    and shrinks: "inv s \<Longrightarrow> okscope \<lparr>sc_tenant = t, sc_project = p\<rparr> \<Longrightarrow> er s t p = Inr (n, s') \<Longrightarrow>
      held s' sc \<subseteq> held s sc"
    and erases: "inv s \<Longrightarrow> okscope \<lparr>sc_tenant = t, sc_project = p\<rparr> \<Longrightarrow> \<exists>n s'. er s t p = Inr (n, s')"

definition pg_held :: "pg_store \<Rightarrow> scope \<Rightarrow> string set" where
  "pg_held s sc = {k. pg_val s (row_key sc k) \<noteq> None}"

interpretation pg_eraser: scope_eraser pg_delete_scope pg_held pg_wf "\<lambda>sc. True"
proof (unfold_locales, goal_cases)
  case (1 s t p n s')
  then show ?case using pg_delete_scope_val(1) [OF 1(1,3)]
    by (auto simp: pg_held_def in_scope_def row_key_def pg_delete_scope_def pg_wf_def wf_dict_def distinct_map_filter)
next
  case (2 s t p n s' sc)
  then show ?case using pg_delete_scope_val(1) [OF 2(1,3)] by (auto simp: pg_held_def split: if_splits)
qed (simp add: pg_delete_scope_def)

definition json_held :: "json_store \<Rightarrow> scope \<Rightarrow> string set" where
  "json_held s sc = {k. json_plain k \<and> json_val s (json_loc sc k) \<noteq> None}"

interpretation json_eraser: scope_eraser "delete_scope (json_backend dot norm2)" json_held json_wf json_scope_ok
  for dot norm2
proof (unfold_locales, goal_cases)
  case (1 s t p n s')
  from json.delete_scope_ok [OF 1(1,2), of dot norm2] 1(3)
  have *: "json_wf s'" "be_list_keys (json_backend dot norm2) \<lparr>sc_tenant = t, sc_project = p\<rparr> s' [] = Inr []" by auto
  show ?case using json.list_keys_facts [OF *(1) 1(2) *(2)] *(1) by (auto simp: json_held_def)
next
  case (2 s t p n s' sc)
  from json.delete_scope_ok [OF 2(1,2), of dot norm2] 2(3)
  have "\<forall>l. json_val s' l = json_val s l \<or> json_val s' l = None" by auto
  then show ?case unfolding json_held_def by (metis (mono_tags, lifting) mem_Collect_eq subsetI)
next
  case (3 s t p)
  from json.delete_scope_ok [OF 3, of dot norm2] show ?case by auto
qed

record 's world =
  wo_store :: 's
  wo_jobs :: jobs
  wo_db :: idb
  wo_cache :: key_cache

datatype dstmt = DList | DProject string | DTenant

definition no_deletions :: "string \<Rightarrow> string \<Rightarrow> deletion_result" where
  "no_deletions t p = \<lparr>dr_tenant = t, dr_project = p, dr_patterns = 0, dr_embeddings = 0, dr_jobs = 0, dr_keys = 0,
     dr_projects = 0, dr_users = 0\<rparr>"

definition job_in :: "string \<Rightarrow> string \<Rightarrow> job \<Rightarrow> bool" where
  "job_in t p j \<longleftrightarrow> j_tenant j = t \<and> j_project j = p"

definition key_in :: "string \<Rightarrow> string \<Rightarrow> key_row \<Rightarrow> bool" where
  "key_in t p k \<longleftrightarrow> ke_tenant k = t \<and> ke_project k = p"

text \<open>The transaction of a project: jobs deleted, keys revoked, the project marked.\<close>

definition wipe_project :: "string \<Rightarrow> string \<Rightarrow> nat \<Rightarrow> idb \<Rightarrow> idb" where
  "wipe_project t p now d = d\<lparr>
     d_keys := map (\<lambda>k. if key_in t p k \<and> ke_revoked k = None then k\<lparr>ke_revoked := Some now\<rparr> else k) (d_keys d),
     d_projects := map (\<lambda>x. if pr_id x = p \<and> pr_tenant x = t \<and> pr_deleted x = None then x\<lparr>pr_deleted := Some now\<rparr> else x)
       (d_projects d)\<rparr>"

text \<open>\<open>engine\<close> tells whether a database engine is given.\<close>

definition delete_project ::
  "'s eraser \<Rightarrow> bool \<Rightarrow> dstmt set \<Rightarrow> string \<Rightarrow> string \<Rightarrow> nat \<Rightarrow> 's world \<Rightarrow> deletion_result res \<times> 's world" where
  "delete_project er engine fails t p now w =
     (case er (wo_store w) t p of
        Inl e \<Rightarrow> (Inl e, w)
      | Inr (n, s) \<Rightarrow>
          (let w1 = w\<lparr>wo_store := s\<rparr>; r = (no_deletions t p)\<lparr>dr_patterns := n\<rparr> in
           if \<not> engine then (Inr r, w1)
           else if DProject p \<in> fails then (Inl (OtherError ''SQLAlchemyError''), w1)
           else (let gone = filter (\<lambda>k. key_in t p k \<and> ke_revoked k = None) (d_keys (wo_db w))
                 in (Inr (r\<lparr>dr_jobs := length (filter (\<lambda>kv. job_in t p (snd kv)) (wo_jobs w)), dr_keys := length gone\<rparr>),
                     w1\<lparr>wo_jobs := filter (\<lambda>kv. \<not> job_in t p (snd kv)) (wo_jobs w),
                        wo_db := wipe_project t p now (wo_db w),
                        wo_cache := fold (\<lambda>k c. invalidate_key_cache c (ke_hash k)) gone (wo_cache w)\<rparr>))))"

fun delete_projects ::
  "'s eraser \<Rightarrow> dstmt set \<Rightarrow> string \<Rightarrow> nat \<Rightarrow> string list \<Rightarrow> deletion_result \<Rightarrow> 's world \<Rightarrow> deletion_result res \<times> 's world" where
  "delete_projects er fails t now [] agg w = (Inr agg, w)"
| "delete_projects er fails t now (p # ps) agg w =
     (case delete_project er True fails t p now w of
        (Inl e, w') \<Rightarrow> (Inl e, w')
      | (Inr r, w') \<Rightarrow>
          delete_projects er fails t now ps (agg\<lparr>dr_patterns := dr_patterns agg + dr_patterns r, dr_jobs := dr_jobs agg + dr_jobs r,
            dr_keys := dr_keys agg + dr_keys r, dr_projects := dr_projects agg + 1\<rparr>) w')"

definition anonymous_email :: "string \<Rightarrow> string" where
  "anonymous_email uid = ''deleted-'' @ uid @ ''@deleted.engramia.dev''"

definition anonymise :: "nat \<Rightarrow> user_row \<Rightarrow> user_row" where
  "anonymise now u = u\<lparr>us_deleted := Some now, us_email := anonymous_email (us_id u), us_name := None, us_hash := None,
     us_provider_id := None\<rparr>"

definition close_tenant :: "string \<Rightarrow> bool \<Rightarrow> nat \<Rightarrow> idb \<Rightarrow> idb" where
  "close_tenant t users now d = d\<lparr>
     d_users := (if users then map (\<lambda>u. if us_tenant u = t \<and> us_deleted u = None then anonymise now u else u) (d_users d)
       else d_users d),
     d_tenants := map (\<lambda>x. if te_id x = t \<and> te_deleted x = None then x\<lparr>te_deleted := Some now\<rparr> else x) (d_tenants d)\<rparr>"

definition delete_tenant ::
  "'s eraser \<Rightarrow> bool \<Rightarrow> dstmt set \<Rightarrow> string \<Rightarrow> bool \<Rightarrow> nat \<Rightarrow> 's world \<Rightarrow> deletion_result res \<times> 's world" where
  "delete_tenant er engine fails t users now w =
     (if \<not> engine then (Inr (no_deletions t ''*''), w)
      else if DList \<in> fails then (Inl (OtherError ''SQLAlchemyError''), w)
      else (let ps = map pr_id (filter (\<lambda>p. pr_tenant p = t \<and> pr_deleted p = None) (d_projects (wo_db w))) in
        case delete_projects er fails t now ps (no_deletions t ''*'') w of
          (Inl e, w') \<Rightarrow> (Inl e, w')
        | (Inr agg, w') \<Rightarrow>
            if DTenant \<in> fails then (Inl (OtherError ''SQLAlchemyError''), w')
            else (Inr (agg\<lparr>dr_users := (if users then length (filter (\<lambda>u. us_tenant u = t \<and> us_deleted u = None)
                     (d_users (wo_db w'))) else 0)\<rparr>),
                  w'\<lparr>wo_db := close_tenant t users now (wo_db w')\<rparr>)))"


section \<open>What a cascade does\<close>

lemma delete_project_Inr:
  assumes "delete_project er True fails t p now w = (Inr r, w')"
  shows "(\<exists>n. er (wo_store w) t p = Inr (n, wo_store w')) \<and> wo_db w' = wipe_project t p now (wo_db w) \<and>
    wo_jobs w' = filter (\<lambda>kv. \<not> job_in t p (snd kv)) (wo_jobs w)"
  using assms by (auto simp: delete_project_def Let_def split: sum.splits prod.splits if_splits)

lemma delete_projects_Inr:
  "delete_projects er fails t now ps agg w = (Inr r, w') \<Longrightarrow>
   wo_db w' = fold (\<lambda>p. wipe_project t p now) ps (wo_db w) \<and>
   wo_jobs w' = filter (\<lambda>kv. \<forall>p \<in> set ps. \<not> job_in t p (snd kv)) (wo_jobs w)"
proof (induction ps arbitrary: agg w)
  case (Cons p ps)
  then obtain r1 w1 agg1 where *: "delete_project er True fails t p now w = (Inr r1, w1)"
    "delete_projects er fails t now ps agg1 w1 = (Inr r, w')" by (auto split: prod.splits sum.splits)
  from delete_project_Inr [OF *(1)] Cons.IH [OF *(2)] show ?case by (auto intro!: filter_cong)
qed simp

context scope_eraser
begin

lemma delete_projects_held:
  "delete_projects er fails t now ps agg w = (Inr r, w') \<Longrightarrow> inv (wo_store w) \<Longrightarrow>
   (\<And>p. p \<in> set ps \<Longrightarrow> okscope \<lparr>sc_tenant = t, sc_project = p\<rparr>) \<Longrightarrow>
   inv (wo_store w') \<and> (\<forall>p \<in> set ps. held (wo_store w') \<lparr>sc_tenant = t, sc_project = p\<rparr> = {}) \<and>
   (\<forall>sc. held (wo_store w') sc \<subseteq> held (wo_store w) sc)"
proof (induction ps arbitrary: agg w)
  case (Cons p ps)
  then obtain r1 w1 agg1 where *: "delete_project er True fails t p now w = (Inr r1, w1)"
    "delete_projects er fails t now ps agg1 w1 = (Inr r, w')" by (auto split: prod.splits sum.splits)
  obtain n where e: "er (wo_store w) t p = Inr (n, wo_store w1)" using delete_project_Inr [OF *(1)] by blast
  have ok: "okscope \<lparr>sc_tenant = t, sc_project = p\<rparr>" using Cons.prems(3) by simp
  note e1 = erased [OF Cons.prems(2) ok e] and e2 = shrinks [OF Cons.prems(2) ok e]
  have "inv (wo_store w') \<and> (\<forall>p \<in> set ps. held (wo_store w') \<lparr>sc_tenant = t, sc_project = p\<rparr> = {}) \<and>
      (\<forall>sc. held (wo_store w') sc \<subseteq> held (wo_store w1) sc)"
    by (rule Cons.IH [OF *(2)]) (use e1 Cons.prems(3) in auto)
  with e1 e2 show ?case by (auto simp: subset_iff) blast+
qed simp

lemma delete_tenant_held:
  assumes "delete_tenant er True fails t users now w = (Inr r, w')" and "inv (wo_store w)"
    and "\<And>p. p \<in> set (d_projects (wo_db w)) \<Longrightarrow> okscope \<lparr>sc_tenant = t, sc_project = pr_id p\<rparr>"
    and "p \<in> set (d_projects (wo_db w))" and "pr_tenant p = t" and "pr_deleted p = None"
  shows "held (wo_store w') \<lparr>sc_tenant = t, sc_project = pr_id p\<rparr> = {}"
proof -
  let ?ps = "map pr_id (filter (\<lambda>p. pr_tenant p = t \<and> pr_deleted p = None) (d_projects (wo_db w)))"
  obtain r1 w1 where *: "delete_projects er fails t now ?ps (no_deletions t ''*'') w = (Inr r1, w1)" "wo_store w' = wo_store w1"
    using assms(1) by (auto simp: delete_tenant_def Let_def split: prod.splits sum.splits if_splits)
  from delete_projects_held [OF *(1) assms(2)] assms(3) have "\<forall>p \<in> set ?ps. held (wo_store w1) \<lparr>sc_tenant = t, sc_project = p\<rparr> = {}"
    by auto
  with assms(4-6) *(2) show ?thesis by auto
qed

end

text \<open>The tables after a complete cascade.\<close>

definition revoke_in :: "nat \<Rightarrow> string \<Rightarrow> string set \<Rightarrow> key_row \<Rightarrow> key_row" where
  "revoke_in now t P k = (if ke_tenant k = t \<and> ke_project k \<in> P \<and> ke_revoked k = None then k\<lparr>ke_revoked := Some now\<rparr> else k)"

definition mark_in :: "nat \<Rightarrow> string \<Rightarrow> string set \<Rightarrow> project_row \<Rightarrow> project_row" where
  "mark_in now t P x = (if pr_tenant x = t \<and> pr_id x \<in> P \<and> pr_deleted x = None then x\<lparr>pr_deleted := Some now\<rparr> else x)"

lemma revoke_in_simps [simp]: "ke_id (revoke_in now t P k) = ke_id k" "ke_hash (revoke_in now t P k) = ke_hash k"
  "ke_tenant (revoke_in now t P k) = ke_tenant k"
  by (simp_all add: revoke_in_def)

lemma mark_in_simps [simp]: "pr_tenant (mark_in now t P x) = pr_tenant x" "pr_name (mark_in now t P x) = pr_name x"
  "pr_id (mark_in now t P x) = pr_id x"
  by (simp_all add: mark_in_def)

lemma fold_wipe_project:
  "fold (\<lambda>p. wipe_project t p now) ps d =
   d\<lparr>d_keys := map (revoke_in now t (set ps)) (d_keys d), d_projects := map (mark_in now t (set ps)) (d_projects d)\<rparr>"
proof (induction ps arbitrary: d)
  case Nil
  have "map (revoke_in now t {}) xs = xs" "map (mark_in now t {}) ys = ys" for xs ys
    by (auto intro!: map_idI simp: revoke_in_def mark_in_def)
  then show ?case by simp
next
  case (Cons p ps)
  have "revoke_in now t (set ps) \<circ> (\<lambda>k. if key_in t p k \<and> ke_revoked k = None then k\<lparr>ke_revoked := Some now\<rparr> else k) =
      revoke_in now t (set (p # ps))"
    by (auto simp: revoke_in_def key_in_def fun_eq_iff)
  moreover have "mark_in now t (set ps) \<circ>
      (\<lambda>x. if pr_id x = p \<and> pr_tenant x = t \<and> pr_deleted x = None then x\<lparr>pr_deleted := Some now\<rparr> else x) =
      mark_in now t (set (p # ps))"
    by (auto simp: mark_in_def fun_eq_iff)
  ultimately show ?case by (simp add: Cons.IH) (simp add: wipe_project_def comp_def)
qed

lemma delete_tenant_Inr:
  assumes "delete_tenant er True fails t users now w = (Inr r, w')"
  defines "P \<equiv> pr_id ` {p \<in> set (d_projects (wo_db w)). pr_tenant p = t \<and> pr_deleted p = None}"
  shows "wo_db w' = close_tenant t users now ((wo_db w)\<lparr>d_keys := map (revoke_in now t P) (d_keys (wo_db w)),
      d_projects := map (mark_in now t P) (d_projects (wo_db w))\<rparr>) \<and>
    wo_jobs w' = filter (\<lambda>kv. \<forall>p \<in> P. \<not> job_in t p (snd kv)) (wo_jobs w)"
proof -
  let ?ps = "map pr_id (filter (\<lambda>p. pr_tenant p = t \<and> pr_deleted p = None) (d_projects (wo_db w)))"
  obtain r1 w1 where *: "delete_projects er fails t now ?ps (no_deletions t ''*'') w = (Inr r1, w1)"
    "wo_db w' = close_tenant t users now (wo_db w1)" "wo_jobs w' = wo_jobs w1"
    using assms(1) by (auto simp: delete_tenant_def Let_def split: prod.splits sum.splits if_splits)
  have "set ?ps = P" by (auto simp: P_def)
  with delete_projects_Inr [OF *(1)] *(2,3) show ?thesis by (simp only: fold_wipe_project)
qed

end
