(* ===== verification/Accounts.thy ===== *)
theory Accounts
  imports Sessions Deletion
begin

text \<open>
  The account endpoints of \<open>engramia/api/cloud_auth.py\<close>: registration, verification, login,
  OAuth, passwords, and the deletion of an account. Random ids and tokens are arguments; what
  the mail server and Google answer are arguments too.
\<close>

section \<open>State\<close>

record acct =
  ac_db :: idb
  ac_block :: blocklist
  ac_register :: "(string \<times> nat, nat) dict"
  ac_login :: "(string \<times> nat, nat) dict"
  ac_resend :: "((string \<times> string) \<times> nat, nat) dict"
  ac_deletion :: "(string \<times> nat, nat) dict"
  ac_waitlist :: "(string \<times> string option) list"

definition find_user :: "(user_row \<Rightarrow> bool) \<Rightarrow> idb \<Rightarrow> user_row option" where
  "find_user P d = find P (d_users d)"

definition update_users :: "(user_row \<Rightarrow> bool) \<Rightarrow> (user_row \<Rightarrow> user_row) \<Rightarrow> idb \<Rightarrow> idb" where
  "update_users P f d = d\<lparr>d_users := map (\<lambda>u. if P u then f u else u) (d_users d)\<rparr>"

section \<open>Validation\<close>

definition no_space_at :: "string \<Rightarrow> bool" where
  "no_space_at s \<longleftrightarrow> s \<noteq> [] \<and> list_all (\<lambda>c. c \<noteq> CHR ''@'' \<and> \<not> py_space c) s"

text \<open>One \<open>@\<close>, something before it, and after it a dot that is not at an end.\<close>

definition email_ok :: "string \<Rightarrow> bool" where
  "email_ok s =
     (let a = takeWhile (\<lambda>c. c \<noteq> CHR ''@'') s; rest = dropWhile (\<lambda>c. c \<noteq> CHR ''@'') s; w = chomp (tl rest) in
      rest \<noteq> [] \<and> no_space_at a \<and> no_space_at w \<and> CHR ''.'' \<in> set (butlast (tl w)))"

definition utf8_length :: "string \<Rightarrow> nat" where
  "utf8_length s = (\<Sum>c\<leftarrow>s. if code c < 128 then 1 else 2)"

definition password_complexity :: "string \<Rightarrow> unit res" where
  "password_complexity v =
     (if \<not> list_ex is_upper v \<or> \<not> list_ex is_lower v \<or> \<not> list_ex is_dig v \<or>
         \<not> list_ex (\<lambda>c. \<not> is_upper c \<and> \<not> is_lower c \<and> \<not> is_dig c) v
      then Inl (ValueError ''Password must contain at least one of each class'')
      else if 72 < utf8_length v then Inl (ValueError ''Password must be at most 72 bytes when UTF-8 encoded'')
      else Inr ())"

section \<open>Registration\<close>

text \<open>A registration's random parts: two ids of users and projects, slug entropy, key id and key.\<close>

record fresh =
  fr_user :: string
  fr_project :: string
  fr_slug :: string
  fr_key_id :: string
  fr_key :: string

definition strip_dash :: "string \<Rightarrow> string" where
  "strip_dash s = rev (dropWhile (\<lambda>c. c = CHR ''-'') (rev (dropWhile (\<lambda>c. c = CHR ''-'') s)))"

definition make_tenant_slug :: "string \<Rightarrow> string \<Rightarrow> idb \<Rightarrow> string" where
  "make_tenant_slug email_prefix entropy d =
     (let base = take 24 (strip_dash (map (\<lambda>c. if is_lower c \<or> is_dig c then c else CHR ''-'') (py_lower email_prefix))) in
      if base = [] then take 32 entropy
      else if base \<notin> te_id ` set (d_tenants d) then base else base @ ''-'' @ take 8 entropy)"

definition generate_api_key :: "(string \<Rightarrow> string) \<Rightarrow> string \<Rightarrow> string \<times> string \<times> string" where
  "generate_api_key sha rnd = (''engramia-'' @ rnd, ''engramia-'' @ take 8 rnd @ ''...'', sha (''engramia-'' @ rnd))"

definition registration_key :: "(string \<Rightarrow> string) \<Rightarrow> string \<Rightarrow> fresh \<Rightarrow> nat \<Rightarrow> key_row" where
  "registration_key sha tenant f now =
     (case generate_api_key sha (fr_key f) of
        (full, pre, h) \<Rightarrow> \<lparr>ke_id = fr_key_id f, ke_tenant = tenant, ke_project = fr_project f, ke_name = ''Default API Key'',
          ke_prefix = pre, ke_hash = h, ke_role = ''owner'', ke_max = None, ke_created = now, ke_used = None,
          ke_revoked = None, ke_expires = None\<rparr>)"

text \<open>
  One transaction over four tables, with their keys and unique columns. The answer is the
  tenant and the full key.
\<close>

definition create_registration ::
  "crypto \<Rightarrow> string \<Rightarrow> string option \<Rightarrow> string option \<Rightarrow> string \<Rightarrow> string option \<Rightarrow> bool \<Rightarrow> bool \<Rightarrow> fresh \<Rightarrow> nat \<Rightarrow> idb
   \<Rightarrow> (string \<times> string option) res \<times> idb" where
  "create_registration cy email pwhash name provider provider_id verified with_key f now d =
     (let tenant = make_tenant_slug (takeWhile (\<lambda>c. c \<noteq> CHR ''@'') email) (fr_slug f) d;
          user = \<lparr>us_id = fr_user f, us_email = email, us_hash = pwhash, us_tenant = tenant, us_name = name, us_provider = provider,
            us_provider_id = provider_id, us_verified = verified, us_must_change = False, us_last_login = None,
            us_created = now, us_deleted = None\<rparr>;
          k = registration_key (cy_sha cy) tenant f now
      in if tenant \<in> te_id ` set (d_tenants d) \<or> fr_project f \<in> pr_id ` set (d_projects d) \<or>
            fr_user f \<in> us_id ` set (d_users d) \<or> email \<in> us_email ` set (d_users d) \<or>
            with_key \<and> (\<exists>x \<in> set (d_keys d). ke_id x = ke_id k \<or> ke_hash x = ke_hash k)
         then (Inl integrity_error, d)
         else (Inr (tenant, if with_key then Some (fst (generate_api_key (cy_sha cy) (fr_key f))) else None),
               d\<lparr>d_tenants := d_tenants d @ [\<lparr>te_id = tenant, te_name = (case name of Some (c # cs) \<Rightarrow> c # cs | _ \<Rightarrow> email), te_deleted = None\<rparr>],
                 d_projects := d_projects d @ [\<lparr>pr_id = fr_project f, pr_tenant = tenant, pr_name = ''default'', pr_deleted = None\<rparr>],
                 d_users := d_users d @ [user], d_keys := (if with_key then d_keys d @ [k] else d_keys d)\<rparr>))"

section \<open>One-time tokens\<close>

definition TOKEN_TTL_SECONDS :: nat where "TOKEN_TTL_SECONDS = 24 * 3600"

text \<open>Earlier unconsumed tokens of the user are consumed; the token's hash is the primary key.\<close>

definition issue_token ::
  "crypto \<Rightarrow> string \<Rightarrow> string \<Rightarrow> string option \<Rightarrow> nat \<Rightarrow> token_row list \<Rightarrow> token_row list res" where
  "issue_token cy token user reason now ts =
     (if cy_sha cy token \<in> to_hash ` set ts then Inl integrity_error
      else Inr (map (\<lambda>t. if to_user t = user \<and> to_consumed t = None then t\<lparr>to_consumed := Some now\<rparr> else t) ts @
        [\<lparr>to_hash = cy_sha cy token, to_user = user, to_expires = now + TOKEN_TTL_SECONDS, to_consumed = None,
          to_reason = reason\<rparr>]))"

definition create_verification_token :: "crypto \<Rightarrow> string \<Rightarrow> string \<Rightarrow> nat \<Rightarrow> idb \<Rightarrow> idb res" where
  "create_verification_token cy token user now d =
     bind_res (issue_token cy token user None now (d_verify d)) (\<lambda>ts. Inr (d\<lparr>d_verify := ts\<rparr>))"

definition create_deletion_token :: "crypto \<Rightarrow> string \<Rightarrow> string \<Rightarrow> string option \<Rightarrow> nat \<Rightarrow> idb \<Rightarrow> idb res" where
  "create_deletion_token cy token user reason now d =
     bind_res (issue_token cy token user reason now (d_delete d)) (\<lambda>ts. Inr (d\<lparr>d_delete := ts\<rparr>))"

definition has_pending_deletion_request :: "string \<Rightarrow> nat \<Rightarrow> idb \<Rightarrow> bool" where
  "has_pending_deletion_request user now d \<longleftrightarrow>
     (\<exists>t \<in> set (d_delete d). to_user t = user \<and> to_consumed t = None \<and> now < to_expires t)"

definition consume :: "string \<Rightarrow> nat \<Rightarrow> token_row list \<Rightarrow> token_row list" where
  "consume h now ts = map (\<lambda>t. if to_hash t = h then t\<lparr>to_consumed := Some now\<rparr> else t) ts"

section \<open>Endpoints\<close>

text \<open>The answer of a registration: user, tenant, the full key and whether the mail was sent.\<close>

definition register_user ::
  "crypto \<Rightarrow> bool \<Rightarrow> string \<Rightarrow> string \<Rightarrow> string \<Rightarrow> string option \<Rightarrow> fresh \<Rightarrow> string \<Rightarrow> bool \<Rightarrow> nat \<Rightarrow> acct
   \<Rightarrow> (string \<times> string \<times> string option \<times> bool) res \<times> acct" where
  "register_user cy enabled ip email0 password name f token mail_sent now a =
     (if \<not> enabled then (Inl (HttpError 503 ''REGISTRATION_CLOSED''), a)
      else (case check_register_rate ip now (ac_register a) of
          (Inl e, rates) \<Rightarrow> (Inl e, a\<lparr>ac_register := rates\<rparr>)
        | (Inr u, rates) \<Rightarrow>
            (let a1 = a\<lparr>ac_register := rates\<rparr>; email = py_lower email0 in
             if \<not> email_ok email0 then (Inl (HttpError 422 ''Invalid email address''), a1)
             else if find_user (\<lambda>u. us_email u = email) (ac_db a) \<noteq> None then (Inl (HttpError 409 ''Email already registered''), a1)
             else (case create_registration cy email (Some (cy_hash cy password)) name ''credentials'' None False True f now (ac_db a) of
                 (Inl e, d) \<Rightarrow> (Inl e, a1\<lparr>ac_db := d\<rparr>)
               | (Inr (tenant, key), d) \<Rightarrow>
                   (case create_verification_token cy token (fr_user f) now d of
                      Inl e \<Rightarrow> (Inl e, a1\<lparr>ac_db := d\<rparr>)
                    | Inr d' \<Rightarrow> (Inr (fr_user f, tenant, key, mail_sent), a1\<lparr>ac_db := d'\<rparr>))))))"

text \<open>The answer of a login: user, tenant, access and refresh token, and the password flag.\<close>

definition login ::
  "crypto \<Rightarrow> string \<Rightarrow> string \<Rightarrow> string \<Rightarrow> string \<Rightarrow> string \<Rightarrow> nat \<Rightarrow> acct
   \<Rightarrow> (string \<times> string \<times> string \<times> string \<times> bool) res \<times> acct" where
  "login cy ip email0 password jti1 jti2 now a =
     (case check_login_rate ip now (ac_login a) of
        (Inl e, rates) \<Rightarrow> (Inl e, a\<lparr>ac_login := rates\<rparr>)
      | (Inr u, rates) \<Rightarrow>
          (let a1 = a\<lparr>ac_login := rates\<rparr>; email = py_lower email0 in
           case find_user (\<lambda>u. us_email u = email \<and> us_provider u = ''credentials'') (ac_db a) of
             None \<Rightarrow> (Inl (HttpError 401 ''Invalid credentials''), a1)
           | Some u \<Rightarrow>
               if (case given (us_hash u) of None \<Rightarrow> True | Some h \<Rightarrow> \<not> cy_check cy password h)
               then (Inl (HttpError 401 ''Invalid credentials''), a1)
               else if \<not> us_verified u then (Inl (HttpError 403 ''email_not_verified''), a1)
               else (Inr (us_id u, us_tenant u, make_token cy (us_id u) (us_tenant u) email ''owner'' False jti1 now,
                       make_token cy (us_id u) (us_tenant u) email ''owner'' True jti2 now, us_must_change u),
                     a1\<lparr>ac_db := update_users (\<lambda>x. us_id x = us_id u) (\<lambda>x. x\<lparr>us_last_login := Some now\<rparr>) (ac_db a)\<rparr>)))"

text \<open>The claims of the access token of a request.\<close>

definition session :: "crypto \<Rightarrow> string option \<Rightarrow> bool \<Rightarrow> nat \<Rightarrow> acct \<Rightarrow> claims res \<times> acct" where
  "session cy header rf now a =
     (case bearer_token header of
        Inl e \<Rightarrow> (Inl e, a)
      | Inr token \<Rightarrow> (let (r, b) = decode_token cy (ac_block a) token rf now in (r, a\<lparr>ac_block := b\<rparr>)))"

definition change_password ::
  "crypto \<Rightarrow> string option \<Rightarrow> string \<Rightarrow> string \<Rightarrow> string \<Rightarrow> nat \<Rightarrow> acct \<Rightarrow> string res \<times> acct" where
  "change_password cy header current new jti now a =
     (case session cy header False now a of
        (Inl e, a1) \<Rightarrow> (Inl e, a1)
      | (Inr cl, a1) \<Rightarrow>
          (case find_user (\<lambda>u. us_id u = cl_sub cl) (ac_db a) of
             None \<Rightarrow> (Inl (HttpError 404 ''User not found''), a1)
           | Some u \<Rightarrow>
               if (case given (us_hash u) of None \<Rightarrow> True | Some h \<Rightarrow> \<not> cy_check cy current h)
               then (Inl (HttpError 400 ''current_password_mismatch''), a1)
               else if new = current then (Inl (HttpError 400 ''new_password_same_as_current''), a1)
               else (Inr (make_token cy (cl_sub cl) (cl_tenant cl) (cl_email cl) ''owner'' False jti now),
                     a1\<lparr>ac_db := update_users (\<lambda>x. us_id x = cl_sub cl)
                       (\<lambda>x. x\<lparr>us_hash := Some (cy_hash cy new), us_must_change := False\<rparr>) (ac_db a)\<rparr>)))"

definition me :: "crypto \<Rightarrow> string option \<Rightarrow> nat \<Rightarrow> acct \<Rightarrow> (user_row \<times> string) res \<times> acct" where
  "me cy header now a =
     (case session cy header False now a of
        (Inl e, a1) \<Rightarrow> (Inl e, a1)
      | (Inr cl, a1) \<Rightarrow>
          (case find_user (\<lambda>u. us_id u = cl_sub cl) (ac_db a) of
             None \<Rightarrow> (Inl (HttpError 404 ''User not found''), a1)
           | Some u \<Rightarrow> (Inr (u, cl_role cl), a1)))"

text \<open>What Google's tokeninfo endpoint answers: its audience, mail address, subject and name.\<close>

datatype google_out = GoogleRefuses | GoogleFails | GoogleInfo string "string option" string "string option"

definition verify_google_token :: "string \<Rightarrow> google_out \<Rightarrow> (string option \<times> string \<times> string option) res" where
  "verify_google_token client_id out =
     (case out of
        GoogleRefuses \<Rightarrow> Inl (HttpError 400 ''Invalid Google token'')
      | GoogleFails \<Rightarrow> Inl (HttpError 400 ''Google token verification failed'')
      | GoogleInfo aud email sub name \<Rightarrow>
          if py_strip client_id = [] then Inl (HttpError 500 ''Google OAuth is not configured'')
          else if aud \<noteq> py_strip client_id then Inl (HttpError 400 ''audience mismatch'')
          else Inr (given email, sub, given name))"

text \<open>The answer: user, tenant, access token, refresh token, and the key of a new account.\<close>

definition oauth_login ::
  "crypto \<Rightarrow> bool \<Rightarrow> string \<Rightarrow> google_out \<Rightarrow> string option \<Rightarrow> fresh \<Rightarrow> string \<Rightarrow> string \<Rightarrow> nat \<Rightarrow> acct
   \<Rightarrow> (string \<times> string \<times> string \<times> string \<times> string) res \<times> acct" where
  "oauth_login cy google client_id out body_name f jti1 jti2 now a =
     (if \<not> google then (Inl (HttpError 501 ''Apple OAuth not yet implemented''), a)
      else (case verify_google_token client_id out of
          Inl e \<Rightarrow> (Inl e, a)
        | Inr (None, sub, name) \<Rightarrow> (Inl (HttpError 400 ''Could not determine email from provider token''), a)
        | Inr (Some email0, sub, name) \<Rightarrow>
            (let email = py_lower email0 in
             case find_user (\<lambda>u. us_email u = email \<or> us_provider u = ''google'' \<and> us_provider_id u = Some sub) (ac_db a) of
               Some u \<Rightarrow>
                 (Inr (us_id u, us_tenant u, make_token cy (us_id u) (us_tenant u) email ''owner'' False jti1 now,
                    make_token cy (us_id u) (us_tenant u) email ''owner'' True jti2 now, []),
                  a\<lparr>ac_db := update_users (\<lambda>x. us_id x = us_id u) (\<lambda>x. x\<lparr>us_last_login := Some now\<rparr>) (ac_db a)\<rparr>)
             | None \<Rightarrow>
                 (case create_registration cy email None (case name of Some n \<Rightarrow> Some n | None \<Rightarrow> body_name) ''google'' (Some sub)
                         True True f now (ac_db a) of
                    (Inl e, d) \<Rightarrow> (Inl e, a\<lparr>ac_db := d\<rparr>)
                  | (Inr (tenant, key), d) \<Rightarrow>
                      (Inr (fr_user f, tenant, make_token cy (fr_user f) tenant email ''owner'' False jti1 now,
                         make_token cy (fr_user f) tenant email ''owner'' True jti2 now, case key of None \<Rightarrow> [] | Some k \<Rightarrow> k),
                       a\<lparr>ac_db := d\<rparr>)))))"

text \<open>True in the answer: the address was verified before.\<close>

definition verify :: "crypto \<Rightarrow> string \<Rightarrow> nat \<Rightarrow> acct \<Rightarrow> bool res \<times> acct" where
  "verify cy token now a =
     (let h = cy_sha cy token; d = ac_db a in
      case find (\<lambda>t. to_hash t = h \<and> (\<exists>u \<in> set (d_users d). us_id u = to_user t)) (d_verify d) of
        None \<Rightarrow> (Inl (HttpError 400 ''Invalid or expired verification link''), a)
      | Some t \<Rightarrow>
          (let already = (case find_user (\<lambda>u. us_id u = to_user t) d of None \<Rightarrow> False | Some u \<Rightarrow> us_verified u) in
           if already \<and> to_consumed t \<noteq> None then (Inr True, a)
           else if to_consumed t \<noteq> None then (Inl (HttpError 400 ''This verification link has already been used''), a)
           else if to_expires t < now then (Inl (HttpError 400 ''This verification link has expired''), a)
           else (Inr False, a\<lparr>ac_db := update_users (\<lambda>u. us_id u = to_user t) (\<lambda>u. u\<lparr>us_verified := True\<rparr>)
                   (d\<lparr>d_verify := consume h now (d_verify d)\<rparr>)\<rparr>)))"

definition resend_verification :: "crypto \<Rightarrow> string \<Rightarrow> string \<Rightarrow> string \<Rightarrow> nat \<Rightarrow> acct \<Rightarrow> unit res \<times> acct" where
  "resend_verification cy ip email0 token now a =
     (let email = py_lower (py_strip email0) in
      if \<not> email_ok email then (Inr (), a)
      else (case check_resend_rate ip email now (ac_resend a) of
          (Inl e, rates) \<Rightarrow> (Inl e, a\<lparr>ac_resend := rates\<rparr>)
        | (Inr u, rates) \<Rightarrow>
            (let a1 = a\<lparr>ac_resend := rates\<rparr> in
             case find_user (\<lambda>u. us_email u = email \<and> us_provider u = ''credentials'') (ac_db a) of
               None \<Rightarrow> (Inr (), a1)
             | Some u \<Rightarrow>
                 if us_verified u then (Inr (), a1)
                 else (case create_verification_token cy token (us_id u) now (ac_db a) of
                     Inl e \<Rightarrow> (Inl e, a1) | Inr d \<Rightarrow> (Inr (), a1\<lparr>ac_db := d\<rparr>)))))"

definition refresh :: "crypto \<Rightarrow> string option \<Rightarrow> string \<Rightarrow> nat \<Rightarrow> acct \<Rightarrow> string res \<times> acct" where
  "refresh cy header jti now a =
     (case session cy header True now a of
        (Inl e, a1) \<Rightarrow> (Inl e, a1)
      | (Inr cl, a1) \<Rightarrow> (Inr (make_token cy (cl_sub cl) (cl_tenant cl) (cl_email cl) (cl_role cl) False jti now), a1))"

definition block :: "crypto \<Rightarrow> bool \<Rightarrow> string \<Rightarrow> nat \<Rightarrow> acct \<Rightarrow> acct" where
  "block cy fails token now a =
     (let (b, table) = blocklist_token cy fails token now (ac_block a, d_jtis (ac_db a))
      in a\<lparr>ac_block := b, ac_db := (ac_db a)\<lparr>d_jtis := table\<rparr>\<rparr>)"

definition logout :: "crypto \<Rightarrow> bool \<Rightarrow> string option \<Rightarrow> string option \<Rightarrow> nat \<Rightarrow> acct \<Rightarrow> unit res \<times> acct" where
  "logout cy fails header refresh_token now a =
     (case bearer_token header of
        Inl e \<Rightarrow> (Inl e, a)
      | Inr token \<Rightarrow>
          (let a1 = block cy fails token now a
           in (Inr (), case given refresh_token of None \<Rightarrow> a1 | Some t \<Rightarrow> block cy fails t now a1)))"

section \<open>Deleting an account\<close>

text \<open>The answer: when the link expires and whether the mail was sent.\<close>

definition request_account_deletion ::
  "crypto \<Rightarrow> string \<Rightarrow> string option \<Rightarrow> string option \<Rightarrow> string \<Rightarrow> bool \<Rightarrow> nat \<Rightarrow> acct \<Rightarrow> (nat \<times> bool) res \<times> acct" where
  "request_account_deletion cy ip header reason token mail_sent now a =
     (case check_deletion_request_rate ip now (ac_deletion a) of
        (Inl e, rates) \<Rightarrow> (Inl e, a\<lparr>ac_deletion := rates\<rparr>)
      | (Inr u, rates) \<Rightarrow>
          (case session cy header False now (a\<lparr>ac_deletion := rates\<rparr>) of
             (Inl e, a1) \<Rightarrow> (Inl e, a1)
           | (Inr cl, a1) \<Rightarrow>
               (case find_user (\<lambda>u. us_id u = cl_sub cl) (ac_db a) of
                  None \<Rightarrow> (Inl (HttpError 404 ''User not found''), a1)
                | Some u \<Rightarrow>
                    if us_deleted u \<noteq> None then (Inl (HttpError 404 ''User not found''), a1)
                    else if has_pending_deletion_request (us_id u) now (ac_db a)
                    then (Inl (HttpError 409 ''deletion_already_pending''), a1)
                    else (case create_deletion_token cy token (us_id u) reason now (ac_db a) of
                        Inl e \<Rightarrow> (Inl e, a1)
                      | Inr d \<Rightarrow> (Inr (now + TOKEN_TTL_SECONDS, mail_sent), a1\<lparr>ac_db := d\<rparr>)))))"

text \<open>The first phase of a deletion: the user, the tenant and the reason of a valid token.\<close>

definition redeem_deletion :: "crypto \<Rightarrow> string \<Rightarrow> nat \<Rightarrow> idb \<Rightarrow> (user_row \<times> string option \<times> idb) res" where
  "redeem_deletion cy token now d =
     (case find (\<lambda>t. to_hash t = cy_sha cy token \<and> (\<exists>u \<in> set (d_users d). us_id u = to_user t)) (d_delete d) of
        None \<Rightarrow> Inl (HttpError 400 ''Invalid or expired deletion link'')
      | Some t \<Rightarrow>
          (case find_user (\<lambda>u. us_id u = to_user t) d of
             None \<Rightarrow> Inl (HttpError 400 ''Invalid or expired deletion link'')
           | Some u \<Rightarrow>
               if us_deleted u \<noteq> None then Inl (HttpError 410 ''Account has already been deleted'')
               else if to_consumed t \<noteq> None then Inl (HttpError 410 ''This deletion link has already been used'')
               else if to_expires t < now then Inl (HttpError 400 ''This deletion link has expired'')
               else Inr (u, to_reason t, d\<lparr>d_delete := consume (to_hash t) now (d_delete d)\<rparr>)))"

text \<open>
  The state with the stores the cascade erases. \<open>cancel\<close> is the cancellation of the tenant's
  subscription; the answer has the tenant, the counts and whether it was cancelled.
\<close>

record 's site =
  si_acct :: acct
  si_store :: 's
  si_jobs :: jobs
  si_keys :: key_cache

definition delete_me ::
  "crypto \<Rightarrow> 's eraser \<Rightarrow> dstmt set \<Rightarrow> bool \<Rightarrow> bool \<Rightarrow> (string \<Rightarrow> bool res) \<Rightarrow> string \<Rightarrow> string option \<Rightarrow> nat \<Rightarrow> 's site
   \<Rightarrow> (string \<times> deletion_result \<times> bool) res \<times> 's site" where
  "delete_me cy er fails jfails wfails cancel token header now x =
     (if length token < 16 \<or> 128 < length token then (Inl (HttpError 400 ''Invalid deletion token''), x)
      else (case redeem_deletion cy token now (ac_db (si_acct x)) of
          Inl e \<Rightarrow> (Inl e, x)
        | Inr (u, reason, d) \<Rightarrow>
            (let cancelled = (case cancel (us_tenant u) of Inl e \<Rightarrow> False | Inr c \<Rightarrow> c);
                 (r, w) = delete_tenant er True fails (us_tenant u) True now
                   \<lparr>wo_store = si_store x, wo_jobs = si_jobs x, wo_db = d, wo_cache = si_keys x\<rparr>;
                 a = (si_acct x)\<lparr>ac_db := wo_db w\<rparr>;
                 x1 = x\<lparr>si_acct := a, si_store := wo_store w, si_jobs := wo_jobs w, si_keys := wo_cache w\<rparr>
             in case r of
                  Inl e \<Rightarrow> (Inl e, x1)
                | Inr res \<Rightarrow>
                    (let a1 = (if wfails then a else a\<lparr>ac_waitlist := filter (\<lambda>(em, t). em \<noteq> us_email u \<and> t \<noteq> Some (us_tenant u))
                              (ac_waitlist a)\<rparr>);
                         a2 = (case bearer_token header of Inl e \<Rightarrow> a1 | Inr t \<Rightarrow> block cy jfails t now a1)
                     in (Inr (us_tenant u, res, cancelled), x1\<lparr>si_acct := a2\<rparr>)))))"

end
