(* ===== verification/AccountProps.thy ===== *)
theory AccountProps
  imports Accounts KeyProps
begin

text \<open>
  Properties of accounts and sessions: who can act for an account that was registered with
  somebody else's address, what the deletion of an account removes and what outlives it, how
  long a logged-out token is refused, and how many attempts a rate limit admits.
\<close>

section \<open>Tokens\<close>

text \<open>PyJWT decodes what it encoded, and the ids of tokens are not reused.\<close>

definition sound_tokens :: "crypto \<Rightarrow> bool" where
  "sound_tokens cy \<longleftrightarrow> (\<forall>cl. cy_dec cy (cy_enc cy cl) = Some cl)"

lemma decode_make:
  assumes "sound_tokens cy" and "t < t0 + (if rf then REFRESH_TOKEN_EXPIRE_SECONDS else ACCESS_TOKEN_EXPIRE_SECONDS)"
    and "jti = [] \<or> dget b jti = None"
  shows "decode_token cy b (make_token cy u tn em ro rf jti t0) rf t = (Inr (claims_for u tn em ro rf jti t0), b)"
  using assms by (auto simp: decode_token_def make_token_def sound_tokens_def claims_for_def is_jti_blocked_def)

lemma bearer: "bearer_token (Some (''Bearer '' @ s)) = Inr s"
  by (simp add: bearer_token_def)

lemma session_ok:
  "decode_token cy (ac_block a) tk rf t = (Inr cl, ac_block a) \<Longrightarrow> session cy (Some (''Bearer '' @ tk)) rf t a = (Inr cl, a)"
  by (simp only: session_def bearer sum.case) simp

section \<open>Finding rows through updates\<close>

lemma find_map_same: "(\<And>x. P (f x) = P x) \<Longrightarrow> find P (map f xs) = map_option f (find P xs)"
  by (induction xs) auto

lemma find_snoc_case: "find P (xs @ [x]) = (case find P xs of None \<Rightarrow> if P x then Some x else None | Some y \<Rightarrow> Some y)"
  by (induction xs) auto

lemma find_user_update:
  "(\<And>x. P (f x) = P x) \<Longrightarrow> find_user P (update_users Q f d) = map_option (\<lambda>x. if Q x then f x else x) (find_user P d)"
  unfolding find_user_def update_users_def by (simp, rule find_map_same) simp


section \<open>Registering somebody else's address\<close>

definition registered_user :: "crypto \<Rightarrow> string \<Rightarrow> string \<Rightarrow> string \<Rightarrow> string option \<Rightarrow> fresh \<Rightarrow> nat \<Rightarrow> user_row" where
  "registered_user cy email password tenant name f now = \<lparr>us_id = fr_user f, us_email = email,
     us_hash = Some (cy_hash cy password), us_tenant = tenant, us_name = name, us_provider = ''credentials'',
     us_provider_id = None, us_verified = False, us_must_change = False, us_last_login = None, us_created = now, us_deleted = None\<rparr>"

lemma register_result:
  assumes "register_user cy on ip email0 password name f token sent now a = (Inr (uid, tenant, key, s), a1)"
  shows "uid = fr_user f \<and> key = Some (''engramia-'' @ fr_key f) \<and> ac_block a1 = ac_block a \<and>
    d_users (ac_db a1) = d_users (ac_db a) @ [registered_user cy (py_lower email0) password tenant name f now] \<and>
    d_keys (ac_db a1) = d_keys (ac_db a) @ [registration_key (cy_sha cy) tenant f now] \<and>
    d_projects (ac_db a1) = d_projects (ac_db a) @ [\<lparr>pr_id = fr_project f, pr_tenant = tenant, pr_name = ''default'', pr_deleted = None\<rparr>] \<and>
    tenant \<notin> te_id ` set (d_tenants (ac_db a)) \<and> fr_user f \<notin> us_id ` set (d_users (ac_db a)) \<and>
    py_lower email0 \<notin> us_email ` set (d_users (ac_db a)) \<and>
    cy_sha cy (''engramia-'' @ fr_key f) \<notin> ke_hash ` set (d_keys (ac_db a))"
  using assms
  by (auto simp: register_user_def create_registration_def create_verification_token_def Let_def registered_user_def
      registration_key_def generate_api_key_def bind_res_eq_Inr bind_res_eq_Inl issue_token_def
      split: if_splits prod.splits sum.splits)


lemma live_registration_key: "live_key now (registration_key sha tenant f t)"
  by (simp add: live_key_def registration_key_def generate_api_key_def)

text \<open>C27. Whoever registers somebody else's mail address first keeps a key to the account that the
  owner of the address gets. Registering needs no proof of the address to obtain the owner key
  of the new tenant. When the owner of the address then signs in with Google, they are logged
  in to the tenant of that registration, which is still unverified: their session and the
  stranger's key act with the owner role in the same tenant and project.\<close>

theorem squatted_registration_shares_the_account:
  assumes "sound_tokens cy"
    and "register_user cy True ip email0 password name f token sent now a = (Inr (uid, tenant, Some key, s), a1)"
    and "verify_google_token client_id out = Inr (Some email1, sub, gname)" and "py_lower email1 = py_lower email0"
    and "\<forall>u \<in> set (d_users (ac_db a)). \<not> (us_provider u = ''google'' \<and> us_provider_id u = Some sub)"
    and "\<forall>p \<in> set (d_projects (ac_db a)). pr_tenant p \<in> te_id ` set (d_tenants (ac_db a))"
    and "dget c (cy_sha cy key) = None" and "dget (ac_block a) jti1 = None" and "t' < t + ACCESS_TOKEN_EXPIRE_SECONDS"
  shows "\<exists>tk rt a2 u ctx ctx'. oauth_login cy True client_id out bname f' jti1 jti2 t a1 = (Inr (uid, tenant, tk, rt, []), a2) \<and>
    fst (cloud_jwt_auth cy False (Some (ac_db a2)) (ac_block a2) tk t') = Inr ctx \<and>
    fst (db_auth (cy_sha cy) False (ac_db a2) c key t') = Inr ctx' \<and>
    cx_tenant ctx = tenant \<and> cx_tenant ctx' = tenant \<and> cx_project ctx' = cx_project ctx \<and>
    cx_role ctx = ''owner'' \<and> cx_role ctx' = ''owner'' \<and>
    find_user (\<lambda>u. us_id u = uid) (ac_db a2) = Some u \<and> us_email u = py_lower email1 \<and> \<not> us_verified u"
proof -
  let ?u = "registered_user cy (py_lower email0) password tenant name f now"
  let ?k = "registration_key (cy_sha cy) tenant f now"
  note reg = register_result [OF assms(2)]
  define a2 where "a2 = a1\<lparr>ac_db := update_users (\<lambda>x. us_id x = uid) (\<lambda>x. x\<lparr>us_last_login := Some t\<rparr>) (ac_db a1)\<rparr>"
  have none: "find (\<lambda>u. us_email u = py_lower email1 \<or> us_provider u = ''google'' \<and> us_provider_id u = Some sub)
      (d_users (ac_db a)) = None"
    using reg assms(4,5) by (auto simp: find_None_iff image_iff)
  then have found: "find_user (\<lambda>u. us_email u = py_lower email1 \<or> us_provider u = ''google'' \<and> us_provider_id u = Some sub)
      (ac_db a1) = Some ?u"
    using reg assms(4) by (simp add: find_user_def find_snoc_case registered_user_def split: option.splits)
  have oauth: "oauth_login cy True client_id out bname f' jti1 jti2 t a1 =
      (Inr (uid, tenant, make_token cy uid tenant (py_lower email1) ''owner'' False jti1 t,
        make_token cy uid tenant (py_lower email1) ''owner'' True jti2 t, []), a2)"
    using reg found assms(3) by (simp add: oauth_login_def a2_def registered_user_def Let_def)
  have "find (\<lambda>p. pr_tenant p = tenant \<and> pr_name p = ''default'') (d_projects (ac_db a)) = None"
    using reg assms(6) by (auto simp: find_None_iff image_iff)
  then have proj: "find (\<lambda>p. pr_tenant p = tenant \<and> pr_name p = ''default'') (d_projects (ac_db a2)) =
      Some \<lparr>pr_id = fr_project f, pr_tenant = tenant, pr_name = ''default'', pr_deleted = None\<rparr>"
    using reg by (simp add: find_snoc_case a2_def update_users_def)
  have "decode_token cy (ac_block a2) (make_token cy uid tenant (py_lower email1) ''owner'' False jti1 t) False t' =
      (Inr (claims_for uid tenant (py_lower email1) ''owner'' False jti1 t), ac_block a2)"
    by (rule decode_make) (use assms(1,8,9) reg in \<open>simp_all add: a2_def\<close>)
  then have jwt: "fst (cloud_jwt_auth cy False (Some (ac_db a2)) (ac_block a2)
      (make_token cy uid tenant (py_lower email1) ''owner'' False jti1 t) t') =
      Inr \<lparr>cx_key = ''cloud:'' @ uid, cx_tenant = tenant, cx_project = fr_project f, cx_role = ''owner'', cx_max = None\<rparr>"
    using proj by (simp add: cloud_jwt_auth_def claims_for_def)
  have dbk: "fst (db_auth (cy_sha cy) False (ac_db a2) c key t') = Inr \<lparr>cx_key = ke_id ?k, cx_tenant = ke_tenant ?k,
      cx_project = ke_project ?k, cx_role = ke_role ?k, cx_max = ke_max ?k\<rparr>"
  proof (rule db_auth_uncached)
    show "dget c (cy_sha cy key) = None" by (rule assms(7))
    show "?k \<in> set (d_keys (ac_db a2))" using reg by (simp add: a2_def update_users_def)
    show "ke_hash ?k = cy_sha cy key" using reg by (simp add: registration_key_def generate_api_key_def)
    show "live_key t' ?k" by (rule live_registration_key)
    show "x = ?k" if "x \<in> set (d_keys (ac_db a2))" "ke_hash x = cy_sha cy key" for x
      using that reg by (auto simp: a2_def update_users_def image_iff)
  qed
  have "find (\<lambda>u. us_id u = uid) (d_users (ac_db a)) = None" using reg by (auto simp: find_None_iff image_iff)
  then have "find_user (\<lambda>u. us_id u = uid) (ac_db a1) = Some ?u"
    using reg by (simp add: find_user_def find_snoc_case registered_user_def)
  then have "find_user (\<lambda>u. us_id u = uid) (ac_db a2) = Some (?u\<lparr>us_last_login := Some t\<rparr>)"
    using reg by (simp add: a2_def find_user_update registered_user_def)
  with oauth jwt dbk assms(4) show ?thesis
    by (auto simp: registration_key_def generate_api_key_def registered_user_def)
qed



section \<open>Deleting an account\<close>

lemma delete_me_Inr:
  assumes "delete_me cy er fails jf wl cancel token header now x = (Inr (tn, res, c), x')"
  obtains u reason d w where "redeem_deletion cy token now (ac_db (si_acct x)) = Inr (u, reason, d)" and "tn = us_tenant u"
    and "delete_tenant er True fails tn True now
      \<lparr>wo_store = si_store x, wo_jobs = si_jobs x, wo_db = d, wo_cache = si_keys x\<rparr> = (Inr res, w)"
    and "si_store x' = wo_store w" and "si_jobs x' = wo_jobs w" and "ac_db (si_acct x') = (wo_db w)\<lparr>d_jtis := d_jtis (ac_db (si_acct x'))\<rparr>"
    and "16 \<le> length token" and "length token \<le> 128"
  using assms by (auto simp: delete_me_def Let_def block_def split: if_splits sum.splits prod.splits)

lemma redeem_deletion_Inr:
  assumes "redeem_deletion cy token now d = Inr (u, reason, d')"
  shows "\<exists>t. find (\<lambda>t. to_hash t = cy_sha cy token \<and> (\<exists>u \<in> set (d_users d). us_id u = to_user t)) (d_delete d) = Some t \<and>
    find_user (\<lambda>u. us_id u = to_user t) d = Some u \<and> us_deleted u = None \<and>
    d' = d\<lparr>d_delete := consume (cy_sha cy token) now (d_delete d)\<rparr>"
  using assms by (auto simp: redeem_deletion_def find_Some_iff split: option.splits if_splits)

text \<open>The tables after a deletion, over those before it.\<close>

lemma delete_me_tables:
  assumes "delete_me cy er fails jf wl cancel token header now x = (Inr (tn, res, c), x')"
  defines "d \<equiv> ac_db (si_acct x)" and "d' \<equiv> ac_db (si_acct x')"
  defines "P \<equiv> pr_id ` {p \<in> set (d_projects d). pr_tenant p = tn \<and> pr_deleted p = None}"
  shows "d_keys d' = map (revoke_in now tn P) (d_keys d) \<and> d_projects d' = map (mark_in now tn P) (d_projects d) \<and>
    d_users d' = map (\<lambda>u. if us_tenant u = tn \<and> us_deleted u = None then anonymise now u else u) (d_users d) \<and>
    d_tenants d' = map (\<lambda>y. if te_id y = tn \<and> te_deleted y = None then y\<lparr>te_deleted := Some now\<rparr> else y) (d_tenants d) \<and>
    d_delete d' = consume (cy_sha cy token) now (d_delete d) \<and>
    si_jobs x' = filter (\<lambda>kv. \<forall>p \<in> P. \<not> job_in tn p (snd kv)) (si_jobs x)"
proof -
  obtain u reason d1 w js where *: "redeem_deletion cy token now d = Inr (u, reason, d1)"
    "delete_tenant er True fails tn True now
      \<lparr>wo_store = si_store x, wo_jobs = si_jobs x, wo_db = d1, wo_cache = si_keys x\<rparr> = (Inr res, w)"
    "si_jobs x' = wo_jobs w" "d' = (wo_db w)\<lparr>d_jtis := js\<rparr>"
    using delete_me_Inr [OF assms(1)] unfolding d_def d'_def by metis
  have "d1 = d\<lparr>d_delete := consume (cy_sha cy token) now (d_delete d)\<rparr>" using redeem_deletion_Inr [OF *(1)] by blast
  with delete_tenant_Inr [OF *(2)] *(3,4) show ?thesis by (simp add: close_tenant_def P_def)
qed

lemma find_consume:
  "(\<And>t. P (t\<lparr>to_consumed := Some now\<rparr>) = P t) \<Longrightarrow> find P (consume h now ts) =
    map_option (\<lambda>t. if to_hash t = h then t\<lparr>to_consumed := Some now\<rparr> else t) (find P ts)"
  unfolding consume_def by (rule find_map_same) simp

text \<open>A used link is refused.\<close>

lemma used_link_is_refused:
  assumes "delete_me cy er fails jf wl cancel token header now x = (Inr (tn, res, c), x')"
  shows "delete_me cy er fails' jf' wl' cancel' token header' now' x' =
    (Inl (HttpError 410 ''Account has already been deleted''), x')"
proof -
  define d d' where "d = ac_db (si_acct x)" and "d' = ac_db (si_acct x')"
  obtain u reason d1 where u: "redeem_deletion cy token now d = Inr (u, reason, d1)" "tn = us_tenant u"
    and len: "16 \<le> length token" "length token \<le> 128"
    by (rule delete_me_Inr [OF assms]) (auto simp: d_def)
  obtain t where t: "find (\<lambda>t. to_hash t = cy_sha cy token \<and> (\<exists>u \<in> set (d_users d). us_id u = to_user t)) (d_delete d) = Some t"
    "find_user (\<lambda>u. us_id u = to_user t) d = Some u" "us_deleted u = None"
    using redeem_deletion_Inr [OF u(1)] by blast
  let ?f = "\<lambda>u. if us_tenant u = tn \<and> us_deleted u = None then anonymise now u else u"
  note tabs = delete_me_tables [OF assms, folded d_def d'_def]
  have same: "us_id (?f v) = us_id v" for v by (simp add: anonymise_def)
  then have ids: "(\<exists>v \<in> set (d_users d'). us_id v = i) \<longleftrightarrow> (\<exists>v \<in> set (d_users d). us_id v = i)" for i
    using tabs by (simp only: set_map bex_simps same)
  have "d_delete d' = consume (cy_sha cy token) now (d_delete d)" using tabs by blast
  then have "find (\<lambda>t. to_hash t = cy_sha cy token \<and> (\<exists>u \<in> set (d_users d'). us_id u = to_user t)) (d_delete d') =
      Some (t\<lparr>to_consumed := Some now\<rparr>)"
    unfolding ids using t(1) find_in_set [OF t(1)] by (simp add: find_consume)
  moreover have "find_user (\<lambda>v. us_id v = to_user t) d' = Some (anonymise now u)"
    using t(2,3) u(2) tabs find_map_same [of "\<lambda>v. us_id v = to_user t" ?f "d_users d"] same by (simp add: find_user_def)
  ultimately have "redeem_deletion cy token now' d' = Inl (HttpError 410 ''Account has already been deleted'')"
    by (simp add: redeem_deletion_def anonymise_def)
  then show ?thesis using len by (simp add: delete_me_def d'_def)
qed


lemma in_map_if:
  "y \<in> set (map (\<lambda>x. if P x then f x else x) xs) \<Longrightarrow> (\<And>x. P x \<Longrightarrow> Q (f x)) \<Longrightarrow> (\<And>x. \<not> P x \<Longrightarrow> Q x) \<Longrightarrow> Q y"
  by (auto split: if_splits)

text \<open>What the erasing of a list of projects leaves in the PostgreSQL store.\<close>

lemma pg_delete_projects_val:
  "delete_projects pg_delete_scope fails t now ps agg w = (Inr r, w') \<Longrightarrow> pg_wf (wo_store w) \<Longrightarrow>
   pg_val (wo_store w') rk = (if \<exists>p \<in> set ps. in_scope t p rk then None else pg_val (wo_store w) rk) \<and>
   dget (pg_emb (wo_store w')) rk = (if \<exists>p \<in> set ps. in_scope t p rk then None else dget (pg_emb (wo_store w)) rk)"
proof (induction ps arbitrary: agg w)
  case (Cons p ps)
  then obtain r1 w1 agg1 where *: "delete_project pg_delete_scope True fails t p now w = (Inr r1, w1)"
    "delete_projects pg_delete_scope fails t now ps agg1 w1 = (Inr r, w')" by (auto split: prod.splits sum.splits)
  obtain n where e: "pg_delete_scope (wo_store w) t p = Inr (n, wo_store w1)" using delete_project_Inr [OF *(1)] by blast
  have wf: "pg_wf (wo_store w1)" using pg_eraser.erased [OF Cons.prems(2) _ e] by simp
  show ?case using Cons.IH [OF *(2) wf] pg_delete_scope_val(1,2) [OF Cons.prems(2) e, of rk] by simp
qed simp

lemma delete_me_store:
  assumes "delete_me cy pg_delete_scope fails jf wl cancel token header now x = (Inr (tn, res, c), x')" and "pg_wf (si_store x)"
  defines "P \<equiv> pr_id ` {p \<in> set (d_projects (ac_db (si_acct x))). pr_tenant p = tn \<and> pr_deleted p = None}"
  shows "pg_val (si_store x') rk = (if \<exists>p \<in> P. in_scope tn p rk then None else pg_val (si_store x) rk) \<and>
    dget (pg_emb (si_store x')) rk = (if \<exists>p \<in> P. in_scope tn p rk then None else dget (pg_emb (si_store x)) rk)"
proof -
  let ?d = "ac_db (si_acct x)"
  obtain u reason d1 w where *: "redeem_deletion cy token now ?d = Inr (u, reason, d1)"
    "delete_tenant pg_delete_scope True fails tn True now
      \<lparr>wo_store = si_store x, wo_jobs = si_jobs x, wo_db = d1, wo_cache = si_keys x\<rparr> = (Inr res, w)"
    "si_store x' = wo_store w" by (rule delete_me_Inr [OF assms(1)])
  have d1: "d_projects d1 = d_projects ?d" using redeem_deletion_Inr [OF *(1)] by auto
  let ?ps = "map pr_id (filter (\<lambda>p. pr_tenant p = tn \<and> pr_deleted p = None) (d_projects ?d))"
  obtain r1 w1 where ps: "delete_projects pg_delete_scope fails tn now ?ps (no_deletions tn ''*'')
      \<lparr>wo_store = si_store x, wo_jobs = si_jobs x, wo_db = d1, wo_cache = si_keys x\<rparr> = (Inr r1, w1)" "wo_store w = wo_store w1"
    using *(2) by (auto simp: delete_tenant_def Let_def d1 split: prod.splits sum.splits if_splits)
  have "set ?ps = P" by (auto simp: P_def)
  then show ?thesis using pg_delete_projects_val [OF ps(1), of rk] assms(2) by (simp add: *(3) ps(2))
qed

text \<open>C25. What a completed deletion erases, exactly. On PostgreSQL, when delete_me has answered,
  with P the projects of the tenant not deleted before: the documents and embeddings of the
  projects of P are gone, and every other row of the store, of any tenant, is as before; the
  jobs of these projects are gone, and no others; of the API keys exactly the live ones of
  these projects are revoked (a live key of a project that was deleted before stays as it is); of
  the projects, tenants and users exactly the tenant's own not yet deleted are, the
  users without address, name, password and provider; and the same link is refused from then
  on.\<close>

theorem deletion_erases_the_account:
  assumes "delete_me cy pg_delete_scope fails jf wl cancel token header now x = (Inr (tn, res, c), x')"
    and "pg_wf (si_store x)"
  shows "let d = ac_db (si_acct x); d' = ac_db (si_acct x');
      P = pr_id ` {p \<in> set (d_projects d). pr_tenant p = tn \<and> pr_deleted p = None} in
    (\<forall>t p k. pg_val (si_store x') (t, p, k) = (if t = tn \<and> p \<in> P then None else pg_val (si_store x) (t, p, k)) \<and>
       dget (pg_emb (si_store x')) (t, p, k) = (if t = tn \<and> p \<in> P then None else dget (pg_emb (si_store x)) (t, p, k))) \<and>
    si_jobs x' = filter (\<lambda>kv. \<not> (j_tenant (snd kv) = tn \<and> j_project (snd kv) \<in> P)) (si_jobs x) \<and>
    d_keys d' = map (\<lambda>k. if ke_tenant k = tn \<and> ke_project k \<in> P \<and> ke_revoked k = None then k\<lparr>ke_revoked := Some now\<rparr> else k) (d_keys d) \<and>
    d_projects d' = map (\<lambda>p. if pr_tenant p = tn \<and> pr_deleted p = None then p\<lparr>pr_deleted := Some now\<rparr> else p) (d_projects d) \<and>
    d_tenants d' = map (\<lambda>y. if te_id y = tn \<and> te_deleted y = None then y\<lparr>te_deleted := Some now\<rparr> else y) (d_tenants d) \<and>
    d_users d' = map (\<lambda>u. if us_tenant u = tn \<and> us_deleted u = None
      then u\<lparr>us_deleted := Some now, us_email := ''deleted-'' @ us_id u @ ''@deleted.engramia.dev'', us_name := None,
        us_hash := None, us_provider_id := None\<rparr> else u) (d_users d) \<and>
    (\<forall>later header'. fst (delete_me cy pg_delete_scope {} False False cancel token header' later x') =
      Inl (HttpError 410 ''Account has already been deleted''))"
proof -
  define d P where "d = ac_db (si_acct x)"
    and "P = pr_id ` {p \<in> set (d_projects d). pr_tenant p = tn \<and> pr_deleted p = None}"
  note t = delete_me_tables [OF assms(1), folded d_def, folded P_def]
  have store: "pg_val (si_store x') (t, p, k) = (if t = tn \<and> p \<in> P then None else pg_val (si_store x) (t, p, k)) \<and>
      dget (pg_emb (si_store x')) (t, p, k) = (if t = tn \<and> p \<in> P then None else dget (pg_emb (si_store x)) (t, p, k))" for t p k
    using delete_me_store [OF assms, of "(t, p, k)", folded d_def, folded P_def] by (auto simp: in_scope_def)
  have marks: "map (mark_in now tn P) (d_projects d) =
      map (\<lambda>p. if pr_tenant p = tn \<and> pr_deleted p = None then p\<lparr>pr_deleted := Some now\<rparr> else p) (d_projects d)"
    by (rule map_cong) (auto simp: mark_in_def P_def)
  have jobs: "filter (\<lambda>kv. \<forall>p \<in> P. \<not> job_in tn p (snd kv)) (si_jobs x) =
      filter (\<lambda>kv. \<not> (j_tenant (snd kv) = tn \<and> j_project (snd kv) \<in> P)) (si_jobs x)"
    by (rule filter_cong) (auto simp: job_in_def)
  have link: "fst (delete_me cy pg_delete_scope {} False False cancel token header' later x') =
      Inl (HttpError 410 ''Account has already been deleted'')" for later header'
    by (simp only: used_link_is_refused [OF assms(1)] fst_conv)
  show ?thesis
    unfolding Let_def d_def [symmetric] P_def [symmetric]
    using t store marks jobs link
    by (simp only: revoke_in_def [abs_def] anonymise_def anonymous_email_def) blast
qed


section \<open>What outlives a deletion\<close>

text \<open>C26. The sessions of a deleted account go on. A refresh token issued before the deletion,
  other than the token presented with it, is exchanged for access tokens until it expires, up
  to 30 days later; such a token authenticates as owner of the tenant, all of whose users are
  deleted, in its deleted default project; and with it a new API key is created, which then
  authenticates without a session.\<close>

theorem deleted_account_keeps_its_sessions:
  assumes "delete_me cy er fails jf wl cancel token header now x = (Inr (tn, res, c), x')" and "sound_tokens cy"
    and "p \<in> set (d_projects (ac_db (si_acct x)))" and "pr_tenant p = tn" and "pr_name p = ''default''"
    and "dget (ac_block (si_acct x')) jti = None" and "dget (ac_block (si_acct x')) jti' = None"
    and "t < t0 + REFRESH_TOKEN_EXPIRE_SECONDS" and "t' < t + ACCESS_TOKEN_EXPIRE_SECONDS"
    and "\<forall>k \<in> set (d_keys (ac_db (si_acct x'))). ke_id k \<noteq> kid \<and> ke_hash k \<noteq> cy_sha cy (''engramia_sk_'' @ rnd)"
  shows "\<exists>access ctx d. let a' = si_acct x'; rt = make_token cy u tn em ''owner'' True jti t0 in
    refresh cy (Some (''Bearer '' @ rt)) jti' t a' = (Inr access, a') \<and>
    fst (cloud_jwt_auth cy False (Some (ac_db a')) (ac_block a') access t') = Inr ctx \<and> cx_tenant ctx = tn \<and> cx_role ctx = ''owner'' \<and>
    (\<forall>v \<in> set (d_users (ac_db a')). us_tenant v = tn \<longrightarrow> us_deleted v \<noteq> None) \<and>
    create_key (cy_sha cy) ctx name ''owner'' None None kid rnd t' (ac_db a') = (Inr (kid, ''engramia_sk_'' @ rnd), d) \<and>
    fst (db_auth (cy_sha cy) False d [] (''engramia_sk_'' @ rnd) t'') =
      Inr \<lparr>cx_key = kid, cx_tenant = tn, cx_project = cx_project ctx, cx_role = ''owner'', cx_max = None\<rparr>"
proof -
  define a' where "a' = si_acct x'"
  let ?rt = "make_token cy u tn em ''owner'' True jti t0" and ?at = "make_token cy u tn em ''owner'' False jti' t"
  have t: "d_users (ac_db a') = map (\<lambda>u. if us_tenant u = tn \<and> us_deleted u = None then anonymise now u else u) (d_users (ac_db (si_acct x)))"
    and pr: "d_projects (ac_db a') = map (mark_in now tn (pr_id ` {p \<in> set (d_projects (ac_db (si_acct x))). pr_tenant p = tn \<and> pr_deleted p = None}))
      (d_projects (ac_db (si_acct x)))"
    using delete_me_tables [OF assms(1)] unfolding a'_def by blast+
  have users: "us_deleted v \<noteq> None" if "v \<in> set (d_users (ac_db a'))" "us_tenant v = tn" for v
    using in_map_if [OF that(1)[unfolded t], of "\<lambda>u. us_tenant u = tn \<longrightarrow> us_deleted u \<noteq> None"] that(2)
    by (auto simp: anonymise_def)
  have "decode_token cy (ac_block a') ?rt True t = (Inr (claims_for u tn em ''owner'' True jti t0), ac_block a')"
    by (rule decode_make) (use assms(2,6,8) in \<open>simp_all add: a'_def\<close>)
  then have rt: "refresh cy (Some (''Bearer '' @ ?rt)) jti' t a' = (Inr ?at, a')"
    by (simp only: refresh_def session_ok) (simp add: claims_for_def)
  have "decode_token cy (ac_block a') ?at False t' = (Inr (claims_for u tn em ''owner'' False jti' t), ac_block a')"
    by (rule decode_make) (use assms(2,7,9) in \<open>simp_all add: a'_def\<close>)
  moreover obtain q where "find (\<lambda>p. pr_tenant p = tn \<and> pr_name p = ''default'') (d_projects (ac_db a')) = Some q"
  proof -
    let ?Q = "\<lambda>p. pr_tenant p = tn \<and> pr_name p = ''default''"
    have "find ?Q (d_projects (ac_db (si_acct x))) \<noteq> None" using assms(3-5) by (auto simp only: find_None_iff)
    moreover have "find ?Q (map (mark_in now tn P) ps) = map_option (mark_in now tn P) (find ?Q ps)" for P ps
      by (rule find_map_same) (simp only: mark_in_simps)
    ultimately have "find ?Q (d_projects (ac_db a')) \<noteq> None" unfolding pr by (simp only: option.map_disc_iff) simp
    then show ?thesis using that by blast
  qed
  ultimately have jwt: "fst (cloud_jwt_auth cy False (Some (ac_db a')) (ac_block a') ?at t') =
      Inr \<lparr>cx_key = ''cloud:'' @ u, cx_tenant = tn, cx_project = pr_id q, cx_role = ''owner'', cx_max = None\<rparr>"
    by (simp add: cloud_jwt_auth_def claims_for_def)
  let ?ctx = "\<lparr>cx_key = ''cloud:'' @ u, cx_tenant = tn, cx_project = pr_id q, cx_role = ''owner'', cx_max = None\<rparr>"
  let ?k = "new_key (cy_sha cy) kid rnd tn (pr_id q) name ''owner'' None None t'"
  have k: "ke_id ?k = kid" "ke_hash ?k = cy_sha cy (''engramia_sk_'' @ rnd)" "ke_tenant ?k = tn" "ke_project ?k = pr_id q"
    "ke_role ?k = ''owner''" "ke_max ?k = None" "live_key t'' ?k"
    by (simp_all add: new_key_def generate_key_def live_key_def)
  have "require_permission (Some ''owner'') ''keys:create'' = Inr ()"
    by (simp add: require_permission_def OWNER_PERMS_def)
  then have ck: "create_key (cy_sha cy) ?ctx name ''owner'' None None kid rnd t' (ac_db a') =
      (Inr (kid, ''engramia_sk_'' @ rnd), (ac_db a')\<lparr>d_keys := d_keys (ac_db a') @ [?k]\<rparr>)"
    using assms(10) k(1,2) by (auto simp: create_key_def create_key_in_db_def insert_key_def max_assignable_def MAX_ASSIGNABLE_def
        a'_def generate_key_def)
  have "fst (db_auth (cy_sha cy) False ((ac_db a')\<lparr>d_keys := d_keys (ac_db a') @ [?k]\<rparr>) [] (''engramia_sk_'' @ rnd) t'') =
      Inr \<lparr>cx_key = ke_id ?k, cx_tenant = ke_tenant ?k, cx_project = ke_project ?k, cx_role = ke_role ?k, cx_max = ke_max ?k\<rparr>"
    by (rule db_auth_uncached) (use assms(10) k in \<open>auto simp: a'_def\<close>)
  with rt jwt users ck k show ?thesis unfolding Let_def a'_def [symmetric] by fastforce
qed


section \<open>An interrupted deletion\<close>

definition same_people :: "idb \<Rightarrow> idb \<Rightarrow> bool" where
  "same_people d d' \<longleftrightarrow> d_users d' = d_users d \<and> d_tenants d' = d_tenants d \<and> d_delete d' = d_delete d"

lemma delete_project_people: "delete_project er True fails t p now w = (r, w') \<Longrightarrow> same_people (wo_db w) (wo_db w')"
  by (auto simp: delete_project_def same_people_def wipe_project_def Let_def split: sum.splits prod.splits if_splits)

lemma delete_projects_people: "delete_projects er fails t now ps agg w = (r, w') \<Longrightarrow> same_people (wo_db w) (wo_db w')"
proof (induction ps arbitrary: agg w)
  case (Cons p ps)
  obtain r1 w1 where *: "delete_project er True fails t p now w = (r1, w1)" by fastforce
  have "same_people (wo_db w1) (wo_db w')"
  proof (cases r1)
    case (Inl e)
    with Cons.prems * show ?thesis by (simp add: same_people_def)
  next
    case (Inr v)
    then show ?thesis using Cons.prems * by (auto intro: Cons.IH)
  qed
  with delete_project_people [OF *] show ?case by (simp add: same_people_def)
qed (simp add: same_people_def)

lemma delete_tenant_people: "delete_tenant er True fails t users now w = (Inl e, w') \<Longrightarrow> same_people (wo_db w) (wo_db w')"
  by (auto simp: delete_tenant_def Let_def same_people_def split: if_splits prod.splits sum.splits
      dest!: delete_projects_people)

text \<open>A deletion that is interrupted by the database or the store leaves the account: its users
  and its tenant are as before. But its link was consumed first and is refused from then on,
  so that the deletion can only be taken up again with a new request.\<close>

theorem interrupted_deletion_needs_a_new_link:
  assumes "redeem_deletion cy token now (ac_db (si_acct x)) = Inr (u, reason, d)"
    and "delete_me cy er fails jf wl cancel token header now x = (Inl e, x')" and "16 \<le> length token" and "length token \<le> 128"
  shows "d_users (ac_db (si_acct x')) = d_users (ac_db (si_acct x)) \<and> d_tenants (ac_db (si_acct x')) = d_tenants (ac_db (si_acct x)) \<and>
    delete_me cy er' fails' jf' wl' cancel' token header' later x' =
      (Inl (HttpError 410 ''This deletion link has already been used''), x')"
proof -
  obtain w where w: "delete_tenant er True fails (us_tenant u) True now
      \<lparr>wo_store = si_store x, wo_jobs = si_jobs x, wo_db = d, wo_cache = si_keys x\<rparr> = (Inl e, w)"
    "ac_db (si_acct x') = wo_db w"
    using assms by (auto simp: delete_me_def Let_def block_def split: sum.splits prod.splits if_splits)
  obtain t where t: "find (\<lambda>t. to_hash t = cy_sha cy token \<and> (\<exists>u \<in> set (d_users (ac_db (si_acct x))). us_id u = to_user t))
      (d_delete (ac_db (si_acct x))) = Some t"
    "find_user (\<lambda>u. us_id u = to_user t) (ac_db (si_acct x)) = Some u" "us_deleted u = None"
    "d = (ac_db (si_acct x))\<lparr>d_delete := consume (cy_sha cy token) now (d_delete (ac_db (si_acct x)))\<rparr>"
    using redeem_deletion_Inr [OF assms(1)] by blast
  have same: "d_users (wo_db w) = d_users (ac_db (si_acct x))" "d_tenants (wo_db w) = d_tenants (ac_db (si_acct x))"
    "d_delete (wo_db w) = consume (cy_sha cy token) now (d_delete (ac_db (si_acct x)))"
    using delete_tenant_people [OF w(1)] t(4) by (simp_all add: same_people_def)
  have "redeem_deletion cy token later (wo_db w) = Inl (HttpError 410 ''This deletion link has already been used'')"
    using t(1-3) find_in_set [OF t(1)] by (simp add: redeem_deletion_def same find_consume find_user_def)
  then show ?thesis using assms(3,4) by (simp add: delete_me_def w(2) same)
qed

section \<open>Revoked tokens\<close>

text \<open>
  One server process with its list and the table: tokens are blocked (the statement may
  fail), requests decode tokens, time passes, and the process restarts, where reading the table
  may fail too and is then passed over; \<open>bk_deaf\<close> records that it failed at the last start.
\<close>

record block_sys =
  bk_list :: blocklist
  bk_table :: blocklist
  bk_clock :: nat
  bk_deaf :: bool

inductive block_step :: "crypto \<Rightarrow> block_sys \<Rightarrow> block_sys \<Rightarrow> bool" for cy :: crypto where
  tick: "bk_clock s \<le> t \<Longrightarrow> block_step cy s (s\<lparr>bk_clock := t\<rparr>)"
| block: "blocklist_token cy fails token (bk_clock s) (bk_list s, bk_table s) = (b, tab) \<Longrightarrow>
    block_step cy s (s\<lparr>bk_list := b, bk_table := tab\<rparr>)"
| decode: "decode_token cy (bk_list s) token rf (bk_clock s) = (r, b) \<Longrightarrow> block_step cy s (s\<lparr>bk_list := b\<rparr>)"
| restart: "block_step cy s (s\<lparr>bk_list := set_blocklist_engine fails (bk_table s) (bk_clock s) [], bk_deaf := fails\<rparr>)"

text \<open>Tokens with the same id expire together: ids are random UUIDs.\<close>

definition distinct_ids :: "crypto \<Rightarrow> bool" where
  "distinct_ids cy \<longleftrightarrow> (\<forall>s t a b. cy_dec cy s = Some a \<and> cy_dec cy t = Some b \<and> cl_jti a = cl_jti b \<longrightarrow> cl_exp a = cl_exp b)"

definition holds_block :: "string \<Rightarrow> nat \<Rightarrow> block_sys \<Rightarrow> bool" where
  "holds_block j e s \<longleftrightarrow> wf_dict (bk_list s) \<and> wf_dict (bk_table s) \<and>
     (bk_clock s < e \<longrightarrow> dget (bk_table s) j = Some e \<and> (\<not> bk_deaf s \<longrightarrow> dget (bk_list s) j = Some e))"

lemma dget_filter: "wf_dict d \<Longrightarrow> dget (filter P d) j = (case dget d j of Some e \<Rightarrow> if P (j, e) then Some e else None | None \<Rightarrow> None)"
proof (induction d)
  case (Cons kv d)
  have "dget d (fst kv) = None" "wf_dict d" using Cons.prems by (auto simp: wf_dict_def dget_None_iff)
  with Cons.IH show ?case by (cases kv) (auto split: option.splits)
qed simp

lemma wf_dict_filter [simp]: "wf_dict d \<Longrightarrow> wf_dict (filter P d)"
  by (simp add: wf_dict_def distinct_map_filter)

lemma fold_dput: "wf_dict b \<Longrightarrow> wf_dict (fold (\<lambda>(j, e). dput j e) kvs b) \<and>
    (wf_dict kvs \<longrightarrow> dget (fold (\<lambda>(j, e). dput j e) kvs b) j = (case dget kvs j of Some e \<Rightarrow> Some e | None \<Rightarrow> dget b j))"
proof (induction kvs arbitrary: b)
  case (Cons kv kvs)
  have "wf_dict (kv # kvs) \<Longrightarrow> dget kvs (fst kv) = None \<and> wf_dict kvs" by (auto simp: wf_dict_def dget_None_iff)
  with Cons.IH [of "dput (fst kv) (snd kv) b"] Cons.prems show ?case
    by (cases kv) (auto simp: dict_simps split: option.splits)
qed simp


lemma blocklist_holds:
  assumes "blocklist_token cy fails token now (b, tab) = (b', tab')" and "distinct_ids cy"
    and "cy_dec cy token0 = Some cl" and "wf_dict b" and "wf_dict tab"
    and "now < cl_exp cl \<longrightarrow> dget tab (cl_jti cl) = Some (cl_exp cl) \<and> (\<not> deaf \<longrightarrow> dget b (cl_jti cl) = Some (cl_exp cl))"
  shows "wf_dict b' \<and> wf_dict tab' \<and>
    (now < cl_exp cl \<longrightarrow> dget tab' (cl_jti cl) = Some (cl_exp cl) \<and> (\<not> deaf \<longrightarrow> dget b' (cl_jti cl) = Some (cl_exp cl)))"
proof (cases "cy_dec cy token")
  case None
  with assms show ?thesis by (simp add: blocklist_token_def)
next
  case (Some c)
  have "cl_jti c = cl_jti cl \<Longrightarrow> cl_exp c = cl_exp cl" using assms(2,3) Some unfolding distinct_ids_def by blast
  with Some assms show ?thesis
    by (auto simp: blocklist_token_def dget_filter dict_simps split: if_splits)
qed

lemma holds_block_step:
  assumes "block_step cy s s'" and "distinct_ids cy" and "cy_dec cy token = Some cl"
    and "holds_block (cl_jti cl) (cl_exp cl) s"
  shows "holds_block (cl_jti cl) (cl_exp cl) s'"
  using assms(1)
proof cases
  case (tick t)
  with assms(4) show ?thesis by (simp add: holds_block_def)
next
  case (block fails token b tab)
  from blocklist_holds [OF block(2) assms(2,3), of "bk_deaf s"] assms(4) show ?thesis by (simp add: holds_block_def block(1))
next
  case (decode token rf r b)
  have "wf_dict b \<and> (bk_clock s < cl_exp cl \<longrightarrow> \<not> bk_deaf s \<longrightarrow> dget b (cl_jti cl) = Some (cl_exp cl))"
    using decode(2) assms(4)
    by (auto simp: decode_token_def is_jti_blocked_def holds_block_def dict_simps Let_def
        split: option.splits if_splits prod.splits)
  with decode(1) assms(4) show ?thesis by (simp add: holds_block_def)
next
  case (restart fails)
  have "wf_dict (bk_table s)" using assms(4) by (simp add: holds_block_def)
  then have "dget (set_blocklist_engine False (bk_table s) (bk_clock s) []) (cl_jti cl) =
      (case dget (bk_table s) (cl_jti cl) of Some e \<Rightarrow> if bk_clock s < e then Some e else None | None \<Rightarrow> None)"
    by (auto simp: set_blocklist_engine_def fold_dput dget_filter split: option.splits)
  with restart assms(4) show ?thesis by (cases fails) (simp_all add: holds_block_def set_blocklist_engine_def fold_dput)
qed

text \<open>C28. A logged-out token is refused until it expires, as long as the server could read its
  table of revoked tokens when it last started. Once the server blocked a token and the
  statement that persists it succeeded, after any sequence of requests, logouts, restarts and
  passing time the token is refused, as an access and as a refresh token, unless the last
  start could not read the table; and at any time a start that cannot read it makes the
  process accept the token again, since the failure is passed over.\<close>

theorem logged_out_tokens_are_refused:
  assumes "distinct_ids cy" and "cy_dec cy token = Some cl" and "cl_jti cl \<noteq> []"
    and "wf_dict (bk_list s)" and "wf_dict (bk_table s)" and "dget (bk_table s) (cl_jti cl) = None"
    and "blocklist_token cy False token (bk_clock s) (bk_list s, bk_table s) = (b, tab)"
    and "(block_step cy)\<^sup>*\<^sup>* (s\<lparr>bk_list := b, bk_table := tab, bk_deaf := False\<rparr>) s'"
  shows "(\<not> bk_deaf s' \<longrightarrow> (\<exists>e. fst (decode_token cy (bk_list s') token rf (bk_clock s')) = Inl (HttpError 401 e))) \<and>
    (\<exists>s''. block_step cy s' s'' \<and> bk_deaf s'' \<and> (bk_clock s' < cl_exp cl \<longrightarrow> dget (bk_table s'') (cl_jti cl) = Some (cl_exp cl) \<and>
       fst (decode_token cy (bk_list s'') token (cl_refresh cl) (bk_clock s'')) = Inr cl))"
proof -
  have "holds_block (cl_jti cl) (cl_exp cl) (s\<lparr>bk_list := b, bk_table := tab, bk_deaf := False\<rparr>)"
    using assms(2-7) by (auto simp: holds_block_def blocklist_token_def dget_filter dict_simps)
  with assms(8) have h: "holds_block (cl_jti cl) (cl_exp cl) s'"
    by (induction rule: rtranclp_induct) (use holds_block_step [OF _ assms(1,2)] in blast)+
  let ?t = "s'\<lparr>bk_list := set_blocklist_engine True (bk_table s') (bk_clock s') [], bk_deaf := True\<rparr>"
  have "block_step cy s' ?t" by (rule block_step.restart)
  moreover have "bk_clock s' < cl_exp cl \<longrightarrow> dget (bk_table ?t) (cl_jti cl) = Some (cl_exp cl) \<and>
      fst (decode_token cy (bk_list ?t) token (cl_refresh cl) (bk_clock ?t)) = Inr cl"
    using h assms(2) by (simp add: holds_block_def set_blocklist_engine_def decode_token_def is_jti_blocked_def)
  moreover have "\<exists>e. fst (decode_token cy (bk_list s') token rf (bk_clock s')) = Inl (HttpError 401 e)" if "\<not> bk_deaf s'"
    using that h assms(2,3) by (auto simp: decode_token_def holds_block_def is_jti_blocked_def Let_def)
  ultimately show ?thesis by (intro conjI impI exI [of _ ?t]) simp_all
qed

section \<open>Rate limits\<close>

text \<open>A run of attempts, each with its client and time; the answer says which were admitted.\<close>

fun attempts :: "nat \<Rightarrow> ('k \<times> nat) list \<Rightarrow> ('k \<times> nat, nat) dict \<Rightarrow> bool list" where
  "attempts limit [] rates = []"
| "attempts limit ((k, t) # ats) rates =
     (case check_rate limit k t rates of (r, rates') \<Rightarrow> (r = Inr ()) # attempts limit ats rates')"

definition admitted :: "'k \<Rightarrow> nat \<Rightarrow> ('k \<times> nat) list \<Rightarrow> bool list \<Rightarrow> nat" where
  "admitted k w ats bs = length (filter (\<lambda>((j, t), b). j = k \<and> t div 60 = w \<and> b) (zip ats bs))"

definition tries :: "'k \<Rightarrow> nat \<Rightarrow> ('k \<times> nat) list \<Rightarrow> nat" where
  "tries k w ats = length (filter (\<lambda>(j, t). j = k \<and> t div 60 = w) ats)"

definition seen :: "('k \<times> nat, nat) dict \<Rightarrow> 'k \<Rightarrow> nat \<Rightarrow> nat" where
  "seen rates k w = (case dget rates (k, w) of None \<Rightarrow> 0 | Some n \<Rightarrow> n)"

lemma seen_check:
  assumes "wf_dict rates" and "check_rate limit k t rates = (r, rates')" and "t div 60 \<le> w + 1"
  shows "wf_dict rates' \<and> seen rates' j w = (if j = k \<and> w = t div 60 then seen rates j w + 1 else seen rates j w) \<and>
    (r = Inr () \<longleftrightarrow> seen rates k (t div 60) < limit)"
proof -
  define n where "n = seen rates k (t div 60) + 1"
  let ?put = "dput (k, t div 60) n rates"
  have "rates' = filter (\<lambda>((i, w), m). \<not> w + 1 < t div 60) ?put" "r = (if limit < n then Inl (HttpError 429 ''Too many attempts'') else Inr ())"
    using assms(2) by (simp_all add: check_rate_def Let_def n_def seen_def)
  moreover have "dget (filter (\<lambda>((i, w), m). \<not> w + 1 < t div 60) ?put) (j, w) = dget ?put (j, w)"
    using assms(1,3) by (simp add: dget_filter split: option.split)
  ultimately show ?thesis using assms(1) by (simp add: seen_def dict_simps n_def)
qed

lemma Suc_min_diff: "s < l \<Longrightarrow> Suc (min n (l - Suc s)) = min (Suc n) (l - s)"
  by arith

lemma no_tries:
  assumes "\<And>j t. (j, t) \<in> set ats \<Longrightarrow> t div 60 \<noteq> w"
  shows "tries k w ats = 0 \<and> admitted k w ats bs = 0"
  using assms by (auto simp: tries_def admitted_def filter_empty_conv dest!: set_zip_leftD)

lemma attempts_admitted:
  "wf_dict rates \<Longrightarrow> sorted (map snd ats) \<Longrightarrow> (\<And>t. t \<in> snd ` set ats \<Longrightarrow> t0 \<le> t) \<Longrightarrow> t0 div 60 \<le> w + 1 \<Longrightarrow>
   admitted k w ats (attempts limit ats rates) = min (tries k w ats) (limit - seen rates k w)"
proof (induction ats arbitrary: rates t0)
  case Nil
  then show ?case by (simp add: admitted_def tries_def)
next
  case (Cons p ats)
  obtain j t where at: "p = (j, t)" by fastforce
  obtain r rates' where c: "check_rate limit j t rates = (r, rates')" by fastforce
  show ?case
  proof (cases "t div 60 \<le> w + 1")
    case True
    have s: "wf_dict rates'" "seen rates' k w = (if k = j \<and> w = t div 60 then seen rates k w + 1 else seen rates k w)"
      "r = Inr () \<longleftrightarrow> seen rates j (t div 60) < limit"
      using seen_check [OF Cons.prems(1) c True, of k] by blast+
    have "admitted k w ats (attempts limit ats rates') = min (tries k w ats) (limit - seen rates' k w)"
      by (rule Cons.IH [OF s(1), of t]) (use Cons.prems(2) True at in auto)
    moreover have "admitted k w (p # ats) (attempts limit (p # ats) rates) =
        (if j = k \<and> t div 60 = w \<and> r = Inr () then 1 else 0) + admitted k w ats (attempts limit ats rates')"
      by (simp add: at c admitted_def)
    moreover have "tries k w (p # ats) = (if j = k \<and> t div 60 = w then 1 else 0) + tries k w ats"
      by (simp add: at tries_def)
    ultimately show ?thesis using s(2,3) by (cases "j = k \<and> t div 60 = w") (auto simp: Suc_min_diff)
  next
    case False
    have "x div 60 \<noteq> w" if "(i, x) \<in> set (p # ats)" for i x
    proof -
      have "t \<le> x" using that Cons.prems(2) at by force
      then have "t div 60 \<le> x div 60" by (rule div_le_mono)
      with False show ?thesis by simp
    qed
    then have "tries k w (p # ats) = 0 \<and> admitted k w (p # ats) (attempts limit (p # ats) rates) = 0" by (rule no_tries)
    then show ?thesis by simp
  qed
qed

text \<open>A rate limit admits exactly the first attempts up to the limit of a client in a clock minute, whatever
  other clients do in between and although old counters are dropped on the way. Over the edge
  of a minute twice as many pass: ten login attempts at its end and ten right after.\<close>

theorem rate_limit_admits_exactly:
  assumes "sorted (map snd ats)"
  shows "admitted k w ats (attempts limit ats []) = min (tries k w ats) limit"
  using attempts_admitted [of "[]" ats 0 w k limit] assms by (simp add: seen_def)


section \<open>Witnesses\<close>

definition put_text :: "string \<Rightarrow> string" where
  "put_text s = concat (map (\<lambda>c. [CHR ''0'', c]) s) @ ''1''"

fun take_text :: "string \<Rightarrow> string \<times> string" where
  "take_text [] = ([], [])"
| "take_text [a] = ([], [])"
| "take_text (a # c # s) = (if a = CHR ''1'' then ([], c # s) else (case take_text s of (x, r) \<Rightarrow> (c # x, r)))"

lemma take_put: "take_text (put_text s @ c # r) = (s, c # r)"
  by (induction s) (simp_all add: put_text_def)

lemma put_text_Cons: "\<exists>c r. put_text s = c # r"
  by (cases s) (simp_all add: put_text_def)

text \<open>A token spells out its claims; a hash is the text itself.\<close>

definition demo_enc :: "claims \<Rightarrow> string" where
  "demo_enc cl = put_text (cl_sub cl) @ put_text (cl_tenant cl) @ put_text (cl_email cl) @ put_text (cl_role cl) @
     put_text (if cl_refresh cl then ''r'' else []) @ put_text (cl_jti cl) @ put_text (replicate (cl_exp cl) CHR ''x'') @ ''.''"

definition demo_dec :: "string \<Rightarrow> claims option" where
  "demo_dec tk =
     (let (a, s) = take_text tk; (b, s) = take_text s; (c, s) = take_text s; (d, s) = take_text s; (e, s) = take_text s;
          (f, s) = take_text s; (g, s) = take_text s
      in Some \<lparr>cl_sub = a, cl_tenant = b, cl_email = c, cl_role = d, cl_refresh = (e \<noteq> []), cl_jti = f, cl_exp = length g\<rparr>)"

definition demo_crypto :: crypto where
  "demo_crypto = \<lparr>cy_sha = id, cy_hash = id, cy_check = (=), cy_enc = demo_enc, cy_dec = demo_dec\<rparr>"

lemma take_puts: "take_text (put_text s @ put_text s' @ r) = (s, put_text s' @ r)"
  using put_text_Cons [of s'] by (auto simp: take_put)

lemma demo_sound: "sound_tokens demo_crypto"
  by (simp add: sound_tokens_def demo_crypto_def demo_enc_def demo_dec_def take_puts take_put Let_def)

definition demo_acct :: "idb \<Rightarrow> acct" where
  "demo_acct d = \<lparr>ac_db = d, ac_block = [], ac_register = [], ac_login = [], ac_resend = [], ac_deletion = [], ac_waitlist = []\<rparr>"

definition demo_fresh :: fresh where
  "demo_fresh = \<lparr>fr_user = ''u'', fr_project = ''p'', fr_slug = ''s'', fr_key_id = ''i'', fr_key = ''k''\<rparr>"

theorem squatted_registration_shares_the_account_witness:
  "\<exists>a1 tk rt a2 ctx. register_user demo_crypto True ''1.2.3.4'' ''a@b.c'' ''pw'' None demo_fresh ''v'' False 0 (demo_acct (demo_db [])) =
      (Inr (''u'', ''a'', Some ''engramia-k'', False), a1) \<and>
    oauth_login demo_crypto True ''g'' (GoogleInfo ''g'' (Some ''a@b.c'') ''sub'' None) None demo_fresh ''j'' ''l'' 5 a1 =
      (Inr (''u'', ''a'', tk, rt, []), a2) \<and>
    fst (db_auth id False (ac_db a2) [] ''engramia-k'' 5) = Inr ctx \<and> cx_role ctx = ''owner''"
proof -
  let ?r = "register_user demo_crypto True ''1.2.3.4'' ''a@b.c'' ''pw'' None demo_fresh ''v'' False 0 (demo_acct (demo_db []))"
  have "email_ok ''a@b.c''" by code_simp
  moreover have "py_lower ''a@b.c'' = ''a@b.c''" by code_simp
  moreover have "make_tenant_slug ''a'' ''s'' (demo_db []) = ''a''" by code_simp
  ultimately have "fst ?r = Inr (''u'', ''a'', Some ''engramia-k'', False)"
    by (simp add: register_user_def check_register_rate_def check_rate_def Let_def demo_acct_def demo_fresh_def
        find_user_def create_registration_def registration_key_def generate_api_key_def create_verification_token_def
        issue_token_def demo_crypto_def) (simp add: demo_db_def)
  then obtain a1 where a1: "?r = (Inr (''u'', ''a'', Some ''engramia-k'', False), a1)" by (metis prod.collapse)
  have "verify_google_token ''g'' (GoogleInfo ''g'' (Some ''a@b.c'') ''sub'' None) = Inr (Some ''a@b.c'', ''sub'', None)"
    by code_simp
  with squatted_registration_shares_the_account [OF demo_sound a1, of "''g''" "GoogleInfo ''g'' (Some ''a@b.c'') ''sub'' None" "''a@b.c''" "''sub''" None "[]" "''j''" 5 5 None demo_fresh "''l''"]
  have "\<exists>tk rt a2 ctx. oauth_login demo_crypto True ''g'' (GoogleInfo ''g'' (Some ''a@b.c'') ''sub'' None) None demo_fresh ''j'' ''l'' 5 a1 =
      (Inr (''u'', ''a'', tk, rt, []), a2) \<and>
    fst (db_auth (cy_sha demo_crypto) False (ac_db a2) [] ''engramia-k'' 5) = Inr ctx \<and> cx_role ctx = ''owner''"
    by (simp add: demo_acct_def demo_db_def ACCESS_TOKEN_EXPIRE_SECONDS_def) blast
  then show ?thesis using a1 by (simp add: demo_crypto_def)
qed


text \<open>One account with a key, a document and a deletion link.\<close>

definition demo_link :: string where "demo_link = replicate 16 CHR ''x''"

definition demo_account :: "nat option \<Rightarrow> acct" where
  "demo_account used = demo_acct
     \<lparr>d_tenants = [\<lparr>te_id = ''t'', te_name = ''t'', te_deleted = None\<rparr>],
      d_projects = [\<lparr>pr_id = ''p'', pr_tenant = ''t'', pr_name = ''default'', pr_deleted = None\<rparr>],
      d_users = [\<lparr>us_id = ''u'', us_email = ''a'', us_hash = None, us_tenant = ''t'', us_name = None, us_provider = ''google'',
        us_provider_id = None, us_verified = True, us_must_change = False, us_last_login = None, us_created = 0, us_deleted = None\<rparr>],
      d_keys = [demo_key ''k'' ''h'' ''owner'' None],
      d_verify = [], d_delete = [\<lparr>to_hash = demo_link, to_user = ''u'', to_expires = 9, to_consumed = used, to_reason = None\<rparr>],
      d_jtis = []\<rparr>"

definition demo_site :: "pg_store site" where
  "demo_site = \<lparr>si_acct = demo_account None,
     si_store = \<lparr>pg_data = [((''t'', ''p'', ''d''), new_row (DDict []))], pg_emb = []\<rparr>, si_jobs = [], si_keys = []\<rparr>"

lemma demo_link_length: "16 \<le> length demo_link" "length demo_link \<le> 128"
  by (simp_all add: demo_link_def)

lemma demo_redeem: "\<exists>u d. redeem_deletion demo_crypto demo_link 5 (ac_db (si_acct demo_site)) = Inr (u, None, d) \<and> us_tenant u = ''t'' \<and>
    d_projects d = d_projects (ac_db (si_acct demo_site))"
  by (simp add: redeem_deletion_def demo_site_def demo_account_def demo_acct_def demo_crypto_def find_user_def)

lemma demo_delete_me:
  "\<exists>res c x'. delete_me demo_crypto pg_delete_scope {} False False (\<lambda>t. Inr False) demo_link None 5 demo_site = (Inr (''t'', res, c), x') \<and>
    ac_block (si_acct x') = []"
proof -
  obtain u d where *: "redeem_deletion demo_crypto demo_link 5 (ac_db (si_acct demo_site)) = Inr (u, None, d)" "us_tenant u = ''t''"
    "d_projects d = d_projects (ac_db (si_acct demo_site))" using demo_redeem by blast
  show ?thesis
    by (simp add: delete_me_def * demo_link_length [THEN leD]) (simp add: delete_tenant_def * delete_project_def demo_site_def
        demo_account_def demo_acct_def pg_delete_scope_def bearer_token_def Let_def, rule exI [of _ False], simp)
qed

theorem deletion_erases_the_account_witness:
  "\<exists>res c x'. delete_me demo_crypto pg_delete_scope {} False False (\<lambda>t. Inr False) demo_link None 5 demo_site = (Inr (''t'', res, c), x') \<and>
    (\<forall>k. pg_val (si_store x') (''t'', ''p'', k) = None)"
proof -
  obtain res c x' where x: "delete_me demo_crypto pg_delete_scope {} False False (\<lambda>t. Inr False) demo_link None 5 demo_site =
      (Inr (''t'', res, c), x')" using demo_delete_me by blast
  have "pg_wf (si_store demo_site)" by (simp add: demo_site_def pg_wf_def wf_dict_def)
  note e = deletion_erases_the_account [OF x this, unfolded Let_def]
  have "''p'' \<in> pr_id ` {p \<in> set (d_projects (ac_db (si_acct demo_site))). pr_tenant p = ''t'' \<and> pr_deleted p = None}"
    by (rule image_eqI [where x = "\<lparr>pr_id = ''p'', pr_tenant = ''t'', pr_name = ''default'', pr_deleted = None\<rparr>"])
      (simp_all add: demo_site_def demo_account_def demo_acct_def)
  with conjunct1 [OF e] have "\<forall>k. pg_val (si_store x') (''t'', ''p'', k) = None" by (simp only: simp_thms if_True)
  with x show ?thesis by blast
qed

theorem deleted_account_keeps_its_sessions_witness:
  "\<exists>res c x' access. delete_me demo_crypto pg_delete_scope {} False False (\<lambda>t. Inr False) demo_link None 5 demo_site = (Inr (''t'', res, c), x') \<and>
    refresh demo_crypto (Some (''Bearer '' @ make_token demo_crypto ''u'' ''t'' ''a'' ''owner'' True ''r'' 0)) ''s'' 50 (si_acct x') =
      (Inr access, si_acct x')"
proof -
  obtain res c x' where x: "delete_me demo_crypto pg_delete_scope {} False False (\<lambda>t. Inr False) demo_link None 5 demo_site =
      (Inr (''t'', res, c), x')" "ac_block (si_acct x') = []" using demo_delete_me by blast
  define P where "P = pr_id ` {p \<in> set (d_projects (ac_db (si_acct demo_site))). pr_tenant p = ''t'' \<and> pr_deleted p = None}"
  have "d_keys (ac_db (si_acct x')) = map (revoke_in 5 ''t'' P) (d_keys (ac_db (si_acct demo_site)))"
    using delete_me_tables [OF x(1)] unfolding P_def by blast
  then have k: "\<forall>k \<in> set (d_keys (ac_db (si_acct x'))). ke_id k = ''k'' \<and> ke_hash k = ''h''"
    by (simp add: demo_site_def demo_account_def demo_acct_def demo_key_def)
  have "\<lparr>pr_id = ''p'', pr_tenant = ''t'', pr_name = ''default'', pr_deleted = None\<rparr> \<in> set (d_projects (ac_db (si_acct demo_site)))"
    by (simp add: demo_site_def demo_account_def demo_acct_def)
  from deleted_account_keeps_its_sessions [OF x(1) demo_sound this, of "''r''" "''s''" 50 0 51 "''new''" "''n''"]
  show ?thesis using x k
    by (simp add: REFRESH_TOKEN_EXPIRE_SECONDS_def ACCESS_TOKEN_EXPIRE_SECONDS_def demo_crypto_def Let_def) blast
qed

theorem interrupted_deletion_needs_a_new_link_witness:
  "\<exists>x'. delete_me demo_crypto pg_delete_scope {DTenant} False False (\<lambda>t. Inr False) demo_link None 5 demo_site =
      (Inl (OtherError ''SQLAlchemyError''), x') \<and>
    fst (delete_me demo_crypto pg_delete_scope {} False False (\<lambda>t. Inr False) demo_link None 6 x') =
      Inl (HttpError 410 ''This deletion link has already been used'')"
proof -
  obtain u d where *: "redeem_deletion demo_crypto demo_link 5 (ac_db (si_acct demo_site)) = Inr (u, None, d)" "us_tenant u = ''t''"
    "d_projects d = d_projects (ac_db (si_acct demo_site))" using demo_redeem by blast
  obtain x' where x: "delete_me demo_crypto pg_delete_scope {DTenant} False False (\<lambda>t. Inr False) demo_link None 5 demo_site =
      (Inl (OtherError ''SQLAlchemyError''), x')"
    by (simp add: delete_me_def * demo_link_length [THEN leD]) (simp add: delete_tenant_def * delete_project_def demo_site_def
        demo_account_def demo_acct_def pg_delete_scope_def Let_def)
  from interrupted_deletion_needs_a_new_link [OF *(1) x demo_link_length] x show ?thesis by simp
qed

theorem logged_out_tokens_are_refused_witness:
  "\<exists>e. fst (decode_token \<lparr>cy_sha = id, cy_hash = id, cy_check = (=), cy_enc = (\<lambda>c. ''T''),
      cy_dec = (\<lambda>t. Some \<lparr>cl_sub = [], cl_tenant = [], cl_email = [], cl_role = [], cl_refresh = False, cl_jti = ''j'', cl_exp = 9\<rparr>)\<rparr>
      [(''j'', 9)] ''T'' False 4) = Inl (HttpError 401 e)"
proof -
  let ?c = "\<lparr>cl_sub = [], cl_tenant = [], cl_email = [], cl_role = [], cl_refresh = False, cl_jti = ''j'', cl_exp = 9\<rparr>"
  let ?cy = "\<lparr>cy_sha = id, cy_hash = id, cy_check = (=), cy_enc = (\<lambda>c. ''T''), cy_dec = (\<lambda>t. Some ?c)\<rparr>"
  let ?s = "\<lparr>bk_list = [], bk_table = [], bk_clock = 3, bk_deaf = False\<rparr>"
  let ?t = "\<lparr>bk_list = [(''j'', 9)], bk_table = [(''j'', 9)], bk_clock = 4, bk_deaf = False\<rparr>"
  let ?b = "?s\<lparr>bk_list := [(''j'', 9)], bk_table := [(''j'', 9)], bk_deaf := False\<rparr>"
  have d: "distinct_ids ?cy" by (simp add: distinct_ids_def)
  have b: "blocklist_token ?cy False ''T'' (bk_clock ?s) (bk_list ?s, bk_table ?s) = ([(''j'', 9)], [(''j'', 9)])"
    by (simp add: blocklist_token_def)
  have "block_step ?cy ?b ?t" using block_step.tick [of ?b 4 ?cy] by simp
  then have "(block_step ?cy)\<^sup>*\<^sup>* ?b ?t" by (rule r_into_rtranclp)
  from logged_out_tokens_are_refused [OF d _ _ _ _ _ b this, of ?c False] show ?thesis by simp
qed

theorem rate_limit_admits_exactly_witness:
  "admitted 0 0 [(0::nat, 58), (0, 59), (0, 60)] (attempts 1 [(0::nat, 58), (0, 59), (0, 60)] []) = 1"
  by (rule trans [OF rate_limit_admits_exactly]) (simp_all add: tries_def)

end
