(* ===== verification/AdminAuth.thy ===== *)
theory AdminAuth
  imports Identity Credentials
begin

text \<open>
  The login of the admin dashboard: \<open>engramia/admin_auth\<close> (password, TOTP, sessions,
  tokens), the endpoints of \<open>engramia/api/admin/auth.py\<close>, the gates of
  \<open>engramia/api/admin/deps.py\<close> and the break-glass command of the CLI. Times are whole seconds;
  bcrypt, pyotp, AES-GCM and PyJWT are parameters, random ids and tokens are arguments.
\<close>

section \<open>Tables and tokens\<close>

record admin_user =
  au_id :: nat
  au_email :: string
  au_hash :: string
  au_secret :: "string option"
  au_enrolled :: bool
  au_status :: string
  au_last_login :: "(nat \<times> string) option"

record admin_session =
  as_id :: string
  as_user :: nat
  as_hash :: string
  as_issued :: nat
  as_expires :: nat
  as_totp :: nat
  as_revoked :: "nat option"

record attempt =
  at_email :: string
  at_ip :: string
  at_ok :: bool
  at_stage :: string
  at_reason :: "string option"
  at_time :: nat

record adb =
  a_users :: "admin_user list"
  a_sessions :: "admin_session list"
  a_attempts :: "attempt list"

record aclaims =
  ac_type :: string
  ac_user :: nat
  ac_session :: string
  ac_totp :: nat
  ac_stage :: "string option"
  ac_iat :: nat
  ac_exp :: nat

text \<open>
  Decoding answers the claims of a token with a valid signature, issuer and audience;
  decrypting may raise; \<open>am_totp\<close> is \<open>pyotp.TOTP.verify\<close> with a window of one step at a time.
\<close>

record admin_crypto =
  am_sha :: "string \<Rightarrow> string"
  am_checkpw :: "string \<Rightarrow> string \<Rightarrow> bool"
  am_decrypt :: "string \<Rightarrow> nat \<Rightarrow> string res"
  am_totp :: "string \<Rightarrow> string \<Rightarrow> nat \<Rightarrow> bool"
  am_enc :: "aclaims \<Rightarrow> string"
  am_dec :: "string \<Rightarrow> aclaims option"

definition LOCKOUT_THRESHOLD :: nat where "LOCKOUT_THRESHOLD = 5"
definition LOCKOUT_WINDOW :: nat where "LOCKOUT_WINDOW = 15 * 60"
definition ADMIN_REFRESH_TTL :: nat where "ADMIN_REFRESH_TTL = 86400"
definition ADMIN_ACCESS_TTL :: nat where "ADMIN_ACCESS_TTL = 15 * 60"
definition INTERMEDIATE_TTL :: nat where "INTERMEDIATE_TTL = 5 * 60"

definition issue_admin_token :: "admin_crypto \<Rightarrow> nat \<Rightarrow> string \<Rightarrow> nat \<Rightarrow> nat \<Rightarrow> string" where
  "issue_admin_token cy uid sid totp now = am_enc cy \<lparr>ac_type = ''admin_access'', ac_user = uid, ac_session = sid,
     ac_totp = totp, ac_stage = None, ac_iat = now, ac_exp = now + ADMIN_ACCESS_TTL\<rparr>"

definition issue_intermediate_token :: "admin_crypto \<Rightarrow> nat \<Rightarrow> nat \<Rightarrow> string" where
  "issue_intermediate_token cy uid now = am_enc cy \<lparr>ac_type = ''admin_intermediate'', ac_user = uid, ac_session = [],
     ac_totp = 0, ac_stage = Some ''totp_required'', ac_iat = now, ac_exp = now + INTERMEDIATE_TTL\<rparr>"

definition jwt_decode :: "admin_crypto \<Rightarrow> string \<Rightarrow> nat \<Rightarrow> aclaims res" where
  "jwt_decode cy token now =
     (case am_dec cy token of
        None \<Rightarrow> Inl (OtherError ''PyJWTError'')
      | Some c \<Rightarrow> if now < ac_iat c \<or> ac_exp c \<le> now then Inl (OtherError ''PyJWTError'') else Inr c)"

definition verify_admin_token :: "admin_crypto \<Rightarrow> string \<Rightarrow> nat \<Rightarrow> aclaims res" where
  "verify_admin_token cy token now = bind_res (jwt_decode cy token now) (\<lambda>c.
     if ac_type c \<noteq> ''admin_access'' then Inl (OtherError ''PyJWTError'') else Inr c)"

definition verify_intermediate_token :: "admin_crypto \<Rightarrow> string \<Rightarrow> nat \<Rightarrow> nat res" where
  "verify_intermediate_token cy token now = bind_res (jwt_decode cy token now) (\<lambda>c.
     if ac_type c \<noteq> ''admin_intermediate'' \<or> ac_stage c \<noteq> Some ''totp_required'' then Inl (OtherError ''PyJWTError'')
     else Inr (ac_user c))"

section \<open>Passwords and codes\<close>

definition verify_password :: "admin_crypto \<Rightarrow> string \<Rightarrow> string \<Rightarrow> bool" where
  "verify_password cy plain h \<longleftrightarrow> plain \<noteq> [] \<and> h \<noteq> [] \<and> am_checkpw cy plain h"

text \<open>\<open>str.isdigit\<close> also holds of the superscripts.\<close>

definition py_isdigit :: "char \<Rightarrow> bool" where
  "py_isdigit c \<longleftrightarrow> (let n = code c in 48 \<le> n \<and> n \<le> 57 \<or> n \<in> {178, 179, 185})"

definition verify_totp_code :: "admin_crypto \<Rightarrow> string \<Rightarrow> string \<Rightarrow> nat \<Rightarrow> bool" where
  "verify_totp_code cy secret c now =
     (let cleaned = filter (\<lambda>x. x \<noteq> CHR '' '') (py_strip c) in
      secret \<noteq> [] \<and> c \<noteq> [] \<and> cleaned \<noteq> [] \<and> list_all py_isdigit cleaned \<and> length cleaned = 6 \<and> am_totp cy secret cleaned now)"

section \<open>Attempts and the lockout\<close>

definition log_attempt :: "string \<Rightarrow> string \<Rightarrow> bool \<Rightarrow> string \<Rightarrow> string option \<Rightarrow> nat \<Rightarrow> adb \<Rightarrow> adb" where
  "log_attempt email ip ok stage reason now d = d\<lparr>a_attempts := a_attempts d @
     [\<lparr>at_email = py_lower email, at_ip = ip, at_ok = ok, at_stage = stage, at_reason = reason, at_time = now\<rparr>]\<rparr>"

definition recent_failures :: "string \<Rightarrow> nat \<Rightarrow> attempt list \<Rightarrow> nat" where
  "recent_failures email now ats = length (filter (\<lambda>a. at_email a = email \<and> \<not> at_ok a \<and> now \<le> at_time a + LOCKOUT_WINDOW) ats)"

definition is_locked_out :: "string \<Rightarrow> nat \<Rightarrow> adb \<Rightarrow> bool" where
  "is_locked_out email now d \<longleftrightarrow> LOCKOUT_THRESHOLD \<le> recent_failures (py_lower email) now (a_attempts d)"

datatype login_outcome = LTotpRequired string | LInvalidCredentials | LLocked | LNotEnrolled

definition attempt_login :: "admin_crypto \<Rightarrow> string \<Rightarrow> string \<Rightarrow> string \<Rightarrow> nat \<Rightarrow> adb \<Rightarrow> login_outcome \<times> adb" where
  "attempt_login cy email0 password ip now d =
     (let email = py_lower (py_strip email0); failed = (\<lambda>r. log_attempt email ip False ''password'' (Some r) now d) in
      if is_locked_out email now d then (LLocked, failed ''locked'')
      else (case find (\<lambda>u. au_email u = email) (a_users d) of
          None \<Rightarrow> (LInvalidCredentials, failed ''unknown_email'')
        | Some u \<Rightarrow>
            if au_status u \<noteq> ''active'' then (LLocked, failed (''status_'' @ au_status u))
            else if \<not> verify_password cy password (au_hash u) then (LInvalidCredentials, failed ''bad_password'')
            else if \<not> au_enrolled u then (LNotEnrolled, failed ''totp_not_enrolled'')
            else (LTotpRequired (issue_intermediate_token cy (au_id u) now), log_attempt email ip True ''password'' None now d)))"

section \<open>Sessions\<close>

record grant =
  gr_jwt :: "string option"
  gr_refresh :: "string option"
  gr_expires :: "nat option"
  gr_totp :: nat
  gr_user :: nat
  gr_session :: string

datatype totp_outcome = TOk grant | TInvalidToken string | TInvalidCode | TLocked

text \<open>INSERT INTO admin_sessions, with its primary key.\<close>

definition insert_session :: "admin_session \<Rightarrow> adb \<Rightarrow> adb res" where
  "insert_session s d = (if as_id s \<in> as_id ` set (a_sessions d) then Inl integrity_error
     else Inr (d\<lparr>a_sessions := a_sessions d @ [s]\<rparr>))"

definition update_sessions :: "(admin_session \<Rightarrow> bool) \<Rightarrow> (admin_session \<Rightarrow> admin_session) \<Rightarrow> adb \<Rightarrow> adb" where
  "update_sessions P f d = d\<lparr>a_sessions := map (\<lambda>s. if P s then f s else s) (a_sessions d)\<rparr>"

definition attempt_totp ::
  "admin_crypto \<Rightarrow> nat \<Rightarrow> string \<Rightarrow> string \<Rightarrow> string \<Rightarrow> string \<Rightarrow> nat \<Rightarrow> adb \<Rightarrow> totp_outcome res \<times> adb" where
  "attempt_totp cy uid c ip sid rt now d =
     (case find (\<lambda>u. au_id u = uid) (a_users d) of
        None \<Rightarrow> (Inr (TInvalidToken ''Unknown admin''), d)
      | Some u \<Rightarrow>
          (let failed = (\<lambda>r. log_attempt (au_email u) ip False ''totp'' (Some r) now d) in
           if au_status u \<noteq> ''active'' then (Inr TLocked, d)
           else if is_locked_out (au_email u) now d then (Inr TLocked, failed ''locked'')
           else (case given (au_secret u) of
               None \<Rightarrow> (Inr (TInvalidToken ''TOTP not enrolled''), failed ''totp_not_enrolled'')
             | Some enc \<Rightarrow>
                 if \<not> au_enrolled u then (Inr (TInvalidToken ''TOTP not enrolled''), failed ''totp_not_enrolled'')
                 else (case am_decrypt cy enc uid of
                     Inl e \<Rightarrow> (Inl e, d)
                   | Inr secret \<Rightarrow>
                       if \<not> verify_totp_code cy secret c now then (Inr TInvalidCode, failed ''bad_totp'')
                       else (case insert_session \<lparr>as_id = sid, as_user = uid, as_hash = am_sha cy rt, as_issued = now,
                               as_expires = now + ADMIN_REFRESH_TTL, as_totp = now, as_revoked = None\<rparr> d of
                           Inl e \<Rightarrow> (Inl e, d)
                         | Inr d1 \<Rightarrow>
                             (Inr (TOk \<lparr>gr_jwt = Some (issue_admin_token cy uid sid now now), gr_refresh = Some rt,
                                gr_expires = Some (now + ADMIN_REFRESH_TTL), gr_totp = now, gr_user = uid, gr_session = sid\<rparr>),
                              log_attempt (au_email u) ip True ''totp'' None now
                                (d1\<lparr>a_users := map (\<lambda>x. if au_id x = uid then x\<lparr>au_last_login := Some (now, ip)\<rparr> else x) (a_users d1)\<rparr>)))))))"

definition reauth_totp ::
  "admin_crypto \<Rightarrow> nat \<Rightarrow> string \<Rightarrow> string \<Rightarrow> string \<Rightarrow> string \<Rightarrow> string \<Rightarrow> nat \<Rightarrow> adb \<Rightarrow> totp_outcome res \<times> adb" where
  "reauth_totp cy uid session c ip sid rt now d =
     (case attempt_totp cy uid c ip sid rt now d of
        (Inr (TOk g), d1) \<Rightarrow>
          (Inr (TOk \<lparr>gr_jwt = None, gr_refresh = None, gr_expires = None, gr_totp = gr_totp g, gr_user = uid, gr_session = session\<rparr>),
           update_sessions (\<lambda>s. as_id s = session \<and> as_revoked s = None) (\<lambda>s. s\<lparr>as_totp := now\<rparr>)
             (d1\<lparr>a_sessions := filter (\<lambda>s. as_id s \<noteq> sid) (a_sessions d1)\<rparr>))
      | r \<Rightarrow> r)"

text \<open>A refresh in its two parts: the row it reads, and the writes that follow from that row.\<close>

definition refresh_find :: "admin_crypto \<Rightarrow> string \<Rightarrow> adb \<Rightarrow> admin_session option" where
  "refresh_find cy rt d = find (\<lambda>s. as_hash s = am_sha cy rt) (a_sessions d)"

definition refresh_write ::
  "admin_crypto \<Rightarrow> admin_session option \<Rightarrow> string \<Rightarrow> string \<Rightarrow> nat \<Rightarrow> adb \<Rightarrow> totp_outcome res \<times> adb" where
  "refresh_write cy row sid new_rt now d =
     (case row of
        None \<Rightarrow> (Inr (TInvalidToken ''Unknown refresh token''), d)
      | Some s \<Rightarrow>
          if as_revoked s \<noteq> None
          then (Inr (TInvalidToken ''Refresh token replay''),
                update_sessions (\<lambda>x. as_user x = as_user s \<and> as_revoked x = None) (\<lambda>x. x\<lparr>as_revoked := Some now\<rparr>) d)
          else if as_expires s < now then (Inr (TInvalidToken ''Refresh token expired''), d)
          else (case insert_session \<lparr>as_id = sid, as_user = as_user s, as_hash = am_sha cy new_rt, as_issued = now,
                  as_expires = now + ADMIN_REFRESH_TTL, as_totp = as_totp s, as_revoked = None\<rparr>
                  (update_sessions (\<lambda>x. as_id x = as_id s) (\<lambda>x. x\<lparr>as_revoked := Some now\<rparr>) d) of
              Inl e \<Rightarrow> (Inl e, d)
            | Inr d1 \<Rightarrow>
                (Inr (TOk \<lparr>gr_jwt = Some (issue_admin_token cy (as_user s) sid (as_totp s) now), gr_refresh = Some new_rt,
                   gr_expires = Some (now + ADMIN_REFRESH_TTL), gr_totp = as_totp s, gr_user = as_user s, gr_session = sid\<rparr>), d1)))"

definition admin_refresh_session ::
  "admin_crypto \<Rightarrow> string \<Rightarrow> string \<Rightarrow> string \<Rightarrow> nat \<Rightarrow> adb \<Rightarrow> totp_outcome res \<times> adb" where
  "admin_refresh_session cy rt sid new_rt now d = refresh_write cy (refresh_find cy rt d) sid new_rt now d"

definition admin_logout_session :: "string \<Rightarrow> nat \<Rightarrow> adb \<Rightarrow> adb" where
  "admin_logout_session sid now d =
     update_sessions (\<lambda>s. as_id s = sid \<and> as_revoked s = None) (\<lambda>s. s\<lparr>as_revoked := Some now\<rparr>) d"

definition session_freshness :: "string \<Rightarrow> nat \<Rightarrow> adb \<Rightarrow> nat option" where
  "session_freshness sid now d =
     map_option as_totp (find (\<lambda>s. as_id s = sid \<and> as_revoked s = None \<and> now < as_expires s) (a_sessions d))"

definition get_admin_user :: "string \<Rightarrow> adb \<Rightarrow> admin_user option" where
  "get_admin_user email d = find (\<lambda>u. au_email u = py_lower (py_strip email)) (a_users d)"

text \<open>\<open>engramia admin reset-totp\<close>; False: no such admin.\<close>

definition admin_reset_totp :: "string \<Rightarrow> adb \<Rightarrow> bool \<times> adb" where
  "admin_reset_totp email d =
     (let e = py_lower (py_strip email)
      in (\<exists>u \<in> set (a_users d). au_email u = e,
          d\<lparr>a_users := map (\<lambda>u. if au_email u = e then u\<lparr>au_enrolled := False, au_secret := None, au_status := ''active''\<rparr> else u)
             (a_users d)\<rparr>))"

section \<open>Gates and endpoints\<close>

record admin_ctx =
  ax_user :: nat
  ax_session :: string
  ax_totp :: nat

definition admin_bearer :: "string \<Rightarrow> string res" where
  "admin_bearer header =
     (if \<not> prefix ''bearer '' (py_lower header) then Inl (HttpError 401 ''Admin endpoint requires Bearer admin_jwt'')
      else Inr (py_strip (drop 7 header)))"

definition require_super_admin :: "admin_crypto \<Rightarrow> string \<Rightarrow> nat \<Rightarrow> adb \<Rightarrow> admin_ctx res" where
  "require_super_admin cy header now d = bind_res (admin_bearer header) (\<lambda>token.
     (case verify_admin_token cy token now of
        Inl e \<Rightarrow> Inl (HttpError 401 ''Invalid admin token'')
      | Inr c \<Rightarrow>
          (case session_freshness (ac_session c) now d of
             None \<Rightarrow> Inl (HttpError 401 ''Admin session revoked or expired'')
           | Some t \<Rightarrow> Inr \<lparr>ax_user = ac_user c, ax_session = ac_session c, ax_totp = t\<rparr>)))"

definition require_fresh_totp :: "nat \<Rightarrow> admin_crypto \<Rightarrow> string \<Rightarrow> nat \<Rightarrow> adb \<Rightarrow> admin_ctx res" where
  "require_fresh_totp window cy header now d = bind_res (require_super_admin cy header now d) (\<lambda>ctx.
     if ax_totp ctx + window < now then Inl (HttpError 403 ''Fresh TOTP required'') else Inr ctx)"

definition admin_totp ::
  "admin_crypto \<Rightarrow> string \<Rightarrow> string \<Rightarrow> string \<Rightarrow> string \<Rightarrow> string \<Rightarrow> nat \<Rightarrow> adb \<Rightarrow> totp_outcome res \<times> adb" where
  "admin_totp cy token c ip sid rt now d =
     (case verify_intermediate_token cy token now of
        Inl e \<Rightarrow> (Inr (TInvalidToken ''PyJWTError''), d)
      | Inr uid \<Rightarrow> attempt_totp cy uid c ip sid rt now d)"

definition admin_totp_reauth ::
  "admin_crypto \<Rightarrow> string \<Rightarrow> string \<Rightarrow> string \<Rightarrow> string \<Rightarrow> string \<Rightarrow> nat \<Rightarrow> adb \<Rightarrow> totp_outcome res \<times> adb" where
  "admin_totp_reauth cy header c ip sid rt now d =
     (case require_super_admin cy header now d of
        Inl e \<Rightarrow> (Inl e, d)
      | Inr ctx \<Rightarrow> reauth_totp cy (ax_user ctx) (ax_session ctx) c ip sid rt now d)"

definition admin_logout :: "admin_crypto \<Rightarrow> string \<Rightarrow> nat \<Rightarrow> adb \<Rightarrow> unit res \<times> adb" where
  "admin_logout cy header now d =
     (case require_super_admin cy header now d of
        Inl e \<Rightarrow> (Inl e, d) | Inr ctx \<Rightarrow> (Inr (), admin_logout_session (ax_session ctx) now d))"

definition admin_me :: "admin_crypto \<Rightarrow> string \<Rightarrow> nat \<Rightarrow> adb \<Rightarrow> admin_user res" where
  "admin_me cy header now d = bind_res (require_super_admin cy header now d) (\<lambda>ctx.
     (case find (\<lambda>u. au_id u = ax_user ctx) (a_users d) of
        None \<Rightarrow> Inl (HttpError 404 ''Admin user not found'') | Some u \<Rightarrow> Inr u))"

end
