(* ===== verification/AdminProps.thy ===== *)
theory AdminProps
  imports AdminAuth
begin

text \<open>
  Properties of the admin login: how many guesses the lockout admits and what it lets an
  outsider do, that a passed freshness gate rests on a recently verified code, and how often a
  refresh token works.
\<close>

section \<open>Guesses\<close>

text \<open>
  What a request tells whoever guesses, from the tables, the request and its answer, without
  the log: a wrong password or code of an existing admin that was answered with anything but
  a lockout. And whether the code of a request was right: the admin, active, enrolled and not
  locked out, had a secret for which \<open>pyotp\<close> accepts the code at that time.
\<close>

definition wrong_password :: "admin_crypto \<Rightarrow> string \<Rightarrow> string \<Rightarrow> nat \<Rightarrow> adb \<Rightarrow> login_outcome \<Rightarrow> (string \<times> nat) list" where
  "wrong_password cy email pw now d r =
     (case find (\<lambda>u. au_email u = py_lower (py_strip email)) (a_users d) of
        None \<Rightarrow> []
      | Some u \<Rightarrow> if am_checkpw cy pw (au_hash u) \<or> r = LLocked then [] else [(py_lower (au_email u), now)])"

definition secret_of :: "admin_crypto \<Rightarrow> admin_user \<Rightarrow> string option" where
  "secret_of cy u =
     (case given (au_secret u) of
        None \<Rightarrow> None
      | Some enc \<Rightarrow> (case am_decrypt cy enc (au_id u) of Inl e \<Rightarrow> None | Inr secret \<Rightarrow> Some secret))"

definition code_matches :: "admin_crypto \<Rightarrow> string \<Rightarrow> string \<Rightarrow> nat \<Rightarrow> bool" where
  "code_matches cy secret c now \<longleftrightarrow> am_totp cy secret (filter (\<lambda>x. x \<noteq> CHR '' '') (py_strip c)) now"

definition wrong_code :: "admin_crypto \<Rightarrow> nat \<Rightarrow> string \<Rightarrow> nat \<Rightarrow> adb \<Rightarrow> totp_outcome res \<Rightarrow> (string \<times> nat) list" where
  "wrong_code cy uid c now d r =
     (case find (\<lambda>u. au_id u = uid) (a_users d) of
        None \<Rightarrow> []
      | Some u \<Rightarrow>
          (case secret_of cy u of
             None \<Rightarrow> []
           | Some secret \<Rightarrow> if code_matches cy secret c now \<or> r = Inr TLocked then [] else [(py_lower (au_email u), now)]))"

definition right_code :: "admin_crypto \<Rightarrow> nat \<Rightarrow> string \<Rightarrow> nat \<Rightarrow> adb \<Rightarrow> bool" where
  "right_code cy uid c now d \<longleftrightarrow>
     (case find (\<lambda>u. au_id u = uid) (a_users d) of
        None \<Rightarrow> False
      | Some u \<Rightarrow> au_status u = ''active'' \<and> au_enrolled u \<and> \<not> is_locked_out (au_email u) now d \<and>
          (case secret_of cy u of None \<Rightarrow> False | Some secret \<Rightarrow> code_matches cy secret c now))"

lemma length_filter_le_filter: "(\<And>x. x \<in> set xs \<Longrightarrow> P x \<Longrightarrow> Q x) \<Longrightarrow> length (filter P xs) \<le> length (filter Q xs)"
  by (induction xs) (auto simp: le_SucI)


section \<open>The system\<close>

text \<open>
  The tables, the clock, and what the history adds: the access tokens that were issued, as
  pairs of admin and session, the session ids that were drawn, the rows that running
  refreshes have read, the guesses that were answered, and when right codes were entered.
\<close>

record admin_sys =
  ad_db :: adb
  ad_clock :: nat
  ad_issued :: "(nat \<times> string) list"
  ad_drawn :: "string list"
  ad_flight :: "admin_session option list"
  ad_wrong :: "(string \<times> nat) list"
  ad_proved :: "(nat \<times> nat) list"

definition issued_by :: "totp_outcome res \<Rightarrow> (nat \<times> string) list" where
  "issued_by r = (case r of Inr (TOk g) \<Rightarrow> if gr_jwt g = None then [] else [(gr_user g, gr_session g)] | _ \<Rightarrow> [])"

definition proved_by :: "admin_crypto \<Rightarrow> nat \<Rightarrow> string \<Rightarrow> nat \<Rightarrow> adb \<Rightarrow> (nat \<times> nat) list" where
  "proved_by cy uid c now d = (if right_code cy uid c now d then [(uid, now)] else [])"

text \<open>
  Logins, codes, refreshes in two parts that interleave, requests that re-verify a code or log
  out with an issued token of a live session, the command of the CLI, and time.
\<close>

inductive admin_step :: "admin_crypto \<Rightarrow> admin_sys \<Rightarrow> admin_sys \<Rightarrow> bool" for cy :: admin_crypto where
  tick: "ad_clock s \<le> t \<Longrightarrow> admin_step cy s (s\<lparr>ad_clock := t\<rparr>)"
| login: "attempt_login cy email pw ip (ad_clock s) (ad_db s) = (r, d) \<Longrightarrow>
    admin_step cy s (s\<lparr>ad_db := d, ad_wrong := wrong_password cy email pw (ad_clock s) (ad_db s) r @ ad_wrong s\<rparr>)"
| totp: "attempt_totp cy uid c ip sid rt (ad_clock s) (ad_db s) = (r, d) \<Longrightarrow> sid \<notin> set (ad_drawn s) \<Longrightarrow>
    admin_step cy s (s\<lparr>ad_db := d, ad_issued := issued_by r @ ad_issued s, ad_drawn := sid # ad_drawn s,
      ad_wrong := wrong_code cy uid c (ad_clock s) (ad_db s) r @ ad_wrong s,
      ad_proved := proved_by cy uid c (ad_clock s) (ad_db s) @ ad_proved s\<rparr>)"
| reauth: "(uid, session) \<in> set (ad_issued s) \<Longrightarrow> session_freshness session (ad_clock s) (ad_db s) \<noteq> None \<Longrightarrow>
    reauth_totp cy uid session c ip sid rt (ad_clock s) (ad_db s) = (r, d) \<Longrightarrow> sid \<notin> set (ad_drawn s) \<Longrightarrow>
    admin_step cy s (s\<lparr>ad_db := d, ad_drawn := sid # ad_drawn s,
      ad_wrong := wrong_code cy uid c (ad_clock s) (ad_db s) r @ ad_wrong s,
      ad_proved := proved_by cy uid c (ad_clock s) (ad_db s) @ ad_proved s\<rparr>)"
| read: "admin_step cy s (s\<lparr>ad_flight := refresh_find cy rt (ad_db s) # ad_flight s\<rparr>)"
| refresh: "row \<in> set (ad_flight s) \<Longrightarrow> refresh_write cy row sid rt (ad_clock s) (ad_db s) = (r, d) \<Longrightarrow>
    sid \<notin> set (ad_drawn s) \<Longrightarrow>
    admin_step cy s (s\<lparr>ad_db := d, ad_issued := issued_by r @ ad_issued s, ad_drawn := sid # ad_drawn s\<rparr>)"
| logout: "admin_step cy s (s\<lparr>ad_db := admin_logout_session sid (ad_clock s) (ad_db s)\<rparr>)"
| reset: "admin_step cy s (s\<lparr>ad_db := snd (admin_reset_totp email (ad_db s))\<rparr>)"

inductive admin_reach :: "admin_crypto \<Rightarrow> admin_sys \<Rightarrow> bool" for cy :: admin_crypto where
  start: "admin_reach cy \<lparr>ad_db = \<lparr>a_users = us, a_sessions = [], a_attempts = []\<rparr>, ad_clock = t, ad_issued = [],
    ad_drawn = [], ad_flight = [], ad_wrong = [], ad_proved = []\<rparr>"
| step: "admin_reach cy s \<Longrightarrow> admin_step cy s s' \<Longrightarrow> admin_reach cy s'"

section \<open>The lockout bounds guesses\<close>

text \<open>Guesses and logged failures of an address in a stretch of time.\<close>

definition guesses_in :: "string \<Rightarrow> nat \<Rightarrow> nat \<Rightarrow> (string \<times> nat) list \<Rightarrow> nat" where
  "guesses_in e lo hi g = length (filter (\<lambda>(e', t). e' = e \<and> lo \<le> t \<and> t \<le> hi) g)"

definition failures_in :: "string \<Rightarrow> nat \<Rightarrow> nat \<Rightarrow> adb \<Rightarrow> nat" where
  "failures_in e lo hi d = length (filter (\<lambda>a. at_email a = e \<and> \<not> at_ok a \<and> lo \<le> at_time a \<and> at_time a \<le> hi) (a_attempts d))"

text \<open>Every guess is in the log as a failure, and no stretch as long as the window has more than the threshold.\<close>

definition guesses_ok :: "(string \<times> nat) list \<Rightarrow> adb \<Rightarrow> bool" where
  "guesses_ok g d \<longleftrightarrow> (\<forall>e lo hi. guesses_in e lo hi g \<le> failures_in e lo hi d) \<and>
     (\<forall>e t. guesses_in e t (t + LOCKOUT_WINDOW) g \<le> LOCKOUT_THRESHOLD)"

lemma guesses_ok_log:
  assumes "guesses_ok g d" and "a_attempts d' = a_attempts d @ ats"
  shows "guesses_ok g d'"
proof -
  have "failures_in e lo hi d \<le> failures_in e lo hi d'" for e lo hi by (simp add: failures_in_def assms(2))
  then show ?thesis using assms(1) le_trans unfolding guesses_ok_def by blast
qed

lemma failures_window:
  assumes "t \<le> now" and "now \<le> t + LOCKOUT_WINDOW" and "\<not> is_locked_out em now d"
  shows "failures_in (py_lower em) t hi d < LOCKOUT_THRESHOLD"
proof -
  have "failures_in (py_lower em) t hi d \<le> recent_failures (py_lower em) now (a_attempts d)"
    unfolding failures_in_def recent_failures_def using assms(1,2) by (intro length_filter_le_filter) auto
  then show ?thesis using assms(3) by (simp add: is_locked_out_def)
qed

lemma guesses_ok_fail:
  assumes "guesses_ok g d" and "\<not> is_locked_out em now d"
  shows "guesses_ok ((py_lower em, now) # g) (log_attempt em ip False st reason now d)"
proof -
  let ?d = "log_attempt em ip False st reason now d" and ?g = "(py_lower em, now) # g"
  have "guesses_in e lo hi ?g \<le> failures_in e lo hi ?d" for e lo hi
    using assms(1) by (simp add: guesses_ok_def guesses_in_def failures_in_def log_attempt_def)
  moreover have "guesses_in e t (t + LOCKOUT_WINDOW) ?g \<le> LOCKOUT_THRESHOLD" for e t
  proof (cases "e = py_lower em \<and> t \<le> now \<and> now \<le> t + LOCKOUT_WINDOW")
    case True
    have "guesses_in e t (t + LOCKOUT_WINDOW) g \<le> failures_in e t (t + LOCKOUT_WINDOW) d"
      using assms(1) by (simp add: guesses_ok_def)
    then show ?thesis using True failures_window [of t now em d "t + LOCKOUT_WINDOW"] assms(2)
      by (simp add: guesses_in_def)
  next
    case False
    then have "guesses_in e t (t + LOCKOUT_WINDOW) ?g = guesses_in e t (t + LOCKOUT_WINDOW) g" by (auto simp: guesses_in_def)
    then show ?thesis using assms(1) by (simp add: guesses_ok_def)
  qed
  ultimately show ?thesis unfolding guesses_ok_def by blast
qed

lemma guesses_ok_login:
  assumes "attempt_login cy email pw ip now d = (r, d')" and "guesses_ok g d"
  shows "guesses_ok (wrong_password cy email pw now d r @ g) d'"
proof (cases "wrong_password cy email pw now d r")
  case Nil
  have "\<exists>ats. a_attempts d' = a_attempts d @ ats"
    using assms(1) by (auto simp: attempt_login_def Let_def log_attempt_def split: option.splits if_splits)
  then show ?thesis using Nil guesses_ok_log [OF assms(2)] by auto
next
  case (Cons w ws)
  obtain u where u: "find (\<lambda>u. au_email u = py_lower (py_strip email)) (a_users d) = Some u"
    "\<not> am_checkpw cy pw (au_hash u)" "r \<noteq> LLocked" "wrong_password cy email pw now d r = [(py_lower (au_email u), now)]"
    using Cons by (auto simp: wrong_password_def split: option.splits if_splits)
  have e: "au_email u = py_lower (py_strip email)" using find_in_set [OF u(1)] by simp
  have "\<not> is_locked_out (au_email u) now d" "d' = log_attempt (au_email u) ip False ''password'' (Some ''bad_password'') now d"
    using assms(1) u(1-3) unfolding attempt_login_def e Let_def by (auto simp: verify_password_def split: if_splits)
  then show ?thesis using guesses_ok_fail [OF assms(2)] u(4) by simp
qed

definition granted :: "totp_outcome res \<Rightarrow> bool" where
  "granted r = (case r of Inr (TOk g) \<Rightarrow> True | _ \<Rightarrow> False)"

lemma verify_totp_matches: "verify_totp_code cy secret c now \<Longrightarrow> code_matches cy secret c now"
  by (simp add: verify_totp_code_def code_matches_def Let_def)

text \<open>The outcomes of a code: nothing, a logged failure, and a new session for a right code.\<close>

definition code_granted :: "admin_crypto \<Rightarrow> nat \<Rightarrow> string \<Rightarrow> string \<Rightarrow> string \<Rightarrow> nat \<Rightarrow> adb \<Rightarrow> adb \<Rightarrow> bool" where
  "code_granted cy uid c sid rt now d d' \<longleftrightarrow> right_code cy uid c now d \<and> sid \<notin> as_id ` set (a_sessions d) \<and>
     a_sessions d' = a_sessions d @ [\<lparr>as_id = sid, as_user = uid, as_hash = am_sha cy rt, as_issued = now,
       as_expires = now + ADMIN_REFRESH_TTL, as_totp = now, as_revoked = None\<rparr>] \<and> (\<exists>ats. a_attempts d' = a_attempts d @ ats)"

lemma totp_no_secret:
  assumes "attempt_totp cy uid c ip sid rt now d = (r, d')" and "find (\<lambda>u. au_id u = uid) (a_users d) = Some u"
    and "secret_of cy u = None \<or> au_status u \<noteq> ''active'' \<or> is_locked_out (au_email u) now d \<or> \<not> au_enrolled u"
  shows "\<not> granted r \<and> issued_by r = [] \<and> a_sessions d' = a_sessions d \<and> (\<exists>ats. a_attempts d' = a_attempts d @ ats) \<and>
    (secret_of cy u = None \<or> r = Inr TLocked \<or>
      \<not> is_locked_out (au_email u) now d \<and> (\<exists>reason. d' = log_attempt (au_email u) ip False ''totp'' (Some reason) now d))"
proof -
  have "au_id u = uid" using find_in_set [OF assms(2)] by simp
  then show ?thesis using assms
    by (auto simp: attempt_totp_def secret_of_def granted_def issued_by_def log_attempt_def Let_def split: option.splits sum.splits if_splits)
qed

lemma totp_secret:
  assumes "attempt_totp cy uid c ip sid rt now d = (r, d')" and "find (\<lambda>u. au_id u = uid) (a_users d) = Some u"
    and "secret_of cy u = Some secret" and "au_status u = ''active''" and "\<not> is_locked_out (au_email u) now d" and "au_enrolled u"
  shows "if \<not> verify_totp_code cy secret c now
    then r = Inr TInvalidCode \<and> d' = log_attempt (au_email u) ip False ''totp'' (Some ''bad_totp'') now d
    else if sid \<in> as_id ` set (a_sessions d) then r = Inl integrity_error \<and> d' = d
    else (\<exists>g. r = Inr (TOk g) \<and> gr_jwt g \<noteq> None \<and> gr_user g = uid \<and> gr_session g = sid) \<and>
      a_sessions d' = a_sessions d @ [\<lparr>as_id = sid, as_user = uid, as_hash = am_sha cy rt, as_issued = now,
        as_expires = now + ADMIN_REFRESH_TTL, as_totp = now, as_revoked = None\<rparr>] \<and> (\<exists>ats. a_attempts d' = a_attempts d @ ats)"
proof -
  have id: "au_id u = uid" using find_in_set [OF assms(2)] by simp
  obtain enc where "given (au_secret u) = Some enc" "am_decrypt cy enc uid = Inr secret"
    using assms(3) id by (auto simp: secret_of_def split: option.splits sum.splits)
  then show ?thesis using assms(1,2,4-6)
    by (auto simp: attempt_totp_def insert_session_def log_attempt_def split: if_splits)
qed

lemma attempt_totp_outcome:
  assumes "attempt_totp cy uid c ip sid rt now d = (r, d')"
  shows "\<not> granted r \<and> issued_by r = [] \<and> a_sessions d' = a_sessions d \<or>
    granted r \<and> issued_by r = [(uid, sid)] \<and> code_granted cy uid c sid rt now d d'"
proof (cases "find (\<lambda>u. au_id u = uid) (a_users d)")
  case None
  then show ?thesis using assms by (auto simp: attempt_totp_def granted_def issued_by_def)
next
  case u: (Some u)
  show ?thesis
  proof (cases "secret_of cy u = None \<or> au_status u \<noteq> ''active'' \<or> is_locked_out (au_email u) now d \<or> \<not> au_enrolled u")
    case True
    then show ?thesis using totp_no_secret [OF assms u] by blast
  next
    case False
    then obtain secret where s: "secret_of cy u = Some secret" by (cases "secret_of cy u") simp_all
    have *: "au_status u = ''active''" "\<not> is_locked_out (au_email u) now d" "au_enrolled u" using False by blast+
    note t = totp_secret [OF assms u s *]
    show ?thesis
    proof (cases "verify_totp_code cy secret c now \<and> sid \<notin> as_id ` set (a_sessions d)")
      case True
      then have "right_code cy uid c now d" using u s * verify_totp_matches by (simp add: right_code_def)
      then show ?thesis using t True by (auto simp: granted_def issued_by_def code_granted_def)
    next
      case False
      then show ?thesis using t by (auto simp: granted_def issued_by_def log_attempt_def split: if_splits)
    qed
  qed
qed

lemma guesses_ok_totp:
  assumes "attempt_totp cy uid c ip sid rt now d = (r, d')" and "guesses_ok g d"
  shows "guesses_ok (wrong_code cy uid c now d r @ g) d'"
proof (cases "find (\<lambda>u. au_id u = uid) (a_users d)")
  case None
  then show ?thesis using assms by (simp add: attempt_totp_def wrong_code_def)
next
  case u: (Some u)
  have fail: "guesses_ok ((py_lower (au_email u), now) # g) (log_attempt (au_email u) ip False ''totp'' (Some x) now d)"
    if "\<not> is_locked_out (au_email u) now d" for x by (rule guesses_ok_fail [OF assms(2) that])
  have w: "wrong_code cy uid c now d r \<in> {[], [(py_lower (au_email u), now)]}" using u
    by (auto simp: wrong_code_def split: option.split)
  show ?thesis
  proof (cases "secret_of cy u = None \<or> au_status u \<noteq> ''active'' \<or> is_locked_out (au_email u) now d \<or> \<not> au_enrolled u")
    case True
    from totp_no_secret [OF assms(1) u this] consider "secret_of cy u = None \<or> r = Inr TLocked" "\<exists>ats. a_attempts d' = a_attempts d @ ats"
      | reason where "\<not> is_locked_out (au_email u) now d" "d' = log_attempt (au_email u) ip False ''totp'' (Some reason) now d"
        "\<exists>ats. a_attempts d' = a_attempts d @ ats" by blast
    then show ?thesis
    proof cases
      case 1
      then have "wrong_code cy uid c now d r = []" using u by (auto simp: wrong_code_def split: option.split)
      then show ?thesis using 1(2) guesses_ok_log [OF assms(2)] by auto
    next
      case 2
      then show ?thesis using w fail guesses_ok_log [OF assms(2)] by auto
    qed
  next
    case False
    then obtain secret where s: "secret_of cy u = Some secret" by (cases "secret_of cy u") simp_all
    have *: "au_status u = ''active''" "\<not> is_locked_out (au_email u) now d" "au_enrolled u" using False by blast+
    note t = totp_secret [OF assms(1) u s *]
    show ?thesis
    proof (cases "verify_totp_code cy secret c now")
      case True
      then have "wrong_code cy uid c now d r = []" using u s verify_totp_matches by (simp add: wrong_code_def)
      moreover have "\<exists>ats. a_attempts d' = a_attempts d @ ats" using t True by (auto split: if_splits)
      ultimately show ?thesis using guesses_ok_log [OF assms(2)] by auto
    next
      case wrong: False
      then have d': "d' = log_attempt (au_email u) ip False ''totp'' (Some ''bad_totp'') now d" using t by simp
      then have "\<exists>ats. a_attempts d' = a_attempts d @ ats" by (simp add: log_attempt_def)
      then show ?thesis using w fail [OF *(2)] guesses_ok_log [OF assms(2)] d' by auto
    qed
  qed
qed

lemma reauth_totp_outcome:
  assumes "reauth_totp cy uid session c ip sid rt now d = (r, d')" and "attempt_totp cy uid c ip sid rt now d = (r1, d1)"
  shows "a_attempts d' = a_attempts d1 \<and> wrong_code cy uid c now d r = wrong_code cy uid c now d r1 \<and>
    (if granted r1 then d' = update_sessions (\<lambda>x. as_id x = session \<and> as_revoked x = None) (\<lambda>x. x\<lparr>as_totp := now\<rparr>)
        (d1\<lparr>a_sessions := filter (\<lambda>x. as_id x \<noteq> sid) (a_sessions d1)\<rparr>) else d' = d1)"
  using assms by (auto simp: reauth_totp_def granted_def wrong_code_def update_sessions_def
      split: sum.splits totp_outcome.splits option.splits)

lemma guesses_ok_step: "admin_step cy s s' \<Longrightarrow> guesses_ok (ad_wrong s) (ad_db s) \<Longrightarrow> guesses_ok (ad_wrong s') (ad_db s')"
proof (induction rule: admin_step.induct)
  case (login email pw ip s r d)
  then show ?case using guesses_ok_login by simp
next
  case (totp uid c ip sid rt s r d)
  then show ?case using guesses_ok_totp by simp
next
  case (reauth uid session s c ip sid rt r d)
  then obtain r1 d1 where *: "attempt_totp cy uid c ip sid rt (ad_clock s) (ad_db s) = (r1, d1)" by fastforce
  note o = reauth_totp_outcome [OF reauth(3) *]
  have "guesses_ok (wrong_code cy uid c (ad_clock s) (ad_db s) r1 @ ad_wrong s) d1" by (rule guesses_ok_totp [OF * reauth(5)])
  then show ?case using o guesses_ok_log [of _ d1 d "[]"] by simp
next
  case (refresh row s sid rt r d)
  then have "a_attempts d = a_attempts (ad_db s) @ []"
    by (auto simp: refresh_write_def update_sessions_def insert_session_def split: option.splits if_splits sum.splits)
  then show ?case using guesses_ok_log [OF refresh(4)] by simp
next
  case (logout s sid)
  then show ?case using guesses_ok_log [OF logout, of _ "[]"] by (simp add: admin_logout_session_def update_sessions_def)
next
  case (reset s email)
  then show ?case using guesses_ok_log [OF reset, of _ "[]"] by (simp add: admin_reset_totp_def Let_def)
qed simp_all

text \<open>C29. The lockout bounds guessing. In every reachable state, whatever requests preceded it one after
  the other, at most five guesses about an admin were answered within any fifteen minutes: wrong
  passwords and wrong codes, in a login, its second step or a re-authentication, to which
  the answer was anything else than a lockout. (Requests that run at the same time all read the
  log before any of them writes it, so each of them may add one.)\<close>

theorem at_most_five_guesses:
  assumes "admin_reach cy s"
  shows "length (filter (\<lambda>(e', t'). e' = e \<and> t \<le> t' \<and> t' \<le> t + 15 * 60) (ad_wrong s)) \<le> 5"
proof -
  have "guesses_ok (ad_wrong s) (ad_db s)"
    using assms by induction (simp add: guesses_ok_def guesses_in_def, rule guesses_ok_step)
  then show ?thesis by (simp add: guesses_ok_def guesses_in_def LOCKOUT_THRESHOLD_def LOCKOUT_WINDOW_def)
qed


section \<open>An outsider keeps an admin out\<close>

definition failures_since :: "string \<Rightarrow> nat \<Rightarrow> adb \<Rightarrow> nat" where
  "failures_since e t d = length (filter (\<lambda>a. at_email a = e \<and> \<not> at_ok a \<and> t \<le> at_time a) (a_attempts d))"

lemma failures_locked: "LOCKOUT_THRESHOLD \<le> failures_since e t d \<Longrightarrow> now \<le> t + LOCKOUT_WINDOW \<Longrightarrow> py_lower em = e \<Longrightarrow> is_locked_out em now d"
  unfolding failures_since_def is_locked_out_def recent_failures_def
  by (erule order_trans) (auto intro!: length_filter_le_filter)

text \<open>The attempts of somebody who does not know the password, every three minutes.\<close>

fun siege :: "admin_crypto \<Rightarrow> string \<Rightarrow> string \<Rightarrow> string \<Rightarrow> nat \<Rightarrow> nat \<Rightarrow> adb \<Rightarrow> adb" where
  "siege cy email guess ip T 0 d = d"
| "siege cy email guess ip T (Suc n) d = snd (attempt_login cy email guess ip (T + 180 * n) (siege cy email guess ip T n d))"

lemma wrong_login_fails:
  assumes "\<forall>u \<in> set (a_users d). au_email u = py_lower (py_strip email) \<longrightarrow> \<not> verify_password cy guess (au_hash u)"
  shows "a_users (snd (attempt_login cy email guess ip now d)) = a_users d \<and>
    (\<exists>r. a_attempts (snd (attempt_login cy email guess ip now d)) = a_attempts d @
      [\<lparr>at_email = py_lower (py_lower (py_strip email)), at_ip = ip, at_ok = False, at_stage = ''password'', at_reason = r, at_time = now\<rparr>])"
proof -
  have "verify_password cy guess (au_hash u) = False"
    if "find (\<lambda>u. au_email u = py_lower (py_strip email)) (a_users d) = Some u" for u
    using assms find_in_set [OF that] by simp
  then show ?thesis by (auto simp: attempt_login_def Let_def log_attempt_def split: option.splits)
qed

lemma siege_users: "\<forall>u \<in> set (a_users d). au_email u = py_lower (py_strip email) \<longrightarrow> \<not> verify_password cy guess (au_hash u) \<Longrightarrow>
    a_users (siege cy email guess ip T n d) = a_users d"
  by (induction n) (simp_all add: wrong_login_fails)

lemma siege_failures:
  assumes "\<forall>u \<in> set (a_users d). au_email u = py_lower (py_strip email) \<longrightarrow> \<not> verify_password cy guess (au_hash u)"
  shows "k \<le> n \<Longrightarrow> k \<le> failures_since (py_lower (py_lower (py_strip email))) (T + 180 * (n - k)) (siege cy email guess ip T n d)"
proof (induction n arbitrary: k)
  case (Suc n)
  let ?d = "siege cy email guess ip T n d" and ?e = "py_lower (py_lower (py_strip email))"
  have w: "\<forall>u \<in> set (a_users ?d). au_email u = py_lower (py_strip email) \<longrightarrow> \<not> verify_password cy guess (au_hash u)"
    using assms by (simp add: siege_users)
  obtain r where log: "a_attempts (siege cy email guess ip T (Suc n) d) = a_attempts ?d @
      [\<lparr>at_email = ?e, at_ip = ip, at_ok = False, at_stage = ''password'', at_reason = r, at_time = T + 180 * n\<rparr>]"
    using wrong_login_fails [OF w] by auto
  show ?case
  proof (cases k)
    case 0
    then show ?thesis by simp
  next
    case (Suc j)
    have "j \<le> failures_since ?e (T + 180 * (n - j)) ?d" using Suc.IH [of j] Suc.prems Suc by simp
    moreover have "failures_since ?e (T + 180 * (n - j)) (siege cy email guess ip T (Suc n) d) =
        Suc (failures_since ?e (T + 180 * (n - j)) ?d)"
      unfolding failures_since_def log by simp
    ultimately show ?thesis using Suc by simp
  qed
qed simp

text \<open>An outsider who knows an admin's mail address keeps the admin out for as long as they like:
  a login attempt with a wrong password every three minutes. From the fifth attempt on every
  login of the admin, at any time and with whatever password, is answered with a lockout,
  because refused attempts are logged as failures and extend it.\<close>

theorem wrong_logins_lock_the_admin_out:
  assumes "\<forall>u \<in> set (a_users d). au_email u = py_lower (py_strip email) \<longrightarrow> \<not> verify_password cy guess (au_hash u)"
    and "5 \<le> n" and "t \<le> T + 180 * n"
  shows "fst (attempt_login cy email password ip' t (siege cy email guess ip T n d)) = LLocked"
proof -
  have "5 \<le> failures_since (py_lower (py_lower (py_strip email))) (T + 180 * (n - 5)) (siege cy email guess ip T n d)"
    using siege_failures [OF assms(1,2)] .
  moreover have "t \<le> T + 180 * (n - 5) + LOCKOUT_WINDOW"
    using assms(2,3) by (simp add: LOCKOUT_WINDOW_def diff_mult_distrib2)
  ultimately have "is_locked_out (py_lower (py_strip email)) t (siege cy email guess ip T n d)"
    by (intro failures_locked) (simp_all add: LOCKOUT_THRESHOLD_def)
  then show ?thesis by (simp add: attempt_login_def Let_def)
qed

section \<open>Refresh tokens\<close>

lemma find_map_if:
  "find P xs = Some x \<Longrightarrow> (\<And>y. P (if Q y then f y else y) = P y) \<Longrightarrow>
    find P (map (\<lambda>y. if Q y then f y else y) xs) = Some (if Q x then f x else x)"
  by (induction xs) (auto split: if_splits)

text \<open>A refresh token works once. After a refresh succeeded, presenting the same token again is
  refused as a replay, and it revokes every session of the admin, the one of the first
  refresh included, so that neither party holds a live session.\<close>

theorem replayed_refresh_revokes_everything:
  assumes "admin_refresh_session cy rt sid rt' now d = (Inr (TOk g), d1)"
    and "am_sha cy rt' \<noteq> am_sha cy rt"
  shows "\<exists>d2. admin_refresh_session cy rt sid' rt'' later d1 = (Inr (TInvalidToken ''Refresh token replay''), d2) \<and>
    (\<forall>s \<in> set (a_sessions d2). as_user s = gr_user g \<longrightarrow> as_revoked s \<noteq> None)"
proof -
  obtain s where s: "refresh_find cy rt d = Some s" "as_revoked s = None" "gr_user g = as_user s"
    "a_sessions d1 = map (\<lambda>x. if as_id x = as_id s then x\<lparr>as_revoked := Some now\<rparr> else x) (a_sessions d) @
      [\<lparr>as_id = sid, as_user = as_user s, as_hash = am_sha cy rt', as_issued = now,
        as_expires = now + ADMIN_REFRESH_TTL, as_totp = as_totp s, as_revoked = None\<rparr>]"
    using assms(1) by (auto simp: admin_refresh_session_def refresh_write_def insert_session_def update_sessions_def
        split: option.splits if_splits)
  have "find (\<lambda>x. as_hash x = am_sha cy rt) (map (\<lambda>x. if as_id x = as_id s then x\<lparr>as_revoked := Some now\<rparr> else x) (a_sessions d)) =
      Some (s\<lparr>as_revoked := Some now\<rparr>)"
    using find_map_if [of "\<lambda>x. as_hash x = am_sha cy rt" "a_sessions d" s "\<lambda>x. as_id x = as_id s"] s(1)
    by (simp add: refresh_find_def)
  moreover have "find P (xs @ ys) = Some x" if "find P xs = Some x" for P :: "admin_session \<Rightarrow> bool" and xs ys x
    using that by (induction xs) (auto split: if_splits)
  ultimately have "refresh_find cy rt d1 = Some (s\<lparr>as_revoked := Some now\<rparr>)"
    unfolding refresh_find_def s(4) by blast
  then have "admin_refresh_session cy rt sid' rt'' later d1 = (Inr (TInvalidToken ''Refresh token replay''),
      update_sessions (\<lambda>x. as_user x = as_user s \<and> as_revoked x = None) (\<lambda>x. x\<lparr>as_revoked := Some later\<rparr>) d1)"
    by (simp add: admin_refresh_session_def refresh_write_def)
  then show ?thesis using s(3) by (auto simp: update_sessions_def)
qed

lemma ids_map_if: "(\<And>x. g (f x) = g x) \<Longrightarrow> g ` set (map (\<lambda>x. if P x then f x else x) xs) = g ` set xs"
  by (induction xs) auto

lemma refresh_write_live:
  assumes "as_revoked s = None" and "now \<le> as_expires s" and "sid \<notin> as_id ` set (a_sessions d)"
  shows "\<exists>g. refresh_write cy (Some s) sid rt now d = (Inr (TOk g), d\<lparr>a_sessions :=
    map (\<lambda>x. if as_id x = as_id s then x\<lparr>as_revoked := Some now\<rparr> else x) (a_sessions d) @
      [\<lparr>as_id = sid, as_user = as_user s, as_hash = am_sha cy rt, as_issued = now, as_expires = now + ADMIN_REFRESH_TTL,
        as_totp = as_totp s, as_revoked = None\<rparr>]\<rparr>)"
proof -
  have "as_id ` set (map (\<lambda>x. if as_id x = as_id s then x\<lparr>as_revoked := Some now\<rparr> else x) (a_sessions d)) = as_id ` set (a_sessions d)"
    by (rule ids_map_if) simp
  then have "sid \<notin> as_id ` set (map (\<lambda>x. if as_id x = as_id s then x\<lparr>as_revoked := Some now\<rparr> else x) (a_sessions d))"
    using assms(3) by (simp only: not_False_eq_True)
  then show ?thesis using assms(1,2) by (simp add: refresh_write_def insert_session_def update_sessions_def)
qed

text \<open>
  Two refreshes that read the row before either writes: both succeed, and both sessions are
  live (the row is read without a lock, and the update does not check it again).
\<close>

lemma refresh_race:
  assumes "refresh_find cy rt d = Some s" and "as_revoked s = None" and "now \<le> as_expires s"
    and "sid \<noteq> sid'" and "sid \<notin> as_id ` set (a_sessions d)" and "sid' \<notin> as_id ` set (a_sessions d)"
  shows "\<exists>g1 g2 d1 d2. refresh_write cy (refresh_find cy rt d) sid rt1 now d = (Inr (TOk g1), d1) \<and>
    refresh_write cy (refresh_find cy rt d) sid' rt2 now d1 = (Inr (TOk g2), d2) \<and>
    session_freshness sid now d2 \<noteq> None \<and> session_freshness sid' now d2 \<noteq> None"
proof -
  let ?new = "\<lambda>i h. \<lparr>as_id = i, as_user = as_user s, as_hash = h, as_issued = now, as_expires = now + ADMIN_REFRESH_TTL,
      as_totp = as_totp s, as_revoked = None\<rparr>"
  have "s \<in> set (a_sessions d)" using assms(1) by (auto simp: refresh_find_def dest: find_in_set)
  then have "as_id s \<noteq> sid" using assms(5) by auto
  let ?r = "\<lambda>x. if as_id x = as_id s then x\<lparr>as_revoked := Some now\<rparr> else x"
  have ids: "as_id ` set (map ?r xs) = as_id ` set xs" for xs by (rule ids_map_if) simp
  obtain g1 d1 where 1: "refresh_write cy (Some s) sid rt1 now d = (Inr (TOk g1), d1)"
    "a_sessions d1 = map ?r (a_sessions d) @ [?new sid (am_sha cy rt1)]"
    using refresh_write_live [OF assms(2,3,5), of cy rt1] by auto
  have "as_id ` set (a_sessions d1) = insert sid (as_id ` set (a_sessions d))"
    unfolding 1(2) set_append image_Un ids by simp
  then have "sid' \<notin> as_id ` set (a_sessions d1)" using assms(4,6) by simp
  from refresh_write_live [OF assms(2,3) this, of cy rt2]
  obtain g2 d2 where 2: "refresh_write cy (Some s) sid' rt2 now d1 = (Inr (TOk g2), d2)"
    "a_sessions d2 = map ?r (a_sessions d1) @ [?new sid' (am_sha cy rt2)]" by auto
  have live: "session_freshness i now d2 \<noteq> None" if "?new i h \<in> set (a_sessions d2)" for i h
  proof -
    have "find (\<lambda>x. as_id x = i \<and> as_revoked x = None \<and> now < as_expires x) (a_sessions d2) \<noteq> None"
      unfolding find_None_iff using that by (force simp: ADMIN_REFRESH_TTL_def)
    then show ?thesis by (simp add: session_freshness_def)
  qed
  have "?new sid (am_sha cy rt1) \<in> set (a_sessions d2)" "?new sid' (am_sha cy rt2) \<in> set (a_sessions d2)"
    unfolding 2(2) 1(2) using \<open>as_id s \<noteq> sid\<close> by auto
  with 1(1) 2(1) live assms(1) show ?thesis by metis
qed

text \<open>
  Neither a refresh nor the gates look at the status of the admin: a disabled admin goes on
  refreshing a live session.
\<close>

lemma disabled_admin_refreshes:
  assumes "refresh_find cy rt d = Some s" and "as_revoked s = None" and "now \<le> as_expires s" and "sid \<notin> as_id ` set (a_sessions d)"
  shows "\<exists>g d'. admin_refresh_session cy rt sid rt' now (d\<lparr>a_users := map (\<lambda>u. u\<lparr>au_status := ''disabled''\<rparr>) (a_users d)\<rparr>) =
    (Inr (TOk g), d')"
  using refresh_write_live [OF assms(2,3), of sid "d\<lparr>a_users := map (\<lambda>u. u\<lparr>au_status := ''disabled''\<rparr>) (a_users d)\<rparr>" cy rt'] assms(1,4)
  by (auto simp: admin_refresh_session_def refresh_find_def)


section \<open>What a passed gate rests on\<close>

text \<open>
  Every session, every row a refresh has read and every issued token goes back to a right
  code that the admin of the session entered at the time it carries.
\<close>

definition anchored :: "admin_sys \<Rightarrow> bool" where
  "anchored s \<longleftrightarrow> (\<forall>x \<in> set (a_sessions (ad_db s)). (as_user x, as_totp x) \<in> set (ad_proved s) \<and> as_id x \<in> set (ad_drawn s)) \<and>
     (\<forall>x. Some x \<in> set (ad_flight s) \<longrightarrow> (as_user x, as_totp x) \<in> set (ad_proved s)) \<and>
     (\<forall>(uid, sid) \<in> set (ad_issued s). sid \<in> set (ad_drawn s) \<and> (\<forall>x \<in> set (a_sessions (ad_db s)). as_id x = sid \<longrightarrow> as_user x = uid))"

text \<open>A step that keeps every session's admin and anchor, or adds proved ones.\<close>

lemma anchored_step:
  assumes "anchored s" and "set (ad_proved s) \<subseteq> set (ad_proved s')" and "set (ad_drawn s) \<subseteq> set (ad_drawn s')"
    and "\<And>x. x \<in> set (a_sessions (ad_db s')) \<Longrightarrow> (\<exists>y \<in> set (a_sessions (ad_db s)). as_id y = as_id x \<and> as_user y = as_user x \<and>
        (as_totp y = as_totp x \<or> (as_user x, as_totp x) \<in> set (ad_proved s'))) \<or>
      as_id x \<in> set (ad_drawn s') - set (ad_drawn s) \<and> (as_user x, as_totp x) \<in> set (ad_proved s') \<and>
      (\<forall>uid. (uid, as_id x) \<in> set (ad_issued s') \<longrightarrow> uid = as_user x)"
    and "\<And>x. Some x \<in> set (ad_flight s') \<Longrightarrow> Some x \<in> set (ad_flight s) \<or> x \<in> set (a_sessions (ad_db s))"
    and "\<And>uid sid. (uid, sid) \<in> set (ad_issued s') \<Longrightarrow> (uid, sid) \<in> set (ad_issued s) \<or> sid \<in> set (ad_drawn s') - set (ad_drawn s)"
  shows "anchored s'"
proof -
  have ses: "(as_user x, as_totp x) \<in> set (ad_proved s') \<and> as_id x \<in> set (ad_drawn s')" if x: "x \<in> set (a_sessions (ad_db s'))" for x
    using assms(4) [OF x]
  proof
    assume "\<exists>y \<in> set (a_sessions (ad_db s)). as_id y = as_id x \<and> as_user y = as_user x \<and>
        (as_totp y = as_totp x \<or> (as_user x, as_totp x) \<in> set (ad_proved s'))"
    then obtain y where y: "y \<in> set (a_sessions (ad_db s))" "as_id y = as_id x" "as_user y = as_user x"
      "as_totp y = as_totp x \<or> (as_user x, as_totp x) \<in> set (ad_proved s')" by blast
    then have "(as_user y, as_totp y) \<in> set (ad_proved s)" "as_id y \<in> set (ad_drawn s)" using assms(1) unfolding anchored_def by auto
    with y assms(2,3) show ?thesis by auto
  qed blast
  have fl: "(as_user x, as_totp x) \<in> set (ad_proved s')" if "Some x \<in> set (ad_flight s')" for x
    using assms(5) [OF that] assms(1,2) unfolding anchored_def by auto
  have iss: "sid \<in> set (ad_drawn s') \<and> (\<forall>x \<in> set (a_sessions (ad_db s')). as_id x = sid \<longrightarrow> as_user x = uid)"
    if i: "(uid, sid) \<in> set (ad_issued s')" for uid sid
  proof (cases "sid \<in> set (ad_drawn s)")
    case True
    then have old: "(uid, sid) \<in> set (ad_issued s)" using assms(6) [OF i] by blast
    have "as_user x = uid" if x: "x \<in> set (a_sessions (ad_db s'))" "as_id x = sid" for x
      using assms(4) [OF x(1)] x(2) True old assms(1) unfolding anchored_def by fastforce
    then show ?thesis using True assms(3) by blast
  next
    case False
    have "sid \<in> set (ad_drawn s')" using assms(6) [OF i] False assms(1) unfolding anchored_def by auto
    moreover have "as_user x = uid" if x: "x \<in> set (a_sessions (ad_db s'))" "as_id x = sid" for x
      using assms(4) [OF x(1)] x(2) False i assms(1) unfolding anchored_def by fastforce
    ultimately show ?thesis by blast
  qed
  show ?thesis unfolding anchored_def using ses fl iss by blast
qed

lemma attempt_login_keeps: "attempt_login cy email pw ip now d = (r, d') \<Longrightarrow> a_sessions d' = a_sessions d"
  by (auto simp: attempt_login_def Let_def log_attempt_def split: option.splits if_splits)

lemma proved_granted: "code_granted cy uid c sid rt now d d' \<Longrightarrow> proved_by cy uid c now d = [(uid, now)]"
  by (simp add: code_granted_def proved_by_def)

lemma anchored_totp:
  assumes "anchored s" and "attempt_totp cy uid c ip sid rt (ad_clock s) (ad_db s) = (r, d)" and "sid \<notin> set (ad_drawn s)"
  shows "anchored (s\<lparr>ad_db := d, ad_issued := issued_by r @ ad_issued s, ad_drawn := sid # ad_drawn s, ad_wrong := w,
    ad_proved := proved_by cy uid c (ad_clock s) (ad_db s) @ ad_proved s\<rparr>)"
  using attempt_totp_outcome [OF assms(2)]
proof
  assume "\<not> granted r \<and> issued_by r = [] \<and> a_sessions d = a_sessions (ad_db s)"
  then show ?thesis by (intro anchored_step [OF assms(1)]) auto
next
  assume o: "granted r \<and> issued_by r = [(uid, sid)] \<and> code_granted cy uid c sid rt (ad_clock s) (ad_db s) d"
  then have f: "proved_by cy uid c (ad_clock s) (ad_db s) = [(uid, ad_clock s)]"
    "a_sessions d = a_sessions (ad_db s) @ [\<lparr>as_id = sid, as_user = uid, as_hash = am_sha cy rt, as_issued = ad_clock s,
      as_expires = ad_clock s + ADMIN_REFRESH_TTL, as_totp = ad_clock s, as_revoked = None\<rparr>]"
    using proved_granted [of cy uid c sid rt "ad_clock s" "ad_db s" d] by (simp_all add: code_granted_def)
  have "(u, sid) \<notin> set (ad_issued s)" for u using assms(1,3) unfolding anchored_def by auto
  then show ?thesis using o f assms(3) by (intro anchored_step [OF assms(1)]) auto
qed

lemma anchored_reauth:
  assumes "anchored s" and "(uid, session) \<in> set (ad_issued s)"
    and "reauth_totp cy uid session c ip sid rt (ad_clock s) (ad_db s) = (r, d)" and "sid \<notin> set (ad_drawn s)"
  shows "anchored (s\<lparr>ad_db := d, ad_drawn := sid # ad_drawn s, ad_wrong := w,
    ad_proved := proved_by cy uid c (ad_clock s) (ad_db s) @ ad_proved s\<rparr>)" (is "anchored ?s")
proof -
  obtain r1 d1 where 1: "attempt_totp cy uid c ip sid rt (ad_clock s) (ad_db s) = (r1, d1)" by fastforce
  note o = attempt_totp_outcome [OF 1] and ro = reauth_totp_outcome [OF assms(3) 1]
  show ?thesis
  proof (cases "granted r1")
    case False
    then have "a_sessions d = a_sessions (ad_db s)" using o ro by auto
    then show ?thesis by (intro anchored_step [OF assms(1)]) auto
  next
    case True
    let ?f = "\<lambda>x. if as_id x = session \<and> as_revoked x = None then x\<lparr>as_totp := ad_clock s\<rparr> else x"
    have g: "code_granted cy uid c sid rt (ad_clock s) (ad_db s) d1" using o True by blast
    have p: "proved_by cy uid c (ad_clock s) (ad_db s) = [(uid, ad_clock s)]" using proved_granted [OF g] .
    have ses: "a_sessions d = map ?f (filter (\<lambda>x. as_id x \<noteq> sid) (a_sessions (ad_db s)))"
      using ro True g by (simp add: update_sessions_def code_granted_def)
    have owner: "as_user y = uid" if "y \<in> set (a_sessions (ad_db s))" "as_id y = session" for y
      using that assms(1,2) unfolding anchored_def by auto
    show ?thesis
    proof (rule anchored_step [OF assms(1)])
      fix x assume "x \<in> set (a_sessions (ad_db ?s))"
      then obtain y where y: "y \<in> set (a_sessions (ad_db s))" "x = ?f y" using ses by auto
      then show "(\<exists>y \<in> set (a_sessions (ad_db s)). as_id y = as_id x \<and> as_user y = as_user x \<and>
          (as_totp y = as_totp x \<or> (as_user x, as_totp x) \<in> set (ad_proved ?s))) \<or>
        as_id x \<in> set (ad_drawn ?s) - set (ad_drawn s) \<and> (as_user x, as_totp x) \<in> set (ad_proved ?s) \<and>
        (\<forall>uid. (uid, as_id x) \<in> set (ad_issued ?s) \<longrightarrow> uid = as_user x)"
        using owner [OF y(1)] p by (intro disjI1 bexI [of _ y]) auto
    qed auto
  qed
qed

definition kept :: "admin_session list \<Rightarrow> admin_session list \<Rightarrow> bool" where
  "kept xs ys \<longleftrightarrow> (\<forall>x \<in> set ys. \<exists>y \<in> set xs. as_id y = as_id x \<and> as_user y = as_user x \<and> as_totp y = as_totp x)"

lemma kept_map [simp]: "kept xs (map (\<lambda>x. if P x then x\<lparr>as_revoked := v\<rparr> else x) xs)"
  by (auto simp: kept_def split: if_splits)

lemma kept_refl [simp]: "kept xs xs"
  by (auto simp: kept_def)

lemma refresh_write_outcome:
  assumes "refresh_write cy row sid rt now d = (r, d')"
  shows "a_users d' = a_users d \<and> a_attempts d' = a_attempts d \<and>
    (issued_by r = [] \<and> kept (a_sessions d) (a_sessions d') \<or>
     (\<exists>s ys h. row = Some s \<and> issued_by r = [(as_user s, sid)] \<and> kept (a_sessions d) ys \<and>
       a_sessions d' = ys @ [\<lparr>as_id = sid, as_user = as_user s, as_hash = h, as_issued = now,
           as_expires = now + ADMIN_REFRESH_TTL, as_totp = as_totp s, as_revoked = None\<rparr>]))"
proof (cases row)
  case None
  then show ?thesis using assms by (auto simp: refresh_write_def issued_by_def)
next
  case (Some s)
  consider "as_revoked s \<noteq> None" | "as_revoked s = None" "as_expires s < now" | "as_revoked s = None" "\<not> as_expires s < now" by blast
  then show ?thesis
  proof cases
    case 1
    then show ?thesis using assms Some by (auto simp: refresh_write_def issued_by_def update_sessions_def)
  next
    case 2
    then show ?thesis using assms Some by (auto simp: refresh_write_def issued_by_def)
  next
    case 3
    let ?ys = "map (\<lambda>x. if as_id x = as_id s then x\<lparr>as_revoked := Some now\<rparr> else x) (a_sessions d)"
    show ?thesis
    proof (cases "sid \<in> as_id ` set ?ys")
      case True
      then have "r = Inl integrity_error" "d' = d"
        using assms Some 3 by (simp_all add: refresh_write_def insert_session_def update_sessions_def)
      then show ?thesis by (simp add: issued_by_def)
    next
      case False
      then have "issued_by r = [(as_user s, sid)]" "a_users d' = a_users d" "a_attempts d' = a_attempts d"
        "a_sessions d' = ?ys @ [\<lparr>as_id = sid, as_user = as_user s, as_hash = am_sha cy rt, as_issued = now,
           as_expires = now + ADMIN_REFRESH_TTL, as_totp = as_totp s, as_revoked = None\<rparr>]"
        using assms Some 3 by (auto simp: refresh_write_def insert_session_def issued_by_def update_sessions_def)
      moreover have "kept (a_sessions d) ?ys" by (rule kept_map)
      ultimately show ?thesis using Some by blast
    qed
  qed
qed

lemma anchored_refresh:
  assumes "anchored s" and "row \<in> set (ad_flight s)" and "refresh_write cy row sid rt (ad_clock s) (ad_db s) = (r, d)"
    and "sid \<notin> set (ad_drawn s)"
  shows "anchored (s\<lparr>ad_db := d, ad_issued := issued_by r @ ad_issued s, ad_drawn := sid # ad_drawn s\<rparr>)" (is "anchored ?s")
proof -
  note o = refresh_write_outcome [OF assms(3)]
  have iss: "(u, sid) \<notin> set (ad_issued s)" for u using assms(1,4) unfolding anchored_def by auto
  from o consider (old) "issued_by r = []" "kept (a_sessions (ad_db s)) (a_sessions d)"
    | (new) p ys h where "row = Some p" "issued_by r = [(as_user p, sid)]" "kept (a_sessions (ad_db s)) ys"
      "a_sessions d = ys @ [\<lparr>as_id = sid, as_user = as_user p, as_hash = h, as_issued = ad_clock s,
           as_expires = ad_clock s + ADMIN_REFRESH_TTL, as_totp = as_totp p, as_revoked = None\<rparr>]" by blast
  then show ?thesis
  proof cases
    case old
    then show ?thesis by (intro anchored_step [OF assms(1)]) (auto simp: kept_def)
  next
    case new
    have v: "(as_user p, as_totp p) \<in> set (ad_proved s)" using assms(1,2) new(1) unfolding anchored_def by blast
    show ?thesis
    proof (rule anchored_step [OF assms(1)])
      fix x assume "x \<in> set (a_sessions (ad_db ?s))"
      then consider "x \<in> set ys"
        | "x = \<lparr>as_id = sid, as_user = as_user p, as_hash = h, as_issued = ad_clock s, as_expires = ad_clock s + ADMIN_REFRESH_TTL,
           as_totp = as_totp p, as_revoked = None\<rparr>" using new(4) by auto
      then show "(\<exists>y \<in> set (a_sessions (ad_db s)). as_id y = as_id x \<and> as_user y = as_user x \<and>
          (as_totp y = as_totp x \<or> (as_user x, as_totp x) \<in> set (ad_proved ?s))) \<or>
        as_id x \<in> set (ad_drawn ?s) - set (ad_drawn s) \<and> (as_user x, as_totp x) \<in> set (ad_proved ?s) \<and>
        (\<forall>uid. (uid, as_id x) \<in> set (ad_issued ?s) \<longrightarrow> uid = as_user x)"
      proof cases
        case 1
        with new(3) show ?thesis unfolding kept_def by blast
      next
        case 2
        then show ?thesis using v assms(4) iss new(2) by auto
      qed
    qed (use assms(4) new in auto)
  qed
qed


lemma admin_step_anchored: "admin_step cy s s' \<Longrightarrow> anchored s \<Longrightarrow> anchored s'"
proof (induction rule: admin_step.induct)
  case (tick s t)
  then show ?case by (simp add: anchored_def)
next
  case (login email pw ip s r d)
  from attempt_login_keeps [OF login(1)] show ?case by (intro anchored_step [OF login(2)]) auto
next
  case totp
  then show ?case by (intro anchored_totp)
next
  case reauth
  then show ?case by (intro anchored_reauth)
next
  case (read s rt)
  then show ?case by (intro anchored_step [OF read]) (auto simp: refresh_find_def dest: find_in_set [OF sym])
next
  case refresh
  then show ?case by (intro anchored_refresh)
next
  case (logout s sid)
  have "kept (a_sessions (ad_db s)) (a_sessions (admin_logout_session sid (ad_clock s) (ad_db s)))"
    by (simp add: admin_logout_session_def update_sessions_def)
  then show ?case by (intro anchored_step [OF logout]) (auto simp: kept_def)
next
  case (reset s email)
  then show ?case by (intro anchored_step [OF reset]) (auto simp: admin_reset_totp_def Let_def)
qed

lemma admin_reach_anchored: "admin_reach cy s \<Longrightarrow> anchored s"
proof (induction rule: admin_reach.induct)
  case (step s s')
  show ?case by (rule admin_step_anchored [OF step.hyps(2) step.IH])
qed (simp add: anchored_def)

lemma proved_past: "admin_reach cy s \<Longrightarrow> \<forall>(uid, t) \<in> set (ad_proved s). t \<le> ad_clock s"
proof (induction rule: admin_reach.induct)
  case (step s s')
  from step.hyps(2) step.IH show ?case
    by (induction rule: admin_step.induct) (fastforce simp: proved_by_def)+
qed simp

text \<open>C30. The gate of destructive actions rests on a recent code. In every reachable state a request
  whose token the server issued passes the gate with a window of w seconds only if that very
  admin, active, enrolled and not locked out, entered a code at a time t, at most w seconds ago,
  that matched the admin's own secret at t: refreshes, however many and however they interleave,
  do not extend the freshness of a session, and neither do wrong codes.\<close>

theorem fresh_gate_needs_a_recent_code:
  assumes "admin_reach cy s" and "admin_bearer header = Inr token"
    and "\<forall>c. am_dec cy token = Some c \<and> ac_type c = ''admin_access'' \<longrightarrow> (ac_user c, ac_session c) \<in> set (ad_issued s)"
    and "require_fresh_totp w cy header (ad_clock s) (ad_db s) = Inr ctx"
  shows "\<exists>t. (ax_user ctx, t) \<in> set (ad_proved s) \<and> t \<le> ad_clock s \<and> ad_clock s \<le> t + w"
proof -
  obtain c where c: "am_dec cy token = Some c" "ac_type c = ''admin_access''" "ax_user ctx = ac_user c"
    "session_freshness (ac_session c) (ad_clock s) (ad_db s) = Some (ax_totp ctx)" "ad_clock s \<le> ax_totp ctx + w"
    using assms(2,4) by (auto simp: require_fresh_totp_def require_super_admin_def verify_admin_token_def jwt_decode_def
        bind_res_eq_Inr split: sum.splits option.splits if_splits)
  obtain x where x: "x \<in> set (a_sessions (ad_db s))" "as_id x = ac_session c" "as_totp x = ax_totp ctx"
    using c(4) by (auto simp: session_freshness_def dest: find_in_set)
  note inv = admin_reach_anchored [OF assms(1)]
  have "(ac_user c, ac_session c) \<in> set (ad_issued s)" using assms(3) c(1,2) by blast
  then have "as_user x = ac_user c" using inv x(1,2) unfolding anchored_def by auto
  then have "(ac_user c, ax_totp ctx) \<in> set (ad_proved s)" using inv x(1,3) unfolding anchored_def by metis
  then show ?thesis using c(3,5) proved_past [OF assms(1)] by auto
qed

section \<open>Witnesses\<close>

definition demo_admin :: admin_user where
  "demo_admin = \<lparr>au_id = 1, au_email = ''a'', au_hash = ''h'', au_secret = Some ''s'', au_enrolled = True, au_status = ''active'',
     au_last_login = None\<rparr>"

definition demo_admin_crypto :: admin_crypto where
  "demo_admin_crypto = \<lparr>am_sha = id, am_checkpw = (\<lambda>p h. p = ''pw''), am_decrypt = (\<lambda>e i. Inr e), am_totp = (\<lambda>s c t. True),
     am_enc = (\<lambda>c. ac_session c), am_dec = (\<lambda>t. Some \<lparr>ac_type = ''admin_access'', ac_user = 1, ac_session = t, ac_totp = 0,
       ac_stage = None, ac_iat = 0, ac_exp = 900\<rparr>)\<rparr>"

definition demo_admin_db :: adb where
  "demo_admin_db = \<lparr>a_users = [demo_admin], a_sessions = [], a_attempts = []\<rparr>"

definition demo_admin_sys :: "nat \<Rightarrow> admin_sys" where
  "demo_admin_sys t = \<lparr>ad_db = demo_admin_db, ad_clock = t, ad_issued = [], ad_drawn = [], ad_flight = [], ad_wrong = [],
     ad_proved = []\<rparr>"

lemma demo_admin_reach: "admin_reach demo_admin_crypto (demo_admin_sys t)"
  unfolding demo_admin_sys_def demo_admin_db_def by (rule admin_reach.start)

theorem at_most_five_guesses_witness:
  "\<exists>s. admin_reach demo_admin_crypto s \<and> ad_wrong s = [(''a'', 3)] \<and>
    length (filter (\<lambda>(e', t'). e' = ''a'' \<and> 0 \<le> t' \<and> t' \<le> 0 + 15 * 60) (ad_wrong s)) \<le> 5"
proof -
  let ?r = "attempt_login demo_admin_crypto ''a'' ''no'' ''ip'' 3 demo_admin_db"
  let ?w = "wrong_password demo_admin_crypto ''a'' ''no'' 3 demo_admin_db (fst ?r)"
  let ?s = "(demo_admin_sys 3)\<lparr>ad_db := snd ?r, ad_wrong := ?w @ []\<rparr>"
  have "admin_step demo_admin_crypto (demo_admin_sys 3) ?s"
    using admin_step.login [of demo_admin_crypto "''a''" "''no''" "''ip''" "demo_admin_sys 3" "fst ?r" "snd ?r"]
    by (simp add: demo_admin_sys_def)
  then have s: "admin_reach demo_admin_crypto ?s" by (rule admin_reach.step [OF demo_admin_reach])
  have e: "py_lower (py_strip ''a'') = ''a''" "py_lower ''a'' = ''a''" by code_simp+
  have "fst ?r = LInvalidCredentials"
    by (simp add: attempt_login_def e Let_def is_locked_out_def recent_failures_def LOCKOUT_THRESHOLD_def demo_admin_db_def
        demo_admin_def verify_password_def demo_admin_crypto_def)
  then have "?w = [(''a'', 3)]"
    by (simp only: wrong_password_def e) (simp add: demo_admin_db_def demo_admin_def demo_admin_crypto_def e)
  then show ?thesis using s at_most_five_guesses [OF s, of "''a''" 0] by (intro exI [of _ ?s]) simp
qed

theorem wrong_logins_lock_the_admin_out_witness:
  "fst (attempt_login demo_admin_crypto ''a'' ''pw'' ''home'' 1000 (siege demo_admin_crypto ''a'' ''no'' ''away'' 100 5 demo_admin_db)) = LLocked"
  by (rule wrong_logins_lock_the_admin_out)
    (simp_all add: demo_admin_db_def demo_admin_def demo_admin_crypto_def verify_password_def)

definition demo_sessions :: adb where
  "demo_sessions = demo_admin_db\<lparr>a_sessions := [\<lparr>as_id = ''i'', as_user = 1, as_hash = ''r'', as_issued = 0, as_expires = 86400,
     as_totp = 0, as_revoked = None\<rparr>]\<rparr>"

theorem replayed_refresh_revokes_everything_witness:
  "\<exists>g d1 d2. admin_refresh_session demo_admin_crypto ''r'' ''j'' ''q'' 60 demo_sessions = (Inr (TOk g), d1) \<and>
    admin_refresh_session demo_admin_crypto ''r'' ''k'' ''z'' 90 d1 = (Inr (TInvalidToken ''Refresh token replay''), d2)"
proof -
  obtain g d1 where r: "admin_refresh_session demo_admin_crypto ''r'' ''j'' ''q'' 60 demo_sessions = (Inr (TOk g), d1)"
    by (simp add: admin_refresh_session_def refresh_find_def refresh_write_def insert_session_def update_sessions_def
        demo_sessions_def demo_admin_db_def demo_admin_crypto_def)
  have "am_sha demo_admin_crypto ''q'' \<noteq> am_sha demo_admin_crypto ''r''" by (simp add: demo_admin_crypto_def)
  from replayed_refresh_revokes_everything [OF r this] r show ?thesis by blast
qed

theorem fresh_gate_needs_a_recent_code_witness:
  "\<exists>s ctx t. admin_reach demo_admin_crypto s \<and> require_fresh_totp 300 demo_admin_crypto ''Bearer i'' (ad_clock s) (ad_db s) = Inr ctx \<and>
    (ax_user ctx, t) \<in> set (ad_proved s) \<and> ad_clock s \<le> t + 300"
proof -
  have b: "admin_bearer ''Bearer i'' = Inr ''i''" by code_simp
  have v: "verify_totp_code demo_admin_crypto ''s'' ''123456'' 7"
  proof -
    have "py_strip ''123456'' = ''123456''" "list_all py_isdigit ''123456''" by code_simp+
    then show ?thesis by (simp add: verify_totp_code_def demo_admin_crypto_def)
  qed
  obtain g d where t: "attempt_totp demo_admin_crypto 1 ''123456'' ''ip'' ''i'' ''r'' 7 demo_admin_db = (Inr (TOk g), d)"
    "gr_jwt g \<noteq> None" "gr_user g = 1" "gr_session g = ''i''" "session_freshness ''i'' 7 d = Some 7"
    using v by (simp add: attempt_totp_def demo_admin_db_def demo_admin_def is_locked_out_def recent_failures_def
        LOCKOUT_THRESHOLD_def given_def insert_session_def log_attempt_def session_freshness_def ADMIN_REFRESH_TTL_def
        demo_admin_crypto_def)
  have dec: "am_dec demo_admin_crypto ''i'' = Some \<lparr>ac_type = ''admin_access'', ac_user = 1, ac_session = ''i'', ac_totp = 0,
       ac_stage = None, ac_iat = 0, ac_exp = 900\<rparr>" by (simp add: demo_admin_crypto_def)
  let ?s = "(demo_admin_sys 7)\<lparr>ad_db := d, ad_issued := [(1, ''i'')], ad_drawn := [''i''],
    ad_wrong := wrong_code demo_admin_crypto 1 ''123456'' 7 demo_admin_db (Inr (TOk g)),
    ad_proved := proved_by demo_admin_crypto 1 ''123456'' 7 demo_admin_db\<rparr>"
  have "issued_by (Inr (TOk g)) = [(1, ''i'')]" using t(2-4) by (auto simp: issued_by_def)
  then have "admin_step demo_admin_crypto (demo_admin_sys 7) ?s"
    using t(1) admin_step.totp [of demo_admin_crypto 1 "''123456''" "''ip''" "''i''" "''r''" "demo_admin_sys 7" "Inr (TOk g)" d]
    by (simp add: demo_admin_sys_def)
  then have r: "admin_reach demo_admin_crypto ?s" by (rule admin_reach.step [OF demo_admin_reach])
  have q: "require_fresh_totp 300 demo_admin_crypto ''Bearer i'' (ad_clock ?s) (ad_db ?s) =
      Inr \<lparr>ax_user = 1, ax_session = ''i'', ax_totp = 7\<rparr>"
    using t(5) by (simp add: demo_admin_sys_def require_fresh_totp_def require_super_admin_def b verify_admin_token_def jwt_decode_def dec)
  have "\<forall>c. am_dec demo_admin_crypto ''i'' = Some c \<and> ac_type c = ''admin_access'' \<longrightarrow> (ac_user c, ac_session c) \<in> set (ad_issued ?s)"
    by (simp add: dec)
  from fresh_gate_needs_a_recent_code [OF r b this q] r q show ?thesis by blast
qed

end
