(* ===== verification/Retention.thy ===== *)
theory Retention
  imports Jobs PgStorage JsonStorage MemoryFacade
begin

text \<open>
  Retention: \<open>engramia/governance/retention.py\<close>, the maintenance jobs of
  \<open>engramia/governance/lifecycle.py\<close> and the retention endpoints of
  \<open>engramia/api/governance.py\<close>. An engine is absent (None), fails in the query (Some (Inl e))
  or holds the policy columns of the projects and tenants (Some (Inr pol)).
\<close>

section \<open>Policies\<close>

record project_policy =
  pp_id :: string
  pp_tenant :: string
  pp_days :: "int option"

record tenant_policy =
  tp_id :: string
  tp_days :: "int option"

record policies =
  po_projects :: "project_policy list"
  po_tenants :: "tenant_policy list"

type_synonym engine = "policies res option"

definition DEFAULT_RETENTION_DAYS :: int where "DEFAULT_RETENTION_DAYS = 365"

text \<open>The join of projects and tenants: the days of the project and of its tenant.\<close>

definition policy_row :: "policies \<Rightarrow> string \<Rightarrow> string \<Rightarrow> (int option \<times> int option) option" where
  "policy_row pol t p =
     (case find (\<lambda>x. pp_id x = p \<and> pp_tenant x = t) (po_projects pol) of
        None \<Rightarrow> None
      | Some x \<Rightarrow> (case find (\<lambda>y. tp_id y = t) (po_tenants pol) of None \<Rightarrow> None | Some y \<Rightarrow> Some (pp_days x, tp_days y)))"

definition get_policy :: "int \<Rightarrow> engine \<Rightarrow> string \<Rightarrow> string \<Rightarrow> int" where
  "get_policy def eng t p =
     (case eng of
        None \<Rightarrow> def
      | Some (Inl e) \<Rightarrow> def
      | Some (Inr pol) \<Rightarrow>
          (case policy_row pol t p of
             None \<Rightarrow> def
           | Some (Some d, _) \<Rightarrow> d
           | Some (None, Some d) \<Rightarrow> d
           | Some (None, None) \<Rightarrow> def))"

definition set_project_policy :: "engine \<Rightarrow> string \<Rightarrow> string \<Rightarrow> int option \<Rightarrow> engine res" where
  "set_project_policy eng p t days =
     (case eng of
        None \<Rightarrow> Inr None
      | Some (Inl e) \<Rightarrow> Inl e
      | Some (Inr pol) \<Rightarrow> Inr (Some (Inr (pol\<lparr>po_projects :=
          map (\<lambda>x. if pp_id x = p \<and> pp_tenant x = t then x\<lparr>pp_days := days\<rparr> else x) (po_projects pol)\<rparr>))))"

definition set_tenant_policy :: "engine \<Rightarrow> string \<Rightarrow> int option \<Rightarrow> engine res" where
  "set_tenant_policy eng t days =
     (case eng of
        None \<Rightarrow> Inr None
      | Some (Inl e) \<Rightarrow> Inl e
      | Some (Inr pol) \<Rightarrow> Inr (Some (Inr (pol\<lparr>po_tenants :=
          map (\<lambda>y. if tp_id y = t then y\<lparr>tp_days := days\<rparr> else y) (po_tenants pol)\<rparr>))))"

section \<open>Purging\<close>

record purge_result =
  pu_count :: nat
  pu_dry :: bool
  pu_keys :: "string list"

text \<open>Deleting key by key; an exception leaves the keys before it deleted.\<close>

fun purge_keys :: "'s backend \<Rightarrow> scope \<Rightarrow> 's \<Rightarrow> string list \<Rightarrow> unit res \<times> 's" where
  "purge_keys B sc s [] = (Inr (), s)"
| "purge_keys B sc s (k # ks) =
     (case be_delete B sc s k of Inl e \<Rightarrow> (Inl e, s) | Inr s' \<Rightarrow> purge_keys B sc s' ks)"

definition purge :: "'s backend \<Rightarrow> scope \<Rightarrow> 's \<Rightarrow> string list \<Rightarrow> bool \<Rightarrow> purge_result res \<times> 's" where
  "purge B sc s ks dry =
     (case (if dry then (Inr (), s) else purge_keys B sc s ks) of
        (Inl e, s') \<Rightarrow> (Inl e, s')
      | (Inr u, s') \<Rightarrow> (Inr \<lparr>pu_count = length ks, pu_dry = dry, pu_keys = ks\<rparr>, s'))"

text \<open>The expiry column: the rows of the scope under \<open>patterns/\<close> whose time has passed.\<close>

definition expired_rows :: "scope \<Rightarrow> string \<Rightarrow> pg_store \<Rightarrow> string list" where
  "expired_rows sc now_txt s =
     map (\<lambda>(rk, r). snd (snd rk))
       (filter (\<lambda>(rk, r). in_scope (sc_tenant sc) (sc_project sc) rk \<and>
           (case row_expires_at r of None \<Rightarrow> False | Some e \<Rightarrow> e \<le> now_txt) \<and>
           prefix (PATTERNS_PREFIX @ ''/'') (snd (snd rk))) (pg_data s))"

definition apply_postgres :: "pg_store backend \<Rightarrow> scope \<Rightarrow> nat \<Rightarrow> pg_store \<Rightarrow> bool \<Rightarrow> purge_result res \<times> pg_store" where
  "apply_postgres B sc now s dry = purge B sc s (expired_rows sc (iso_z now) s) dry"

text \<open>\<open>data.get("timestamp", 0)\<close> and its comparisons with numbers, which raise for other values.\<close>

definition doc_stamp :: "doc \<Rightarrow> real res" where
  "doc_stamp d =
     (case d of
        DDict x \<Rightarrow>
          (case dget x ''timestamp'' of
             None \<Rightarrow> Inr 0
           | Some (JInt i) \<Rightarrow> Inr (real_of_int i)
           | Some (JNum r) \<Rightarrow> Inr r
           | Some (JBool b) \<Rightarrow> Inr (if b then 1 else 0)
           | Some _ \<Rightarrow> Inl (OtherError ''TypeError''))
      | DMetrics m \<Rightarrow> Inr 0
      | DSkills x \<Rightarrow> if ''timestamp'' \<in> fst ` set x then Inl (OtherError ''TypeError'') else Inr 0
      | _ \<Rightarrow> Inl (OtherError ''AttributeError''))"

fun scan_expired :: "'s backend \<Rightarrow> scope \<Rightarrow> 's \<Rightarrow> real \<Rightarrow> string list \<Rightarrow> string list res" where
  "scan_expired B sc s cutoff [] = Inr []"
| "scan_expired B sc s cutoff (k # ks) =
     bind_res (be_load B sc s k) (\<lambda>d.
       case d of
         None \<Rightarrow> scan_expired B sc s cutoff ks
       | Some x \<Rightarrow>
           bind_res (doc_stamp x) (\<lambda>ts.
           bind_res (scan_expired B sc s cutoff ks) (\<lambda>rest.
             Inr (if 0 < ts \<and> ts < cutoff then k # rest else rest))))"

definition apply_storage_scan ::
  "'s backend \<Rightarrow> int \<Rightarrow> engine \<Rightarrow> scope \<Rightarrow> real \<Rightarrow> 's \<Rightarrow> bool \<Rightarrow> purge_result res \<times> 's" where
  "apply_storage_scan B def eng sc now s dry =
     (let cutoff = now - real_of_int (get_policy def eng (sc_tenant sc) (sc_project sc)) * 86400 in
      case bind_res (be_list_keys B sc s PATTERNS_PREFIX) (scan_expired B sc s cutoff) of
        Inl e \<Rightarrow> (Inl e, s)
      | Inr ks \<Rightarrow> purge B sc s ks dry)"

section \<open>Endpoints\<close>

definition get_retention :: "engine \<Rightarrow> scope \<Rightarrow> int \<times> string" where
  "get_retention eng sc =
     (case eng of
        None \<Rightarrow> (DEFAULT_RETENTION_DAYS, ''default'')
      | Some (Inl e) \<Rightarrow> (DEFAULT_RETENTION_DAYS, ''default'')
      | Some (Inr pol) \<Rightarrow>
          (case policy_row pol (sc_tenant sc) (sc_project sc) of
             None \<Rightarrow> (DEFAULT_RETENTION_DAYS, ''default'')
           | Some (pd, td) \<Rightarrow>
               (case pd of
                  Some d \<Rightarrow> (d, ''project'')
                | None \<Rightarrow> (case td of Some d \<Rightarrow> (d, ''tenant'') | None \<Rightarrow> (DEFAULT_RETENTION_DAYS, ''default'')))))"

definition set_retention :: "engine \<Rightarrow> scope \<Rightarrow> int option \<Rightarrow> (int \<times> string) res \<times> engine" where
  "set_retention eng sc days =
     (if eng = None then (Inl (HttpError 501 ''Retention policies require DB auth mode''), eng)
      else (case set_project_policy eng (sc_project sc) (sc_tenant sc) days of
          Inl e \<Rightarrow> (Inl e, eng)
        | Inr eng' \<Rightarrow>
            (Inr (get_policy DEFAULT_RETENTION_DAYS eng' (sc_tenant sc) (sc_project sc),
                  if days \<noteq> None then ''project'' else ''tenant''), eng')))"

text \<open>
  \<open>RetentionManager.apply\<close> for the two kinds of storage; the database of the engine is the
  one the PostgreSQL storage uses.
\<close>

definition json_retention_apply :: "'s backend \<Rightarrow> int \<Rightarrow> engine \<Rightarrow> scope \<Rightarrow> nat \<Rightarrow> 's \<Rightarrow> bool \<Rightarrow> purge_result res \<times> 's" where
  "json_retention_apply B def eng sc now s dry = apply_storage_scan B def eng sc (real now) s dry"

definition pg_retention_apply ::
  "pg_store backend \<Rightarrow> int \<Rightarrow> engine \<Rightarrow> scope \<Rightarrow> nat \<Rightarrow> pg_store \<Rightarrow> bool \<Rightarrow> purge_result res \<times> pg_store" where
  "pg_retention_apply B def eng sc now s dry =
     (case eng of
        None \<Rightarrow> apply_storage_scan B def None sc (real now) s dry
      | Some (Inl e) \<Rightarrow> (Inl e, s)
      | Some (Inr pol) \<Rightarrow> apply_postgres B sc now s dry)"

text \<open>
  The job \<open>retention_cleanup\<close> takes the engine of the storage: a PostgreSQL storage has one, a
  JSON storage does not, whatever the engine of the application is.
\<close>

definition json_cleanup_expired :: "'s backend \<Rightarrow> scope \<Rightarrow> nat \<Rightarrow> 's \<Rightarrow> bool \<Rightarrow> (nat \<times> bool) res \<times> 's" where
  "json_cleanup_expired B sc now s dry =
     (case json_retention_apply B DEFAULT_RETENTION_DAYS None sc now s dry of
        (Inl e, s') \<Rightarrow> (Inl e, s') | (Inr r, s') \<Rightarrow> (Inr (pu_count r, pu_dry r), s'))"

definition pg_cleanup_expired ::
  "pg_store backend \<Rightarrow> policies res \<Rightarrow> scope \<Rightarrow> nat \<Rightarrow> pg_store \<Rightarrow> bool \<Rightarrow> (nat \<times> bool) res \<times> pg_store" where
  "pg_cleanup_expired B pol sc now s dry =
     (case pg_retention_apply B DEFAULT_RETENTION_DAYS (Some pol) sc now s dry of
        (Inl e, s') \<Rightarrow> (Inl e, s') | (Inr r, s') \<Rightarrow> (Inr (pu_count r, pu_dry r), s'))"

section \<open>Audit log and jobs\<close>

record audit_row =
  al_tenant :: string
  al_project :: "string option"
  al_action :: string
  al_created :: string

definition AUDIT_RETENTION_DAYS :: nat where "AUDIT_RETENTION_DAYS = 90"
definition JOB_RETENTION_DAYS :: nat where "JOB_RETENTION_DAYS = 30"

text \<open>\<open>log_db_event\<close>: the time is the text of now(), \<open>u\<close> its fraction and zone.\<close>

definition log_db_event :: "string \<Rightarrow> string \<Rightarrow> string option \<Rightarrow> string \<Rightarrow> nat \<Rightarrow> audit_row list \<Rightarrow> audit_row list" where
  "log_db_event u t p action now rows = rows @ [\<lparr>al_tenant = t, al_project = p, al_action = action, al_created = pg_now u now\<rparr>]"

text \<open>The cutoff as a text; a point before 1970 would be one with a smaller year.\<close>

definition cutoff_iso :: "nat \<Rightarrow> nat \<Rightarrow> string" where
  "cutoff_iso days now = iso_z (now - days * 86400)"

definition compact_audit_log :: "bool \<Rightarrow> scope \<Rightarrow> nat \<Rightarrow> bool \<Rightarrow> nat \<Rightarrow> audit_row list \<Rightarrow> (nat \<times> bool) \<times> audit_row list" where
  "compact_audit_log engine sc days dry now rows =
     (if \<not> engine then ((0, False), rows)
      else (let old = (\<lambda>a. al_tenant a = sc_tenant sc \<and> al_created a < cutoff_iso days now);
                n = length (filter old rows)
            in if dry then ((n, True), rows) else ((n, False), filter (\<lambda>a. \<not> old a) rows)))"

definition terminal_statuses :: "string list" where
  "terminal_statuses = [''completed'', ''failed'', ''cancelled'', ''expired'']"

definition cleanup_old_jobs :: "bool \<Rightarrow> scope \<Rightarrow> nat \<Rightarrow> bool \<Rightarrow> nat \<Rightarrow> jobs \<Rightarrow> (nat \<times> bool) \<times> jobs" where
  "cleanup_old_jobs engine sc days dry now q =
     (if \<not> engine then ((0, False), q)
      else (let old = (\<lambda>(k :: string, j). in_job_scope sc j \<and> j_created_at j < cutoff_iso days now \<and>
                   status_text (j_status j) \<in> set terminal_statuses);
                n = length (filter old q)
            in if dry then ((n, True), q) else ((n, False), filter (\<lambda>e. \<not> old e) q)))"

end
