(* ===== verification/Export.thy ===== *)
theory Export
  imports MemoryFacade PgStorage JsonStorage
begin

text \<open>
  The governance export (\<open>engramia/governance/export.py\<close> and its endpoint in
  \<open>engramia/api/governance.py\<close>) and the classification of patterns, which decides what an
  export with a filter contains.
\<close>

section \<open>Classification\<close>

definition VALID_CLASSIFICATIONS :: "string list" where
  "VALID_CLASSIFICATIONS = [''public'', ''internal'', ''confidential'']"

text \<open>PUT /governance/patterns/{key}/classify: the state and the classification it answers.\<close>

definition classify_pattern :: "'s backend \<Rightarrow> scope \<Rightarrow> 's \<Rightarrow> string \<Rightarrow> string \<Rightarrow> string res \<times> 's" where
  "classify_pattern B sc s key cls =
     (if cls \<notin> set VALID_CLASSIFICATIONS then (Inl (HttpError 422 ''Invalid classification''), s)
      else (case be_load B sc s key of
          Inl e \<Rightarrow> (Inl e, s)
        | Inr None \<Rightarrow> (Inl (HttpError 404 ''Pattern not found''), s)
        | Inr (Some d) \<Rightarrow>
            (Inr cls, be_save_meta B sc s key
               \<lparr>pm_classification = Some cls, pm_source = None, pm_run_id = None, pm_author = None,
                pm_redacted = None, pm_expires_at = None\<rparr>)))"

text \<open>The query parameter: a comma-separated list, or no filter.\<close>

definition parse_filter :: "string option \<Rightarrow> string list option res" where
  "parse_filter q =
     (case q of
        None \<Rightarrow> Inr None
      | Some w \<Rightarrow>
          if w = [] then Inr None
          else (let cls = filter (\<lambda>c. c \<noteq> []) (map py_strip (split_on CHR '','' w)) in
                if list_all (\<lambda>c. c \<in> set VALID_CLASSIFICATIONS) cls then Inr (Some cls)
                else Inl (HttpError 422 ''Invalid classification'')))"

section \<open>The stream\<close>

record meta_row =
  mr_classification :: string
  mr_redacted :: bool
  mr_source :: "string option"
  mr_run_id :: "string option"

record gov_record =
  xr_key :: string
  xr_data :: doc
  xr_classification :: "string option"
  xr_redacted :: "bool option"
  xr_source :: "string option"
  xr_run_id :: "string option"

definition row_meta :: "pg_row \<Rightarrow> meta_row" where
  "row_meta r = \<lparr>mr_classification = row_classification r, mr_redacted = row_redacted r, mr_source = row_source r,
     mr_run_id = row_run_id r\<rparr>"

text \<open>
  The columns of the scope's patterns; an empty filter adds no condition, and a query that
  fails (\<open>fails\<close>) leaves the dict empty.
\<close>

definition load_meta_from_db :: "bool \<Rightarrow> scope \<Rightarrow> pg_store \<Rightarrow> string list option \<Rightarrow> (string, meta_row) dict" where
  "load_meta_from_db fails sc s cls =
     (if fails then []
      else map (\<lambda>(rk, r). (snd (snd rk), row_meta r))
        (filter (\<lambda>(rk, r). in_scope (sc_tenant sc) (sc_project sc) rk \<and> prefix (PATTERNS_PREFIX @ ''/'') (snd (snd rk)) \<and>
            (case cls of None \<Rightarrow> True | Some cs \<Rightarrow> cs = [] \<or> row_classification r \<in> set cs)) (pg_data s)))"

definition export_line :: "string \<Rightarrow> doc \<Rightarrow> meta_row option \<Rightarrow> gov_record" where
  "export_line k d m =
     (case m of
        None \<Rightarrow> \<lparr>xr_key = k, xr_data = d, xr_classification = None, xr_redacted = None, xr_source = None, xr_run_id = None\<rparr>
      | Some m \<Rightarrow> \<lparr>xr_key = k, xr_data = d, xr_classification = Some (mr_classification m), xr_redacted = Some (mr_redacted m),
          xr_source = given (mr_source m), xr_run_id = given (mr_run_id m)\<rparr>)"

text \<open>The records of the keys; an exception ends the stream after the records before it.\<close>

fun stream_keys ::
  "'s backend \<Rightarrow> scope \<Rightarrow> 's \<Rightarrow> bool \<Rightarrow> (string, meta_row) dict \<Rightarrow> string list \<Rightarrow> gov_record list \<times> exn option" where
  "stream_keys B sc s only meta [] = ([], None)"
| "stream_keys B sc s only meta (k # ks) =
     (if only \<and> dget meta k = None then stream_keys B sc s only meta ks
      else (case be_load B sc s k of
          Inl e \<Rightarrow> ([], Some e)
        | Inr None \<Rightarrow> stream_keys B sc s only meta ks
        | Inr (Some d) \<Rightarrow>
            (let (rs, e) = stream_keys B sc s only meta ks in (export_line k d (dget meta k) # rs, e))))"

text \<open>\<open>db\<close> is what the engine answers for the filter, None without an engine.\<close>

definition export_stream ::
  "'s backend \<Rightarrow> scope \<Rightarrow> 's \<Rightarrow> string list option \<Rightarrow> (string list option \<Rightarrow> (string, meta_row) dict) option
   \<Rightarrow> gov_record list \<times> exn option" where
  "export_stream B sc s cls db =
     (let meta = (case db of None \<Rightarrow> [] | Some f \<Rightarrow> f cls) in
      case be_list_keys B sc s PATTERNS_PREFIX of
        Inl e \<Rightarrow> ([], Some e)
      | Inr ks \<Rightarrow> stream_keys B sc s (cls \<noteq> None \<and> db \<noteq> None) meta ks)"

definition export_scope ::
  "'s backend \<Rightarrow> scope \<Rightarrow> 's \<Rightarrow> string option \<Rightarrow> (string list option \<Rightarrow> (string, meta_row) dict) option
   \<Rightarrow> (gov_record list \<times> exn option) res" where
  "export_scope B sc s q db = bind_res (parse_filter q) (\<lambda>cls. Inr (export_stream B sc s cls db))"

section \<open>What a filtered export of PostgreSQL holds\<close>

lemma meta_lookup:
  assumes "pg_wf s"
  shows "dget (load_meta_from_db False sc s cls) k =
    (case dget (pg_data s) (row_key sc k) of
       None \<Rightarrow> None
     | Some r \<Rightarrow> if prefix (PATTERNS_PREFIX @ ''/'') k \<and> (case cls of None \<Rightarrow> True | Some cs \<Rightarrow> cs = [] \<or> row_classification r \<in> set cs)
         then Some (row_meta r) else None)"
proof -
  have "dget (map (\<lambda>(rk, r). (snd (snd rk), row_meta r)) (filter (\<lambda>(rk, r). in_scope (sc_tenant sc) (sc_project sc) rk \<and>
       prefix (PATTERNS_PREFIX @ ''/'') (snd (snd rk)) \<and>
       (case cls of None \<Rightarrow> True | Some cs \<Rightarrow> cs = [] \<or> row_classification r \<in> set cs)) d)) k =
    (case dget d (row_key sc k) of None \<Rightarrow> None
     | Some r \<Rightarrow> if prefix (PATTERNS_PREFIX @ ''/'') k \<and> (case cls of None \<Rightarrow> True | Some cs \<Rightarrow> cs = [] \<or> row_classification r \<in> set cs)
         then Some (row_meta r) else None)" if "wf_dict d" for d :: "(row_key, pg_row) dict"
    using that
  proof (induction d)
    case (Cons e d)
    obtain rk r where e: "e = (rk, r)" by (cases e)
    have d: "wf_dict d" "rk \<notin> fst ` set d" using Cons.prems by (auto simp: wf_dict_def e)
    have eq: "in_scope (sc_tenant sc) (sc_project sc) rk \<and> snd (snd rk) = k \<longleftrightarrow> rk = row_key sc k"
      using in_scopeE [of sc rk] by (auto simp: row_key_def in_scope_def)
    show ?case
    proof (cases "rk = row_key sc k")
      case True
      then have "dget d (row_key sc k) = None" using d(2) by (simp add: dget_None_iff)
      with True Cons.IH [OF d(1)] show ?thesis by (simp add: e row_key_def in_scope_def split: option.split)
    next
      case False
      then show ?thesis using eq Cons.IH [OF d(1)] by (auto simp: e)
    qed
  qed simp
  then show ?thesis using assms by (simp add: load_meta_from_db_def pg_wf_def)
qed

lemma pg_stream_keys:
  "stream_keys (pg_backend edim cdist) sc s only meta ks =
    (List.map_filter (\<lambda>k. if only \<and> dget meta k = None then None
       else map_option (\<lambda>r. export_line k (row_data r) (dget meta k)) (dget (pg_data s) (row_key sc k))) ks, None)"
  by (induction ks) (auto simp: pg_backend_def pg_load_def List.map_filter_simps Let_def split: option.split)

end
