(* ===== verification/Dsr.thy ===== *)
theory Dsr
  imports PyText "HOL-Library.List_Lexorder"
begin

text \<open>
  Data subject requests: \<open>engramia/governance/dsr.py\<close>, the tracker in memory and over the
  table, and its endpoints in \<open>engramia/api/governance.py\<close>. Times are whole seconds; the texts
  the code stores for them order like the times.
\<close>

record dsr =
  ds_id :: string
  ds_tenant :: string
  ds_type :: string
  ds_email :: string
  ds_status :: string
  ds_created :: nat
  ds_due :: nat
  ds_updated :: nat
  ds_completed :: "nat option"
  ds_notes :: string

type_synonym dsrs = "(string, dsr) dict"

definition DAY :: nat where "DAY = 86400"

definition closed :: "dsr \<Rightarrow> bool" where
  "closed r \<longleftrightarrow> ds_status r \<in> {''completed'', ''rejected''}"

definition overdue :: "nat \<Rightarrow> dsr \<Rightarrow> bool" where
  "overdue now r \<longleftrightarrow> \<not> closed r \<and> ds_due r < now"

section \<open>Storing\<close>

definition mem_persist :: "dsr \<Rightarrow> dsrs \<Rightarrow> dsrs" where
  "mem_persist r s = dput (ds_id r) r s"

text \<open>The upsert changes four columns of a present row; a failing statement raises.\<close>

definition db_upsert :: "bool \<Rightarrow> dsr \<Rightarrow> dsrs \<Rightarrow> dsrs res" where
  "db_upsert fails r s =
     (if fails then Inl (OtherError ''database'')
      else Inr (case dget s (ds_id r) of
          None \<Rightarrow> s @ [(ds_id r, r)]
        | Some x \<Rightarrow> dput (ds_id r) (x\<lparr>ds_status := ds_status r, ds_updated := ds_updated r,
            ds_completed := ds_completed r, ds_notes := ds_notes r\<rparr>) s))"

text \<open>The tracker: in memory (\<open>db\<close> False), or over the table with statements that may fail.\<close>

definition persist :: "bool \<Rightarrow> bool \<Rightarrow> dsr \<Rightarrow> dsrs \<Rightarrow> dsrs res" where
  "persist db fails r s = (if db then db_upsert fails r s else Inr (mem_persist r s))"

definition new_dsr :: "nat \<Rightarrow> string \<Rightarrow> string \<Rightarrow> string \<Rightarrow> string \<Rightarrow> string \<Rightarrow> nat \<Rightarrow> dsr" where
  "new_dsr sla_days rid t type email notes now =
     \<lparr>ds_id = rid, ds_tenant = t, ds_type = type, ds_email = email, ds_status = ''pending'', ds_created = now,
      ds_due = now + sla_days * DAY, ds_updated = now, ds_completed = None, ds_notes = notes\<rparr>"

definition create :: "bool \<Rightarrow> bool \<Rightarrow> nat \<Rightarrow> string \<Rightarrow> string \<Rightarrow> string \<Rightarrow> string \<Rightarrow> string \<Rightarrow> nat \<Rightarrow> dsrs \<Rightarrow> (dsr \<times> dsrs) res" where
  "create db fails sla_days rid t type email notes now s =
     (let r = new_dsr sla_days rid t type email notes now in
      bind_res (persist db fails r s) (\<lambda>s'. Inr (r, s')))"

definition get_dsr :: "bool \<Rightarrow> bool \<Rightarrow> string \<Rightarrow> dsrs \<Rightarrow> dsr option" where
  "get_dsr db fails rid s = (if db \<and> fails then None else dget s rid)"

definition set_status :: "string \<Rightarrow> string \<Rightarrow> nat \<Rightarrow> dsr \<Rightarrow> dsr" where
  "set_status status notes now r =
     r\<lparr>ds_status := status, ds_updated := now,
       ds_notes := (if notes = [] then ds_notes r else py_strip (ds_notes r @ CHR 10 # notes)),
       ds_completed := (if status \<in> {''completed'', ''rejected''} then Some now else ds_completed r)\<rparr>"

text \<open>The two statements of the update may fail on their own.\<close>

definition update_status ::
  "bool \<Rightarrow> bool \<Rightarrow> bool \<Rightarrow> string \<Rightarrow> string \<Rightarrow> string \<Rightarrow> nat \<Rightarrow> dsrs \<Rightarrow> (dsr option \<times> dsrs) res" where
  "update_status db fails fails' rid status notes now s =
     (case get_dsr db fails rid s of
        None \<Rightarrow> Inr (None, s)
      | Some r \<Rightarrow>
          (let r' = set_status status notes now r
           in bind_res (persist db fails' r' s) (\<lambda>s'. Inr (Some r', s'))))"

section \<open>Listing\<close>

text \<open>The query: the newest rows of the tenant, up to the limit; a failure answers nothing.\<close>

definition query_list :: "bool \<Rightarrow> string \<Rightarrow> string option \<Rightarrow> nat \<Rightarrow> dsrs \<Rightarrow> dsr list" where
  "query_list fails t status limit s =
     (if fails then []
      else take limit (sort_desc ds_created (filter (\<lambda>r. ds_tenant r = t \<and>
          (case status of None \<Rightarrow> True | Some w \<Rightarrow> w = [] \<or> ds_status r = w)) (map snd s))))"

definition list_requests :: "bool \<Rightarrow> bool \<Rightarrow> string \<Rightarrow> string option \<Rightarrow> bool \<Rightarrow> nat \<Rightarrow> nat \<Rightarrow> dsrs \<Rightarrow> dsr list" where
  "list_requests db fails t status overdue_only limit now s =
     (let rs = (if db then query_list fails t status limit s else filter (\<lambda>r. ds_tenant r = t) (map snd s));
          rs1 = (case status of None \<Rightarrow> rs | Some w \<Rightarrow> filter (\<lambda>r. ds_status r = w) rs);
          rs2 = (if overdue_only then filter (overdue now) rs1 else rs1)
      in take limit (sort_desc ds_created rs2))"

text \<open>Pending, in progress and overdue.\<close>

definition pending_count :: "bool \<Rightarrow> bool \<Rightarrow> string \<Rightarrow> nat \<Rightarrow> dsrs \<Rightarrow> nat \<times> nat \<times> nat" where
  "pending_count db fails t now s =
     (let open_reqs = filter (\<lambda>r. \<not> closed r) (list_requests db fails t None False 100 now s)
      in (length (filter (\<lambda>r. ds_status r = ''pending'') open_reqs),
          length (filter (\<lambda>r. ds_status r = ''in_progress'') open_reqs),
          length (filter (overdue now) open_reqs)))"

section \<open>Endpoints\<close>

definition create_dsr :: "bool \<Rightarrow> bool \<Rightarrow> nat \<Rightarrow> string \<Rightarrow> string \<Rightarrow> string \<Rightarrow> string \<Rightarrow> string \<Rightarrow> nat \<Rightarrow> dsrs \<Rightarrow> (dsr \<times> dsrs) res" where
  "create_dsr db fails sla_days rid tenant type email notes now s = create db fails sla_days rid tenant type email notes now s"

definition list_dsrs ::
  "bool \<Rightarrow> bool \<Rightarrow> bool \<Rightarrow> string \<Rightarrow> string option \<Rightarrow> bool \<Rightarrow> nat \<Rightarrow> nat \<Rightarrow> dsrs \<Rightarrow> dsr list \<times> nat \<times> nat \<times> nat \<times> nat" where
  "list_dsrs db fails fails' tenant status overdue_only limit now s =
     (let rs = list_requests db fails tenant (if status = Some [] then None else status) overdue_only limit now s
      in (rs, length rs, pending_count db fails' tenant now s))"

definition update_dsr ::
  "bool \<Rightarrow> bool \<Rightarrow> bool \<Rightarrow> bool \<Rightarrow> string \<Rightarrow> string \<Rightarrow> string \<Rightarrow> string \<Rightarrow> nat \<Rightarrow> dsrs \<Rightarrow> dsr res \<times> dsrs" where
  "update_dsr db f1 f2 f3 tenant rid status notes now s =
     (case get_dsr db f1 rid s of
        None \<Rightarrow> (Inl (HttpError 404 ''DSR not found''), s)
      | Some r \<Rightarrow>
          if ds_tenant r \<noteq> tenant then (Inl (HttpError 403 ''other tenant''), s)
          else (case update_status db f2 f3 rid status notes now s of
              Inl e \<Rightarrow> (Inl e, s)
            | Inr (None, s') \<Rightarrow> (Inl (HttpError 404 ''DSR not found''), s')
            | Inr (Some r', s') \<Rightarrow> (Inr r', s')))"

section \<open>Facts\<close>

text \<open>Well-formed stores: the key of a request is its id.\<close>

definition dsrs_ok :: "dsrs \<Rightarrow> bool" where
  "dsrs_ok s \<longleftrightarrow> wf_dict s \<and> (\<forall>(k, r) \<in> set s. ds_id r = k)"

lemma sort_desc_filter: "sort_desc f (filter P xs) = filter P (sort_desc f xs)"
  unfolding sort_desc_def rev_filter [symmetric] filter_sort by (simp add: rev_filter)

end
