(* ===== verification/Backup.thy ===== *)
theory Backup
  imports Jobs Permissions
begin

text \<open>
  The tenant backup: the stream of \<open>engramia/governance/backup.py\<close> over the tables of
  \<open>engramia/db/models.py\<close>, and the download endpoint of \<open>engramia/api/governance.py\<close> with its
  limit of one success a day. A row is a list of columns and their texts.
\<close>

type_synonym sql_row = "(string, string option) dict"
type_synonym sql_db = "(string, sql_row list) dict"

section \<open>Tables\<close>

definition TABLE_COLUMNS :: "(string, string list) dict" where
  "TABLE_COLUMNS =
     [(''memory_data'', [''key'', ''tenant_id'', ''project_id'', ''data'', ''updated_at'', ''classification'', ''source'',
        ''run_id'', ''author'', ''redacted'', ''expires_at'']),
      (''memory_embeddings'', [''key'', ''tenant_id'', ''project_id'', ''embedding'']),
      (''tenants'', [''id'', ''name'', ''plan_tier'', ''created_at'', ''retention_days'', ''deleted_at'']),
      (''projects'', [''id'', ''tenant_id'', ''name'', ''max_patterns'', ''created_at'', ''retention_days'',
        ''default_classification'', ''redaction_enabled'', ''deleted_at'']),
      (''api_keys'', [''id'', ''tenant_id'', ''project_id'', ''name'', ''key_prefix'', ''key_hash'', ''role'', ''max_patterns'',
        ''created_at'', ''last_used_at'', ''revoked_at'', ''expires_at'']),
      (''audit_log'', [''id'', ''tenant_id'', ''project_id'', ''key_id'', ''actor_user_id'', ''action'', ''resource_type'',
        ''resource_id'', ''ip_address'', ''created_at'', ''detail'']),
      (''jobs'', [''id'', ''tenant_id'', ''project_id'', ''key_id'', ''request_id'', ''operation'', ''params'', ''status'',
        ''result'', ''error'', ''attempts'', ''max_attempts'', ''created_at'', ''scheduled_at'', ''started_at'',
        ''completed_at'', ''expires_at'', ''max_execution_seconds''])]"

definition cell :: "string \<Rightarrow> sql_row \<Rightarrow> string option" where
  "cell c r = (case dget r c of None \<Rightarrow> None | Some v \<Rightarrow> v)"

text \<open>
  A SELECT: an unknown table or column is an error before any row. A fault of the database
  after n rows is given for a table in \<open>faults\<close>; the error then follows those rows.
\<close>

definition sql_select ::
  "(string, nat) dict \<Rightarrow> sql_db \<Rightarrow> string \<Rightarrow> string list \<Rightarrow> string list \<Rightarrow> (sql_row \<Rightarrow> bool) \<Rightarrow> sql_row list \<times> string option" where
  "sql_select faults db table cols used P =
     (case dget TABLE_COLUMNS table of
        None \<Rightarrow> ([], Some ''undefined table'')
      | Some cs \<Rightarrow>
          if \<not> list_all (\<lambda>c. c \<in> set cs) (cols @ used) then ([], Some ''undefined column'')
          else (let rows = map (\<lambda>r. map (\<lambda>c. (c, cell c r)) cols)
                  (filter P (case dget db table of None \<Rightarrow> [] | Some rs \<Rightarrow> rs)) in
                case dget faults table of None \<Rightarrow> (rows, None) | Some n \<Rightarrow> (take n rows, Some ''database'')))"

record backup_table =
  bt_table :: string
  bt_columns :: "string list"
  bt_used :: "string list"
  bt_where :: "string \<Rightarrow> nat \<Rightarrow> sql_row \<Rightarrow> bool"

definition of_tenant :: "string \<Rightarrow> nat \<Rightarrow> sql_row \<Rightarrow> bool" where
  "of_tenant t now r \<longleftrightarrow> cell ''tenant_id'' r = Some t"

definition BACKUP_TABLES :: "backup_table list" where
  "BACKUP_TABLES =
     [\<lparr>bt_table = ''memory_data'', bt_columns = [''tenant_id'', ''project_id'', ''key'', ''value'', ''classification'',
         ''source'', ''run_id'', ''author'', ''redacted'', ''expires_at'', ''created_at''],
        bt_used = [''tenant_id''], bt_where = of_tenant\<rparr>,
      \<lparr>bt_table = ''memory_embeddings'', bt_columns = [''tenant_id'', ''project_id'', ''key'', ''embedding''],
        bt_used = [''tenant_id''], bt_where = of_tenant\<rparr>,
      \<lparr>bt_table = ''analytics_events'', bt_columns = [''tenant_id'', ''project_id'', ''kind'', ''ts'', ''payload'', ''eval_score''],
        bt_used = [''tenant_id''], bt_where = of_tenant\<rparr>,
      \<lparr>bt_table = ''analytics_rollups'', bt_columns = [''tenant_id'', ''project_id'', ''window'', ''period_start'', ''learn_total'',
         ''learn_avg_eval'', ''learn_p50_eval'', ''learn_p90_eval'', ''recall_total'', ''recall_duplicate_hits'',
         ''recall_adapt_hits'', ''recall_fresh_misses'', ''recall_avg_similarity'', ''roi_score''],
        bt_used = [''tenant_id''], bt_where = of_tenant\<rparr>,
      \<lparr>bt_table = ''jobs'', bt_columns = [''id'', ''tenant_id'', ''project_id'', ''operation'', ''status'', ''payload'', ''result'',
         ''error'', ''attempts'', ''max_attempts'', ''max_execution_seconds'', ''submitted_at'', ''started_at'', ''completed_at''],
        bt_used = [''tenant_id'', ''submitted_at''],
        bt_where = (\<lambda>t now r. of_tenant t now r \<and> (case cell ''submitted_at'' r of None \<Rightarrow> False
          | Some w \<Rightarrow> iso_z (now - 30 * 86400) < w))\<rparr>,
      \<lparr>bt_table = ''projects'', bt_columns = [''id'', ''tenant_id'', ''name'', ''retention_days'', ''created_at'', ''deleted_at''],
        bt_used = [''tenant_id'', ''deleted_at''], bt_where = (\<lambda>t now r. of_tenant t now r \<and> cell ''deleted_at'' r = None)\<rparr>,
      \<lparr>bt_table = ''tenants'', bt_columns = [''id'', ''name'', ''plan_tier'', ''retention_days'', ''created_at''],
        bt_used = [''id''], bt_where = (\<lambda>t now r. cell ''id'' r = Some t)\<rparr>]"

section \<open>The stream\<close>

datatype line =
    Header string "string list"
  | Row string sql_row
  | Failure string string
  | Footer nat "(string \<times> nat) list"

text \<open>The lines of one table and the number of its rows.\<close>

definition table_lines :: "(string, nat) dict \<Rightarrow> sql_db \<Rightarrow> string \<Rightarrow> nat \<Rightarrow> backup_table \<Rightarrow> line list \<times> nat" where
  "table_lines faults db t now b =
     (let (rows, err) = sql_select faults db (bt_table b) (bt_columns b) (bt_used b) (bt_where b t now)
      in (map (Row (bt_table b)) rows @ (case err of None \<Rightarrow> [] | Some e \<Rightarrow> [Failure (bt_table b) e]), length rows))"

definition backup_stream :: "(string, nat) dict \<Rightarrow> sql_db \<Rightarrow> string \<Rightarrow> nat \<Rightarrow> line list" where
  "backup_stream faults db t now =
     (let parts = map (\<lambda>b. (bt_table b, table_lines faults db t now b)) BACKUP_TABLES
      in Header t (map bt_table BACKUP_TABLES)
         # concat (map (\<lambda>(n, ls, k). ls) parts)
         @ [Footer (sum_list (map (\<lambda>(n, ls, k). k) parts)) (map (\<lambda>(n, ls, k). (n, k)) parts)])"

section \<open>The endpoint\<close>

record backup_log =
  bl_tenant :: string
  bl_status :: string
  bl_at :: nat
  bl_tables :: nat

definition last_success :: "string \<Rightarrow> backup_log list \<Rightarrow> nat option" where
  "last_success t rows =
     (case sort_desc bl_at (filter (\<lambda>r. bl_tenant r = t \<and> bl_status r = ''success'') rows) of
        [] \<Rightarrow> None | r # rs \<Rightarrow> Some (bl_at r))"

definition BACKUP_WINDOW :: nat where "BACKUP_WINDOW = 24 * 3600"

text \<open>The checks before the stream: the role and tenant of the caller, the tier of the tenant, the last success.\<close>

definition backup_gate ::
  "(string \<times> string) option \<Rightarrow> bool \<Rightarrow> string option \<Rightarrow> bool \<Rightarrow> nat \<Rightarrow> backup_log list \<Rightarrow> string res" where
  "backup_gate ctx engine tier lookup_fails now rows =
     (case ctx of
        None \<Rightarrow> Inl (HttpError 401 ''Authentication required'')
      | Some (role, t) \<Rightarrow>
          bind_res (require_permission (Some role) ''governance:backup_download'') (\<lambda>_.
          if \<not> engine then Inl (HttpError 503 ''Backup download requires DB-backed storage'')
          else if tier \<in> {Some ''developer'', Some ''sandbox'', Some ''pro''} then Inl (HttpError 402 ''TIER_UPGRADE_REQUIRED'')
          else (case (if lookup_fails then None else last_success t rows) of
              None \<Rightarrow> Inr t
            | Some w \<Rightarrow> if now < w + BACKUP_WINDOW then Inl (HttpError 429 ''BACKUP_RATE_LIMITED'') else Inr t)))"

text \<open>
  The download. The client takes all lines (\<open>taken\<close> None) or goes away with the n-th: the
  generator is then closed at that line, which no \<open>except\<close> clause catches, and the log row is
  written with the status it had at the start. The row is dated with the end of the stream.
\<close>

definition backup_download ::
  "(string \<times> string) option \<Rightarrow> bool \<Rightarrow> string option \<Rightarrow> bool \<Rightarrow> (string, nat) dict \<Rightarrow> sql_db \<Rightarrow> nat option \<Rightarrow> bool
   \<Rightarrow> nat \<Rightarrow> nat \<Rightarrow> backup_log list \<Rightarrow> line list res \<times> backup_log list" where
  "backup_download ctx engine tier lookup_fails faults db taken write_fails now fin rows =
     (case backup_gate ctx engine tier lookup_fails now rows of
        Inl e \<Rightarrow> (Inl e, rows)
      | Inr t \<Rightarrow>
          (let ls = backup_stream faults db t now;
               out = (case taken of None \<Rightarrow> ls | Some n \<Rightarrow> take n ls);
               counts = (case rev out of Footer k cs # _ \<Rightarrow> length cs | _ \<Rightarrow> 0);
               row = \<lparr>bl_tenant = t, bl_status = (if taken = None then ''success'' else ''in_progress''), bl_at = fin,
                      bl_tables = counts\<rparr>
           in (Inr out, if write_fails then rows else rows @ [row])))"

end
