(* ===== verification/StoreInvariant.thy ===== *)
theory StoreInvariant
  imports MemoryFacade EvalFeedback PgStorage
begin

text \<open>
  Invariants of a storage backend's state that every operation of the facade keeps. An
  interpretation proves that the five writing primitives keep the predicate \<open>P\<close>, where
  \<open>M\<close> says which governance metadata is written; the lemmas carry it through learning,
  recalling, refining, importing, aging, decaying and deleting, in whatever way they end.
\<close>

definition ok_res :: "('a \<Rightarrow> bool) \<Rightarrow> 'a res \<Rightarrow> bool" where
  "ok_res Q r \<longleftrightarrow> (case r of Inl e \<Rightarrow> True | Inr x \<Rightarrow> Q x)"

lemma ok_res_simps [simp]: "ok_res Q (Inl e)" "ok_res Q (Inr x) = Q x"
  by (simp_all add: ok_res_def)

lemma ok_resD: "ok_res Q r \<Longrightarrow> r = Inr x \<Longrightarrow> Q x"
  by simp

lemma ok_resI: "(\<And>x. r = Inr x \<Longrightarrow> Q x) \<Longrightarrow> ok_res Q r"
  by (cases r) auto

lemma ok_bind: "(\<And>a. m = Inr a \<Longrightarrow> ok_res Q (f a)) \<Longrightarrow> ok_res Q (bind_res m f)"
  by (cases m) auto

locale store_invariant =
  fixes B :: "'s backend"
    and P :: "'s \<Rightarrow> bool"
    and M :: "pattern_meta \<Rightarrow> bool"
  assumes save: "P s \<Longrightarrow> be_save B sc s k d = Inr s' \<Longrightarrow> P s'"
    and delete: "P s \<Longrightarrow> be_delete B sc s k = Inr s' \<Longrightarrow> P s'"
    and embed: "P s \<Longrightarrow> be_save_embedding B sc s k v = Inr s' \<Longrightarrow> P s'"
    and search: "P s \<Longrightarrow> be_search B sc s v n p = Inr (rs, s') \<Longrightarrow> P s'"
    and meta: "P s \<Longrightarrow> M m \<Longrightarrow> P (be_save_meta B sc s k m)"
begin

lemmas saved = save [rotated] and deleted = delete [rotated] and embedded = embed [rotated] and searched = search [rotated]

lemma ok_write: "P s \<Longrightarrow> ok_res P (be_save B sc s k d)" "P s \<Longrightarrow> ok_res P (be_delete B sc s k)"
  "P s \<Longrightarrow> ok_res P (be_save_embedding B sc s k v)"
  by (blast intro: ok_resI save delete embed)+

lemma save_eval: "P s \<Longrightarrow> save_eval B st sc s e t p = Inr s' \<Longrightarrow> P s'"
  by (auto simp: save_eval_def bind_res_eq_Inr split: prod.splits dest: saved)

lemma ok_eval: "P s \<Longrightarrow> ok_res P (save_eval B st sc s e t p)"
  by (blast intro: ok_resI save_eval)

lemma record_run: "P s \<Longrightarrow> record_run B sc s r = Inr s' \<Longrightarrow> P s'"
  by (auto simp: record_run_def bind_res_eq_Inr dest: saved)

lemma append_event: "P s \<Longrightarrow> append_event B sc s e = Inr s' \<Longrightarrow> P s'"
  by (auto simp: append_event_def bind_res_eq_Inr dest: saved)

lemma swallow: "P s \<Longrightarrow> (\<And>s'. r = Inr s' \<Longrightarrow> P s') \<Longrightarrow> P (swallow s r)"
  by (simp add: swallow_def split: sum.split)

lemma roi_learn: "P s \<Longrightarrow> P (roi_record_learn B now sc s k x)"
  by (auto simp: roi_record_learn_def intro!: swallow dest: append_event)

lemma roi_recall: "P s \<Longrightarrow> P (roi_record_recall B now sc s sim tier k)"
  by (auto simp: roi_record_recall_def intro!: swallow dest: append_event)

lemma save_vector: "P s \<Longrightarrow> save_vector B emb sc s k t = Inr s' \<Longrightarrow> P s'"
  by (auto simp: save_vector_def bind_res_eq_Inr split: option.splits dest: embedded)

lemma step: "ok_res P r \<Longrightarrow> (\<And>s1. P s1 \<Longrightarrow> P (snd (k s1))) \<Longrightarrow> P s \<Longrightarrow> P (snd (step s r k))"
  by (cases r) (simp_all add: step_def)

lemma ok_vector: "P s \<Longrightarrow> ok_res P (save_vector B emb sc s k t)"
  by (blast intro: ok_resI save_vector)

lemma ok_run: "P s \<Longrightarrow> ok_res P (record_run B sc s r)"
  by (blast intro: ok_resI record_run)

lemma store_pattern: "P s \<Longrightarrow> M (learned_meta red a) \<Longrightarrow> P (snd (store_pattern B st emb red now sc s a key))"
  by (auto simp: store_pattern_def Let_def intro!: step meta ok_write ok_vector ok_eval ok_run roi_learn)

lemma learn: "P s \<Longrightarrow> M (learned_meta red a) \<Longrightarrow> P (snd (learn B st emb red now fresh sc s a))"
  by (simp add: learn_def Let_def store_pattern split: sum.split option.split)

lemma mem_learn: "P s \<Longrightarrow> M (learned_meta red a) \<Longrightarrow> P (snd (mem_learn B st emb red now fresh sc s a))"
  by (simp add: mem_learn_def learn split: sum.split)

lemma matcher_find: "P s \<Longrightarrow> P (snd (matcher_find B st emb now sc s task limit fetch))"
  by (auto simp: matcher_find_def bind_res_eq_Inr split: option.split sum.split prod.split dest: searched)

lemma semantic_matches: "P s \<Longrightarrow> P (snd (semantic_matches B st emb now sc s a))"
  by (auto simp: semantic_matches_def bind_res_eq_Inr matcher_find split: option.split sum.split prod.split dest: searched)

lemma find_matches: "P s \<Longrightarrow> P (snd (find_matches B st emb now sc s a))"
  using semantic_matches [of s st emb now sc a] by (auto simp: find_matches_def split: prod.split sum.split)

lemma mark_reused: "P s \<Longrightarrow> mark_reused B now sc s k = Inr s' \<Longrightarrow> P s'"
  by (drule ok_resD [rotated, where Q = P])
    (auto simp: mark_reused_def intro!: ok_bind ok_write split: option.split doc.split)

lemma mark_all: "P s \<Longrightarrow> P (snd (mark_all B now sc s ms))"
  by (induction ms arbitrary: s) (auto split: sum.split dest: mark_reused)

lemma recall_event: "P s \<Longrightarrow> P (record_recall_event B now sc s ms)"
  by (simp add: record_recall_event_def roi_recall split: list.split)

lemma recall: "P s \<Longrightarrow> P (snd (recall B st emb now sc s a))"
proof -
  assume "P s"
  obtain r s1 where f: "find_matches B st emb now sc s a = (r, s1)" by fastforce
  have "P s1" using find_matches [OF \<open>P s\<close>, of st emb now sc a] by (simp add: f)
  then have "P (snd (mark_all B now sc s1 ms))" for ms by (rule mark_all)
  with \<open>P s1\<close> show ?thesis
    by (auto simp: recall_def f Let_def recall_event split: sum.split prod.split) (metis snd_conv recall_event)+
qed

lemma mem_recall: "P s \<Longrightarrow> P (snd (mem_recall B st emb now sc s task n dd w x y ro))"
  by (simp add: mem_recall_def recall split: sum.split)

lemma refine_pattern: "P s \<Longrightarrow> refine_pattern B st now sc s k x t fb = Inr s' \<Longrightarrow> P s'"
  unfolding refine_pattern_def
  by (erule ok_resD [rotated]) (auto intro!: ok_bind ok_eval split: option.split)

lemma delete_pattern: "P s \<Longrightarrow> delete_pattern B sc s k = Inr (b, s') \<Longrightarrow> P s'"
  by (auto simp: delete_pattern_def bind_res_eq_Inr split: if_splits option.splits dest: deleted)

lemma reembed: "P s \<Longrightarrow> P (reembed B emb sc s k d)"
  by (auto simp: reembed_def split: option.split sum.split dest: save_vector)

lemma import_one: "P s \<Longrightarrow> import_one B emb sc ow s r = Inr (b, s') \<Longrightarrow> P s'"
  by (auto simp: import_one_def bind_res_eq_Inr split: if_splits option.splits doc.splits intro: reembed dest: saved)

lemma import_all: "P s \<Longrightarrow> P (snd (import_all B emb sc ow s rs n))"
proof (induction rs arbitrary: s n)
  case (Cons r rs)
  then show ?case by (cases "import_one B emb sc ow s r") (auto dest: import_one)
qed simp

lemma import_data: "P s \<Longrightarrow> P (snd (import_data B emb sc s rs ow))"
  by (simp add: import_data_def import_all)

lemma ok_age: "P s \<Longrightarrow> ok_res (\<lambda>(n, s'). P s') (age_one B now sc s k)"
  by (auto simp: age_one_def intro!: ok_bind split: option.split doc.split; erule (1) saved deleted)

lemma age_one: "P s \<Longrightarrow> age_one B now sc s k = Inr (n, s') \<Longrightarrow> P s'"
  using ok_age [of s now sc k] by simp

lemma age_all: "P s \<Longrightarrow> P (snd (age_all B now sc s ks n))"
proof (induction ks arbitrary: s n)
  case (Cons k ks)
  then show ?case by (cases "age_one B now sc s k") (auto dest: age_one)
qed simp

lemma run_aging: "P s \<Longrightarrow> P (snd (run_aging B now sc s))"
  by (simp add: run_aging_def age_all split: sum.split)

lemma record_feedback: "P s \<Longrightarrow> record_feedback B now sc s fb = Inr s' \<Longrightarrow> P s'"
  by (auto simp: record_feedback_def bind_res_eq_Inr split: if_splits dest: saved)

lemma run_decay: "P s \<Longrightarrow> run_decay B now sc s = Inr (n, s') \<Longrightarrow> P s'"
  by (auto simp: run_decay_def Let_def bind_res_eq_Inr split: if_splits dest: saved)

lemma register: "P s \<Longrightarrow> register B sc s k sk = Inr s' \<Longrightarrow> P s'"
  by (auto simp: register_def bind_res_eq_Inr split: if_splits dest: saved)

lemma delete_all: "P s \<Longrightarrow> delete_all B sc s ks = Inr s' \<Longrightarrow> P s'"
  by (induction ks arbitrary: s) (auto simp: bind_res_eq_Inr dest: deleted)

end

end
