(* ===== verification/GovernanceProps.thy ===== *)
theory GovernanceProps
  imports StoreProps Retention Export Dsr Backup StoreInvariant
begin

text \<open>
  Properties of data governance: what a retention run deletes, what the audit log loses, what a
  filtered export and a backup hold, and what the list of data subject requests hides.
\<close>

section \<open>Retention on PostgreSQL\<close>

text \<open>No row has an expiry time.\<close>

definition no_expiry :: "pg_store \<Rightarrow> bool" where
  "no_expiry s \<longleftrightarrow> (\<forall>rk r. (rk, r) \<in> set (pg_data s) \<longrightarrow> row_expires_at r = None)"

lemma in_set_update: "(k', v') \<in> set (AList.update k v xs) \<Longrightarrow> (k', v') = (k, v) \<or> (k', v') \<in> set xs"
  by (induction xs) (auto split: if_splits)

lemma no_expiry_put: "no_expiry s \<Longrightarrow> row_expires_at r = None \<Longrightarrow> no_expiry (s\<lparr>pg_data := dput rk r (pg_data s)\<rparr>)"
  by (auto simp: no_expiry_def dest!: in_set_update)

lemma no_expiry_get: "no_expiry s \<Longrightarrow> dget (pg_data s) rk = Some r \<Longrightarrow> row_expires_at r = None"
  unfolding no_expiry_def by (blast dest: map_of_SomeD)

interpretation unexpiring: store_invariant "pg_backend edim cdist" no_expiry "\<lambda>m. pm_expires_at m = None"
  for edim cdist
proof (unfold_locales, goal_cases)
  case (1 s sc k d s')
  then show ?case
    by (auto simp: pg_backend_def pg_save_def Let_def new_row_def no_expiry_get
        intro!: no_expiry_put split: option.splits)
next
  case (2 s sc k s')
  then show ?case by (auto simp: pg_backend_def pg_delete_def no_expiry_def AList.delete_eq)
next
  case (3 s sc k v s')
  then show ?case by (auto simp: pg_backend_def pg_save_embedding_def no_expiry_def split: if_splits)
next
  case (4 s sc v n p rs s')
  then show ?case by (auto simp: pg_backend_def pg_search_def split: if_splits)
next
  case (5 s m sc k)
  then show ?case
    by (auto simp: pg_backend_def pg_save_pattern_meta_def update_row_def keep_or_def no_expiry_get
        intro!: no_expiry_put split: option.split)
qed

lemma learned_meta_expiry [simp]: "pm_expires_at (learned_meta red a) = None"
  by (simp add: learned_meta_def)

lemma classify_unexpiring:
  "no_expiry s \<Longrightarrow> no_expiry (snd (classify_pattern (pg_backend edim cdist) sc s key cls))"
  by (auto simp: classify_pattern_def intro!: unexpiring.meta split: sum.split option.split)

lemma purge_keys_unexpiring: "no_expiry s \<Longrightarrow> no_expiry (snd (purge_keys (pg_backend edim cdist) sc s ks))"
  by (induction ks arbitrary: s) (auto split: sum.split dest: unexpiring.deleted)

lemma apply_unexpiring: "no_expiry s \<Longrightarrow> no_expiry (snd (apply_postgres (pg_backend edim cdist) sc t s dry))"
  using purge_keys_unexpiring [of s edim cdist sc "expired_rows sc (iso_z t) s"]
  by (auto simp: apply_postgres_def purge_def split: sum.split prod.split)

lemma scan_unexpiring: "no_expiry s \<Longrightarrow> no_expiry (snd (apply_storage_scan (pg_backend edim cdist) def eng sc now s dry))"
  using purge_keys_unexpiring [of s edim cdist sc]
  by (auto simp: apply_storage_scan_def purge_def split: sum.split prod.split) (metis snd_conv)+

lemma retention_unexpiring: "no_expiry s \<Longrightarrow> no_expiry (snd (pg_retention_apply (pg_backend edim cdist) def eng sc t s dry))"
  using scan_unexpiring [of s edim cdist def None sc "real t" dry] apply_unexpiring [of s edim cdist sc t dry]
  by (simp add: pg_retention_apply_def split: option.split sum.split)

lemma delete_scope_unexpiring: "no_expiry s \<Longrightarrow> pg_delete_scope s t p = Inr (n, s') \<Longrightarrow> no_expiry s'"
  by (auto simp: pg_delete_scope_def no_expiry_def)

text \<open>
  The states of a PostgreSQL store that the facade and the governance endpoints produce, with
  whatever providers, clocks, scopes and arguments.
\<close>

inductive pg_used :: "nat \<Rightarrow> (real list \<Rightarrow> real list \<Rightarrow> real) \<Rightarrow> pg_store \<Rightarrow> bool" for edim cdist where
  empty: "pg_used edim cdist \<lparr>pg_data = [], pg_emb = []\<rparr>"
| learn: "pg_used edim cdist s \<Longrightarrow> pg_used edim cdist (snd (mem_learn (pg_backend edim cdist) st emb red now fresh sc s a))"
| recall: "pg_used edim cdist s \<Longrightarrow>
    pg_used edim cdist (snd (mem_recall (pg_backend edim cdist) st emb now sc s task n dd w x y ro))"
| refine: "pg_used edim cdist s \<Longrightarrow> refine_pattern (pg_backend edim cdist) st now sc s key x t fb = Inr s' \<Longrightarrow> pg_used edim cdist s'"
| remove: "pg_used edim cdist s \<Longrightarrow> delete_pattern (pg_backend edim cdist) sc s key = Inr (b, s') \<Longrightarrow> pg_used edim cdist s'"
| restore: "pg_used edim cdist s \<Longrightarrow> pg_used edim cdist (snd (import_data (pg_backend edim cdist) emb sc s rs ow))"
| aging: "pg_used edim cdist s \<Longrightarrow> pg_used edim cdist (snd (run_aging (pg_backend edim cdist) now sc s))"
| feedback: "pg_used edim cdist s \<Longrightarrow> record_feedback (pg_backend edim cdist) now sc s fb = Inr s' \<Longrightarrow> pg_used edim cdist s'"
| decay: "pg_used edim cdist s \<Longrightarrow> run_decay (pg_backend edim cdist) now sc s = Inr (m, s') \<Longrightarrow> pg_used edim cdist s'"
| skills: "pg_used edim cdist s \<Longrightarrow> register (pg_backend edim cdist) sc s key sk = Inr s' \<Longrightarrow> pg_used edim cdist s'"
| classify: "pg_used edim cdist s \<Longrightarrow> pg_used edim cdist (snd (classify_pattern (pg_backend edim cdist) sc s key cls))"
| erase: "pg_used edim cdist s \<Longrightarrow> pg_delete_scope s tn p = Inr (m, s') \<Longrightarrow> pg_used edim cdist s'"
| retention: "pg_used edim cdist s \<Longrightarrow>
    pg_used edim cdist (snd (pg_retention_apply (pg_backend edim cdist) def eng sc t s dry))"

lemma used_unexpiring: "pg_used edim cdist s \<Longrightarrow> no_expiry s"
proof (induction rule: pg_used.induct)
  case empty
  show ?case by (simp add: no_expiry_def)
next
  case learn
  then show ?case by (intro unexpiring.mem_learn learned_meta_expiry)
next
  case recall
  then show ?case by (intro unexpiring.mem_recall)
next
  case refine
  then show ?case by (blast intro: unexpiring.refine_pattern)
next
  case remove
  then show ?case by (blast intro: unexpiring.delete_pattern)
next
  case restore
  then show ?case by (intro unexpiring.import_data)
next
  case aging
  then show ?case by (intro unexpiring.run_aging)
next
  case feedback
  then show ?case by (blast intro: unexpiring.record_feedback)
next
  case decay
  then show ?case by (blast intro: unexpiring.run_decay)
next
  case skills
  then show ?case by (blast intro: unexpiring.register)
next
  case classify
  then show ?case by (intro classify_unexpiring)
next
  case erase
  then show ?case by (blast intro: delete_scope_unexpiring)
next
  case retention
  then show ?case by (intro retention_unexpiring)
qed

section \<open>Retention on JSON storage\<close>

definition stamped_before :: "real \<Rightarrow> doc option \<Rightarrow> bool" where
  "stamped_before cutoff d \<longleftrightarrow> (\<exists>x ts. d = Some x \<and> doc_stamp x = Inr ts \<and> 0 < ts \<and> ts < cutoff)"

definition stamps_ok :: "doc option \<Rightarrow> bool" where
  "stamps_ok d \<longleftrightarrow> (\<forall>x. d = Some x \<longrightarrow> (\<exists>ts. doc_stamp x = Inr ts))"

lemma purge_keys_all: "delete_all B sc s ks = Inr s' \<Longrightarrow> purge_keys B sc s ks = (Inr (), s')"
  by (induction ks arbitrary: s) (auto simp: bind_res_eq_Inr)

context storage
begin

lemma scan_expired_ok:
  assumes "wf s" and "okscope sc" and "\<forall>k \<in> set ks. good k \<and> stamps_ok (val s (loc sc k))"
  shows "scan_expired B sc s cutoff ks = Inr (filter (\<lambda>k. stamped_before cutoff (val s (loc sc k))) ks)"
  using assms(3)
proof (induction ks)
  case (Cons k ks)
  have "be_load B sc s k = Inr (val s (loc sc k))" using assms(1,2) Cons.prems by (intro load_law) auto
  then show ?case using Cons by (auto simp: stamps_ok_def stamped_before_def split: option.split)
qed simp

lemma retention_scan:
  fixes days def eng sc now
  defines "cutoff \<equiv> now - real_of_int (get_policy def eng (sc_tenant sc) (sc_project sc)) * 86400"
  assumes "wf s" and "okscope sc"
    and "\<forall>k. prefix PATTERNS_PREFIX k \<and> plain k \<longrightarrow> stamps_ok (val s (loc sc k))"
  shows "\<exists>ks s'. apply_storage_scan B def eng sc now s True = (Inr \<lparr>pu_count = length ks, pu_dry = True, pu_keys = ks\<rparr>, s) \<and>
    apply_storage_scan B def eng sc now s False = (Inr \<lparr>pu_count = length ks, pu_dry = False, pu_keys = ks\<rparr>, s') \<and>
    wf s' \<and> distinct ks \<and> set ks = {k. prefix PATTERNS_PREFIX k \<and> plain k \<and> stamped_before cutoff (val s (loc sc k))} \<and>
    val s' = (\<lambda>l. if l \<in> loc sc ` set ks then None else val s l)"
proof -
  obtain ks where ks: "be_list_keys B sc s PATTERNS_PREFIX = Inr ks" "distinct ks"
    "set ks = {k. prefix PATTERNS_PREFIX k \<and> plain k \<and> val s (loc sc k) \<noteq> None}"
    by (rule list_keys_ok [OF assms(2,3)])
  let ?old = "filter (\<lambda>k. stamped_before cutoff (val s (loc sc k))) ks"
  have scan: "scan_expired B sc s cutoff ks = Inr ?old"
    using ks(3) assms(4) by (intro scan_expired_ok [OF assms(2,3)]) (auto intro: plain_good)
  have "\<forall>k \<in> set ?old. good k" using ks(3) by (auto intro: plain_good)
  then obtain s' where s': "delete_all B sc s ?old = Inr s'" "wf s'"
    "val s' = (\<lambda>l. if l \<in> loc sc ` set ?old then None else val s l)"
    using delete_all_ok [OF assms(2,3)] by blast
  have "set ?old = {k. prefix PATTERNS_PREFIX k \<and> plain k \<and> stamped_before cutoff (val s (loc sc k))}"
    using ks(3) by (auto simp: stamped_before_def)
  moreover have "apply_storage_scan B def eng sc now s dry = purge B sc s ?old dry" for dry
    using scan by (simp add: apply_storage_scan_def ks(1) cutoff_def [symmetric])
  ultimately show ?thesis using s' ks(2)
    by (intro exI [of _ ?old] exI [of _ s']) (simp add: purge_def purge_keys_all)
qed

end

text \<open>C31. On PostgreSQL a retention run of a process that has a database engine deletes nothing,
  whatever the policies of the project and the tenant and however old the patterns are: it looks
  at the expiry column, and no operation that stores, imports, reuses, ages or classifies a
  pattern ever writes it. A process without one, because its keys come from the environment
  (ENGRAMIA_AUTH_MODE=env), ignores the policies and that column: on the very same store it
  deletes exactly the patterns of the scope that are older than the default number of days.\<close>

theorem retention_deletes_nothing_on_postgres:
  assumes "pg_used edim cdist s"
  shows "pg_retention_apply (pg_backend edim cdist) def (Some (Inr pol)) sc now s False =
      (Inr \<lparr>pu_count = 0, pu_dry = False, pu_keys = []\<rparr>, s) \<and>
    (pg_wf s \<longrightarrow> (\<forall>k. prefix PATTERNS_PREFIX k \<longrightarrow> stamps_ok (pg_val s (row_key sc k))) \<longrightarrow>
      (\<exists>ks s'. pg_retention_apply (pg_backend edim cdist) def None sc now s False =
          (Inr \<lparr>pu_count = length ks, pu_dry = False, pu_keys = ks\<rparr>, s') \<and>
        set ks = {k. prefix PATTERNS_PREFIX k \<and> stamped_before (real now - real_of_int def * 86400) (pg_val s (row_key sc k))} \<and>
        pg_val s' = (\<lambda>l. if l \<in> row_key sc ` set ks then None else pg_val s l)))"
proof (intro conjI impI)
  have "expired_rows sc (iso_z now) s = []"
    using used_unexpiring [OF assms] by (auto simp: expired_rows_def no_expiry_def filter_empty_conv split: option.split)
  then show "pg_retention_apply (pg_backend edim cdist) def (Some (Inr pol)) sc now s False =
      (Inr \<lparr>pu_count = 0, pu_dry = False, pu_keys = []\<rparr>, s)"
    by (simp add: pg_retention_apply_def apply_postgres_def purge_def)
next
  assume "pg_wf s" and "\<forall>k. prefix PATTERNS_PREFIX k \<longrightarrow> stamps_ok (pg_val s (row_key sc k))"
  then show "\<exists>ks s'. pg_retention_apply (pg_backend edim cdist) def None sc now s False =
        (Inr \<lparr>pu_count = length ks, pu_dry = False, pu_keys = ks\<rparr>, s') \<and>
      set ks = {k. prefix PATTERNS_PREFIX k \<and> stamped_before (real now - real_of_int def * 86400) (pg_val s (row_key sc k))} \<and>
      pg_val s' = (\<lambda>l. if l \<in> row_key sc ` set ks then None else pg_val s l)"
    using pg.retention_scan [where s = s and sc = sc and now = "real now" and def = def and eng = None and edim = edim and cdist = cdist]
    by (auto simp: pg_retention_apply_def get_policy_def)
qed

text \<open>C32. On JSON storage a retention run deletes exactly the patterns of the scope whose timestamp is
  older than the days of the policy (the project's, else the tenant's, else 365), a dry run
  announces exactly those and changes nothing, and no other document of any scope changes.\<close>

theorem json_retention_exact:
  fixes def eng sc now
  defines "cutoff \<equiv> real now - real_of_int (get_policy def eng (sc_tenant sc) (sc_project sc)) * 86400"
  assumes "json_wf s" and "json_scope_ok sc"
    and "\<forall>k. prefix PATTERNS_PREFIX k \<and> json_plain k \<longrightarrow> stamps_ok (json_val s (json_loc sc k))"
  shows "\<exists>ks s'. json_retention_apply (json_backend dot norm2) def eng sc now s True =
      (Inr \<lparr>pu_count = length ks, pu_dry = True, pu_keys = ks\<rparr>, s) \<and>
    json_retention_apply (json_backend dot norm2) def eng sc now s False =
      (Inr \<lparr>pu_count = length ks, pu_dry = False, pu_keys = ks\<rparr>, s') \<and>
    json_wf s' \<and> distinct ks \<and>
    set ks = {k. prefix PATTERNS_PREFIX k \<and> json_plain k \<and> stamped_before cutoff (json_val s (json_loc sc k))} \<and>
    json_val s' = (\<lambda>l. if l \<in> json_loc sc ` set ks then None else json_val s l)"
  using json.retention_scan [OF assms(2,3), where now = "real now" and def = def and eng = eng] assms(4)
  unfolding json_retention_apply_def cutoff_def by simp

text \<open>The job of the same name ignores the policies: it keeps what the endpoint deletes.\<close>

lemma retention_job_ignores_policies:
  assumes "json_wf s" and "json_scope_ok sc" and "\<forall>k. prefix PATTERNS_PREFIX k \<and> json_plain k \<longrightarrow> stamps_ok (json_val s (json_loc sc k))"
    and "\<forall>k. prefix PATTERNS_PREFIX k \<and> json_plain k \<longrightarrow> \<not> stamped_before (real now - 365 * 86400) (json_val s (json_loc sc k))"
  shows "fst (json_cleanup_expired (json_backend dot norm2) sc now s False) = Inr (0, False)"
proof -
  obtain ks s' where ks: "json_retention_apply (json_backend dot norm2) DEFAULT_RETENTION_DAYS None sc now s False =
      (Inr \<lparr>pu_count = length ks, pu_dry = False, pu_keys = ks\<rparr>, s')"
    "set ks = {k. prefix PATTERNS_PREFIX k \<and> json_plain k \<and> stamped_before (real now - 365 * 86400) (json_val s (json_loc sc k))}"
    using json.retention_scan [OF assms(1-3), where now = "real now" and def = DEFAULT_RETENTION_DAYS and eng = None and dot = dot and ?norm2.0 = norm2]
    by (auto simp: json_retention_apply_def get_policy_def DEFAULT_RETENTION_DAYS_def)
  have "set ks = {}" unfolding ks(2) using assms(4) by blast
  with ks(1) show ?thesis by (simp add: json_cleanup_expired_def)
qed

section \<open>Compaction of the audit log and the jobs\<close>

lemma audit_before_cutoff:
  assumes "time_ok t" and "time_ok now"
  shows "pg_now u t < cutoff_iso days now \<longleftrightarrow> t div 86400 \<le> (now - days * 86400) div 86400"
proof -
  have "time_ok (now - days * 86400)" using time_ok_mono [OF _ assms(2)] by simp
  from iso_z_pg_now [OF this assms(1), of u] show ?thesis
    unfolding cutoff_iso_def by (metis not_le)
qed

text \<open>C33. Compaction of the audit log deletes up to a day too much. Entries are dated with the text of
  now(), which has a blank where the cutoff has a T, so that exactly the tenant's entries of all
  UTC days up to and including the day of the cutoff go, those younger than the retention
  included; with a retention of zero days also those written later in the same second.\<close>

theorem audit_compaction_takes_the_whole_day:
  assumes "time_ok now" and "\<forall>a \<in> set rows. \<exists>u. al_created a = pg_now u (written a)" and "\<forall>a \<in> set rows. time_ok (written a)"
  shows "snd (compact_audit_log True sc days False now rows) =
    filter (\<lambda>a. al_tenant a = sc_tenant sc \<longrightarrow> (now - days * 86400) div 86400 < written a div 86400) rows"
proof -
  have "al_created a < cutoff_iso days now \<longleftrightarrow> written a div 86400 \<le> (now - days * 86400) div 86400" if "a \<in> set rows" for a
    using audit_before_cutoff [OF _ assms(1)] assms(2,3) that by metis
  then show ?thesis by (auto simp: compact_audit_log_def Let_def not_le intro!: filter_cong)
qed

lemma jobs_cleanup_exact:
  assumes "time_ok now" and "\<forall>(k, j) \<in> set q. j_created_at j = iso_z (submitted j) \<and> time_ok (submitted j)"
  shows "snd (cleanup_old_jobs True sc days False now q) =
    filter (\<lambda>(k, j). in_job_scope sc j \<and> j_status j \<notin> {JPending, JRunning} \<longrightarrow> now - days * 86400 \<le> submitted j) q"
proof -
  have "time_ok (now - days * 86400)" using time_ok_mono [OF _ assms(1)] by simp
  then have c: "j_created_at j < cutoff_iso days now \<longleftrightarrow> \<not> now - days * 86400 \<le> submitted j" if "(k, j) \<in> set q" for k j
    using assms(2) that by (auto simp: cutoff_iso_def iso_z_less not_le)
  have "status_text w \<in> set terminal_statuses \<longleftrightarrow> w \<notin> {JPending, JRunning}" for w
    by (cases w) (simp_all add: terminal_statuses_def)
  with c show ?thesis by (auto simp: cleanup_old_jobs_def Let_def intro!: filter_cong)
qed

section \<open>Filtered exports\<close>

definition column_internal :: "scope \<Rightarrow> string \<Rightarrow> pg_store \<Rightarrow> bool" where
  "column_internal sc k s \<longleftrightarrow> (\<forall>r. dget (pg_data s) (row_key sc k) = Some r \<longrightarrow> row_classification r = ''internal'')"

interpretation unclassified: store_invariant "pg_backend edim cdist" "column_internal sc k" "\<lambda>m. pm_classification m = None"
  for edim cdist sc k
proof (unfold_locales, goal_cases)
  case (1 s sc' k' d s')
  then show ?case
    by (auto simp: pg_backend_def pg_save_def Let_def new_row_def column_internal_def dict_simps split: option.splits if_splits)
next
  case (5 s m sc' k')
  then show ?case
    by (auto simp: pg_backend_def pg_save_pattern_meta_def column_internal_def dict_simps update_row_def
        split: option.splits if_splits)
qed (auto simp: pg_backend_def pg_delete_def pg_save_embedding_def pg_search_def column_internal_def dict_simps
    split: if_splits)

lemma pg_list: "be_list_keys (pg_backend edim cdist) sc s p = Inr (sort (scope_keys sc p (pg_data s)))"
  by (simp add: pg_backend_def pg_list_keys_def)

lemma pg_export_line:
  assumes "pg_wf s" and "dget (pg_data s) (row_key sc k) = Some r" and "prefix (PATTERNS_PREFIX @ ''/'') k"
    and "row_classification r \<in> set cls"
  shows "export_line k (row_data r) (Some (row_meta r)) \<in>
    set (fst (export_stream (pg_backend edim cdist) sc s (Some cls) (Some (load_meta_from_db False sc s))))"
proof -
  have "prefix PATTERNS_PREFIX k" using assms(3) by (auto simp: prefix_def)
  then have "k \<in> set (sort (scope_keys sc PATTERNS_PREFIX (pg_data s)))"
    using scope_keys [of "pg_data s" sc PATTERNS_PREFIX] assms(1,2) by (simp add: pg_wf_def)
  moreover have "dget (load_meta_from_db False sc s (Some cls)) k = Some (row_meta r)"
    using assms by (simp add: meta_lookup)
  ultimately show ?thesis using assms(2)
    by (simp add: export_stream_def pg_list pg_stream_keys map_filter_def image_iff Let_def) (intro exI [of _ k], simp)
qed

lemma internal_filter: "parse_filter (Some ''internal'') = Inr (Some [''internal''])"
  by code_simp

text \<open>C34. Imported patterns lose their classification: whatever classification the design of a record
  carries, confidential included, its row gets the default of the column, and since an export
  filters by the column, an export of internal patterns hands out every pattern an import has
  added.\<close>

theorem imported_patterns_escape_the_filter:
  assumes "pg_wf s" and "distinct (map fst kxs)"
    and "\<forall>k \<in> fst ` set kxs. pattern_key_allowed k \<and> dget (pg_data s) (row_key sc k) = None"
  shows "\<exists>s' rs. import_data (pg_backend edim cdist) emb sc s (map import_of kxs) overwrite = (Inr (length kxs), s') \<and>
    export_scope (pg_backend edim cdist) sc s' (Some ''internal'') (Some (load_meta_from_db False sc s')) = Inr (rs, None) \<and>
    (\<forall>(k, x) \<in> set kxs. \<exists>r \<in> set rs. xr_key r = k \<and> xr_data r = DDict x \<and> xr_classification r = Some ''internal'')"
proof -
  have none: "pg_val s (row_key sc k) = None" if "k \<in> fst ` set kxs" for k using assms(3) that unfolding pg_val_def by (metis option.map_disc_iff)
  then have imp: "imported overwrite (pg_val s (row_key sc (fst kx)))" if "kx \<in> set kxs" for kx
    using that by (simp add: imported_def)
  then have "filter (\<lambda>kx. imported overwrite (pg_val s (row_key sc (fst kx)))) kxs = kxs" by (simp add: filter_id_conv)
  moreover have "\<forall>k \<in> fst ` set kxs. pattern_key_allowed k" using assms(3) by blast
  ultimately obtain s' where s': "import_data (pg_backend edim cdist) emb sc s (map import_of kxs) overwrite = (Inr (length kxs), s')"
    "pg_wf s'" "\<forall>(k, x) \<in> set kxs. pg_val s' (row_key sc k) =
      (if imported overwrite (pg_val s (row_key sc k)) then Some (DDict x) else pg_val s (row_key sc k))"
    using pg.import_all_ok [OF assms(1) TrueI, where sc = sc and kxs = kxs and overwrite = overwrite and n = 0 and f = emb
        and edim = edim and cdist = cdist] assms(2) unfolding import_data_def by auto
  have stored: "pg_val s' (row_key sc k) = Some (DDict x)" if "(k, x) \<in> set kxs" for k x
    using s'(3) imp [OF that] that by auto
  have "\<exists>r \<in> set (fst (export_stream (pg_backend edim cdist) sc s' (Some [''internal'']) (Some (load_meta_from_db False sc s')))).
      xr_key r = k \<and> xr_data r = DDict x \<and> xr_classification r = Some ''internal''" if kx: "(k, x) \<in> set kxs" for k x
  proof -
    have k: "pattern_key_allowed k" "dget (pg_data s) (row_key sc k) = None" using assms(3) kx by force+
    obtain r where r: "dget (pg_data s') (row_key sc k) = Some r" "row_data r = DDict x"
      using stored [OF kx] by (auto simp: pg_val_def)
    have "column_internal sc k s" using k(2) by (simp add: column_internal_def)
    then have "column_internal sc k s'"
      using unclassified.import_data [of sc k s edim cdist emb sc "map import_of kxs" overwrite] s'(1) by simp
    then have "row_classification r = ''internal''" using r(1) by (simp add: column_internal_def)
    then show ?thesis using pg_export_line [OF s'(2) r(1), of "[''internal'']" edim cdist] k(1) r(2)
      by (intro bexI [of _ "export_line k (row_data r) (Some (row_meta r))"])
        (simp_all add: export_line_def row_meta_def pattern_key_allowed_def)
  qed
  moreover have "snd (export_stream (pg_backend edim cdist) sc s' cls db) = None" for cls db
    by (simp add: export_stream_def pg_list pg_stream_keys Let_def)
  ultimately show ?thesis using s'(1)
    by (intro exI [of _ s'] exI [of _ "fst (export_stream (pg_backend edim cdist) sc s' (Some [''internal'']) (Some (load_meta_from_db False sc s')))"])
      (auto simp: export_scope_def internal_filter prod_eq_iff)
qed

section \<open>Backups\<close>

lemma missing_columns:
  "dget TABLE_COLUMNS ''analytics_events'' = None" "dget TABLE_COLUMNS ''analytics_rollups'' = None"
  "(case dget TABLE_COLUMNS ''memory_data'' of None \<Rightarrow> False | Some cs \<Rightarrow> ''value'' \<notin> set cs)"
  "(case dget TABLE_COLUMNS ''jobs'' of None \<Rightarrow> False | Some cs \<Rightarrow> ''payload'' \<notin> set cs)"
  by code_simp+

lemma select_missing_table: "dget TABLE_COLUMNS tb = None \<Longrightarrow> sql_select faults db tb cols used P = ([], Some ''undefined table'')"
  by (simp add: sql_select_def)

lemma select_missing_column:
  "(case dget TABLE_COLUMNS tb of None \<Rightarrow> False | Some cs \<Rightarrow> c \<notin> set cs) \<Longrightarrow> c \<in> set cols \<Longrightarrow>
   sql_select faults db tb cols used P = ([], Some ''undefined column'')"
  by (auto simp: sql_select_def list_all_iff split: option.splits)

lemma broken_selects:
  "sql_select faults db ''memory_data'' (bt_columns (BACKUP_TABLES ! 0)) used P = ([], Some ''undefined column'')"
  "sql_select faults db ''analytics_events'' cols used P = ([], Some ''undefined table'')"
  "sql_select faults db ''analytics_rollups'' cols used P = ([], Some ''undefined table'')"
  "sql_select faults db ''jobs'' (bt_columns (BACKUP_TABLES ! 4)) used P = ([], Some ''undefined column'')"
proof -
  show "sql_select faults db ''memory_data'' (bt_columns (BACKUP_TABLES ! 0)) used P = ([], Some ''undefined column'')"
    by (rule select_missing_column [OF missing_columns(3)]) (simp add: BACKUP_TABLES_def)
  show "sql_select faults db ''jobs'' (bt_columns (BACKUP_TABLES ! 4)) used P = ([], Some ''undefined column'')"
    by (rule select_missing_column [OF missing_columns(4)]) (simp add: BACKUP_TABLES_def)
qed (simp_all add: select_missing_table missing_columns(1,2))

lemma broken_lines:
  "table_lines faults db t now (BACKUP_TABLES ! 0) = ([Failure ''memory_data'' ''undefined column''], 0)"
  "table_lines faults db t now (BACKUP_TABLES ! 2) = ([Failure ''analytics_events'' ''undefined table''], 0)"
  "table_lines faults db t now (BACKUP_TABLES ! 3) = ([Failure ''analytics_rollups'' ''undefined table''], 0)"
  "table_lines faults db t now (BACKUP_TABLES ! 4) = ([Failure ''jobs'' ''undefined column''], 0)"
proof -
  have n: "bt_table (BACKUP_TABLES ! 0) = ''memory_data''" "bt_table (BACKUP_TABLES ! 2) = ''analytics_events''"
    "bt_table (BACKUP_TABLES ! 3) = ''analytics_rollups''" "bt_table (BACKUP_TABLES ! 4) = ''jobs''"
    by (simp_all add: BACKUP_TABLES_def)
  show "table_lines faults db t now (BACKUP_TABLES ! 0) = ([Failure ''memory_data'' ''undefined column''], 0)"
    "table_lines faults db t now (BACKUP_TABLES ! 2) = ([Failure ''analytics_events'' ''undefined table''], 0)"
    "table_lines faults db t now (BACKUP_TABLES ! 3) = ([Failure ''analytics_rollups'' ''undefined table''], 0)"
    "table_lines faults db t now (BACKUP_TABLES ! 4) = ([Failure ''jobs'' ''undefined column''], 0)"
    unfolding table_lines_def n broken_selects by simp_all
qed

lemma backup_tables: "BACKUP_TABLES = map ((!) BACKUP_TABLES) [0, 1, 2, 3, 4, 5, 6]"
  by (simp add: BACKUP_TABLES_def)

lemma stream_parts:
  "set (backup_stream faults db t now) = insert (Header t (map bt_table BACKUP_TABLES))
     (insert (last (backup_stream faults db t now))
       (\<Union>i \<in> {0, 1, 2, 3, 4, 5, 6}. set (fst (table_lines faults db t now (BACKUP_TABLES ! i)))))"
  "\<exists>k cs. last (backup_stream faults db t now) = Footer k cs"
proof -
  show "\<exists>k cs. last (backup_stream faults db t now) = Footer k cs" by (simp add: backup_stream_def Let_def)
  have "\<Union> (set ` fst ` table_lines faults db t now ` set BACKUP_TABLES) =
      (\<Union>i \<in> {0, 1, 2, 3, 4, 5, 6}. set (fst (table_lines faults db t now (BACKUP_TABLES ! i))))"
    by (subst backup_tables) (simp add: image_Un)
  then show "set (backup_stream faults db t now) = insert (Header t (map bt_table BACKUP_TABLES))
     (insert (last (backup_stream faults db t now))
       (\<Union>i \<in> {0, 1, 2, 3, 4, 5, 6}. set (fst (table_lines faults db t now (BACKUP_TABLES ! i)))))"
    by (simp add: backup_stream_def Let_def comp_def split_def image_image)
qed

lemma table_rows: "Row tb r \<in> set (fst (table_lines faults db t now b)) \<Longrightarrow> tb = bt_table b"
  by (auto simp: table_lines_def split: prod.splits option.splits)

text \<open>C35. A tenant's backup holds none of its patterns, whatever is stored. The exporter asks for
  columns memory_data and jobs do not have and for two tables that do not exist; each such table
  becomes an error line, the footer that marks an intact backup follows all the same, and a
  complete download is logged as a success, so that another one is refused for a day.\<close>

theorem backup_holds_no_patterns:
  assumes "backup_download ctx engine tier lookup_fails faults db None False now fin rows = (Inr ls, rows')"
  shows "(\<forall>tb r. Row tb r \<in> set ls \<longrightarrow> tb \<in> {''memory_embeddings'', ''projects'', ''tenants''}) \<and>
    Failure ''memory_data'' ''undefined column'' \<in> set ls \<and> Failure ''jobs'' ''undefined column'' \<in> set ls \<and>
    (\<exists>k cs. last ls = Footer k cs) \<and> (\<exists>t. rows' = rows @ [\<lparr>bl_tenant = t, bl_status = ''success'', bl_at = fin, bl_tables = 7\<rparr>])"
proof -
  obtain t where t: "ls = backup_stream faults db t now"
    "rows' = rows @ [\<lparr>bl_tenant = t, bl_status = ''success'', bl_at = fin,
       bl_tables = (case rev ls of Footer k cs # _ \<Rightarrow> length cs | _ \<Rightarrow> 0)\<rparr>]"
    using assms by (auto simp: backup_download_def Let_def split: sum.splits)
  have "(case rev ls of Footer k cs # _ \<Rightarrow> length cs | _ \<Rightarrow> 0) = 7"
    unfolding t(1) by (simp add: backup_stream_def Let_def BACKUP_TABLES_def)
  moreover have "tb \<in> {''memory_embeddings'', ''projects'', ''tenants''}" if row: "Row tb r \<in> set ls" for tb r
  proof -
    have "Row tb r \<noteq> last ls" using stream_parts(2) [of faults db t now] unfolding t(1) by auto
    then obtain i where i: "i \<in> {0, 1, 2, 3, 4, 5, 6}" "Row tb r \<in> set (fst (table_lines faults db t now (BACKUP_TABLES ! i)))"
      using row unfolding t(1) stream_parts(1) by blast
    have "i \<notin> {0, 2, 3, 4}"
    proof
      assume "i \<in> {0, 2, 3, 4}"
      then have "\<exists>a b. fst (table_lines faults db t now (BACKUP_TABLES ! i)) = [Failure a b]"
        using broken_lines [of faults db t now] by auto
      with i(2) show False by auto
    qed
    then have "i \<in> {1, 5, 6}" using i(1) by blast
    then show ?thesis using table_rows [OF i(2)] by (auto simp: BACKUP_TABLES_def)
  qed
  moreover have "Failure ''memory_data'' ''undefined column'' \<in> set ls" "Failure ''jobs'' ''undefined column'' \<in> set ls"
    unfolding t(1) stream_parts(1) using broken_lines(1,4) [of faults db t now] by simp_all
  ultimately show ?thesis using t(2) stream_parts(2) [of faults db t now] unfolding t(1) by auto
qed

lemma last_success_latest:
  "last_success t rows = None \<longleftrightarrow> (\<forall>r \<in> set rows. \<not> (bl_tenant r = t \<and> bl_status r = ''success''))"
  "last_success t rows = Some w \<Longrightarrow> r \<in> set rows \<Longrightarrow> bl_tenant r = t \<Longrightarrow> bl_status r = ''success'' \<Longrightarrow> bl_at r \<le> w"
proof -
  let ?xs = "filter (\<lambda>r. bl_tenant r = t \<and> bl_status r = ''success'') rows"
  show "last_success t rows = None \<longleftrightarrow> (\<forall>r \<in> set rows. \<not> (bl_tenant r = t \<and> bl_status r = ''success''))"
    using set_sort_desc [of bl_at ?xs] unfolding last_success_def
    by (cases "sort_desc bl_at ?xs") (auto simp: filter_empty_conv [symmetric])
  assume w: "last_success t rows = Some w" and r: "r \<in> set rows" "bl_tenant r = t" "bl_status r = ''success''"
  from w obtain x xs where xs: "sort_desc bl_at ?xs = x # xs" "bl_at x = w" by (auto simp: last_success_def split: list.splits)
  have "r \<in> set (x # xs)" using set_sort_desc [of bl_at ?xs] r unfolding xs(1) by simp
  then show "bl_at r \<le> w" using sort_desc_sorted [of bl_at ?xs] unfolding xs by (auto simp: xs(2))
qed

text \<open>The log after requests of any tenants, one after the other, with the time of the last one.\<close>

inductive backup_reach :: "backup_log list \<Rightarrow> nat \<Rightarrow> bool" where
  start: "backup_reach [] c"
| request: "backup_reach rows c \<Longrightarrow> c \<le> now \<Longrightarrow> now \<le> fin \<Longrightarrow>
    backup_download ctx engine tier False faults db taken write_fails now fin rows = (r, rows') \<Longrightarrow> backup_reach rows' fin"

definition day_apart :: "string \<Rightarrow> backup_log list \<Rightarrow> bool" where
  "day_apart t rows \<longleftrightarrow> sorted_wrt (\<lambda>a b. bl_at a + 24 * 3600 \<le> bl_at b)
     (filter (\<lambda>r. bl_tenant r = t \<and> bl_status r = ''success'') rows)"

lemma gate_unfinished: "bl_status x = ''in_progress'' \<Longrightarrow>
    backup_gate ctx engine tier fails now (rows @ [x]) = backup_gate ctx engine tier fails now rows"
proof -
  assume "bl_status x = ''in_progress''"
  then have eq: "last_success t (rows @ [x]) = last_success t rows" for t by (simp add: last_success_def)
  show ?thesis unfolding backup_gate_def eq ..
qed

lemma download_log:
  assumes "backup_download ctx engine tier False faults db taken write_fails now fin rows = (r, rows')"
  shows "rows' = rows \<or> (\<exists>x t. rows' = rows @ [x] \<and> bl_tenant x = t \<and> bl_at x = fin \<and>
    (bl_status x = ''success'' \<longrightarrow> (\<forall>w. last_success t rows = Some w \<longrightarrow> w + 24 * 3600 \<le> now)))"
  using assms by (auto simp: backup_download_def backup_gate_def Let_def bind_res_eq_Inr BACKUP_WINDOW_def
      split: sum.splits option.splits prod.splits if_splits)

text \<open>Two complete downloads of a tenant's backup, when requests come one after the other, end at
  least a day apart. A download whose client goes away at any line, even after the last row, is
  logged as still in progress and does not count: the next request of any caller passes or
  fails the checks as if it had not happened.\<close>

theorem backups_complete_once_a_day:
  assumes "backup_reach rows c"
  shows "day_apart t rows \<and>
    (\<forall>ctx engine tier faults db n now fin out rows' ctx' engine' tier' later.
       backup_download ctx engine tier False faults db (Some n) False now fin rows = (Inr out, rows') \<longrightarrow>
       backup_gate ctx' engine' tier' False later rows' = backup_gate ctx' engine' tier' False later rows)"
proof
  show "day_apart t rows" using assms
  proof (induction rule: backup_reach.induct)
    case (start c)
    show ?case by (simp add: day_apart_def)
  next
    case (request rows c now fin ctx engine tier faults db taken write_fails r rows')
    consider "rows' = rows" | x where "rows' = rows @ [x]" "bl_at x = fin"
      "bl_status x = ''success'' \<longrightarrow> (\<forall>w. last_success (bl_tenant x) rows = Some w \<longrightarrow> w + 24 * 3600 \<le> now)"
      using download_log [OF request(4)] by blast
    then show ?case
    proof cases
      case 1
      then show ?thesis using request.IH by simp
    next
      case 2
      have "bl_at y + 24 * 3600 \<le> fin" if y: "bl_tenant x = t" "bl_status x = ''success''"
        "y \<in> set rows" "bl_tenant y = t" "bl_status y = ''success''" for y
      proof -
        obtain w where w: "last_success t rows = Some w" using last_success_latest(1) [of t rows] y(3-5) by blast
        from last_success_latest(2) [OF w y(3-5)] 2(3) y(1,2) w request(3) show ?thesis by fastforce
      qed
      then show ?thesis using request.IH 2(1,2) by (auto simp: day_apart_def sorted_wrt_append)
    qed
  qed
  show "\<forall>ctx engine tier faults db n now fin out rows' ctx' engine' tier' later.
       backup_download ctx engine tier False faults db (Some n) False now fin rows = (Inr out, rows') \<longrightarrow>
       backup_gate ctx' engine' tier' False later rows' = backup_gate ctx' engine' tier' False later rows"
    by (auto simp: backup_download_def Let_def gate_unfinished split: sum.splits)
qed

section \<open>Data subject requests\<close>

lemma longer_filter: "(\<And>x. x \<in> set xs \<Longrightarrow> P x \<Longrightarrow> Q x) \<Longrightarrow> length (filter P xs) \<le> length (filter Q xs)"
  by (induction xs) (auto simp: le_SucI)

lemma sort_desc_again: "sort_desc f (sort_desc f xs) = sort_desc f xs"
  by (simp add: sort_desc_def sort_key_id_if_sorted)

lemma sort_desc_take_filter:
  assumes "length xs \<le> n"
  shows "sort_desc f (filter P (take n (sort_desc f xs))) = sort_desc f (filter P xs)"
proof -
  have "take n (sort_desc f xs) = sort_desc f xs" using assms by simp
  then show ?thesis by (simp only: sort_desc_filter [symmetric] sort_desc_again)
qed

lemma larger_come_first:
  assumes "sorted_wrt (\<lambda>a b. f b \<le> (f a :: 'b::linorder)) ys" and "i < length ys"
  shows "length (filter (\<lambda>r. f (ys ! i) < f r) ys) \<le> i"
proof -
  have "\<forall>r \<in> set (drop i ys). f r \<le> f (ys ! i)"
  proof
    fix r assume "r \<in> set (drop i ys)"
    then obtain j where j: "i + j < length ys" "r = ys ! (i + j)"
      unfolding in_set_conv_nth by (metis add.commute assms(2) length_drop less_diff_conv less_imp_le_nat nth_drop)
    show "f r \<le> f (ys ! i)"
      by (cases "j = 0") (use j assms in \<open>auto simp: sorted_wrt_iff_nth_less\<close>)
  qed
  then have "filter (\<lambda>r. f (ys ! i) < f r) (drop i ys) = []" by (auto simp: filter_empty_conv not_less)
  then have "filter (\<lambda>r. f (ys ! i) < f r) ys = filter (\<lambda>r. f (ys ! i) < f r) (take i ys)"
    by (metis append_Nil2 append_take_drop_id filter_append)
  then show ?thesis by (metis length_filter_le length_take min.bounded_iff)
qed

definition tenant_requests :: "string \<Rightarrow> dsrs \<Rightarrow> dsr list" where
  "tenant_requests t s = filter (\<lambda>r. ds_tenant r = t) (map snd s)"

lemma same_lists_within_limit:
  assumes "length (tenant_requests t s) \<le> limit" and "status \<noteq> Some []"
  shows "list_requests True False t status overdue_only limit now s = list_requests False fails t status overdue_only limit now s"
proof -
  have sorted: "sort_desc ds_created (filter P (take limit (sort_desc ds_created (filter Q (tenant_requests t s))))) =
      sort_desc ds_created (filter P (filter Q (tenant_requests t s)))" for P Q
    using assms(1) by (intro sort_desc_take_filter) (meson length_filter_le order_trans)
  have lists: "list_requests db fails t status overdue_only limit now s = take limit (sort_desc ds_created
      (filter (\<lambda>r. (overdue_only \<longrightarrow> overdue now r) \<and> (case status of None \<Rightarrow> True | Some w \<Rightarrow> ds_status r = w))
        (if db then query_list fails t status limit s else tenant_requests t s)))" for db fails
    by (cases status; cases overdue_only)
      (simp_all add: list_requests_def Let_def tenant_requests_def conj_ac)
  have query: "query_list False t status limit s = take limit (sort_desc ds_created
      (filter (\<lambda>r. case status of None \<Rightarrow> True | Some w \<Rightarrow> ds_status r = w) (tenant_requests t s)))"
    using assms(2) by (cases status) (simp_all add: query_list_def tenant_requests_def conj_commute)
  have "filter (\<lambda>r. (overdue_only \<longrightarrow> overdue now r) \<and> (case status of None \<Rightarrow> True | Some w \<Rightarrow> ds_status r = w))
      (filter (\<lambda>r. case status of None \<Rightarrow> True | Some w \<Rightarrow> ds_status r = w) xs) =
    filter (\<lambda>r. (overdue_only \<longrightarrow> overdue now r) \<and> (case status of None \<Rightarrow> True | Some w \<Rightarrow> ds_status r = w)) xs" for xs
    by (auto intro: filter_cong)
  then show ?thesis unfolding lists query if_True if_False sorted by simp
qed

lemma newest_are_not_overdue:
  assumes "limit \<le> length (filter (\<lambda>r. \<forall>x \<in> set (tenant_requests t s). overdue now x \<longrightarrow> ds_created x < ds_created r)
        (tenant_requests t s))"
  shows "list_requests True False t None True limit now s = [] \<and>
      (limit = 100 \<longrightarrow> snd (snd (pending_count True False t now s)) = 0)"
proof -
  let ?ys = "sort_desc ds_created (tenant_requests t s)"
  have late: "\<not> overdue now x" if x: "x \<in> set (take limit ?ys)" for x
  proof
    assume o: "overdue now x"
    obtain i where i: "i < limit" "i < length ?ys" "x = ?ys ! i" using x by (auto simp: in_set_conv_nth)
    have "x \<in> set (tenant_requests t s)" using x by (metis in_set_takeD set_sort_desc)
    then have "length (filter (\<lambda>r. \<forall>x \<in> set (tenant_requests t s). overdue now x \<longrightarrow> ds_created x < ds_created r) (tenant_requests t s))
        \<le> length (filter (\<lambda>r. ds_created x < ds_created r) (tenant_requests t s))"
      using o by (intro longer_filter) blast
    also have "\<dots> = length (filter (\<lambda>r. ds_created x < ds_created r) ?ys)"
      by (metis mset_filter mset_sort_desc size_mset)
    also have "\<dots> \<le> i" using larger_come_first [OF sort_desc_sorted i(2)] i(3) by simp
    finally show False using assms i(1) by simp
  qed
  have q: "query_list False t None n s = take n ?ys" for n
    by (simp add: query_list_def tenant_requests_def)
  have "filter (overdue now) (take limit ?ys) = []" using late by (simp add: filter_empty_conv)
  then have "list_requests True False t None True limit now s = []"
    by (simp add: list_requests_def q sort_desc_def)
  moreover have "snd (snd (pending_count True False t now s)) = 0" if "limit = 100"
    using late unfolding that
    by (auto simp: pending_count_def Let_def list_requests_def q filter_empty_conv dest!: in_set_takeD)
  ultimately show ?thesis by blast
qed

text \<open>The two trackers list the same requests as long as the tenant has no more than the limit.
  Beyond that the database cuts off before it filters: when at least the limit's number of
  newer requests are not overdue, the query for overdue requests answers nothing and, for a
  hundred of them, the overdue count is zero, whatever the number of missed deadlines.\<close>

theorem newer_requests_hide_overdue_ones:
  "(length (tenant_requests t s) \<le> limit \<and> status \<noteq> Some [] \<longrightarrow>
      list_requests True False t status overdue_only limit now s = list_requests False fails t status overdue_only limit now s) \<and>
   (limit \<le> length (filter (\<lambda>r. \<forall>x \<in> set (tenant_requests t s). overdue now x \<longrightarrow> ds_created x < ds_created r)
        (tenant_requests t s)) \<longrightarrow>
      list_requests True False t None True limit now s = [] \<and>
      (limit = 100 \<longrightarrow> snd (snd (pending_count True False t now s)) = 0))"
  using same_lists_within_limit newest_are_not_overdue by blast

section \<open>Witnesses\<close>

definition no_rows :: pg_store where "no_rows = \<lparr>pg_data = [], pg_emb = []\<rparr>"

lemma no_rows_ok: "pg_wf no_rows" "pg_used edim cdist no_rows" "dget (pg_data no_rows) rk = None"
  using pg_used.empty by (simp_all add: no_rows_def pg_wf_def)

lemma demo_key: "pattern_key_allowed ''patterns/a''"
  by code_simp

theorem retention_deletes_nothing_on_postgres_witness:
  "\<exists>s. pg_load default_scope s ''patterns/a'' = Inr (Some (DDict [(''timestamp'', JInt 1)])) \<and>
    pg_retention_apply (pg_backend 2 (\<lambda>v w. 0)) 365 (Some (Inr \<lparr>po_projects = [], po_tenants = []\<rparr>)) default_scope 1000000000 s False =
      (Inr \<lparr>pu_count = 0, pu_dry = False, pu_keys = []\<rparr>, s)"
proof -
  let ?B = "pg_backend 2 (\<lambda>v w. 0)" and ?x = "[(''timestamp'', JInt 1)]"
  obtain s where s: "import_data ?B None default_scope no_rows (map import_of [(''patterns/a'', ?x)]) True = (Inr 1, s)"
    "pg_val s (row_key default_scope ''patterns/a'') = Some (DDict ?x)"
    using pg.import_all_ok [OF no_rows_ok(1) TrueI, where sc = default_scope and kxs = "[(''patterns/a'', ?x)]" and overwrite = True
        and n = 0 and f = None and edim = 2 and cdist = "\<lambda>v w. 0"] demo_key
    by (auto simp: import_data_def imported_def)
  have "pg_used 2 (\<lambda>v w. 0) s"
    using pg_used.restore [OF no_rows_ok(2), of 2 "\<lambda>v w. 0" None default_scope "map import_of [(''patterns/a'', ?x)]" True] s(1)
    by simp
  from conjunct1 [OF retention_deletes_nothing_on_postgres [OF this]] s(2) show ?thesis by (auto simp: pg_load_def pg_val_def)
qed

lemma singleton_list: "distinct xs \<Longrightarrow> set xs = {x} \<Longrightarrow> xs = [x]"
  by (cases xs; cases "tl xs") auto

definition demo_disk :: disk where
  "demo_disk = [([''patterns'', ''a.json''], FDoc (DDict [(''timestamp'', JInt 1)]))]"

theorem json_retention_exact_witness:
  "\<exists>s'. json_retention_apply (json_backend (\<lambda>v w. 0) (\<lambda>v. 1)) 365 None default_scope 1000000000 (json_open demo_disk) False =
    (Inr \<lparr>pu_count = 1, pu_dry = False, pu_keys = [''patterns/a'']\<rparr>, s') \<and>
    json_val s' [''patterns'', ''a.json''] = None"
proof -
  let ?s = "json_open demo_disk"
  have c: "json_scope_ok default_scope" "json_plain ''patterns/a''" "prefix PATTERNS_PREFIX ''patterns/a''"
    "json_loc default_scope ''patterns/a'' = [''patterns'', ''a.json'']" "is_json [''patterns'', ''a.json'']"
    by code_simp+
  have w: "json_wf ?s" by (rule json_wf_open) (simp add: demo_disk_def disk_ok_def path_ok_def stem_def seg_ok_def wf_dict_def)
  have v: "json_val ?s p = (if p = [''patterns'', ''a.json''] then Some (DDict [(''timestamp'', JInt 1)]) else None)" for p
    using c(5) by (simp add: json_val_def json_open_def demo_disk_def)
  have st: "doc_stamp (DDict [(''timestamp'', JInt 1)]) = Inr 1" by (simp add: doc_stamp_def)
  have ok: "\<forall>k. prefix PATTERNS_PREFIX k \<and> json_plain k \<longrightarrow> stamps_ok (json_val ?s (json_loc default_scope k))"
    using st by (auto simp: v stamps_ok_def)
  have old: "stamped_before (1000000000 - 365 * 86400) (json_val ?s (json_loc default_scope k)) \<longleftrightarrow> k = ''patterns/a''" for k
    using st c(4) json_loc_inj [of default_scope k "''patterns/a''"] by (auto simp: v stamped_before_def split: if_splits)
  obtain ks s' where ks: "json_retention_apply (json_backend (\<lambda>v w. 0) (\<lambda>v. 1)) 365 None default_scope 1000000000 ?s False =
      (Inr \<lparr>pu_count = length ks, pu_dry = False, pu_keys = ks\<rparr>, s')" "distinct ks" "set ks = {''patterns/a''}"
    "json_val s' = (\<lambda>l. if l \<in> json_loc default_scope ` set ks then None else json_val ?s l)"
  proof -
    have p: "real 1000000000 - real_of_int (get_policy 365 None (sc_tenant default_scope) (sc_project default_scope)) * 86400 =
      1000000000 - 365 * 86400" by (simp add: get_policy_def)
    have e: "{k. prefix PATTERNS_PREFIX k \<and> json_plain k \<and> k = ''patterns/a''} = {''patterns/a''}" using c(2,3) by blast
    from json_retention_exact [OF w c(1) ok, of "\<lambda>v w. 0" "\<lambda>v. 1" 365 None 1000000000, unfolded p old e] that
    show ?thesis by blast
  qed
  have "ks = [''patterns/a'']" using ks(2,3) by (rule singleton_list)
  then show ?thesis using ks(1,4) c(4) by simp
qed

definition demo_audit :: audit_row where
  "demo_audit = \<lparr>al_tenant = ''default'', al_project = None, al_action = ''learn'', al_created = pg_now [] 86000\<rparr>"

theorem audit_compaction_takes_the_whole_day_witness:
  "snd (compact_audit_log True default_scope 1 False 86410 [demo_audit]) = []"
proof -
  have t: "time_ok 86410" "time_ok 86000"
    by (simp_all add: time_ok_def civil_Suc [of 0, simplified] month_days_def)
  have "\<forall>a \<in> set [demo_audit]. \<exists>u. al_created a = pg_now u ((\<lambda>_. 86000) a)" by (auto simp: demo_audit_def)
  from audit_compaction_takes_the_whole_day [OF t(1) this, of default_scope 1] t(2)
  show ?thesis by (simp add: demo_audit_def default_scope_def)
qed

theorem imported_patterns_escape_the_filter_witness:
  "\<exists>s' rs. import_data (pg_backend 2 (\<lambda>v w. 0)) None default_scope no_rows
      (map import_of [(''patterns/a'', [(''design'', JObj [(''classification'', JStr ''confidential'')])])]) False = (Inr 1, s') \<and>
    export_scope (pg_backend 2 (\<lambda>v w. 0)) default_scope s' (Some ''internal'') (Some (load_meta_from_db False default_scope s')) =
      Inr (rs, None) \<and> ''patterns/a'' \<in> xr_key ` set rs"
proof -
  let ?x = "[(''design'', JObj [(''classification'', JStr ''confidential'')])]"
  have d: "distinct (map fst [(''patterns/a'', ?x)])" by simp
  have k: "\<forall>k \<in> fst ` set [(''patterns/a'', ?x)]. pattern_key_allowed k \<and> dget (pg_data no_rows) (row_key default_scope k) = None"
    using demo_key no_rows_ok(3) by simp
  from imported_patterns_escape_the_filter [OF no_rows_ok(1) d k, of 2 "\<lambda>v w. 0" None False] show ?thesis by force
qed

lemma demo_gate: "backup_gate (Some (''owner'', ''t'')) True (Some ''team'') False now [] = Inr ''t''"
proof -
  have "require_permission (Some ''owner'') ''governance:backup_download'' = Inr ()" by code_simp
  then show ?thesis by (simp add: backup_gate_def last_success_def sort_desc_def)
qed

theorem backup_holds_no_patterns_witness:
  "\<exists>ls rows. backup_download (Some (''owner'', ''t'')) True (Some ''team'') False [] [(''memory_data'', [[(''tenant_id'', Some ''t'')]])]
      None False 5 9 [] = (Inr ls, rows) \<and> (\<forall>r. Row ''memory_data'' r \<notin> set ls)"
proof -
  obtain ls rows where "backup_download (Some (''owner'', ''t'')) True (Some ''team'') False []
      [(''memory_data'', [[(''tenant_id'', Some ''t'')]])] None False 5 9 [] = (Inr ls, rows)"
    by (simp add: backup_download_def demo_gate Let_def)
  from this backup_holds_no_patterns [OF this] show ?thesis by fastforce
qed

theorem backups_complete_once_a_day_witness:
  "\<exists>ls rows. backup_download (Some (''owner'', ''t'')) True (Some ''team'') False [] [] (Some 5) False 5 9 [] = (Inr ls, rows) \<and>
    backup_gate (Some (''owner'', ''t'')) True (Some ''team'') False 10 rows = Inr ''t''"
proof -
  obtain ls rows where d: "backup_download (Some (''owner'', ''t'')) True (Some ''team'') False [] [] (Some 5) False 5 9 [] = (Inr ls, rows)"
    by (simp add: backup_download_def demo_gate Let_def)
  have "backup_gate (Some (''owner'', ''t'')) True (Some ''team'') False 10 rows =
      backup_gate (Some (''owner'', ''t'')) True (Some ''team'') False 10 []"
    using backups_complete_once_a_day [OF backup_reach.start, of "''t''"] d by blast
  then show ?thesis using d by (simp add: demo_gate)
qed

definition demo_dsr :: "nat \<Rightarrow> dsr" where
  "demo_dsr c = \<lparr>ds_id = dec c, ds_tenant = ''t'', ds_type = ''access'', ds_email = ''e'', ds_status = ''pending'', ds_created = c,
     ds_due = c + 10, ds_updated = c, ds_completed = None, ds_notes = []\<rparr>"

theorem newer_requests_hide_overdue_ones_witness:
  "list_requests True False ''t'' None True 1 15 [(''0'', demo_dsr 0), (''9'', demo_dsr 9)] = [] \<and>
   list_requests True False ''t'' None True 2 15 [(''0'', demo_dsr 0), (''9'', demo_dsr 9)] =
   list_requests False False ''t'' None True 2 15 [(''0'', demo_dsr 0), (''9'', demo_dsr 9)]"
proof -
  have "1 \<le> length (filter (\<lambda>r. \<forall>x \<in> set (tenant_requests ''t'' [(''0'', demo_dsr 0), (''9'', demo_dsr 9)]).
      overdue 15 x \<longrightarrow> ds_created x < ds_created r) (tenant_requests ''t'' [(''0'', demo_dsr 0), (''9'', demo_dsr 9)]))"
    by (simp add: tenant_requests_def demo_dsr_def overdue_def closed_def)
  moreover have "length (tenant_requests ''t'' [(''0'', demo_dsr 0), (''9'', demo_dsr 9)]) \<le> 2" by (simp add: tenant_requests_def)
  ultimately show ?thesis using newer_requests_hide_overdue_ones [of "''t''" "[(''0'', demo_dsr 0), (''9'', demo_dsr 9)]"] by blast
qed

end
