(* ===== verification/Mcp.thy ===== *)
theory Mcp
  imports Identity MemoryFacade Billing
begin

text \<open>
  The hosted MCP server: the tool catalogue (\<open>engramia/mcp/tools.py\<close>), the limiter of
  concurrent sessions (\<open>mcp/tier_gate.py\<close>), the sessions (\<open>mcp/session.py\<close>), the dispatch of
  a tool to the memory (\<open>mcp/dispatch.py\<close>) and the request handler with the tool callback
  (\<open>mcp/http_server.py\<close>). The MCP SDK, which routes a message to the session its header
  names and starts and ends sessions, is not part of the sources: whether it starts a
  session is left open. The tools that put a prompt to an LLM are a parameter.
\<close>

section \<open>Tools\<close>

datatype quota_kind = EvalRuns | PatternQuota | NoQuota

record tool_entry =
  tl_name :: string
  tl_permission :: string
  tl_min_tier :: string
  tl_quota :: quota_kind

definition TIER_RANK :: "(string, int) dict" where
  "TIER_RANK = [(''developer'', 0), (''pro'', 1), (''team'', 2), (''business'', 3), (''enterprise'', 4)]"

definition MIN_TIER_FOR_HOSTED_MCP :: string where "MIN_TIER_FOR_HOSTED_MCP = ''team''"

definition rank_or :: "int \<Rightarrow> string \<Rightarrow> int" where
  "rank_or dflt t = (case dget TIER_RANK t of None \<Rightarrow> dflt | Some n \<Rightarrow> n)"

definition tier_satisfies :: "string \<Rightarrow> string \<Rightarrow> bool" where
  "tier_satisfies current required \<longleftrightarrow> rank_or 99 required \<le> rank_or (-1) current"

definition visible_to :: "tool_entry \<Rightarrow> string \<Rightarrow> string list \<Rightarrow> bool" where
  "visible_to e plan_tier role_perms =
     (if \<not> tier_satisfies plan_tier (tl_min_tier e) then False
      else if ''*'' \<in> set role_perms then True else tl_permission e \<in> set role_perms)"

definition tool :: "string \<Rightarrow> string \<Rightarrow> string \<Rightarrow> quota_kind \<Rightarrow> tool_entry" where
  "tool n p t q = \<lparr>tl_name = n, tl_permission = p, tl_min_tier = t, tl_quota = q\<rparr>"

definition ALL_TOOLS :: "tool_entry list" where
  "ALL_TOOLS =
     [tool ''engramia_learn'' ''learn'' ''team'' PatternQuota,
      tool ''engramia_recall'' ''recall'' ''team'' NoQuota,
      tool ''engramia_evaluate'' ''evaluate'' ''team'' EvalRuns,
      tool ''engramia_feedback'' ''feedback:read'' ''team'' NoQuota,
      tool ''engramia_metrics'' ''metrics'' ''team'' NoQuota,
      tool ''engramia_aging'' ''aging'' ''team'' NoQuota,
      tool ''engramia_compose'' ''compose'' ''business'' NoQuota,
      tool ''engramia_evolve'' ''evolve'' ''business'' EvalRuns,
      tool ''engramia_analyze_failures'' ''analyze_failures'' ''business'' NoQuota]"

definition get_entry :: "string \<Rightarrow> tool_entry option" where
  "get_entry n = dget (map (\<lambda>e. (tl_name e, e)) ALL_TOOLS) n"

definition tools_for :: "string \<Rightarrow> string list \<Rightarrow> string list" where
  "tools_for plan_tier role_perms = map tl_name (filter (\<lambda>e. visible_to e plan_tier role_perms) ALL_TOOLS)"

section \<open>The connection limiter\<close>

text \<open>\<open>int(text)\<close>: decimal digits with an optional sign and single underscores.\<close>

definition py_int :: "string \<Rightarrow> int res" where
  "py_int s =
     (let t = py_strip s;
          minus = prefix ''-'' t;
          ds = (if minus \<or> prefix ''+'' t then tl t else t);
          parts = split_on CHR ''_'' ds
      in if list_all (\<lambda>p. p \<noteq> [] \<and> list_all is_digit p) parts
         then Inr ((if minus then -1 else 1) * int (num (concat parts)))
         else Inl (ValueError ''invalid literal for int()''))"

definition DEFAULT_TIER_LIMITS :: "(string, int) dict" where
  "DEFAULT_TIER_LIMITS = [(''team'', 5), (''business'', 25), (''enterprise'', 100)]"

record limiter =
  li_limits :: "(string, int) dict"
  li_counts :: "(string, int) dict"

definition new_limiter :: "(string, int) dict option \<Rightarrow> limiter" where
  "new_limiter tier_limits =
     \<lparr>li_limits = (case tier_limits of Some (x # xs) \<Rightarrow> x # xs | _ \<Rightarrow> DEFAULT_TIER_LIMITS), li_counts = []\<rparr>"

definition cap_for :: "limiter \<Rightarrow> string \<Rightarrow> int" where
  "cap_for l plan_tier = (case dget (li_limits l) plan_tier of None \<Rightarrow> 0 | Some n \<Rightarrow> n)"

definition active_count :: "limiter \<Rightarrow> string \<Rightarrow> int" where
  "active_count l tenant = (case dget (li_counts l) tenant of None \<Rightarrow> 0 | Some n \<Rightarrow> n)"

record slot =
  sl_tenant :: string
  sl_tier :: string
  sl_released :: bool

text \<open>A slot, the refusal with the numbers in use and allowed, or the error of a tier without a limit.\<close>

datatype acquired = Slot slot | LimitExceeded int int | NoLimit

definition acquire :: "limiter \<Rightarrow> string \<Rightarrow> string \<Rightarrow> acquired \<times> limiter" where
  "acquire l tenant plan_tier =
     (let cap = cap_for l plan_tier; current = active_count l tenant in
      if cap \<le> 0 then (NoLimit, l)
      else if cap \<le> current then (LimitExceeded current cap, l)
      else (Slot \<lparr>sl_tenant = tenant, sl_tier = plan_tier, sl_released = False\<rparr>,
            l\<lparr>li_counts := dput tenant (current + 1) (li_counts l)\<rparr>))"

definition release_callback :: "string \<Rightarrow> limiter \<Rightarrow> limiter" where
  "release_callback tenant l =
     (let remaining = active_count l tenant - 1 in
      if remaining \<le> 0 then l\<lparr>li_counts := ddel tenant (li_counts l)\<rparr>
      else l\<lparr>li_counts := dput tenant remaining (li_counts l)\<rparr>)"

definition slot_release :: "slot \<Rightarrow> limiter \<Rightarrow> slot \<times> limiter" where
  "slot_release sl l =
     (if sl_released sl then (sl, l) else (sl\<lparr>sl_released := True\<rparr>, release_callback (sl_tenant sl) l))"

definition env_or :: "(string, string) dict \<Rightarrow> string \<Rightarrow> string \<Rightarrow> string" where
  "env_or env k dflt = (case dget env k of None \<Rightarrow> dflt | Some v \<Rightarrow> v)"

definition make_limiter_from_env :: "(string, string) dict \<Rightarrow> limiter res" where
  "make_limiter_from_env env =
     (let backend = py_lower (env_or env ''ENGRAMIA_MCP_LIMITER_BACKEND'' ''inmemory'') in
      bind_res (py_int (env_or env ''ENGRAMIA_MCP_LIMITS_TEAM'' ''5'')) (\<lambda>t.
      bind_res (py_int (env_or env ''ENGRAMIA_MCP_LIMITS_BUSINESS'' ''25'')) (\<lambda>b.
      bind_res (py_int (env_or env ''ENGRAMIA_MCP_LIMITS_ENTERPRISE'' ''100'')) (\<lambda>e.
        if backend = ''inmemory''
        then Inr (new_limiter (Some [(''team'', t), (''business'', b), (''enterprise'', e)]))
        else if backend = ''redis'' then Inl (OtherError ''NotImplementedError'')
        else Inl (ValueError ''Unknown ENGRAMIA_MCP_LIMITER_BACKEND'')))))"

section \<open>Sessions\<close>

text \<open>
  The authentication context with its plan tier. None of the constructions in
  \<open>engramia/api/auth.py\<close> and \<open>oidc.py\<close> names the field, so it has the default of the class.
\<close>

record mcp_ctx = auth_ctx +
  mx_tier :: string

definition with_tier :: "auth_ctx \<Rightarrow> mcp_ctx" where
  "with_tier c = \<lparr>cx_key = cx_key c, cx_tenant = cx_tenant c, cx_project = cx_project c, cx_role = cx_role c,
     cx_max = cx_max c, mx_tier = ''developer''\<rparr>"

definition ctx_scope :: "mcp_ctx \<Rightarrow> scope" where
  "ctx_scope c = \<lparr>sc_tenant = cx_tenant c, sc_project = cx_project c\<rparr>"

record session_init =
  si_auth :: mcp_ctx
  si_slot :: slot

record mcp_session =
  se_auth :: mcp_ctx
  se_slot :: slot
  se_calls :: nat

text \<open>The two halves of the lifespan of a session: what it starts with, and what its end does.\<close>

definition lifespan_start :: "session_init option \<Rightarrow> mcp_session res" where
  "lifespan_start init =
     (case init of
        None \<Rightarrow> Inl (RuntimeError ''MCP session started without authentication context'')
      | Some i \<Rightarrow> Inr \<lparr>se_auth = si_auth i, se_slot = si_slot i, se_calls = 0\<rparr>)"

definition lifespan_end :: "mcp_session \<Rightarrow> limiter \<Rightarrow> limiter" where
  "lifespan_end m l = snd (slot_release (se_slot m) l)"

section \<open>Requests\<close>

record request =
  rq_method :: string
  rq_authorization :: "string option"
  rq_session :: "string option"

text \<open>
  What the handler does with a request: it answers itself, raises, or hands the request to
  the session manager with what it stashed for a new session.
\<close>

datatype handled = Answered nat | Raised exn | Delegated "session_init option"

definition authenticate_from_scope ::
  "auth_env \<Rightarrow> (string \<Rightarrow> string) \<Rightarrow> (string \<Rightarrow> auth_ctx res) \<Rightarrow> (string \<Rightarrow> auth_ctx res) \<Rightarrow> bool \<Rightarrow> idb option \<Rightarrow> key_cache
   \<Rightarrow> request \<Rightarrow> nat \<Rightarrow> mcp_ctx option res" where
  "authenticate_from_scope e sha oidc cloud fails d c rq now =
     map_sum id (map_option with_tier) (fst (require_auth e sha oidc cloud fails d c (rq_authorization rq) now))"

definition is_new_session :: "request \<Rightarrow> bool" where
  "is_new_session rq \<longleftrightarrow> rq_session rq = None \<and> rq_method rq = ''POST''"

definition mcp_handler :: "mcp_ctx option res \<Rightarrow> request \<Rightarrow> limiter \<Rightarrow> handled \<times> limiter" where
  "mcp_handler auth rq l =
     (case auth of
        Inl e \<Rightarrow> (Raised e, l)
      | Inr None \<Rightarrow> (Delegated None, l)
      | Inr (Some a) \<Rightarrow>
          if \<not> is_new_session rq then (Delegated None, l)
          else if \<not> tier_satisfies (mx_tier a) MIN_TIER_FOR_HOSTED_MCP then (Answered 402, l)
          else (case acquire l (cx_tenant a) (mx_tier a) of
              (LimitExceeded used cap, l') \<Rightarrow> (Answered 429, l')
            | (NoLimit, l') \<Rightarrow> (Raised (ValueError ''No connection limit configured''), l')
            | (Slot sl, l') \<Rightarrow> (Delegated (Some \<lparr>si_auth = a, si_slot = sl\<rparr>), l')))"

section \<open>Dispatch\<close>

text \<open>The memory behind the server with its clock; the methods that prompt an LLM are \<open>me_llm\<close>.\<close>

record 's memory =
  me_backend :: "'s backend"
  me_evals :: eval_store
  me_embed :: embedder
  me_redactor :: redactor
  me_llm :: "string \<Rightarrow> pydict \<Rightarrow> scope \<Rightarrow> 's \<Rightarrow> json res \<times> 's"

text \<open>
  The SDK validates the arguments against the tool's schema before the callback runs; an
  argument of another type is an error here too.
\<close>

definition arg_text :: "pydict \<Rightarrow> string \<Rightarrow> string res" where
  "arg_text a k =
     (case dget a k of None \<Rightarrow> Inl (KeyError k)
      | Some j \<Rightarrow> (case json_str j of None \<Rightarrow> Inl (ValidationError k) | Some s \<Rightarrow> Inr s))"

definition arg_text_opt :: "pydict \<Rightarrow> string \<Rightarrow> string option res" where
  "arg_text_opt a k = (case dget a k of None \<Rightarrow> Inr None | Some j \<Rightarrow> map_sum id Some (arg_text a k))"

definition arg_float :: "pydict \<Rightarrow> string \<Rightarrow> real option \<Rightarrow> real res" where
  "arg_float a k dflt =
     (case dget a k of
        None \<Rightarrow> (case dflt of None \<Rightarrow> Inl (KeyError k) | Some x \<Rightarrow> Inr x)
      | Some j \<Rightarrow> (case json_float j of None \<Rightarrow> Inl (ValidationError k) | Some x \<Rightarrow> Inr x))"

definition arg_int :: "pydict \<Rightarrow> string \<Rightarrow> int \<Rightarrow> int res" where
  "arg_int a k dflt =
     (case dget a k of None \<Rightarrow> Inr dflt
      | Some j \<Rightarrow> (case json_int j of None \<Rightarrow> Inl (ValidationError k) | Some n \<Rightarrow> Inr n))"

definition tier_text :: "reuse_tier \<Rightarrow> string" where
  "tier_text t = (case t of Duplicate \<Rightarrow> ''duplicate'' | Adapt \<Rightarrow> ''adapt'' | Fresh \<Rightarrow> ''fresh'')"

definition match_json :: "match \<Rightarrow> json" where
  "match_json m = JObj
     [(''similarity'', JNum (m_similarity m)), (''reuse_tier'', JStr (tier_text (m_tier m))),
      (''pattern_key'', JStr (m_key m)), (''task'', JStr (p_task (m_pattern m))),
      (''success_score'', JNum (p_success_score (m_pattern m))),
      (''code'', case dget (p_design (m_pattern m)) ''code'' of None \<Rightarrow> JNull | Some c \<Rightarrow> c)]"

definition metrics_json :: "mem_metrics \<Rightarrow> json" where
  "metrics_json m =
     (let b = mm_base m in JObj
        [(''runs'', JInt (int (mt_runs b))), (''success_rate'', JNum (mt_success_rate b)),
         (''avg_eval_score'', case mm_avg_eval_score m of None \<Rightarrow> JNull | Some x \<Rightarrow> JNum x),
         (''pattern_count'', JInt (int (mm_pattern_count m))),
         (''reuse_rate'', JNum (if 0 < mt_runs b then real (mt_reuse b) / real (mt_runs b) else 0))])"

definition dispatch_learn :: "'s memory \<Rightarrow> real \<Rightarrow> string \<Rightarrow> scope \<Rightarrow> 's \<Rightarrow> pydict \<Rightarrow> json res \<times> 's" where
  "dispatch_learn M now fresh sc s a =
     (case bind_res (arg_text a ''task'') (\<lambda>t. bind_res (arg_text a ''code'') (\<lambda>c.
           bind_res (arg_float a ''eval_score'' None) (\<lambda>x. bind_res (arg_text_opt a ''output'') (\<lambda>out.
             Inr \<lparr>la_task = t, la_code = c, la_score = x, la_output = out, la_run_id = None,
                  la_classification = ''internal'', la_source = ''api'', la_author = None,
                  la_on_duplicate = ReplaceWithBetter\<rparr>)))) of
        Inl e \<Rightarrow> (Inl e, s)
      | Inr args \<Rightarrow> map_prod (map_sum id (\<lambda>r. JObj [(''stored'', JBool (lr_stored r)),
            (''pattern_count'', JInt (int (lr_pattern_count r)))])) id
          (mem_learn (me_backend M) (me_evals M) (me_embed M) (me_redactor M) now fresh sc s args))"

definition dispatch_recall :: "'s memory \<Rightarrow> real \<Rightarrow> scope \<Rightarrow> 's \<Rightarrow> pydict \<Rightarrow> json res \<times> 's" where
  "dispatch_recall M now sc s a =
     (case bind_res (arg_text a ''task'') (\<lambda>t. bind_res (arg_int a ''limit'' 5) (\<lambda>n.
           bind_res (arg_float a ''recency_weight'' (Some 0)) (\<lambda>w.
           bind_res (arg_float a ''recency_half_life_days'' (Some 30)) (\<lambda>h. Inr (t, n, w, h))))) of
        Inl e \<Rightarrow> (Inl e, s)
      | Inr (t, n, w, h) \<Rightarrow> map_prod (map_sum id (\<lambda>ms. JList (map match_json ms))) id
          (mem_recall (me_backend M) (me_evals M) (me_embed M) now sc s t n True True w h False))"

definition dispatch_to_memory ::
  "'s memory \<Rightarrow> real \<Rightarrow> string \<Rightarrow> scope \<Rightarrow> 's \<Rightarrow> string \<Rightarrow> pydict \<Rightarrow> json res \<times> 's" where
  "dispatch_to_memory M now fresh sc s name a =
     (if name = ''engramia_learn'' then dispatch_learn M now fresh sc s a
      else if name = ''engramia_recall'' then dispatch_recall M now sc s a
      else if name \<in> {''engramia_evaluate'', ''engramia_compose'', ''engramia_evolve'', ''engramia_analyze_failures''}
      then me_llm M name a sc s
      else if name = ''engramia_feedback'' then
        (bind_res (arg_text_opt a ''task_type'') (\<lambda>t. bind_res (arg_int a ''limit'' 4) (\<lambda>n.
         bind_res (get_top (me_backend M) sc s (nat n) t 0) (\<lambda>fs. Inr (JObj [(''feedback'', JList (map JStr fs))])))), s)
      else if name = ''engramia_metrics'' then
        (map_sum id metrics_json (mem_metrics_of (me_backend M) (me_evals M) sc s), s)
      else if name = ''engramia_aging'' then
        map_prod (map_sum id (\<lambda>n. JObj [(''pruned'', JInt (int n))])) id (run_aging (me_backend M) now sc s)
      else (Inl (OtherError ''ToolNotFoundError''), s))"

section \<open>Calling a tool\<close>

datatype tool_out = ToolText json | TierBlocked string string | RbacDenied string | ToolUnknown | QuotaExceeded nat | ToolError exn

text \<open>No billing service (None) means no enforcement; \<open>fails\<close> names its failing statements.\<close>

definition enforce_quota ::
  "'s memory \<Rightarrow> bill option \<Rightarrow> stmt set \<Rightarrow> nat \<Rightarrow> 's \<Rightarrow> tool_entry \<Rightarrow> mcp_ctx \<Rightarrow> unit res" where
  "enforce_quota M billing fails now s e a =
     (case (tl_quota e, billing) of
        (NoQuota, _) \<Rightarrow> Inr ()
      | (_, None) \<Rightarrow> Inr ()
      | (EvalRuns, Some b) \<Rightarrow> check_eval_runs fails b (cx_tenant a) now
      | (PatternQuota, Some b) \<Rightarrow>
          bind_res (mem_metrics_of (me_backend M) (me_evals M) (ctx_scope a) s) (\<lambda>m.
            check_patterns fails b (cx_tenant a) (mm_pattern_count m) now))"

text \<open>The gates in front of the dispatch.\<close>

definition tool_gate :: "mcp_ctx \<Rightarrow> string \<Rightarrow> tool_out + tool_entry" where
  "tool_gate a name =
     (case get_entry name of
        None \<Rightarrow> Inl ToolUnknown
      | Some e \<Rightarrow>
          if \<not> tier_satisfies (mx_tier a) (tl_min_tier e) then Inl (TierBlocked (mx_tier a) (tl_min_tier e))
          else if ''*'' \<notin> set (perms_of (cx_role a)) \<and> tl_permission e \<notin> set (perms_of (cx_role a))
          then Inl (RbacDenied (tl_permission e)) else Inr e)"

definition error_out :: "exn \<Rightarrow> tool_out" where
  "error_out e =
     (if e = OtherError ''ToolNotFoundError'' then ToolUnknown
      else case e of HttpError status t \<Rightarrow> QuotaExceeded status | _ \<Rightarrow> ToolError e)"

definition list_tools :: "mcp_session \<Rightarrow> string list" where
  "list_tools m = tools_for (mx_tier (se_auth m)) (perms_of (cx_role (se_auth m)))"

text \<open>The state of a call: the session, the store and the billing tables.\<close>

definition call_tool ::
  "'s memory \<Rightarrow> stmt set \<Rightarrow> nat \<Rightarrow> string \<Rightarrow> string \<Rightarrow> pydict \<Rightarrow> mcp_session \<times> 's \<times> bill option
   \<Rightarrow> tool_out \<times> mcp_session \<times> 's \<times> bill option" where
  "call_tool M fails now fresh name args st =
     (case st of (m, s, billing) \<Rightarrow>
       (case tool_gate (se_auth m) name of
          Inl out \<Rightarrow> (out, m, s, billing)
        | Inr e \<Rightarrow>
            (case enforce_quota M billing fails now s e (se_auth m) of
               Inl x \<Rightarrow> (error_out x, m, s, billing)
             | Inr _ \<Rightarrow>
                 (case dispatch_to_memory M (real now) fresh (ctx_scope (se_auth m)) s name args of
                    (Inl x, s') \<Rightarrow> (error_out x, m, s', billing)
                  | (Inr j, s') \<Rightarrow> (ToolText j, m\<lparr>se_calls := se_calls m + 1\<rparr>, s', billing)))))"

end
