(* ===== verification/McpProps.thy ===== *)
theory McpProps
  imports Mcp
begin

text \<open>
  Properties of the hosted MCP server: which tools a session lists and may call, how the
  slots of the limiter follow the sessions over time, and what is metered.
\<close>

section \<open>The server as a transition system\<close>

text \<open>
  The limiter and the open sessions by their id, with the slots the handler took for
  requests for which the session manager then started no session. \<open>A\<close> is the set of
  outcomes that authenticating a request can have.
\<close>

record hosted =
  ho_limiter :: limiter
  ho_sessions :: "(string, mcp_session) dict"
  ho_lost :: "slot list"

inductive hosted_step :: "mcp_ctx option res set \<Rightarrow> hosted \<Rightarrow> hosted \<Rightarrow> bool" for A :: "mcp_ctx option res set" where
  started: "auth \<in> A \<Longrightarrow> mcp_handler auth rq (ho_limiter h) = (Delegated init, l) \<Longrightarrow> lifespan_start init = Inr m
    \<Longrightarrow> dget (ho_sessions h) sid = None
    \<Longrightarrow> hosted_step A h (h\<lparr>ho_limiter := l, ho_sessions := dput sid m (ho_sessions h)\<rparr>)"
| refused: "auth \<in> A \<Longrightarrow> mcp_handler auth rq (ho_limiter h) = (Delegated (Some i), l)
    \<Longrightarrow> hosted_step A h (h\<lparr>ho_limiter := l, ho_lost := si_slot i # ho_lost h\<rparr>)"
| answered: "auth \<in> A \<Longrightarrow> mcp_handler auth rq (ho_limiter h) = (out, l) \<Longrightarrow> (\<forall>i. out \<noteq> Delegated (Some i))
    \<Longrightarrow> hosted_step A h (h\<lparr>ho_limiter := l\<rparr>)"
| called: "dget (ho_sessions h) sid = Some m
    \<Longrightarrow> hosted_step A h (h\<lparr>ho_sessions := dput sid (m\<lparr>se_calls := n\<rparr>) (ho_sessions h)\<rparr>)"
| ended: "dget (ho_sessions h) sid = Some m
    \<Longrightarrow> hosted_step A h (h\<lparr>ho_limiter := lifespan_end m (ho_limiter h), ho_sessions := ddel sid (ho_sessions h)\<rparr>)"

inductive hosted_reach :: "mcp_ctx option res set \<Rightarrow> limiter \<Rightarrow> hosted \<Rightarrow> bool"
  for A :: "mcp_ctx option res set" and l0 :: limiter where
  init: "hosted_reach A l0 \<lparr>ho_limiter = l0, ho_sessions = [], ho_lost = []\<rparr>"
| step: "hosted_reach A l0 h \<Longrightarrow> hosted_step A h h' \<Longrightarrow> hosted_reach A l0 h'"

text \<open>A call changes nothing of a session but its counter, so the step \<open>called\<close> covers every call.\<close>

lemma call_tool_keeps:
  "snd (snd (snd (call_tool M fails now fresh name args (m, s, b)))) = b \<and>
   fst (snd (call_tool M fails now fresh name args (m, s, b))) \<in> {m, m\<lparr>se_calls := se_calls m + 1\<rparr>}"
proof (cases "tool_gate (se_auth m) name")
  case (Inr e)
  show ?thesis
  proof (cases "enforce_quota M b fails now s e (se_auth m)")
    case Inr2: (Inr u)
    obtain r s' where "dispatch_to_memory M (real now) fresh (ctx_scope (se_auth m)) s name args = (r, s')" by fastforce
    then show ?thesis by (cases r) (simp_all add: call_tool_def Inr Inr2)
  qed (simp add: call_tool_def Inr)
qed (simp add: call_tool_def)

lemma session_counter: "m' \<in> {m, m\<lparr>se_calls := n\<rparr>} \<Longrightarrow> m' = m\<lparr>se_calls := se_calls m'\<rparr>"
  by (cases m) (elim insertE, simp_all)

lemma call_tool_keeps_session:
  assumes "call_tool M fails now fresh name args (m, s, b) = (out, m', s', b')"
  shows "m' = m\<lparr>se_calls := se_calls m'\<rparr>"
  by (rule session_counter [of _ _ "se_calls m + 1"])
    (use call_tool_keeps [of M fails now fresh name args m s b] in \<open>simp add: assms\<close>)

section \<open>Slots\<close>

definition slots_of :: "string \<Rightarrow> slot list \<Rightarrow> nat" where
  "slots_of t sls = length (filter (\<lambda>sl. sl_tenant sl = t) sls)"

definition open_sessions :: "hosted \<Rightarrow> string \<Rightarrow> nat" where
  "open_sessions h t = slots_of t (map (se_slot \<circ> snd) (ho_sessions h))"

definition lost_slots :: "hosted \<Rightarrow> string \<Rightarrow> nat" where
  "lost_slots h t = slots_of t (ho_lost h)"

lemma slots_of_simps [simp]:
  "slots_of t [] = 0"
  "slots_of t (sl # sls) = (if sl_tenant sl = t then 1 else 0) + slots_of t sls"
  "slots_of t (xs @ ys) = slots_of t xs + slots_of t ys"
  by (simp_all add: slots_of_def)

lemma slots_of_ddel:
  "distinct (map fst d) \<Longrightarrow> dget d k = Some m \<Longrightarrow>
   slots_of t (map (se_slot \<circ> snd) d) =
     (if sl_tenant (se_slot m) = t then 1 else 0) + slots_of t (map (se_slot \<circ> snd) (ddel k d))"
proof (induction d)
  case (Cons x d)
  obtain j n where x: "x = (j, n)" by fastforce
  show ?case
  proof (cases "j = k")
    case True
    then show ?thesis using Cons.prems x by (simp add: AList.delete_idem)
  next
    case False
    then show ?thesis using Cons.IH Cons.prems x by simp
  qed
qed simp

lemma slots_of_dput_calls:
  "dget d k = Some m \<Longrightarrow> slots_of t (map (se_slot \<circ> snd) (dput k (m\<lparr>se_calls := n\<rparr>) d)) = slots_of t (map (se_slot \<circ> snd) d)"
  by (induction d) (auto split: if_splits)

lemma active_count_dput [simp]:
  "active_count (l\<lparr>li_counts := dput u n c\<rparr>) t = (if t = u then n else active_count (l\<lparr>li_counts := c\<rparr>) t)"
  by (simp add: active_count_def dict_simps)

lemma active_count_ddel [simp]:
  "active_count (l\<lparr>li_counts := ddel u c\<rparr>) t = (if t = u then 0 else active_count (l\<lparr>li_counts := c\<rparr>) t)"
  by (simp add: active_count_def dict_simps)

lemma limiter_self [simp]: "l\<lparr>li_counts := li_counts l\<rparr> = l"
  by simp

text \<open>What the handler does, by its guards.\<close>

lemma handler_delegates:
  assumes "mcp_handler auth rq l = (Delegated (Some i), l')"
  obtains a where "auth = Inr (Some a)" "is_new_session rq" "tier_satisfies (mx_tier a) MIN_TIER_FOR_HOSTED_MCP"
    "active_count l (cx_tenant a) < cap_for l (mx_tier a)"
    "i = \<lparr>si_auth = a, si_slot = \<lparr>sl_tenant = cx_tenant a, sl_tier = mx_tier a, sl_released = False\<rparr>\<rparr>"
    "l' = l\<lparr>li_counts := dput (cx_tenant a) (active_count l (cx_tenant a) + 1) (li_counts l)\<rparr>"
  using assms
  by (auto simp: mcp_handler_def acquire_def Let_def split: sum.splits option.splits if_splits prod.splits acquired.splits)

lemma handler_otherwise:
  "mcp_handler auth rq l = (out, l') \<Longrightarrow> (\<forall>i. out \<noteq> Delegated (Some i)) \<Longrightarrow> l' = l"
  by (auto simp: mcp_handler_def acquire_def Let_def split: sum.splits option.splits if_splits prod.splits acquired.splits)

lemma handler_new_session:
  assumes "is_new_session rq" "tier_satisfies (mx_tier a) MIN_TIER_FOR_HOSTED_MCP" "0 < cap_for l (mx_tier a)"
  shows "fst (mcp_handler (Inr (Some a)) rq l) =
    (if active_count l (cx_tenant a) < cap_for l (mx_tier a)
     then Delegated (Some \<lparr>si_auth = a, si_slot = \<lparr>sl_tenant = cx_tenant a, sl_tier = mx_tier a, sl_released = False\<rparr>\<rparr>)
     else Answered 429)"
  using assms by (simp add: mcp_handler_def acquire_def Let_def)

text \<open>The invariant: every session and every lost slot counts once.\<close>

definition slots_ok :: "mcp_ctx option res set \<Rightarrow> limiter \<Rightarrow> hosted \<Rightarrow> bool" where
  "slots_ok A l0 h \<longleftrightarrow>
     li_limits (ho_limiter h) = li_limits l0 \<and> distinct (map fst (ho_sessions h)) \<and>
     (\<forall>(sid, m) \<in> set (ho_sessions h). \<not> sl_released (se_slot m) \<and> sl_tenant (se_slot m) = cx_tenant (se_auth m) \<and>
        Inr (Some (se_auth m)) \<in> A) \<and>
     (\<forall>t. active_count (ho_limiter h) t = int (open_sessions h t) + int (lost_slots h t))"

lemma cap_for_limits: "li_limits l = li_limits l' \<Longrightarrow> cap_for l = cap_for l'"
  by (simp add: cap_for_def fun_eq_iff)

lemma lifespan_start_Inr: "lifespan_start init = Inr m \<longleftrightarrow> (\<exists>i. init = Some i \<and> m = \<lparr>se_auth = si_auth i, se_slot = si_slot i, se_calls = 0\<rparr>)"
  by (auto simp: lifespan_start_def split: option.splits)

lemma dput_in: "x \<in> set (dput k v d) \<Longrightarrow> x = (k, v) \<or> x \<in> set d"
  by (induction d) (auto split: if_splits)

lemma slots_ok_step:
  assumes "slots_ok A l0 h" "hosted_step A h h'"
  shows "slots_ok A l0 h'"
  using assms(2)
proof cases
  case (started auth rq init l m sid)
  obtain i where i: "init = Some i" "m = \<lparr>se_auth = si_auth i, se_slot = si_slot i, se_calls = 0\<rparr>"
    using started(4) by (auto simp: lifespan_start_Inr)
  show ?thesis using started(3) [unfolded i(1)]
  proof (rule handler_delegates)
    fix a
    assume a: "auth = Inr (Some a)"
      "i = \<lparr>si_auth = a, si_slot = \<lparr>sl_tenant = cx_tenant a, sl_tier = mx_tier a, sl_released = False\<rparr>\<rparr>"
      "l = (ho_limiter h)\<lparr>li_counts := dput (cx_tenant a) (active_count (ho_limiter h) (cx_tenant a) + 1) (li_counts (ho_limiter h))\<rparr>"
    have d: "dput sid x (ho_sessions h) = ho_sessions h @ [(sid, x)]" for x
      using started(5) by (intro dkeys_dput_new) (simp add: dget_None_iff)
    have n: "sid \<notin> fst ` set (ho_sessions h)" using started(5) by (simp add: dget_None_iff)
    show ?thesis using assms(1) started(2) n
      unfolding slots_ok_def started(1) d a(3) i(2) a(2)
      by (auto simp: open_sessions_def lost_slots_def a(1) active_count_def dict_simps)
  qed
next
  case (refused auth rq i l)
  show ?thesis using refused(3)
  proof (rule handler_delegates)
    fix a
    assume a: "i = \<lparr>si_auth = a, si_slot = \<lparr>sl_tenant = cx_tenant a, sl_tier = mx_tier a, sl_released = False\<rparr>\<rparr>"
      "l = (ho_limiter h)\<lparr>li_counts := dput (cx_tenant a) (active_count (ho_limiter h) (cx_tenant a) + 1) (li_counts (ho_limiter h))\<rparr>"
    show ?thesis using assms(1) unfolding slots_ok_def refused(1) a
      by (auto simp: open_sessions_def lost_slots_def active_count_def dict_simps)
  qed
next
  case (answered auth rq out l)
  then have "l = ho_limiter h" using handler_otherwise by blast
  then show ?thesis using assms(1) answered(1) by (simp add: slots_ok_def open_sessions_def lost_slots_def)
next
  case (called sid m n)
  have "(sid, m) \<in> set (ho_sessions h)" using called(2) by (rule map_of_SomeD)
  then show ?thesis using assms(1) slots_of_dput_calls [OF called(2)] unfolding slots_ok_def called(1)
    by (auto simp: open_sessions_def lost_slots_def distinct_update dest!: dput_in)
next
  case (ended sid m)
  have m: "(sid, m) \<in> set (ho_sessions h)" using ended(2) by (rule map_of_SomeD)
  have r: "\<not> sl_released (se_slot m)" and ds: "distinct (map fst (ho_sessions h))"
    using assms(1) m by (auto simp: slots_ok_def)
  define u where "u = sl_tenant (se_slot m)"
  have cnt: "slots_of t (map (se_slot \<circ> snd) (ho_sessions h)) =
      (if u = t then 1 else 0) + slots_of t (map (se_slot \<circ> snd) (ddel sid (ho_sessions h)))" for t
    using slots_of_ddel [OF ds ended(2)] by (simp add: u_def)
  have act: "active_count (ho_limiter h) t = int (slots_of t (map (se_slot \<circ> snd) (ho_sessions h))) + int (lost_slots h t)" for t
    using assms(1) by (simp add: slots_ok_def open_sessions_def)
  have l: "lifespan_end m (ho_limiter h) = release_callback u (ho_limiter h)"
    using r by (simp add: lifespan_end_def slot_release_def u_def)
  have "active_count (release_callback u (ho_limiter h)) t =
      int (slots_of t (map (se_slot \<circ> snd) (ddel sid (ho_sessions h)))) + int (lost_slots h t)" for t
    using act [of t] act [of u] cnt [of t] cnt [of u] by (auto simp: release_callback_def Let_def)
  moreover have "li_limits (release_callback u (ho_limiter h)) = li_limits (ho_limiter h)"
    by (simp add: release_callback_def Let_def)
  moreover have "set (ddel sid (ho_sessions h)) \<subseteq> set (ho_sessions h)" by (auto simp: AList.delete_eq)
  ultimately show ?thesis using assms(1) unfolding slots_ok_def ended(1) l
    by (auto simp: open_sessions_def lost_slots_def distinct_delete)
qed

lemma slots_ok_reach: "hosted_reach A l0 h \<Longrightarrow> li_counts l0 = [] \<Longrightarrow> slots_ok A l0 h"
proof (induction rule: hosted_reach.induct)
  case init
  then show ?case by (simp add: slots_ok_def open_sessions_def lost_slots_def active_count_def)
next
  case (step h h')
  then show ?case by (meson slots_ok_step)
qed

lemma reach_extend: "(hosted_step A)\<^sup>*\<^sup>* h h' \<Longrightarrow> hosted_reach A l0 h \<Longrightarrow> hosted_reach A l0 h'"
  by (induction rule: rtranclp_induct) (auto intro: hosted_reach.step)

section \<open>Sessions against the cap\<close>

text \<open>With one tier per tenant the slots in use stay under the cap of that tier.\<close>

lemma slots_under_cap:
  assumes "hosted_reach A l0 h" "li_counts l0 = []" "\<forall>a. Inr (Some a) \<in> A \<longrightarrow> mx_tier a = T (cx_tenant a)"
  shows "active_count (ho_limiter h) t \<le> max 0 (cap_for l0 (T t))"
  using assms(1)
proof (induction rule: hosted_reach.induct)
  case init
  then show ?case using assms(2) by (simp add: active_count_def)
next
  case (step h h')
  have ok: "slots_ok A l0 h" "slots_ok A l0 h'"
    using slots_ok_reach [OF step(1) assms(2)] slots_ok_step [OF _ step(2)] by blast+
  have cap: "cap_for (ho_limiter h) = cap_for l0" using ok(1) by (intro cap_for_limits) (simp add: slots_ok_def)
  have grow: "active_count l t \<le> max 0 (cap_for l0 (T t))"
    if g: "auth \<in> A" "mcp_handler auth rq (ho_limiter h) = (Delegated (Some i), l)" for auth rq i l
    using g(2)
  proof (rule handler_delegates)
    fix a
    assume a: "auth = Inr (Some a)" "active_count (ho_limiter h) (cx_tenant a) < cap_for (ho_limiter h) (mx_tier a)"
      "l = (ho_limiter h)\<lparr>li_counts := dput (cx_tenant a) (active_count (ho_limiter h) (cx_tenant a) + 1) (li_counts (ho_limiter h))\<rparr>"
    have "mx_tier a = T (cx_tenant a)" using assms(3) g(1) a(1) by blast
    then show ?thesis using a(2) step.IH cap unfolding a(3) by (simp, linarith)
  qed
  show ?case using step(2)
  proof cases
    case (started auth rq init l m sid)
    then show ?thesis using grow by (auto simp: lifespan_start_Inr)
  next
    case (refused auth rq i l)
    then show ?thesis using grow by simp
  next
    case (answered auth rq out l)
    then show ?thesis using handler_otherwise step.IH by fastforce
  next
    case (called sid m n)
    then show ?thesis using step.IH by simp
  next
    case (ended sid m)
    have "int (open_sessions h' t) \<le> int (open_sessions h t)"
      using slots_of_ddel [OF _ ended(2), of t] ok(1) by (simp add: ended(1) open_sessions_def slots_ok_def)
    moreover have "lost_slots h' t = lost_slots h t" by (simp add: ended(1) lost_slots_def)
    ultimately have "active_count (ho_limiter h') t \<le> active_count (ho_limiter h) t"
      using ok by (simp add: slots_ok_def)
    then show ?thesis using step.IH by linarith
  qed
qed

text \<open>
  C37. A tenant's open MCP sessions stay within the cap of its tier. In every reachable state
  of the hosted server, however requests, tool calls and ends of sessions interleave, the
  limiter counts for a tenant exactly its open sessions and the slots taken for sessions
  that were never started; while a tenant keeps its tier this count is at most the
  configured cap; and a new session of a tenant whose tier qualifies is let through exactly
  when the count is below the cap, otherwise it is answered with 429.
\<close>

theorem mcp_sessions_stay_under_the_cap:
  assumes "hosted_reach A l0 h" "li_counts l0 = []" "\<forall>a. Inr (Some a) \<in> A \<longrightarrow> mx_tier a = T (cx_tenant a)"
    and "is_new_session rq" "tier_satisfies (mx_tier a) MIN_TIER_FOR_HOSTED_MCP" "0 < cap_for l0 (mx_tier a)"
  shows "active_count (ho_limiter h) t = int (open_sessions h t) + int (lost_slots h t) \<and>
    int (open_sessions h t) \<le> max 0 (cap_for l0 (T t)) \<and>
    fst (mcp_handler (Inr (Some a)) rq (ho_limiter h)) =
      (if int (open_sessions h (cx_tenant a)) + int (lost_slots h (cx_tenant a)) < cap_for l0 (mx_tier a)
       then Delegated (Some \<lparr>si_auth = a, si_slot = \<lparr>sl_tenant = cx_tenant a, sl_tier = mx_tier a, sl_released = False\<rparr>\<rparr>)
       else Answered 429)"
proof -
  have ok: "slots_ok A l0 h" using slots_ok_reach assms(1,2) by blast
  have cap: "cap_for (ho_limiter h) = cap_for l0" using ok by (intro cap_for_limits) (simp add: slots_ok_def)
  have n: "active_count (ho_limiter h) u = int (open_sessions h u) + int (lost_slots h u)" for u
    using ok by (simp add: slots_ok_def)
  show ?thesis
    using slots_under_cap [OF assms(1-3), of t] handler_new_session [OF assms(4,5), of "ho_limiter h"] assms(6)
    by (simp add: n cap)
qed

definition team_ctx :: mcp_ctx where
  "team_ctx = \<lparr>cx_key = ''k'', cx_tenant = ''t'', cx_project = ''p'', cx_role = ''editor'', cx_max = None, mx_tier = ''team''\<rparr>"

definition new_request :: request where
  "new_request = \<lparr>rq_method = ''POST'', rq_authorization = Some ''Bearer k'', rq_session = None\<rparr>"

definition one_slot :: limiter where "one_slot = \<lparr>li_limits = [(''team'', 1)], li_counts = []\<rparr>"

definition one_init :: session_init where
  "one_init = \<lparr>si_auth = team_ctx, si_slot = \<lparr>sl_tenant = ''t'', sl_tier = ''team'', sl_released = False\<rparr>\<rparr>"

lemma one_slot_taken:
  "mcp_handler (Inr (Some team_ctx)) new_request one_slot = (Delegated (Some one_init), one_slot\<lparr>li_counts := [(''t'', 1)]\<rparr>)"
  by code_simp

lemma team_new: "is_new_session new_request" "tier_satisfies (mx_tier team_ctx) MIN_TIER_FOR_HOSTED_MCP"
  "0 < cap_for one_slot (mx_tier team_ctx)" "cap_for one_slot (mx_tier team_ctx) = 1" "cx_tenant team_ctx = ''t''" "li_counts one_slot = []"
  by code_simp+

definition one_open :: hosted where
  "one_open = \<lparr>ho_limiter = one_slot\<lparr>li_counts := [(''t'', 1)]\<rparr>,
     ho_sessions = [(''s'', \<lparr>se_auth = team_ctx, se_slot = si_slot one_init, se_calls = 0\<rparr>)], ho_lost = []\<rparr>"

lemma one_open_reach: "hosted_reach {Inr (Some team_ctx)} one_slot one_open"
  using hosted_reach.step [OF hosted_reach.init hosted_step.started [OF _ _ lifespan_start_Inr [THEN iffD2], of _ _ new_request]]
  by (rule back_subst [of "hosted_reach _ _"])
    (auto simp: one_open_def one_slot_taken one_init_def)

theorem mcp_sessions_stay_under_the_cap_witness:
  "fst (mcp_handler (Inr (Some team_ctx)) new_request (ho_limiter one_open)) = Answered 429"
proof -
  have "open_sessions one_open ''t'' = 1" "lost_slots one_open ''t'' = 0"
    by (simp_all add: one_open_def open_sessions_def lost_slots_def one_init_def)
  then show ?thesis
    using mcp_sessions_stay_under_the_cap [OF one_open_reach team_new(6) _ team_new(1-3), of "\<lambda>_. ''team''"] team_new(4,5)
    by (simp add: team_ctx_def)
qed

section \<open>Slots that nobody gives back\<close>

lemma lost_grows: "(hosted_step A)\<^sup>*\<^sup>* h h' \<Longrightarrow> lost_slots h t \<le> lost_slots h' t"
proof (induction rule: rtranclp_induct)
  case (step h1 h2)
  have "lost_slots h1 t \<le> lost_slots h2 t"
    using step(2) by cases (auto simp: lost_slots_def)
  then show ?case using step.IH by linarith
qed simp

text \<open>
  C38. A session that the manager does not start costs its slot for good. The handler takes
  the slot before it hands the request over and gives it back only through the end of the
  session. So once as many of a tenant's requests as its cap allows were refused by the
  session manager (every request is, while the manager is not running), every new session
  of the tenant is answered with 429 in all later states, even after all its sessions ended.
\<close>

theorem refused_sessions_lock_the_tenant_out:
  assumes "hosted_reach A l0 h" "li_counts l0 = []"
    and "is_new_session rq" "tier_satisfies (mx_tier a) MIN_TIER_FOR_HOSTED_MCP" "0 < cap_for l0 (mx_tier a)"
    and "cap_for l0 (mx_tier a) \<le> int (lost_slots h (cx_tenant a))" "(hosted_step A)\<^sup>*\<^sup>* h h'"
  shows "fst (mcp_handler (Inr (Some a)) rq (ho_limiter h')) = Answered 429"
proof -
  have ok: "slots_ok A l0 h'" using slots_ok_reach reach_extend assms(1,2,7) by blast
  have cap: "cap_for (ho_limiter h') = cap_for l0" using ok by (intro cap_for_limits) (simp add: slots_ok_def)
  have "active_count (ho_limiter h') (cx_tenant a) = int (open_sessions h' (cx_tenant a)) + int (lost_slots h' (cx_tenant a))"
    using ok by (simp add: slots_ok_def)
  moreover have "lost_slots h (cx_tenant a) \<le> lost_slots h' (cx_tenant a)" using assms(7) by (rule lost_grows)
  ultimately have "\<not> active_count (ho_limiter h') (cx_tenant a) < cap_for l0 (mx_tier a)" using assms(6) by linarith
  then show ?thesis using handler_new_session [OF assms(3,4), of "ho_limiter h'"] assms(5) by (simp add: cap)
qed

theorem refused_sessions_lock_the_tenant_out_witness:
  "\<exists>h. hosted_reach {Inr (Some team_ctx)} one_slot h \<and> ho_sessions h = [] \<and>
     (\<forall>h'. (hosted_step {Inr (Some team_ctx)})\<^sup>*\<^sup>* h h'
        \<longrightarrow> fst (mcp_handler (Inr (Some team_ctx)) new_request (ho_limiter h')) = Answered 429)"
proof -
  let ?h = "\<lparr>ho_limiter = one_slot\<lparr>li_counts := [(''t'', 1)]\<rparr>, ho_sessions = [], ho_lost = [si_slot one_init]\<rparr>"
  have r: "hosted_reach {Inr (Some team_ctx)} one_slot ?h"
    using hosted_reach.step [OF hosted_reach.init hosted_step.refused [of _ _ new_request]]
    by (rule back_subst [of "hosted_reach _ _"]) (auto simp: one_slot_taken)
  have "cap_for one_slot (mx_tier team_ctx) \<le> int (lost_slots ?h (cx_tenant team_ctx))"
    by (simp add: team_new lost_slots_def one_init_def)
  then show ?thesis using refused_sessions_lock_the_tenant_out [OF r team_new(6) team_new(1-3)] r
    by (intro exI [of _ ?h]) auto
qed

section \<open>What the authentication lets through\<close>

definition server_auths :: "mcp_ctx option res set" where
  "server_auths = {authenticate_from_scope e sha oidc cloud fails d c rq now | e sha oidc cloud fails d c rq now. True}"

lemma map_ctx_Some: "map_sum id (map_option f) r = Inr (Some a) \<Longrightarrow> \<exists>c. a = f c"
  by (cases r) auto

lemma authenticated_in: "authenticate_from_scope e sha oidc cloud fails d c rq now = a \<Longrightarrow> a \<in> server_auths"
  unfolding server_auths_def by blast

lemma server_auths_tier: "Inr (Some a) \<in> server_auths \<Longrightarrow> mx_tier a = ''developer''"
proof -
  assume "Inr (Some a) \<in> server_auths"
  then obtain e sha oidc cloud fails d c rq now
    where "Inr (Some a) = authenticate_from_scope e sha oidc cloud fails d c rq now"
    unfolding server_auths_def by blast
  then have "\<exists>c. a = with_tier c"
    unfolding authenticate_from_scope_def by (intro map_ctx_Some) (rule sym)
  then show ?thesis by (auto simp: with_tier_def)
qed

lemma developer_below: "\<not> tier_satisfies ''developer'' MIN_TIER_FOR_HOSTED_MCP"
  by code_simp

lemma developer_turned_away:
  assumes "mx_tier a = ''developer''"
  shows "mcp_handler (Inr (Some a)) rq l = (if is_new_session rq then Answered 402 else Delegated None, l)"
  using developer_below assms by (simp add: mcp_handler_def)

text \<open>
  C36. The hosted MCP server serves nobody. No construction of an authentication context sets
  the plan tier, so every authenticated caller counts as a developer, whatever plan its
  tenant pays for: in every reachable state of the server, in every mode of authentication
  and with every key, no session is open, and every request that authenticates and asks for
  a new session is answered with 402.
\<close>

theorem hosted_mcp_serves_nobody:
  assumes "hosted_reach server_auths l0 h"
  shows "ho_sessions h = [] \<and>
    (\<forall>a rq. Inr (Some a) \<in> server_auths \<longrightarrow> is_new_session rq \<longrightarrow>
       mcp_handler (Inr (Some a)) rq (ho_limiter h) = (Answered 402, ho_limiter h))"
proof
  show "ho_sessions h = []" using assms
  proof (induction rule: hosted_reach.induct)
    case (step h h')
    have no: "False" if s: "auth \<in> server_auths" "mcp_handler auth rq l = (Delegated (Some i), l')" for auth rq l i l'
      using s(2)
    proof (rule handler_delegates)
      fix a
      assume "auth = Inr (Some a)" "tier_satisfies (mx_tier a) MIN_TIER_FOR_HOSTED_MCP"
      then show False using s(1) server_auths_tier developer_below by metis
    qed
    show ?case using step(2)
    proof cases
      case (started auth rq init l m sid)
      then show ?thesis using no by (auto simp: lifespan_start_Inr)
    next
      case (refused auth rq i l)
      then show ?thesis using no by blast
    qed (use step.IH in simp_all)
  qed simp
  show "\<forall>a rq. Inr (Some a) \<in> server_auths \<longrightarrow> is_new_session rq \<longrightarrow>
      mcp_handler (Inr (Some a)) rq (ho_limiter h) = (Answered 402, ho_limiter h)"
    using developer_turned_away server_auths_tier by simp
qed

definition env_keys :: auth_env where
  "env_keys = \<lparr>ae_mode = ''env'', ae_database_url = [], ae_api_keys = ''k'', ae_allow_no_auth = [], ae_env = [], ae_role = ''owner''\<rparr>"

definition env_owner :: mcp_ctx where
  "env_owner = \<lparr>cx_key = ''env-key'', cx_tenant = ''default'', cx_project = ''default'', cx_role = ''owner'', cx_max = None,
     mx_tier = ''developer''\<rparr>"

lemma env_owner_authenticated: "Inr (Some env_owner) \<in> server_auths"
proof -
  have "authenticate_from_scope env_keys (\<lambda>x. x) (\<lambda>_. Inl (KeyError [])) (\<lambda>_. Inl (KeyError [])) False None [] new_request 0
      = Inr (Some env_owner)"
    by code_simp
  then show ?thesis by (rule authenticated_in)
qed

theorem hosted_mcp_serves_nobody_witness:
  "mcp_handler (Inr (Some env_owner)) new_request (new_limiter None) = (Answered 402, new_limiter None)"
  using hosted_mcp_serves_nobody [OF hosted_reach.init [of server_auths "new_limiter None"]] env_owner_authenticated team_new(1)
  by simp

section \<open>Listed tools\<close>

lemma entry_of_tool: "e \<in> set ALL_TOOLS \<Longrightarrow> get_entry (tl_name e) = Some e"
proof -
  have "list_all (\<lambda>e. get_entry (tl_name e) = Some e) ALL_TOOLS" by code_simp
  then show "e \<in> set ALL_TOOLS \<Longrightarrow> ?thesis" by (simp add: list_all_iff)
qed

lemma gate_visible:
  "e \<in> set ALL_TOOLS \<Longrightarrow> tool_gate a (tl_name e) = Inr e \<longleftrightarrow> visible_to e (mx_tier a) (perms_of (cx_role a))"
  using entry_of_tool [of e] by (simp add: tool_gate_def visible_to_def)

lemma listed_gate:
  "name \<in> set (list_tools m) \<longleftrightarrow> (\<exists>e \<in> set ALL_TOOLS. tl_name e = name \<and> tool_gate (se_auth m) name = Inr e)"
proof -
  have "name \<in> set (list_tools m) \<longleftrightarrow>
      (\<exists>e \<in> set ALL_TOOLS. tl_name e = name \<and> visible_to e (mx_tier (se_auth m)) (perms_of (cx_role (se_auth m))))"
    unfolding list_tools_def tools_for_def set_map set_filter by blast
  then show ?thesis using gate_visible [of _ "se_auth m"] by blast
qed

lemma gate_permission:
  "tool_gate a name = Inr e \<Longrightarrow> require_permission (Some (cx_role a)) (tl_permission e) = Inr ()"
  by (auto simp: tool_gate_def require_permission_def split: option.splits if_splits)

text \<open>
  The list of tools and the gates of a call agree. A session lists a tool exactly when
  calling it passes the gates, that is when the catalogue has it, the tier of the tenant is
  at least the tool's and the role has the permission, which is the check a REST route makes.
\<close>

theorem listed_tools_are_callable:
  "name \<in> set (list_tools m) \<longleftrightarrow>
     (\<exists>e \<in> set ALL_TOOLS. tl_name e = name \<and> tool_gate (se_auth m) name = Inr e \<and>
        require_permission (Some (cx_role (se_auth m))) (tl_permission e) = Inr ())"
  using gate_permission by (auto simp: listed_gate)

section \<open>Metering\<close>

type_synonym tool_use = "nat \<times> string \<times> string \<times> pydict"

fun call_all :: "'s memory \<Rightarrow> stmt set \<Rightarrow> tool_use list \<Rightarrow> mcp_session \<times> 's \<times> bill option \<Rightarrow> mcp_session \<times> 's \<times> bill option" where
  "call_all M fails [] st = st"
| "call_all M fails ((now, fresh, name, args) # us) st = call_all M fails us (snd (call_tool M fails now fresh name args st))"

lemma call_all_keeps:
  "snd (snd (call_all M fails us (m, s, b))) = b \<and> se_auth (fst (call_all M fails us (m, s, b))) = se_auth m"
proof (induction us arbitrary: m s)
  case (Cons u us)
  obtain now fresh name args where u: "u = (now, fresh, name, args)" by (cases u) auto
  obtain out m' s' b' where c: "call_tool M fails now fresh name args (m, s, b) = (out, m', s', b')" by (metis prod.exhaust)
  have "b' = b" using call_tool_keeps [of M fails now fresh name args m s b] by (simp add: c)
  moreover have "se_auth m' = se_auth m" using call_tool_keeps_session [OF c] by (metis mcp_session.select_convs(1) mcp_session.surjective mcp_session.update_convs(3))
  ultimately show ?case using Cons.IH [of m' s'] by (simp add: u c)
qed simp

lemma evaluate_entry: "get_entry ''engramia_evaluate'' = Some (tool ''engramia_evaluate'' ''evaluate'' ''team'' EvalRuns)"
  by code_simp

text \<open>
  Evaluations over MCP are never counted. The quota check of a tool call only reads the
  counter, and nothing increments it after the call as the REST route does. So a session
  whose tenant has one evaluation left runs any number of them in a month: after any
  sequence of tool calls the billing tables are as before, and the next evaluation reaches
  the evaluator in the session's scope.
\<close>

theorem mcp_evaluations_are_not_counted:
  assumes "''engramia_evaluate'' \<in> set (list_tools m)" "check_eval_runs fails b (cx_tenant (se_auth m)) now = Inr ()"
    and "call_all M fails us (m, s, Some b) = (m', s', billing')"
  shows "billing' = Some b \<and>
    call_tool M fails now fresh ''engramia_evaluate'' args (m', s', billing') =
      (case me_llm M ''engramia_evaluate'' args (ctx_scope (se_auth m)) s' of
         (Inl x, s2) \<Rightarrow> (error_out x, m', s2, billing')
       | (Inr j, s2) \<Rightarrow> (ToolText j, m'\<lparr>se_calls := se_calls m' + 1\<rparr>, s2, billing'))"
proof -
  let ?e = "tool ''engramia_evaluate'' ''evaluate'' ''team'' EvalRuns"
  have k: "billing' = Some b" "se_auth m' = se_auth m"
    using call_all_keeps [of M fails us m s "Some b"] assms(3) by simp_all
  obtain e where e: "e \<in> set ALL_TOOLS" "tl_name e = ''engramia_evaluate''" "tool_gate (se_auth m) ''engramia_evaluate'' = Inr e"
    using assms(1) listed_gate by blast
  have "e = ?e" using entry_of_tool [OF e(1)] evaluate_entry e(2) by simp
  then have "tool_gate (se_auth m) ''engramia_evaluate'' = Inr ?e" using e(3) by simp
  moreover have "enforce_quota M (Some b) fails now s' ?e (se_auth m) = Inr ()"
    using assms(2) by (simp add: enforce_quota_def tool_def)
  moreover have "dispatch_to_memory M (real now) fresh sc s' ''engramia_evaluate'' args = me_llm M ''engramia_evaluate'' args sc s'" for sc
    by (simp add: dispatch_to_memory_def)
  ultimately show ?thesis by (simp add: call_tool_def k split: prod.split sum.split)
qed

definition team_session :: mcp_session where
  "team_session = \<lparr>se_auth = team_ctx, se_slot = si_slot one_init, se_calls = 0\<rparr>"

definition empty_bill :: bill where
  "empty_bill = \<lparr>bi_engine = True, bi_subs = [], bi_tenants = [], bi_overage = [], bi_usage = [], bi_projects = [], bi_users = [],
     bi_events = [], bi_invoiced = [], bi_env = []\<rparr>"

lemma empty_bill_admits: "check_eval_runs {} empty_bill ''t'' 0 = Inr ()"
  by (simp add: check_eval_runs_def enforce_eval_runs_def get_subscription_def empty_bill_def usage_db_def usage_get_def
    admin_assigned_plan_def developer_default_def plan_subscription_def check_subscription_active_def
    developer_limits_def limits_of_def)

definition mcp_memory :: "json_store memory" where
  "mcp_memory = \<lparr>me_backend = json_backend (\<lambda>_ _. 0) (\<lambda>_. 0), me_evals = \<lparr>es_tenant = ''t'', es_project = ''p''\<rparr>, me_embed = None,
     me_redactor = None, me_llm = \<lambda>_ _ _ s. (Inr JNull, s)\<rparr>"

theorem mcp_evaluations_are_not_counted_witness:
  "fst (call_tool mcp_memory {} 0 [] ''engramia_evaluate'' []
     (call_all mcp_memory {} (replicate 1000000 (0, [], ''engramia_evaluate'', [])) (team_session, s, Some empty_bill))) = ToolText JNull"
proof -
  obtain m' s' b' where c: "call_all mcp_memory {} (replicate 1000000 (0, [], ''engramia_evaluate'', [])) (team_session, s, Some empty_bill) = (m', s', b')"
    by (metis prod.exhaust)
  have "''engramia_evaluate'' \<in> set (list_tools team_session)" by code_simp
  moreover have "cx_tenant (se_auth team_session) = ''t''" "me_llm mcp_memory n a sc x = (Inr JNull, x)" for n a sc x
    by (simp_all add: team_session_def team_ctx_def mcp_memory_def)
  ultimately show ?thesis
    using mcp_evaluations_are_not_counted [OF _ _ c, of 0 "[]" "[]"] empty_bill_admits unfolding c by auto
qed

end
