(* ===== verification/Analytics.thy ===== *)
theory Analytics
  imports RoiCollector EvalFeedback EvalStore Patterns
begin

text \<open>
  \<open>engramia/analytics/aggregator.py\<close> with the models of \<open>analytics/models.py\<close> and the endpoints
  of \<open>engramia/api/analytics.py\<close>: rollups of the learn and recall events per tenant and
  project, kept in one document each. \<open>now\<close> is \<open>time.time()\<close>.
\<close>

section \<open>Models\<close>

record recall_outcome =
  ro_total :: int
  ro_duplicate :: int
  ro_adapt :: int
  ro_fresh :: int
  ro_reuse_rate :: real
  ro_avg_similarity :: real

record learn_summary =
  ls_total :: int
  ls_avg :: real
  ls_p50 :: real
  ls_p90 :: real

record roi_rollup =
  ru_tenant :: string
  ru_project :: string
  ru_window :: string
  ru_start :: string
  ru_recall :: recall_outcome
  ru_learn :: learn_summary
  ru_score :: real
  ru_computed :: string

definition WINDOW_SECONDS :: "(string, nat) dict" where
  "WINDOW_SECONDS = [(''hourly'', 3600), (''daily'', 86400), (''weekly'', 604800)]"

definition window_start_iso :: "real \<Rightarrow> nat \<Rightarrow> string" where
  "window_start_iso now duration = gmtime_iso (of_int (\<lfloor>now / real duration\<rfloor> * int duration))"

definition rollup_key :: "string \<Rightarrow> string \<Rightarrow> string \<Rightarrow> string" where
  "rollup_key window tenant project = ''analytics/rollup/'' @ window @ ''/'' @ tenant @ ''/'' @ project"

section \<open>One rollup\<close>

definition mean4 :: "real list \<Rightarrow> real" where
  "mean4 xs = (if xs = [] then 0 else py_round 4 (sum_list xs / real (length xs)))"

definition tier_count :: "reuse_tier \<Rightarrow> roi_event list \<Rightarrow> int" where
  "tier_count t es = int (length (filter (\<lambda>e. ev_tier e = Some t) es))"

definition recall_summary :: "roi_event list \<Rightarrow> recall_outcome" where
  "recall_summary es =
     (let hits = tier_count Duplicate es + tier_count Adapt es
      in \<lparr>ro_total = int (length es), ro_duplicate = tier_count Duplicate es, ro_adapt = tier_count Adapt es,
          ro_fresh = tier_count Fresh es,
          ro_reuse_rate = (if es = [] then 0 else py_round 4 (real_of_int hits / real (length es))),
          ro_avg_similarity = mean4 (List.map_filter ev_similarity es)\<rparr>)"

text \<open>The nearest rank of the 90th percentile, from 1.\<close>

definition rank_90 :: "nat \<Rightarrow> nat" where
  "rank_90 n = nat (max 1 \<lceil>9 / 10 * real n\<rceil>)"

definition nearest_90 :: "real list \<Rightarrow> real" where
  "nearest_90 xs = sort xs ! (rank_90 (length xs) - 1)"

definition learn_summary_of :: "roi_event list \<Rightarrow> learn_summary" where
  "learn_summary_of es =
     (let scores = List.map_filter ev_eval_score es
      in \<lparr>ls_total = int (length es), ls_avg = mean4 scores,
          ls_p50 = (if scores = [] then 0 else py_round 4 (median scores)),
          ls_p90 = (if scores = [] then 0 else py_round 4 (nearest_90 scores))\<rparr>)"

definition roi_score_of :: "real \<Rightarrow> real \<Rightarrow> real" where
  "roi_score_of reuse_rate avg_eval = min 10 (max 0 (py_round 4 (6 / 10 * reuse_rate * 10 + 4 / 10 * avg_eval)))"

definition compute_rollup ::
  "string \<Rightarrow> string \<Rightarrow> string \<Rightarrow> string \<Rightarrow> string \<Rightarrow> roi_event list \<Rightarrow> roi_rollup" where
  "compute_rollup tenant project window start computed es =
     (let r = recall_summary (filter (\<lambda>e. ev_kind e = RECALL) es);
          l = learn_summary_of (filter (\<lambda>e. ev_kind e = LEARN) es)
      in \<lparr>ru_tenant = tenant, ru_project = project, ru_window = window, ru_start = start, ru_recall = r,
          ru_learn = l, ru_score = roi_score_of (ro_reuse_rate r) (ls_avg l), ru_computed = computed\<rparr>)"

section \<open>Stored rollups\<close>

definition recall_dump :: "recall_outcome \<Rightarrow> pydict" where
  "recall_dump r = [(''total'', JInt (ro_total r)), (''duplicate_hits'', JInt (ro_duplicate r)),
     (''adapt_hits'', JInt (ro_adapt r)), (''fresh_misses'', JInt (ro_fresh r)),
     (''reuse_rate'', JNum (ro_reuse_rate r)), (''avg_similarity'', JNum (ro_avg_similarity r))]"

definition learn_dump :: "learn_summary \<Rightarrow> pydict" where
  "learn_dump l = [(''total'', JInt (ls_total l)), (''avg_eval_score'', JNum (ls_avg l)),
     (''p50_eval_score'', JNum (ls_p50 l)), (''p90_eval_score'', JNum (ls_p90 l))]"

definition rollup_dump :: "roi_rollup \<Rightarrow> pydict" where
  "rollup_dump r = [(''tenant_id'', JStr (ru_tenant r)), (''project_id'', JStr (ru_project r)),
     (''window'', JStr (ru_window r)), (''window_start'', JStr (ru_start r)),
     (''recall'', JObj (recall_dump (ru_recall r))), (''learn'', JObj (learn_dump (ru_learn r))),
     (''roi_score'', JNum (ru_score r)), (''computed_at'', JStr (ru_computed r))]"

text \<open>\<open>model_validate\<close>: None where it raises.\<close>

definition recall_validate :: "pydict \<Rightarrow> recall_outcome option" where
  "recall_validate d =
     (case (field_or json_int 0 d ''total'', field_or json_int 0 d ''duplicate_hits'', field_or json_int 0 d ''adapt_hits'',
            field_or json_int 0 d ''fresh_misses'', field_or json_float 0 d ''reuse_rate'',
            field_or json_float 0 d ''avg_similarity'') of
        (Some t, Some u, Some a, Some f, Some r, Some v) \<Rightarrow>
          Some \<lparr>ro_total = t, ro_duplicate = u, ro_adapt = a, ro_fresh = f, ro_reuse_rate = r, ro_avg_similarity = v\<rparr>
      | _ \<Rightarrow> None)"

definition learn_validate :: "pydict \<Rightarrow> learn_summary option" where
  "learn_validate d =
     (case (field_or json_int 0 d ''total'', field_or json_float 0 d ''avg_eval_score'',
            field_or json_float 0 d ''p50_eval_score'', field_or json_float 0 d ''p90_eval_score'') of
        (Some t, Some a, Some m, Some p) \<Rightarrow> Some \<lparr>ls_total = t, ls_avg = a, ls_p50 = m, ls_p90 = p\<rparr>
      | _ \<Rightarrow> None)"

definition sub_model :: "(pydict \<Rightarrow> 'a option) \<Rightarrow> json \<Rightarrow> 'a option" where
  "sub_model v j = Option.bind (json_obj j) v"

definition rollup_validate :: "pydict \<Rightarrow> roi_rollup option" where
  "rollup_validate d =
     (case (field_or json_str ''default'' d ''tenant_id'', field_or json_str ''default'' d ''project_id'',
            Option.bind (dget d ''window'') json_str, Option.bind (dget d ''window_start'') json_str,
            field_or (sub_model recall_validate) (recall_summary []) d ''recall'',
            field_or (sub_model learn_validate) (learn_summary_of []) d ''learn'',
            field_or json_float 0 d ''roi_score'', field_or json_str [] d ''computed_at'') of
        (Some t, Some p, Some w, Some st, Some r, Some l, Some x, Some c) \<Rightarrow>
          if w \<in> fst ` set WINDOW_SECONDS \<and> 0 \<le> x \<and> x \<le> 10
          then Some \<lparr>ru_tenant = t, ru_project = p, ru_window = w, ru_start = st, ru_recall = r, ru_learn = l,
                 ru_score = x, ru_computed = c\<rparr>
          else None
      | _ \<Rightarrow> None)"

section \<open>Aggregation\<close>

definition add_to_group :: "roi_event \<Rightarrow> (string \<times> string, roi_event list) dict \<Rightarrow> (string \<times> string, roi_event list) dict" where
  "add_to_group e g =
     (let k = (ev_tenant e, ev_project e) in dput k ((case dget g k of None \<Rightarrow> [] | Some es \<Rightarrow> es) @ [e]) g)"

definition group_events :: "roi_event list \<Rightarrow> (string \<times> string, roi_event list) dict" where
  "group_events es = fold add_to_group es []"

text \<open>The loop over the groups; a failing save leaves the rollups before it stored.\<close>

fun persist_rollups ::
  "'s backend \<Rightarrow> scope \<Rightarrow> string \<Rightarrow> (string \<Rightarrow> string \<Rightarrow> roi_event list \<Rightarrow> roi_rollup) \<Rightarrow> 's
   \<Rightarrow> (string \<times> string, roi_event list) dict \<Rightarrow> roi_rollup list res \<times> 's" where
  "persist_rollups B sc window mk s [] = (Inr [], s)"
| "persist_rollups B sc window mk s (((t, p), es) # gs) =
     (case be_save B sc s (rollup_key window t p) (DDict (rollup_dump (mk t p es))) of
        Inl e \<Rightarrow> (Inl e, s)
      | Inr s' \<Rightarrow>
          (case persist_rollups B sc window mk s' gs of
             (Inl e, s2) \<Rightarrow> (Inl e, s2)
           | (Inr rs, s2) \<Rightarrow> (Inr (mk t p es # rs), s2)))"

definition roi_aggregate :: "'s backend \<Rightarrow> real \<Rightarrow> scope \<Rightarrow> 's \<Rightarrow> string \<Rightarrow> roi_rollup list res \<times> 's" where
  "roi_aggregate B now sc s window =
     (case dget WINDOW_SECONDS window of
        None \<Rightarrow> (Inl (ValueError ''Unsupported window''), s)
      | Some secs \<Rightarrow>
          (case load_events B sc s (Some (now - real secs)) (Some ''*'') None True of
             Inl e \<Rightarrow> (Inl e, s)
           | Inr es \<Rightarrow> persist_rollups B sc window
               (\<lambda>t p. compute_rollup t p window (window_start_iso now secs) (gmtime_iso now)) s (group_events es)))"

definition load_rollup :: "'s backend \<Rightarrow> scope \<Rightarrow> 's \<Rightarrow> string \<Rightarrow> string \<Rightarrow> string \<Rightarrow> roi_rollup option res" where
  "load_rollup B sc s window tenant project =
     bind_res (be_load B sc s (rollup_key window tenant project)) (\<lambda>d.
       Inr (case d of Some (DDict x) \<Rightarrow> rollup_validate x | _ \<Rightarrow> None))"

section \<open>Endpoints\<close>

definition trigger_rollup :: "'s backend \<Rightarrow> real \<Rightarrow> scope \<Rightarrow> 's \<Rightarrow> string \<Rightarrow> roi_rollup list res \<times> 's" where
  "trigger_rollup B now sc s window =
     (case roi_aggregate B now sc s window of
        (Inl (ValueError t), s') \<Rightarrow> (Inl (HttpError 422 ''Invalid rollup parameters''), s')
      | r \<Rightarrow> r)"

definition rollup_endpoint :: "'s backend \<Rightarrow> scope \<Rightarrow> 's \<Rightarrow> string \<Rightarrow> roi_rollup res" where
  "rollup_endpoint B sc s window =
     (if window \<notin> {''hourly'', ''daily'', ''weekly''} then Inl (HttpError 422 ''Invalid window'')
      else bind_res (load_rollup B sc s window (sc_tenant sc) (sc_project sc)) (\<lambda>r.
        case r of None \<Rightarrow> Inl (HttpError 404 ''No rollup found'') | Some x \<Rightarrow> Inr x))"

definition events_endpoint :: "'s backend \<Rightarrow> scope \<Rightarrow> 's \<Rightarrow> int \<Rightarrow> real option \<Rightarrow> (roi_event list \<times> nat) res" where
  "events_endpoint B sc s limit since =
     (if limit < 1 \<or> 1000 < limit then Inl (HttpError 422 ''limit'')
      else bind_res (load_events B sc s since (Some (sc_tenant sc)) (Some (sc_project sc)) False) (\<lambda>es.
        Inr (take (nat limit) (rev es), length es)))"

end
