(* ===== verification/AnalyticsProps.thy ===== *)
theory AnalyticsProps
  imports Analytics StoreProps
begin

text \<open>
  Properties of the analytics rollups: what their numbers mean, and what reading a rollup
  back answers after an aggregation.
\<close>

section \<open>The numbers\<close>

lemma sorted_filter_le:
  assumes "sorted ys" "k < length ys"
  shows "Suc k \<le> length (filter (\<lambda>y. y \<le> ys ! k) ys)" and "length (filter (\<lambda>y. y < ys ! k) ys) \<le> k"
proof -
  have "\<forall>y \<in> set (take (Suc k) ys). y \<le> ys ! k"
    using assms by (auto simp: in_set_conv_nth less_Suc_eq_le intro!: sorted_nth_mono)
  then have "filter (\<lambda>y. y \<le> ys ! k) (take (Suc k) ys) = take (Suc k) ys" by (simp add: filter_id_conv)
  then have "filter (\<lambda>y. y \<le> ys ! k) ys = take (Suc k) ys @ filter (\<lambda>y. y \<le> ys ! k) (drop (Suc k) ys)"
    by (metis append_take_drop_id filter_append)
  then show "Suc k \<le> length (filter (\<lambda>y. y \<le> ys ! k) ys)" using assms(2) by simp
  have "\<forall>y \<in> set (drop k ys). \<not> y < ys ! k"
    using assms by (auto simp: in_set_conv_nth not_less intro!: sorted_nth_mono)
  then have "filter (\<lambda>y. y < ys ! k) (drop k ys) = []" by (simp add: filter_empty_conv)
  then have "filter (\<lambda>y. y < ys ! k) ys = filter (\<lambda>y. y < ys ! k) (take k ys)"
    by (metis append_take_drop_id append_Nil2 filter_append)
  then show "length (filter (\<lambda>y. y < ys ! k) ys) \<le> k"
    using length_filter_le [of "\<lambda>y. y < ys ! k" "take k ys"] by simp
qed

lemma rank_90_bounds:
  assumes "0 < n"
  shows "1 \<le> rank_90 n" "rank_90 n \<le> n" "9 * n \<le> 10 * rank_90 n" "10 * (rank_90 n - 1) < 9 * n" "n div 2 \<le> rank_90 n - 1"
proof -
  define c where "c = \<lceil>9 / 10 * real n\<rceil>"
  have c: "9 / 10 * real n \<le> real_of_int c" "real_of_int c < 9 / 10 * real n + 1" "0 < c"
    unfolding c_def using assms by (linarith, linarith, simp)
  have rc: "rank_90 n = nat (max 1 c)" by (simp add: rank_90_def c_def)
  have r: "real (rank_90 n) = real_of_int c" using c(3) by (simp add: rc)
  show one: "1 \<le> rank_90 n" using c(3) unfolding rc by linarith
  have "real (9 * n) \<le> real (10 * rank_90 n)" using c(1) by (simp add: r)
  then show up: "9 * n \<le> 10 * rank_90 n" by (simp only: of_nat_le_iff)
  have "real (10 * rank_90 n) < real (9 * n + 10)" using c(2) by (simp add: r)
  then have lt: "10 * rank_90 n < 9 * n + 10" by (simp only: of_nat_less_iff)
  then show "10 * (rank_90 n - 1) < 9 * n" using one by simp
  show "rank_90 n \<le> n" using lt assms by linarith
  have "n \<le> 1 \<or> n div 2 + 1 \<le> rank_90 n" using up by linarith
  then show "n div 2 \<le> rank_90 n - 1" by auto
qed

lemma nearest_90_is_nearest_rank:
  assumes "xs \<noteq> []"
  shows "9 * length xs \<le> 10 * length (filter (\<lambda>x. x \<le> nearest_90 xs) xs)"
    and "10 * length (filter (\<lambda>x. x < nearest_90 xs) xs) < 9 * length xs"
    and "nearest_90 xs \<in> set xs"
proof -
  let ?k = "rank_90 (length xs) - 1"
  have b: "1 \<le> rank_90 (length xs)" "rank_90 (length xs) \<le> length xs" "9 * length xs \<le> 10 * rank_90 (length xs)"
    "10 * ?k < 9 * length xs"
    using rank_90_bounds [of "length xs"] assms by simp_all
  then have k: "?k < length (sort xs)" by simp
  show "9 * length xs \<le> 10 * length (filter (\<lambda>x. x \<le> nearest_90 xs) xs)"
    using sorted_filter_le(1) [OF sorted_sort k] b by (simp add: length_filter_sort nearest_90_def)
  show "10 * length (filter (\<lambda>x. x < nearest_90 xs) xs) < 9 * length xs"
    using sorted_filter_le(2) [OF sorted_sort k] b by (simp add: length_filter_sort nearest_90_def)
  show "nearest_90 xs \<in> set xs" unfolding nearest_90_def by (metis k nth_mem set_sort)
qed

lemma median_le_nearest_90:
  assumes "xs \<noteq> []"
  shows "median xs \<le> nearest_90 xs"
proof -
  let ?ys = "sort xs" and ?k = "rank_90 (length xs) - 1"
  have k: "?k < length ?ys" "length xs div 2 \<le> ?k"
    using rank_90_bounds(1,2,5) [of "length xs"] assms by simp_all
  have a: "?ys ! (length xs div 2) \<le> ?ys ! ?k" "?ys ! (length xs div 2 - 1) \<le> ?ys ! ?k"
    using k by (auto intro!: sorted_nth_mono)
  then show ?thesis by (auto simp: median_def nearest_90_def Let_def)
qed

lemma mean4_bounds:
  assumes "\<forall>x \<in> set xs. 0 \<le> x \<and> x \<le> 10"
  shows "0 \<le> mean4 xs" and "mean4 xs \<le> 10"
proof -
  have s: "0 \<le> sum_list xs \<and> sum_list xs \<le> 10 * real (length xs)"
    using assms by (induction xs) auto
  show "0 \<le> mean4 xs" using s by (auto simp: mean4_def intro!: py_round_nonneg)
  have "sum_list xs / real (length xs) \<le> of_int 10" if "xs \<noteq> []" using s that by (simp add: divide_le_eq)
  from py_round_le [OF this, of 4] show "mean4 xs \<le> 10" by (auto simp: mean4_def)
qed

lemma tier_counts_le: "tier_count Duplicate es + tier_count Adapt es + tier_count Fresh es \<le> int (length es)"
proof (induction es)
  case (Cons e es)
  then show ?case by (cases "ev_tier e"; cases "the (ev_tier e)") (auto simp: tier_count_def)
qed (simp add: tier_count_def)

lemma reuse_rate_bounds: "0 \<le> ro_reuse_rate (recall_summary es)" "ro_reuse_rate (recall_summary es) \<le> 1"
proof -
  let ?x = "real_of_int (tier_count Duplicate es + tier_count Adapt es) / real (length es)"
  have nn: "0 \<le> tier_count t es" for t by (simp add: tier_count_def)
  then have "real_of_int (tier_count Duplicate es + tier_count Adapt es) \<le> real (length es)"
    using tier_counts_le [of es] nn [of Fresh] by linarith
  then have "?x \<le> of_int 1" by (auto simp: divide_le_eq)
  from py_round_le [OF this, of 4] show "ro_reuse_rate (recall_summary es) \<le> 1"
    by (simp add: recall_summary_def Let_def)
  have "0 \<le> ?x" using nn [of Duplicate] nn [of Adapt] by simp
  then show "0 \<le> ro_reuse_rate (recall_summary es)"
    using py_round_nonneg [of ?x 4] by (simp add: recall_summary_def Let_def)
qed

lemma roi_score_bounds:
  assumes "0 \<le> r" "r \<le> 1" "0 \<le> a" "a \<le> 10"
  shows "roi_score_of r a = py_round 4 (6 * r + 2 / 5 * a)" "0 \<le> roi_score_of r a" "roi_score_of r a \<le> 10"
proof -
  have "6 / 10 * r * 10 + 4 / 10 * a = 6 * r + 2 / 5 * a" by simp
  moreover have "py_round 4 (6 * r + 2 / 5 * a) \<le> of_int 10" using assms by (intro py_round_le) simp
  moreover have "0 \<le> py_round 4 (6 * r + 2 / 5 * a)" using assms by (intro py_round_nonneg) simp
  ultimately show "roi_score_of r a = py_round 4 (6 * r + 2 / 5 * a)" unfolding roi_score_of_def by simp
qed (simp_all add: roi_score_of_def)

text \<open>
  What the numbers of a rollup mean, for events whose scores lie between 0 and 10. The reuse
  rate is between 0 and 1 and the composite score is the documented formula, never cut off
  at its bounds. The 90th percentile is the rounded nearest-rank value of the scores: at
  least nine tenths of them are at most that value and fewer are below it; the median is
  not above it.
\<close>

theorem rollup_numbers:
  fixes t p w st c :: string
  assumes "\<forall>e \<in> set es. \<forall>x. ev_eval_score e = Some x \<longrightarrow> 0 \<le> x \<and> x \<le> 10"
  defines "r \<equiv> compute_rollup t p w st c es"
    and "scores \<equiv> List.map_filter ev_eval_score (filter (\<lambda>e. ev_kind e = LEARN) es)"
  shows "0 \<le> ro_reuse_rate (ru_recall r) \<and> ro_reuse_rate (ru_recall r) \<le> 1 \<and>
    ru_score r = py_round 4 (6 * ro_reuse_rate (ru_recall r) + 2 / 5 * ls_avg (ru_learn r)) \<and>
    (scores \<noteq> [] \<longrightarrow> ls_p50 (ru_learn r) \<le> ls_p90 (ru_learn r) \<and>
      (\<exists>x \<in> set scores. ls_p90 (ru_learn r) = py_round 4 x \<and>
         9 * length scores \<le> 10 * length (filter (\<lambda>y. y \<le> x) scores) \<and>
         10 * length (filter (\<lambda>y. y < x) scores) < 9 * length scores))"
proof -
  have "\<forall>x \<in> set scores. 0 \<le> x \<and> x \<le> 10"
    using assms(1) by (auto simp: scores_def List.map_filter_def)
  then have a: "0 \<le> ls_avg (ru_learn r)" "ls_avg (ru_learn r) \<le> 10"
    using mean4_bounds by (simp_all add: r_def compute_rollup_def learn_summary_of_def Let_def scores_def)
  have q: "0 \<le> ro_reuse_rate (ru_recall r)" "ro_reuse_rate (ru_recall r) \<le> 1"
    using reuse_rate_bounds by (simp_all add: r_def compute_rollup_def Let_def)
  have "ru_score r = roi_score_of (ro_reuse_rate (ru_recall r)) (ls_avg (ru_learn r))"
    by (simp add: r_def compute_rollup_def Let_def)
  then have sc: "ru_score r = py_round 4 (6 * ro_reuse_rate (ru_recall r) + 2 / 5 * ls_avg (ru_learn r))"
    using roi_score_bounds(1) [OF q a] by simp
  have l: "ls_p50 (ru_learn r) = py_round 4 (median scores)" "ls_p90 (ru_learn r) = py_round 4 (nearest_90 scores)"
    if "scores \<noteq> []"
    using that by (simp_all add: r_def compute_rollup_def learn_summary_of_def Let_def scores_def)
  have "scores \<noteq> [] \<Longrightarrow> ls_p50 (ru_learn r) \<le> ls_p90 (ru_learn r)"
    using l py_round_mono [OF median_le_nearest_90] by simp
  then show ?thesis using q sc l(2) nearest_90_is_nearest_rank [of scores] by blast
qed

section \<open>Reading a rollup back\<close>

lemma recall_round_trip: "recall_validate (recall_dump r) = Some r"
  by (simp add: recall_validate_def recall_dump_def field_or_def json_int_def json_float_def)

lemma learn_round_trip: "learn_validate (learn_dump l) = Some l"
  by (simp add: learn_validate_def learn_dump_def field_or_def json_int_def json_float_def)

lemma rollup_round_trip:
  assumes "ru_window r \<in> fst ` set WINDOW_SECONDS" "0 \<le> ru_score r" "ru_score r \<le> 10"
  shows "rollup_validate (rollup_dump r) = Some r"
  using assms unfolding rollup_validate_def rollup_dump_def
  by (simp add: field_or_def sub_model_def json_str_def json_float_def json_obj_def recall_round_trip learn_round_trip)

lemma fold_one_group:
  "\<forall>e \<in> set es. (ev_tenant e, ev_project e) = k \<Longrightarrow> fold add_to_group es [(k, as)] = [(k, as @ es)]"
  by (induction es arbitrary: as) (auto simp: add_to_group_def Let_def)

lemma group_one_scope:
  assumes "\<forall>e \<in> set es. (ev_tenant e, ev_project e) = k"
  shows "group_events es = (if es = [] then [] else [(k, es)])"
proof (cases es)
  case (Cons e es')
  then have "add_to_group e [] = [(k, [e])]" using assms by (auto simp: add_to_group_def Let_def)
  then show ?thesis using fold_one_group [of es' k "[e]"] assms Cons by (simp add: group_events_def)
qed (simp add: group_events_def)

context storage
begin

lemma aggregate_one_scope:
  fixes now :: real
  assumes "wf s" and "okscope sc" and "load_events_raw B sc s = Inr es"
    and "\<forall>e \<in> set es. ev_tenant e = sc_tenant sc \<and> ev_project e = sc_project sc"
    and "dget WINDOW_SECONDS w = Some secs" and "good (rollup_key w (sc_tenant sc) (sc_project sc))"
  defines "recent \<equiv> filter (\<lambda>e. now - real secs \<le> ev_ts e) es"
    and "k \<equiv> rollup_key w (sc_tenant sc) (sc_project sc)"
    and "r \<equiv> compute_rollup (sc_tenant sc) (sc_project sc) w (window_start_iso now secs) (gmtime_iso now)"
  shows "\<exists>s'. roi_aggregate B now sc s w = (Inr (if recent = [] then [] else [r recent]), s') \<and> wf s' \<and>
    val s' = (if recent = [] then val s else (val s)(loc sc k \<mapsto> DDict (rollup_dump (r recent))))"
proof -
  have ev: "load_events B sc s (Some (now - real secs)) (Some ''*'') None True = Inr recent"
    by (auto simp: load_events_def assms(3) recent_def event_selected_def intro!: filter_cong)
  have g: "group_events recent = (if recent = [] then [] else [((sc_tenant sc, sc_project sc), recent)])"
    by (rule group_one_scope) (use assms(4) in \<open>auto simp: recent_def\<close>)
  obtain s' where "be_save B sc s k (DDict (rollup_dump (r recent))) = Inr s'" "wf s'"
    "val s' = (val s)(loc sc k \<mapsto> DDict (rollup_dump (r recent)))"
    by (rule save_ok [OF assms(1,2,6), folded k_def])
  then show ?thesis using assms(1) by (simp add: roi_aggregate_def assms(5) ev g k_def r_def)
qed

lemma load_rollup_val:
  "wf s \<Longrightarrow> okscope sc \<Longrightarrow> good (rollup_key w t p) \<Longrightarrow>
   load_rollup B sc s w t p = Inr (case val s (loc sc (rollup_key w t p)) of Some (DDict x) \<Rightarrow> rollup_validate x | _ \<Rightarrow> None)"
  by (simp add: load_rollup_def load_law)

end

lemma windows: "dget WINDOW_SECONDS w = Some secs \<Longrightarrow> w \<in> {''hourly'', ''daily'', ''weekly''}"
  by (auto simp: WINDOW_SECONDS_def split: if_splits)

lemma computed_rollup_valid:
  assumes "dget WINDOW_SECONDS w = Some secs"
  shows "rollup_validate (rollup_dump (compute_rollup t p w st c es)) = Some (compute_rollup t p w st c es)"
  using assms dget_in_dkeys by (intro rollup_round_trip) (auto simp: compute_rollup_def Let_def roi_score_of_def)

text \<open>
  Reading a rollup back. For a scope whose event document holds the scope's own events,
  which is all the recorders write, the rollup endpoint computes exactly one rollup, of the
  events of the last hour, day or week before now, and the reading endpoint answers that
  rollup from then on. When there was no event in that time nothing is stored, so the
  reading endpoint goes on answering the rollup of an earlier time as the current one. No
  other document changes.
\<close>

theorem rollup_reads_back:
  fixes now :: real
  assumes "pg_wf s" and "load_events_raw (pg_backend edim cdist) sc s = Inr es"
    and "\<forall>e \<in> set es. ev_tenant e = sc_tenant sc \<and> ev_project e = sc_project sc"
    and "dget WINDOW_SECONDS w = Some secs"
  defines "recent \<equiv> filter (\<lambda>e. now - real secs \<le> ev_ts e) es"
    and "r \<equiv> compute_rollup (sc_tenant sc) (sc_project sc) w (window_start_iso now secs) (gmtime_iso now)"
  shows "\<exists>s'. trigger_rollup (pg_backend edim cdist) now sc s w = (Inr (if recent = [] then [] else [r recent]), s') \<and>
    rollup_endpoint (pg_backend edim cdist) sc s' w =
      (if recent = [] then rollup_endpoint (pg_backend edim cdist) sc s w else Inr (r recent)) \<and>
    (\<forall>l. l \<noteq> row_key sc (rollup_key w (sc_tenant sc) (sc_project sc)) \<longrightarrow> pg_val s' l = pg_val s l)"
proof -
  let ?B = "pg_backend edim cdist" and ?k = "rollup_key w (sc_tenant sc) (sc_project sc)"
  obtain s' where s': "roi_aggregate ?B now sc s w = (Inr (if recent = [] then [] else [r recent]), s')" "pg_wf s'"
    "pg_val s' = (if recent = [] then pg_val s else (pg_val s)(row_key sc ?k \<mapsto> DDict (rollup_dump (r recent))))"
    using pg.aggregate_one_scope [OF assms(1) _ assms(2-4), of now] unfolding recent_def r_def by auto
  have load: "load_rollup ?B sc x w (sc_tenant sc) (sc_project sc) =
      Inr (case pg_val x (row_key sc ?k) of Some (DDict y) \<Rightarrow> rollup_validate y | _ \<Rightarrow> None)" if "pg_wf x" for x
    using that by (intro pg.load_rollup_val) simp_all
  have "rollup_endpoint ?B sc s' w = (if recent = [] then rollup_endpoint ?B sc s w else Inr (r recent))"
    using windows [OF assms(4)] computed_rollup_valid [OF assms(4)]
    by (simp add: rollup_endpoint_def load [OF s'(2)] load [OF assms(1)] s'(3) r_def)
  then show ?thesis using s'(1,3) by (auto simp: trigger_rollup_def)
qed

definition learn_event :: roi_event where
  "learn_event = \<lparr>ev_kind = LEARN, ev_ts = 5, ev_eval_score = Some 8, ev_similarity = None, ev_tier = None, ev_key = ''k'',
     ev_tenant = ''default'', ev_project = ''default''\<rparr>"

definition one_event :: pg_store where
  "one_event = \<lparr>pg_data = [(row_key default_scope EVENTS_KEY, new_row (DEvents [learn_event]))], pg_emb = []\<rparr>"

lemma one_event_wf: "pg_wf one_event"
  by (simp add: pg_wf_def one_event_def wf_dict_def)

lemma one_event_load: "load_events_raw (pg_backend 3 (\<lambda>v w. 0)) default_scope one_event = Inr [learn_event]"
  by (simp add: load_events_raw_def pg_backend_def pg_load_def one_event_def new_row_def)

theorem rollup_reads_back_witness:
  "(\<exists>s'. trigger_rollup (pg_backend 3 (\<lambda>v w. 0)) 10 default_scope one_event ''hourly'' =
       (Inr [compute_rollup ''default'' ''default'' ''hourly'' (window_start_iso 10 3600) (gmtime_iso 10) [learn_event]], s')) \<and>
   (\<exists>s'. trigger_rollup (pg_backend 3 (\<lambda>v w. 0)) 5000 default_scope one_event ''hourly'' = (Inr [], s'))"
proof -
  have w: "dget WINDOW_SECONDS ''hourly'' = Some 3600" by (simp add: WINDOW_SECONDS_def)
  have e: "\<forall>e \<in> set [learn_event]. ev_tenant e = sc_tenant default_scope \<and> ev_project e = sc_project default_scope"
    by (simp add: learn_event_def default_scope_def)
  show ?thesis
    using rollup_reads_back [OF one_event_wf one_event_load e w, of 10] rollup_reads_back [OF one_event_wf one_event_load e w, of 5000]
    by (auto simp: learn_event_def default_scope_def)
qed

end
