(* ===== verification/Routes.thy ===== *)
theory Routes
  imports Mcp Jobs Analytics
begin

text \<open>
  The metered routes of \<open>engramia/api/routes.py\<close> (learn, evaluate, import) with the pattern
  quota and the hand-over to background jobs, and \<open>engramia/jobs/dispatch.py\<close>, what a worker
  runs for a job. \<open>pct\<close> is the share of a tenant's limit that one project may hold
  (\<open>ENGRAMIA_PROJECT_QUOTA_PCT\<close>).
\<close>

section \<open>The pattern quota\<close>

definition project_cap :: "real \<Rightarrow> nat \<Rightarrow> nat" where
  "project_cap pct limit = nat \<lfloor>real limit * pct\<rfloor>"

text \<open>
  \<open>additional\<close> is the number of patterns about to be added. Without billing the limit of
  the key counts; a statement in \<open>fails\<close> fails in the billing service.
\<close>

definition check_quota ::
  "'s memory \<Rightarrow> real \<Rightarrow> bill option \<Rightarrow> stmt set \<Rightarrow> nat \<Rightarrow> scope \<Rightarrow> 's \<Rightarrow> auth_ctx option \<Rightarrow> nat \<Rightarrow> unit res" where
  "check_quota M pct billing fails now sc s ctx additional =
     bind_res (count_patterns (me_backend M) sc s ''patterns/'') (\<lambda>n.
       let current = n + additional in
       case (billing, ctx) of
         (Some b, Some c) \<Rightarrow>
           (case su_patterns_limit (get_subscription fails b (cx_tenant c)) of
              Some limit \<Rightarrow>
                if project_cap pct limit \<le> current then Inl (HttpError 429 ''quota_exceeded'')
                else check_patterns fails b (cx_tenant c) current now
            | None \<Rightarrow> check_patterns fails b (cx_tenant c) current now)
       | (_, None) \<Rightarrow> Inr ()
       | (None, Some c) \<Rightarrow>
           (case cx_max c of
              None \<Rightarrow> Inr ()
            | Some m \<Rightarrow> if m \<le> int current then Inl (HttpError 429 ''quota_exceeded'') else Inr ()))"

definition learn_route ::
  "'s memory \<Rightarrow> real \<Rightarrow> bill option \<Rightarrow> stmt set \<Rightarrow> nat \<Rightarrow> string \<Rightarrow> scope \<Rightarrow> 's \<Rightarrow> auth_ctx option \<Rightarrow> learn_args
   \<Rightarrow> learn_result res \<times> 's" where
  "learn_route M pct billing fails now fresh sc s ctx a =
     (case bind_res (require_permission (map_option cx_role ctx) ''learn'') (\<lambda>_.
           check_quota M pct billing fails now sc s ctx 0) of
        Inl e \<Rightarrow> (Inl e, s)
      | Inr _ \<Rightarrow> mem_learn (me_backend M) (me_evals M) (me_embed M) (me_redactor M) (real now) fresh sc s
          (a\<lparr>la_author := map_option cx_key ctx\<rparr>))"

section \<open>Background jobs\<close>

record web_request =
  wr_prefer :: "string option"
  wr_max_exec :: "string option"
  wr_request_id :: string

definition max_exec_of :: "web_request \<Rightarrow> int option" where
  "max_exec_of rq =
     (case wr_max_exec rq of
        None \<Rightarrow> None
      | Some t \<Rightarrow> (case py_int t of Inl _ \<Rightarrow> None | Inr n \<Rightarrow> if 0 < n then Some n else None))"

text \<open>The job service of an application: over the database or in memory (\<open>db\<close>), or none.\<close>

definition submit_job ::
  "bool \<Rightarrow> jobs \<Rightarrow> string \<Rightarrow> scope \<Rightarrow> string option \<Rightarrow> string \<Rightarrow> string \<Rightarrow> pydict \<Rightarrow> int option \<Rightarrow> nat \<Rightarrow> jobs res" where
  "submit_job db q jid sc key rid op params mx now =
     (if db then db_submit q jid sc key rid op params mx now else mem_submit q jid sc key rid op params mx now)"

text \<open>\<open>Inr None\<close>: the route goes on itself; otherwise the job's id with the queue.\<close>

definition try_async ::
  "bool \<Rightarrow> jobs option \<Rightarrow> web_request \<Rightarrow> auth_ctx option \<Rightarrow> scope \<Rightarrow> string \<Rightarrow> string \<Rightarrow> pydict \<Rightarrow> nat
   \<Rightarrow> (string \<times> jobs) option res" where
  "try_async db service rq ctx sc jid op params now =
     (if wr_prefer rq \<noteq> Some ''respond-async'' then Inr None
      else (case service of
          None \<Rightarrow> Inr None
        | Some q \<Rightarrow> bind_res (submit_job db q jid sc (map_option cx_key ctx) (wr_request_id rq) op params (max_exec_of rq) now)
            (\<lambda>q'. Inr (Some (jid, q')))))"

section \<open>Evaluate and import\<close>

text \<open>The state of the application a route changes.\<close>

record 's app =
  ap_store :: 's
  ap_bill :: "bill option"
  ap_jobs :: "jobs option"

datatype answer = Accepted string | Done json

definition evaluate_route ::
  "'s memory \<Rightarrow> bool \<Rightarrow> stmt set \<Rightarrow> nat \<Rightarrow> string \<Rightarrow> scope \<Rightarrow> auth_ctx option \<Rightarrow> web_request \<Rightarrow> pydict \<Rightarrow> 's app
   \<Rightarrow> answer res \<times> 's app" where
  "evaluate_route M db fails now jid sc ctx rq body ap =
     (let tenant = (case ctx of None \<Rightarrow> ''default'' | Some c \<Rightarrow> cx_tenant c) in
      case bind_res (require_permission (map_option cx_role ctx) ''evaluate'') (\<lambda>_.
           bind_res (case ap_bill ap of None \<Rightarrow> Inr () | Some b \<Rightarrow> check_eval_runs fails b tenant now) (\<lambda>_.
             try_async db (ap_jobs ap) rq ctx sc jid ''evaluate'' body now)) of
        Inl e \<Rightarrow> (Inl e, ap)
      | Inr (Some (j, q)) \<Rightarrow> (Inr (Accepted j), ap\<lparr>ap_jobs := Some q\<rparr>)
      | Inr None \<Rightarrow>
          (case me_llm M ''evaluate'' body sc (ap_store ap) of
             (Inl (ProviderError t), s) \<Rightarrow> (Inl (HttpError 501 ''LLM provider not configured''), ap\<lparr>ap_store := s\<rparr>)
           | (Inl e, s) \<Rightarrow> (Inl e, ap\<lparr>ap_store := s\<rparr>)
           | (Inr r, s) \<Rightarrow> (Inr (Done r), ap\<lparr>ap_store := s,
               ap_bill := map_option (\<lambda>b. increment_eval_runs fails b tenant now) (ap_bill ap)\<rparr>)))"

text \<open>A record of an import request and the dict it is dumped to.\<close>

type_synonym raw_record = "int \<times> string \<times> pydict"

definition raw_json :: "raw_record \<Rightarrow> json" where
  "raw_json r = (case r of (v, k, d) \<Rightarrow> JObj [(''version'', JInt v), (''key'', JStr k), (''data'', JObj d)])"

definition import_of_json :: "json \<Rightarrow> import_record" where
  "import_of_json j =
     (case j of
        JObj d \<Rightarrow> \<lparr>ir_version = dget d ''version'', ir_key = dget d ''key'',
          ir_data = (case dget d ''data'' of Some (JObj x) \<Rightarrow> Some (DDict x) | _ \<Rightarrow> None)\<rparr>
      | _ \<Rightarrow> \<lparr>ir_version = None, ir_key = None, ir_data = None\<rparr>)"

definition import_params :: "raw_record list \<Rightarrow> bool \<Rightarrow> pydict" where
  "import_params rs overwrite = [(''records'', JList (map raw_json rs)), (''overwrite'', JBool overwrite)]"

definition import_route ::
  "'s memory \<Rightarrow> real \<Rightarrow> bool \<Rightarrow> stmt set \<Rightarrow> nat \<Rightarrow> string \<Rightarrow> scope \<Rightarrow> auth_ctx option \<Rightarrow> web_request \<Rightarrow> raw_record list \<Rightarrow> bool
   \<Rightarrow> 's app \<Rightarrow> answer res \<times> 's app" where
  "import_route M pct db fails now jid sc ctx rq rs overwrite ap =
     (case bind_res (require_permission (map_option cx_role ctx) ''import'') (\<lambda>_.
           try_async db (ap_jobs ap) rq ctx sc jid ''import'' (import_params rs overwrite) now) of
        Inl e \<Rightarrow> (Inl e, ap)
      | Inr (Some (j, q)) \<Rightarrow> (Inr (Accepted j), ap\<lparr>ap_jobs := Some q\<rparr>)
      | Inr None \<Rightarrow>
          (case check_quota M pct (ap_bill ap) fails now sc (ap_store ap) ctx (length rs) of
             Inl e \<Rightarrow> (Inl e, ap)
           | Inr _ \<Rightarrow>
               (case import_data (me_backend M) (me_embed M) sc (ap_store ap) (map (import_of_json \<circ> raw_json) rs) overwrite of
                  (Inl e, s) \<Rightarrow> (Inl e, ap\<lparr>ap_store := s\<rparr>)
                | (Inr n, s) \<Rightarrow> (Inr (Done (JObj [(''imported'', JInt (int n)), (''total'', JInt (int (length rs)))])),
                    ap\<lparr>ap_store := s\<rparr>))))"

section \<open>What a worker runs\<close>

text \<open>A pattern's document is a dict.\<close>

definition export_json :: "export_record \<Rightarrow> json" where
  "export_json r = JObj [(''version'', JInt (ex_version r)), (''key'', JStr (ex_key r)),
     (''data'', case ex_data r of DDict x \<Rightarrow> JObj x | _ \<Rightarrow> JNull)]"

definition dispatch_import :: "'s memory \<Rightarrow> scope \<Rightarrow> 's \<Rightarrow> pydict \<Rightarrow> pydict res \<times> 's" where
  "dispatch_import M sc s params =
     (case dget params ''records'' of
        Some (JList js) \<Rightarrow>
          map_prod (map_sum id (\<lambda>n. [(''imported'', JInt (int n)), (''total'', JInt (int (length js)))])) id
            (import_data (me_backend M) (me_embed M) sc s (map import_of_json js)
              (case dget params ''overwrite'' of Some (JBool b) \<Rightarrow> b | _ \<Rightarrow> False))
      | _ \<Rightarrow> (Inl (KeyError ''records''), s))"

text \<open>
  The operations that prompt an LLM are \<open>me_llm\<close>, the maintenance jobs of \<open>governance/lifecycle.py\<close>
  (theory \<open>Retention\<close>) the argument \<open>lifecycle\<close>.
\<close>

definition dispatch_job ::
  "'s memory \<Rightarrow> (string \<Rightarrow> pydict \<Rightarrow> 's \<Rightarrow> pydict res \<times> 's) \<Rightarrow> real \<Rightarrow> scope \<Rightarrow> 's \<Rightarrow> string \<Rightarrow> pydict \<Rightarrow> pydict res \<times> 's" where
  "dispatch_job M lifecycle now sc s op params =
     (if op \<in> {''evaluate'', ''compose'', ''evolve''} then
        map_prod (map_sum id (\<lambda>j. case j of JObj d \<Rightarrow> d | _ \<Rightarrow> [])) id (me_llm M op params sc s)
      else if op = ''aging'' then
        map_prod (map_sum id (\<lambda>n. [(''pruned'', JInt (int n))])) id (run_aging (me_backend M) now sc s)
      else if op = ''feedback_decay'' then
        (case run_decay (me_backend M) now sc s of
           Inl e \<Rightarrow> (Inl e, s) | Inr (n, s') \<Rightarrow> (Inr [(''pruned'', JInt (int n))], s'))
      else if op = ''import'' then dispatch_import M sc s params
      else if op = ''export'' then
        (map_sum id (\<lambda>rs. [(''records'', JList (map export_json rs)), (''count'', JInt (int (length rs)))])
           (export (me_backend M) sc s), s)
      else if op = ''roi_rollup'' then
        (let window = (case dget params ''window'' of Some (JStr w) \<Rightarrow> w | _ \<Rightarrow> ''daily'')
         in map_prod (map_sum id (\<lambda>rs. [(''window'', JStr window), (''scopes_processed'', JInt (int (length rs))),
               (''rollups'', JList (map (JObj \<circ> rollup_dump) rs))])) id (roi_aggregate (me_backend M) now sc s window))
      else if op \<in> {''retention_cleanup'', ''compact_audit_log'', ''cleanup_old_jobs''}
      then lifecycle op params s
      else (Inl (ValueError ''Unknown job operation''), s))"

text \<open>
  A worker's execution of a claimed job (\<open>_execute_job\<close>, \<open>_db_execute_one\<close>) and a serial poll, over
  the state of the application: the operation runs in the scope of the job, and its row gets
  the outcome. \<open>late\<close> tells whether the job missed its deadline. The maintenance jobs, which also
  purge the queue, are the argument \<open>lifecycle\<close>.
\<close>

definition lifecycle_operations :: "string list" where
  "lifecycle_operations = [''retention_cleanup'', ''compact_audit_log'', ''cleanup_old_jobs'']"

definition execute_job ::
  "'s memory \<Rightarrow> (scope \<Rightarrow> string \<Rightarrow> pydict \<Rightarrow> 's \<times> jobs \<Rightarrow> pydict res \<times> 's \<times> jobs) \<Rightarrow> bool \<Rightarrow> string \<Rightarrow> bool \<Rightarrow> nat \<Rightarrow> job \<Rightarrow> 's app \<Rightarrow> 's app" where
  "execute_job M lifecycle db u late now c ap =
     (case ap_jobs ap of
        None \<Rightarrow> ap
      | Some q \<Rightarrow>
          (let sc = \<lparr>sc_tenant = j_tenant c, sc_project = j_project c\<rparr>;
               (r, s, q1) = (if j_operation c \<in> set lifecycle_operations
                 then lifecycle sc (j_operation c) (j_params c) (ap_store ap, q)
                 else (case dispatch_job M (\<lambda>_ _ s. (Inr [], s)) (real now) sc (ap_store ap) (j_operation c) (j_params c) of
                     (r, s) \<Rightarrow> (r, s, q)))
           in ap\<lparr>ap_store := s, ap_jobs := Some (if db then db_finish u q1 c late r now else mem_finish q1 c late r now)\<rparr>))"

definition poll_jobs ::
  "'s memory \<Rightarrow> (scope \<Rightarrow> string \<Rightarrow> pydict \<Rightarrow> 's \<times> jobs \<Rightarrow> pydict res \<times> 's \<times> jobs) \<Rightarrow> bool \<Rightarrow> string \<Rightarrow> string set \<Rightarrow> (job \<Rightarrow> bool)
   \<Rightarrow> nat \<Rightarrow> nat \<Rightarrow> 's app \<Rightarrow> nat \<times> 's app" where
  "poll_jobs M lifecycle db u locked late batch now ap =
     (case ap_jobs ap of
        None \<Rightarrow> (0, ap)
      | Some q \<Rightarrow>
          (let (cs, q1) = (if db then db_claim u locked q batch now else mem_claim q batch now)
           in (length cs, fold (\<lambda>c. execute_job M lifecycle db u (late c) now c) cs (ap\<lparr>ap_jobs := Some q1\<rparr>))))"

end
