(* ===== verification/RouteProps.thy ===== *)
theory RouteProps
  imports Routes JobQueue
begin

text \<open>
  Properties of the metered routes: what the pattern quota admits, and what requests that
  are handed to background jobs escape.
\<close>

section \<open>The quota\<close>

lemma project_cap_le: "pct \<le> 1 \<Longrightarrow> project_cap pct limit \<le> limit"
proof -
  assume "pct \<le> 1"
  then have "real limit * pct \<le> real limit" by (simp add: mult_left_le)
  then have "\<lfloor>real limit * pct\<rfloor> \<le> int limit" by linarith
  then show ?thesis by (simp add: project_cap_def)
qed

text \<open>
  C39. What the pattern quota admits. With billing, for a tenant with an active subscription
  and a limit, adding k patterns to a project is admitted exactly when the project's own
  number of patterns plus k stays below the project cap. The number is the project's, not
  the tenant's, and the tenant-level check behind it never refuses anything: other projects
  of the tenant do not count, so two projects together pass the limit of the plan. And an
  import that would fill a project exactly to its cap is refused, while learning the same
  patterns one by one reaches the cap.
\<close>

theorem pattern_quota_is_per_project:
  assumes "count_patterns (me_backend M) sc s ''patterns/'' = Inr n"
    and "su_patterns_limit (get_subscription fails b (cx_tenant c)) = Some limit"
    and "check_subscription_active (get_subscription fails b (cx_tenant c)) now = Inr ()" and "pct \<le> 1"
  shows "check_quota M pct (Some b) fails now sc s (Some c) k =
    (if n + k < project_cap pct limit then Inr () else Inl (HttpError 429 ''quota_exceeded''))"
proof (cases "n + k < project_cap pct limit")
  case True
  then have "n + k < limit" using project_cap_le [OF assms(4), of limit] by linarith
  then show ?thesis using True by (simp add: check_quota_def assms(1-3) Let_def check_patterns_def enforce_patterns_def)
qed (simp add: check_quota_def assms(1,2) Let_def)

definition small_plan :: bill where
  "small_plan = \<lparr>bi_engine = True,
     bi_subs = [(''t'', \<lparr>su_tenant = ''t'', su_customer = None, su_subscription = None, su_tier = ''pro'', su_interval = ''month'',
       su_status = ''active'', su_eval_limit = Some 2, su_patterns_limit = Some 5, su_projects_limit = None,
       su_period_end = None, su_past_due = None, su_cancel_eop = False\<rparr>)],
     bi_tenants = [], bi_overage = [], bi_usage = [], bi_projects = [], bi_users = [], bi_events = [], bi_invoiced = [], bi_env = []\<rparr>"

definition project_ctx :: "string \<Rightarrow> auth_ctx" where
  "project_ctx p = \<lparr>cx_key = ''k'', cx_tenant = ''t'', cx_project = p, cx_role = ''owner'', cx_max = None\<rparr>"

definition three_patterns :: "string \<Rightarrow> (row_key \<times> pg_row) list" where
  "three_patterns p = map (\<lambda>c. (row_key \<lparr>sc_tenant = ''t'', sc_project = p\<rparr> (''patterns/'' @ [c]), new_row (DDict []))) ''abc''"

definition two_projects :: pg_store where
  "two_projects = \<lparr>pg_data = three_patterns ''p'' @ three_patterns ''q'', pg_emb = []\<rparr>"

definition pg_memory :: "pg_store memory" where
  "pg_memory = \<lparr>me_backend = pg_backend 3 (\<lambda>_ _. 0), me_evals = \<lparr>es_tenant = [], es_project = []\<rparr>, me_embed = None,
     me_redactor = None, me_llm = \<lambda>_ _ _ s. (Inr (JObj []), s)\<rparr>"

lemma two_projects_count:
  "p \<in> {''p'', ''q''} \<Longrightarrow>
   count_patterns (me_backend pg_memory) \<lparr>sc_tenant = ''t'', sc_project = p\<rparr> two_projects ''patterns/'' = Inr 3"
  by (elim insertE; simp; code_simp)

lemma small_plan_limit:
  "su_patterns_limit (get_subscription {} small_plan ''t'') = Some 5"
  "check_subscription_active (get_subscription {} small_plan ''t'') 0 = Inr ()"
  by (simp_all add: get_subscription_def small_plan_def check_subscription_active_def or_default_def)

theorem pattern_quota_is_per_project_witness:
  "check_quota pg_memory (4 / 5) (Some small_plan) {} 0 \<lparr>sc_tenant = ''t'', sc_project = ''p''\<rparr> two_projects (Some (project_ctx ''p'')) 0 = Inr () \<and>
   check_quota pg_memory (4 / 5) (Some small_plan) {} 0 \<lparr>sc_tenant = ''t'', sc_project = ''q''\<rparr> two_projects (Some (project_ctx ''q'')) 0 = Inr () \<and>
   check_quota pg_memory (4 / 5) (Some small_plan) {} 0 \<lparr>sc_tenant = ''t'', sc_project = ''p''\<rparr> two_projects (Some (project_ctx ''p'')) 1
     = Inl (HttpError 429 ''quota_exceeded'')"
proof -
  have "project_cap (4 / 5) 5 = 4" by (simp add: project_cap_def)
  moreover have "cx_tenant (project_ctx p) = ''t''" for p by (simp add: project_ctx_def)
  ultimately show ?thesis
    using pattern_quota_is_per_project [of pg_memory _ two_projects 3 "{}" small_plan _ 5 0 "4 / 5"]
    by (simp add: two_projects_count small_plan_limit)
qed

section \<open>Background requests\<close>

lemma submit_new:
  assumes "op \<in> set job_operations" "jid \<notin> fst ` set q"
  shows "submit_job db q jid sc key rid op params mx now = Inr (q @ [(jid, new_job jid sc key rid op params mx now)])"
  using assms by (simp add: submit_job_def db_submit_def mem_submit_def check_operation_def dkeys_dput_new)

lemma try_async_accepts:
  assumes "wr_prefer rq = Some ''respond-async''" "op \<in> set job_operations" "jid \<notin> fst ` set q"
  shows "try_async db (Some q) rq ctx sc jid op params now =
    Inr (Some (jid, q @ [(jid, new_job jid sc (map_option cx_key ctx) (wr_request_id rq) op params (max_exec_of rq) now)]))"
  using assms by (simp add: try_async_def submit_new)

lemma job_at_end: "jid \<notin> fst ` set q \<Longrightarrow> dget (q @ [(jid, j)]) jid = Some j"
  by (simp add: map_add_def dget_None_iff [THEN iffD2] split: option.splits)

text \<open>No job is metered: whatever a worker polls and executes, the billing tables stay as they are.\<close>

lemma execute_job_bill: "ap_bill (execute_job M lifecycle db u late now c ap) = ap_bill ap"
  by (simp add: execute_job_def Let_def split: option.split prod.split)

lemma execute_jobs_bill: "ap_bill (fold (\<lambda>c. execute_job M lifecycle db u (late c) now c) cs a) = ap_bill a"
  by (induction cs arbitrary: a) (simp_all add: execute_job_bill)

lemma poll_jobs_bill: "ap_bill (snd (poll_jobs M lifecycle db u locked late n now ap)) = ap_bill ap"
proof (cases "ap_jobs ap")
  case (Some q)
  obtain cs q1 where "(if db then db_claim u locked q n now else mem_claim q n now) = (cs, q1)" by fastforce
  then show ?thesis using Some by (simp add: poll_jobs_def Let_def execute_jobs_bill del: if_split)
qed (simp add: poll_jobs_def)

text \<open>A worker that has claimed an evaluation runs it in the job's scope and completes its row.\<close>

lemma execute_evaluation:
  assumes "ap_jobs ap = Some q" and "dget q jid = Some c" and "j_id c = jid" and "j_operation c = ''evaluate''"
    and "me_llm M ''evaluate'' (j_params c) \<lparr>sc_tenant = j_tenant c, sc_project = j_project c\<rparr> (ap_store ap) = (Inr (JObj r), s')"
  shows "\<exists>q' w. execute_job M lifecycle db u False now c ap = ap\<lparr>ap_store := s', ap_jobs := Some q'\<rparr> \<and>
    dget q' jid = Some (c\<lparr>j_status := JCompleted, j_result := Some r, j_completed_at := Some w\<rparr>)"
proof -
  let ?f = "if db then db_finish u q c False (Inr r) now else mem_finish q c False (Inr r) now"
  have "execute_job M lifecycle db u False now c ap = ap\<lparr>ap_store := s', ap_jobs := Some ?f\<rparr>"
    by (simp add: execute_job_def assms(1,4,5) lifecycle_operations_def dispatch_job_def)
  moreover have "dget ?f jid = Some (c\<lparr>j_status := JCompleted, j_result := Some r,
      j_completed_at := Some (if db then pg_now u now else iso_z now)\<rparr>)"
    using assms(2,3) by (simp add: db_finish_def sql_update_rows dget_map_rows mem_finish_def finish_job_def timed_out_def dict_simps)
  ultimately show ?thesis by blast
qed

text \<open>
  C40. Background requests escape metering. With the header Prefer: respond-async an import is
  accepted before the pattern quota is looked at, whatever the project holds, and the job
  then imports every record without a check, while the same request without the header is
  refused when the quota is used up. An evaluation that is handed over is queued with its
  body; a worker that has claimed it runs the evaluation in the scope of the request and
  completes the job with its result, and the billing tables are as before: no execution
  of any job and no poll changes them. The same evaluation without the header is counted.
\<close>

theorem background_requests_escape_metering:
  assumes "wr_prefer rq = Some ''respond-async''" and "ap_jobs ap = Some q" and "jid \<notin> fst ` set q"
    and "require_permission (map_option cx_role ctx) ''import'' = Inr ()"
    and "require_permission (map_option cx_role ctx) ''evaluate'' = Inr ()"
    and "ap_bill ap = Some b" and "check_eval_runs fails b (case ctx of None \<Rightarrow> ''default'' | Some c \<Rightarrow> cx_tenant c) now = Inr ()"
    and "check_quota M pct (ap_bill ap) fails now sc (ap_store ap) ctx (length rs) = Inl e"
    and "me_llm M ''evaluate'' body sc (ap_store ap) = (Inr (JObj r), s')"
  shows "import_route M pct db fails now jid sc ctx (rq\<lparr>wr_prefer := None\<rparr>) rs overwrite ap = (Inl e, ap) \<and>
    (\<exists>q' j. import_route M pct db fails now jid sc ctx rq rs overwrite ap = (Inr (Accepted jid), ap\<lparr>ap_jobs := Some q'\<rparr>) \<and>
       dget q' jid = Some j \<and>
       dispatch_job M lifecycle t sc s (j_operation j) (j_params j) =
         map_prod (map_sum id (\<lambda>n. [(''imported'', JInt (int n)), (''total'', JInt (int (length rs)))])) id
           (import_data (me_backend M) (me_embed M) sc s (map (import_of_json \<circ> raw_json) rs) overwrite)) \<and>
    evaluate_route M db fails now jid sc ctx (rq\<lparr>wr_prefer := None\<rparr>) body ap = (Inr (Done (JObj r)), ap\<lparr>ap_store := s',
      ap_bill := Some (increment_eval_runs fails b (case ctx of None \<Rightarrow> ''default'' | Some c \<Rightarrow> cx_tenant c) now)\<rparr>) \<and>
    (\<exists>q' j. evaluate_route M db fails now jid sc ctx rq body ap = (Inr (Accepted jid), ap\<lparr>ap_jobs := Some q'\<rparr>) \<and>
       dget q' jid = Some j \<and> j_status j = JPending \<and> j_operation j = ''evaluate'' \<and> j_params j = body \<and>
       (\<forall>w q1 lc u t1. dget q1 jid = Some (start_job w j) \<longrightarrow>
          (\<exists>q2 c. execute_job M lc db u False t1 (start_job w j) (ap\<lparr>ap_jobs := Some q1\<rparr>) =
             ap\<lparr>ap_store := s', ap_jobs := Some q2\<rparr> \<and> dget q2 jid = Some c \<and> j_status c = JCompleted \<and> j_result c = Some r))) \<and>
    (\<forall>lc u locked late n t1 ap1. ap_bill (snd (poll_jobs M lc db u locked late n t1 ap1)) = ap_bill ap1)"
proof -
  have ops: "''import'' \<in> set job_operations" "''evaluate'' \<in> set job_operations"
    by (simp_all add: job_operations_def)
  have sync: "try_async db (Some q) (rq\<lparr>wr_prefer := None\<rparr>) ctx sc jid op params now = Inr None" for op params
    by (simp add: try_async_def)
  then have 1: "import_route M pct db fails now jid sc ctx (rq\<lparr>wr_prefer := None\<rparr>) rs overwrite ap = (Inl e, ap)"
    using assms(2,4,8) by (simp add: import_route_def)
  let ?j = "new_job jid sc (map_option cx_key ctx) (wr_request_id rq) ''import'' (import_params rs overwrite) (max_exec_of rq) now"
  have 2: "import_route M pct db fails now jid sc ctx rq rs overwrite ap = (Inr (Accepted jid), ap\<lparr>ap_jobs := Some (q @ [(jid, ?j)])\<rparr>)"
    using assms(2,4) by (simp add: import_route_def try_async_accepts [OF assms(1) ops(1) assms(3)])
  have 3: "dispatch_job M lifecycle t sc s (j_operation ?j) (j_params ?j) =
      map_prod (map_sum id (\<lambda>n. [(''imported'', JInt (int n)), (''total'', JInt (int (length rs)))])) id
        (import_data (me_backend M) (me_embed M) sc s (map (import_of_json \<circ> raw_json) rs) overwrite)"
    by (simp add: new_job_def dispatch_job_def dispatch_import_def import_params_def)
  let ?k = "new_job jid sc (map_option cx_key ctx) (wr_request_id rq) ''evaluate'' body (max_exec_of rq) now"
  have 4: "evaluate_route M db fails now jid sc ctx rq body ap = (Inr (Accepted jid), ap\<lparr>ap_jobs := Some (q @ [(jid, ?k)])\<rparr>)"
    using assms(2,5,6,7) by (simp add: evaluate_route_def Let_def try_async_accepts [OF assms(1) ops(2) assms(3)])
  have 5: "evaluate_route M db fails now jid sc ctx (rq\<lparr>wr_prefer := None\<rparr>) body ap = (Inr (Done (JObj r)), ap\<lparr>ap_store := s',
      ap_bill := Some (increment_eval_runs fails b (case ctx of None \<Rightarrow> ''default'' | Some c \<Rightarrow> cx_tenant c) now)\<rparr>)"
    using assms(2,5,6,7,9) by (simp add: evaluate_route_def Let_def sync)
  have k: "j_status ?k = JPending" "j_operation ?k = ''evaluate''" "j_params ?k = body" by (simp_all add: new_job_def)
  have 6: "\<exists>q2 c. execute_job M lc db u False t1 (start_job w ?k) (ap\<lparr>ap_jobs := Some q1\<rparr>) = ap\<lparr>ap_store := s', ap_jobs := Some q2\<rparr> \<and>
      dget q2 jid = Some c \<and> j_status c = JCompleted \<and> j_result c = Some r"
    if q1: "dget q1 jid = Some (start_job w ?k)" for w q1 lc u t1
  proof -
    have "j_id (start_job w ?k) = jid" "j_operation (start_job w ?k) = ''evaluate''"
      "me_llm M ''evaluate'' (j_params (start_job w ?k))
        \<lparr>sc_tenant = j_tenant (start_job w ?k), sc_project = j_project (start_job w ?k)\<rparr>
        (ap_store (ap\<lparr>ap_jobs := Some q1\<rparr>)) = (Inr (JObj r), s')"
      using assms(9) by (cases sc; simp add: start_job_def new_job_def)+
    from execute_evaluation [OF _ q1 this] show ?thesis by fastforce
  qed
  show ?thesis using 1 2 3 4 5 6 k job_at_end [OF assms(3)] poll_jobs_bill by blast
qed

theorem background_requests_escape_metering_witness:
  "fst (import_route pg_memory (4 / 5) True {} 0 ''j'' \<lparr>sc_tenant = ''t'', sc_project = ''p''\<rparr> (Some (project_ctx ''p''))
     \<lparr>wr_prefer = None, wr_max_exec = None, wr_request_id = []\<rparr> [(1, ''patterns/x'', [])] False
     \<lparr>ap_store = two_projects, ap_bill = Some small_plan, ap_jobs = Some []\<rparr>) = Inl (HttpError 429 ''quota_exceeded'') \<and>
   fst (import_route pg_memory (4 / 5) True {} 0 ''j'' \<lparr>sc_tenant = ''t'', sc_project = ''p''\<rparr> (Some (project_ctx ''p''))
     \<lparr>wr_prefer = Some ''respond-async'', wr_max_exec = None, wr_request_id = []\<rparr> [(1, ''patterns/x'', [])] False
     \<lparr>ap_store = two_projects, ap_bill = Some small_plan, ap_jobs = Some []\<rparr>) = Inr (Accepted ''j'')"
proof -
  let ?ap = "\<lparr>ap_store = two_projects, ap_bill = Some small_plan, ap_jobs = Some []\<rparr> :: pg_store app"
  let ?rq = "\<lparr>wr_prefer = Some ''respond-async'', wr_max_exec = None, wr_request_id = []\<rparr>"
  have c: "project_cap (4 / 5) 5 = 4" by (simp add: project_cap_def)
  have q: "check_quota pg_memory (4 / 5) (Some small_plan) {} 0 \<lparr>sc_tenant = ''t'', sc_project = ''p''\<rparr> two_projects
      (Some (project_ctx ''p'')) 1 = Inl (HttpError 429 ''quota_exceeded'')"
    by (simp add: check_quota_def two_projects_count small_plan_limit project_ctx_def c Let_def)
  have e: "check_eval_runs {} small_plan ''t'' 0 = Inr ()"
    by (simp add: check_eval_runs_def enforce_eval_runs_def get_subscription_def small_plan_def usage_db_def usage_get_def
        check_subscription_active_def or_default_def)
  have p: "require_permission (Some ''owner'') x = Inr ()" for x
    by (simp add: require_permission_def OWNER_PERMS_def)
  have l: "me_llm pg_memory ''evaluate'' [] \<lparr>sc_tenant = ''t'', sc_project = ''p''\<rparr> two_projects = (Inr (JObj []), two_projects)"
    by (simp add: pg_memory_def)
  show ?thesis
    using background_requests_escape_metering [of ?rq ?ap "[]" "''j''" "Some (project_ctx ''p'')" small_plan "{}" 0 pg_memory "4 / 5"
        "\<lparr>sc_tenant = ''t'', sc_project = ''p''\<rparr>" "[(1, ''patterns/x'', [])]"
        "HttpError 429 ''quota_exceeded''" "[]" "[]" two_projects True False "\<lambda>_ _ s. (Inr [], s)" 0 two_projects] q e p l
    by (auto simp: project_ctx_def)
qed

end
