(* ===== verification/Spec2Isabelle.thy ===== *)
theory Spec2Isabelle
  imports Contracts StoreProps MemoryProps JobProps QuotaProps CredentialProps KeyProps AccountProps AdminProps GovernanceProps
    McpProps AnalyticsProps RouteProps
begin

text \<open>
  A model of Engramia, a memory for the runs of LLM agents: it stores successful runs as
  patterns, recalls them for similar tasks, ages and deduplicates them, and serves all this
  to many tenants over an HTTP API with keys, roles, quotas, billing, background jobs and
  data governance. The Python sources are under \<open>engramia/\<close>.

  \<^bold>\<open>How the parts interact.\<close> Every store keeps its documents behind the \<open>StorageBackend\<close>
  interface, under the scope (tenant and project) that the authentication of the request put
  into a context variable. A request is authenticated (an API key, a session token), its
  role is checked for the permission of the route, quota and subscription are checked, and
  the memory facade runs the learning or recall service over the stores. LLM calls go through
  the tenant's own credentials. Slow operations are queued as jobs for worker threads.
  Stripe's webhooks keep the subscriptions; the governance endpoints delete, export, back up
  and expire what the stores hold.

  \<^bold>\<open>The theories and the sources they model\<close>

  \<^item> \<open>Prelude\<close>, \<open>PyText\<close>, \<open>PyTime\<close>: exceptions as the datatype \<open>exn\<close> and the result type
    \<open>exn + 'a\<close>, dictionaries in insertion order, stable sorting, \<open>round\<close>, the text functions
    of the standard library and of \<open>_util.py\<close>, the calendar of \<open>time\<close> and \<open>datetime\<close>, with the
    fact that stored time texts order like the times.
  \<^item> \<open>Storage\<close>: the documents, the scope variable (\<open>_context.py\<close>) and the interface of
    \<open>providers/base.py\<close>: a backend is a record of operations over a state, and its promises are
    the locale \<open>storage\<close>. \<open>JsonStorage\<close> (\<open>providers/json_storage.py\<close>, over a disk that maps
    paths to file contents, with the intermediate disks of an atomic write) and \<open>PgStorage\<close>
    (\<open>providers/postgres.py\<close>, over its two tables) interpret it. \<open>StoreInvariant\<close> is the
    locale of the invariants that every operation of the facade keeps.
  \<^item> \<open>MetricsStore\<close>, \<open>EvalStore\<close>, \<open>EvalFeedback\<close>, \<open>SkillRegistry\<close>, \<open>RoiCollector\<close>: the small stores
    of \<open>core/\<close> and \<open>analytics/collector.py\<close>, one document per scope. \<open>StoreProps\<close>: what the
    backends and these stores promise.
  \<^item> \<open>Patterns\<close> (\<open>types.py\<close>, \<open>core/success_patterns.py\<close>: validation, reuse, aging), \<open>UnionFind\<close> and
    \<open>Dedup\<close> (the deduplication of matches), \<open>Recall\<close> (\<open>reuse/matcher.py\<close>,
    \<open>core/services/recall.py\<close>), \<open>Learning\<close> (\<open>core/services/learning.py\<close>), \<open>MemoryFacade\<close>
    (\<open>memory.py\<close>). \<open>MemoryProps\<close>: what an aging run prunes, what deduplication keeps, what a
    recall returns and changes, when a learn stores, replaces or refuses, the round trip of
    export and import.
  \<^item> \<open>Contracts\<close>: the data-flow check of composed pipelines (\<open>reuse/contracts.py\<close>), sound and
    complete for a declarative specification.
  \<^item> \<open>Jobs\<close> (\<open>jobs/service.py\<close>, \<open>jobs/models.py\<close>, in memory and in PostgreSQL), \<open>JobQueue\<close>: the
    locale \<open>job_queue\<close> with both implementations as interpretations, and as the step relation
    \<open>job_step\<close> everything that writes the queue: clients, workers, the reaper, the recovery at
    the start of a process (\<open>_recover_orphaned_jobs\<close> of \<open>api/app.py\<close>), executions that end without
    reaching the table, the retry of the console (\<open>api/admin/ops.py\<close>, its check and its write
    apart) and deletions. \<open>JobProps\<close>: no job starts more than three times, and two executions of
    one overlap only after a restart or a retry put it back while it ran, which does happen
    (\<open>restart_runs_a_job_twice\<close>); when a failed job is retried.
  \<^item> \<open>Plans\<close>, \<open>Metering\<close>, \<open>Billing\<close>, \<open>Webhooks\<close> (\<open>billing/\<close>): plans and prices, counters, limit
    checks, the service over its tables and Stripe's events. \<open>WebhookProps\<close>, \<open>QuotaProps\<close>:
    redelivery, lost events, the grace period of dunning, the allowance that guarded runs
    meet, bounds of overage invoices.
  \<^item> \<open>Credentials\<close> (\<open>credentials/models.py\<close>, \<open>store.py\<close>), \<open>Resolver\<close> (with the locale \<open>owned_cache\<close>),
    \<open>Validator\<close>, \<open>TenantProvider\<close> (\<open>providers/tenant_scoped.py\<close>), \<open>CredentialApi\<close>
    (\<open>api/credentials.py\<close>). \<open>CredentialTable\<close> and \<open>CredentialSafety\<close> hold the invariants of the
    table and of the step relation \<open>api_step\<close>; \<open>CredentialProps\<close>: a tenant's calls use only
    the tenant's keys, entity tags prevent lost updates, the order of failover.
  \<^item> \<open>Permissions\<close>, \<open>Identity\<close> (\<open>api/auth.py\<close>, \<open>api/keys.py\<close>), \<open>KeyProps\<close> (several processes with a
    key cache each, \<open>auth_step\<close>); \<open>Deletion\<close> (\<open>governance/deletion.py\<close>, the locale
    \<open>scope_eraser\<close>); \<open>Sessions\<close> and \<open>Accounts\<close> (\<open>api/cloud_auth.py\<close>), \<open>AccountProps\<close>;
    \<open>AdminAuth\<close> (\<open>admin_auth/\<close>, \<open>api/admin/auth.py\<close>, \<open>deps.py\<close>) and \<open>AdminProps\<close> over the step
    relation \<open>admin_step\<close>, which records what was answered to wrong guesses and when right codes
    were entered: revocation, the exact effect of a deletion, logout across restarts (the
    list of revoked tokens is not loaded when reading its table fails), lockout, freshness.
  \<^item> \<open>Retention\<close>, \<open>Export\<close>, \<open>Backup\<close>, \<open>Dsr\<close> (\<open>governance/\<close>, \<open>api/governance.py\<close>) and
    \<open>GovernanceProps\<close>: what a retention run deletes on either storage, what compaction of the
    audit log takes, what a filtered export and a backup contain, how often a backup can be
    downloaded, which data subject requests the list shows.
  \<^item> \<open>Mcp\<close> (\<open>mcp/\<close>): the tool catalogue, the limiter of concurrent sessions, the handler and the
    tool callbacks, with the dispatch to the facade. \<open>McpProps\<close>: the server as the step
    relation \<open>hosted_step\<close>; listed tools are the callable ones (\<open>listed_tools_are_callable\<close>),
    sessions stay under the cap, which slots are lost, what is not counted.
  \<^item> \<open>Analytics\<close> (\<open>analytics/aggregator.py\<close>, \<open>api/analytics.py\<close>) and \<open>AnalyticsProps\<close>: rollups of the
    event log, what their numbers mean and what reading one back answers. \<open>Routes\<close>
    (\<open>api/routes.py\<close>: learn, evaluate, import with the pattern quota and the hand-over to
    jobs; \<open>jobs/dispatch.py\<close>) and \<open>RouteProps\<close>: what the quota admits and what background
    requests escape.

  \<^bold>\<open>State and errors.\<close> An operation takes the state it reads and returns it updated. Where
  the code can raise in the middle of several writes the result comes with the state as it is
  left, as \<open>'a res \<times> 's\<close>. An HTTP error is \<open>HttpError\<close> with its status; messages are
  shortened to a tag. An SQL statement that may fail has a name, and the argument \<open>fails\<close> is
  the set of the statements that raise in a call; unique constraints are checked by the
  insertion. Requests are atomic steps unless a property splits them (the cached key lookup,
  the refresh of an admin session, conditional updates and the writes of a file are split).
  The clock, random keys and generated ids are arguments.

  \<^bold>\<open>Numbers, texts and times.\<close> Floats are \<open>real\<close>, so rounding errors are outside the model
  while \<open>round\<close> is written out; Python's integers are \<open>int\<close> or \<open>nat\<close>, and counters are
  unbounded where their columns have 32 or 64 bits. Texts are lists of characters up to
  U+00FF. Times are whole seconds (microseconds for credentials and caches of tokens), the
  session time zone of the database is UTC, and \<open>ORDER BY\<close> on texts is code point order;
  rows that tie come in table order. JSON documents are typed (\<open>doc\<close>); the coercions of
  pydantic from texts and booleans to numbers count as validation errors. The index file of
  the embeddings is not a document of the model: loading the key \<open>_embeddings\<close> answers
  nothing, and no well-formed key (\<open>good_key\<close>) ends in it.

  \<^bold>\<open>Parameters.\<close> Code outside the repository is an argument of the definitions that use it:
  embeddings, numpy's products, pgvector's distance (its index is taken to be exact), the
  LLM SDKs, the MCP SDK, SHA-256, bcrypt, PyJWT, pyotp, the ciphers, Stripe, HTTP, the redaction
  pipeline and OIDC. Properties that need a law of one of them (an injective hash, a metric
  that does not depend on the stored rows) name it as a hypothesis.

  \<^bold>\<open>Bounds and termination.\<close> No definition has fuel. \<open>uf_find\<close>, whose loop nothing in the code
  bounds, is a partial function over \<open>option\<close> and returns under the rank invariant
  (\<open>uf_find_ok\<close>); \<open>find_files\<close> ends by the length of its text; all other loops are over lists.
  Retries, lockouts, time-outs and cache sizes are the constants of the sources.

  \<^bold>\<open>Not modelled.\<close> Logging, metrics for monitoring, rate limits of the HTTP middleware, and the audit
  rows except where a property reads them; evaluation, composition and evolution, which put
  a prompt to an LLM and parse its answer; the concrete LLM, embedding and encryption
  providers, e-mail, telemetry, SDK adapters, the CLI apart from the reset of an admin; the
  read-only admin views; migrations other than the tables they define; the other
  routes, which forward to the facade.
\<close>

end
